(* ===== verification/Prelude.thy ===== *)
theory Prelude
  imports Main "HOL-Library.Word" "HOL-Library.Sublist"
begin

text \<open>
  Shared vocabulary of the development: the machine types of the Rust code, its checked,
  saturating and wrapping integer operations, the \<open>Result\<close> type with panics made explicit,
  and the part of \<open>std::collections::BTreeMap\<close> and of slice binary search that the
  modelled components call.

  Unsigned integers are natural numbers; an operation that can leave the range of its type
  writes the wrap-around (\<open>wrap64\<close>), the check (\<open>checked_add64\<close>) or the saturation out.
  The crates are compiled without \<^verbatim>\<open>overflow-checks\<close>, so a plain \<^verbatim>\<open>+\<close> on \<^verbatim>\<open>u64\<close> wraps.
\<close>

named_theorems result_simps \<open>unfolding rules of the result monad\<close>
named_theorems int_ops \<open>definitions of the machine integer operations\<close>

section \<open>Machine types\<close>

type_synonym u8 = "8 word"
type_synonym u32 = nat
type_synonym u64 = nat
type_synonym u128 = nat
type_synonym usize = nat
type_synonym i64 = int

type_synonym bytes = "u8 list"

text \<open>A 32 byte key or hash is the 256 bit number its bytes spell, most significant byte first.\<close>

type_synonym pubkey = "256 word"
type_synonym hash = "256 word"

type_synonym slot = u64
type_synonym epoch = u64
type_synonym unix_timestamp = i64

definition to_bytes :: "256 word \<Rightarrow> bytes" where
  "to_bytes w = map (\<lambda>i. ucast (drop_bit (8 * i) w)) (rev [0..<32])"

lemma length_to_bytes [simp]: "length (to_bytes w) = 32"
  by (simp add: to_bytes_def)

section \<open>Integer operations\<close>

abbreviation u64_max :: nat where "u64_max \<equiv> 2 ^ 64 - 1"
abbreviation u128_max :: nat where "u128_max \<equiv> 2 ^ 128 - 1"

definition wrap64 :: "nat \<Rightarrow> u64" where
  "wrap64 n = n mod 2 ^ 64"

definition wrapping_sub64 :: "u64 \<Rightarrow> u64 \<Rightarrow> u64" where
  "wrapping_sub64 a b = (a + (2 ^ 64 - b)) mod 2 ^ 64"

definition checked_add64 :: "u64 \<Rightarrow> u64 \<Rightarrow> u64 option" where
  [int_ops]: "checked_add64 a b = (if a + b \<le> u64_max then Some (a + b) else None)"

definition checked_sub64 :: "u64 \<Rightarrow> u64 \<Rightarrow> u64 option" where
  [int_ops]: "checked_sub64 a b = (if b \<le> a then Some (a - b) else None)"

definition saturating_add64 :: "u64 \<Rightarrow> u64 \<Rightarrow> u64" where
  [int_ops]: "saturating_add64 a b = min (a + b) u64_max"

definition saturating_sub64 :: "u64 \<Rightarrow> u64 \<Rightarrow> u64" where
  [int_ops]: "saturating_sub64 a b = a - b"

definition checked_mul64 :: "u64 \<Rightarrow> u64 \<Rightarrow> u64 option" where
  [int_ops]: "checked_mul64 a b = (if a * b \<le> u64_max then Some (a * b) else None)"

definition saturating_mul64 :: "u64 \<Rightarrow> u64 \<Rightarrow> u64" where
  [int_ops]: "saturating_mul64 a b = min (a * b) u64_max"

definition checked_add128 :: "u128 \<Rightarrow> u128 \<Rightarrow> u128 option" where
  [int_ops]: "checked_add128 a b = (if a + b \<le> u128_max then Some (a + b) else None)"

definition checked_sub128 :: "u128 \<Rightarrow> u128 \<Rightarrow> u128 option" where
  [int_ops]: "checked_sub128 a b = (if b \<le> a then Some (a - b) else None)"

definition checked_mul128 :: "u128 \<Rightarrow> u128 \<Rightarrow> u128 option" where
  [int_ops]: "checked_mul128 a b = (if a * b \<le> u128_max then Some (a * b) else None)"

text \<open>Signed 64 bit arithmetic: the result of an \<^verbatim>\<open>i64\<close> operation, and the casts of \<^verbatim>\<open>as\<close>.\<close>

definition wrap_i64 :: "int \<Rightarrow> i64" where
  "wrap_i64 z = (z + 2 ^ 63) mod 2 ^ 64 - 2 ^ 63"

definition i64_of_u64 :: "u64 \<Rightarrow> i64" where
  "i64_of_u64 n = wrap_i64 (int n)"

definition u64_of_i64 :: "i64 \<Rightarrow> u64" where
  "u64_of_i64 z = nat (z mod 2 ^ 64)"

lemma wrap_i64_id [simp]: "- (2 ^ 63) \<le> z \<Longrightarrow> z < 2 ^ 63 \<Longrightarrow> wrap_i64 z = z"
  by (simp add: wrap_i64_def)

lemma i64_of_u64_id [simp]: "n < 2 ^ 63 \<Longrightarrow> i64_of_u64 n = int n"
  by (simp add: i64_of_u64_def)

lemma u64_of_i64_id [simp]: "0 \<le> z \<Longrightarrow> z < 2 ^ 64 \<Longrightarrow> u64_of_i64 z = nat z"
  by (simp add: u64_of_i64_def)

lemma wrap64_less [simp]: "wrap64 n < 2 ^ 64"
  by (simp add: wrap64_def)

lemma wrap64_id [simp]: "n \<le> u64_max \<Longrightarrow> wrap64 n = n"
  by (simp add: wrap64_def)

lemma wrapping_sub64_id [simp]: "b \<le> a \<Longrightarrow> a \<le> u64_max \<Longrightarrow> wrapping_sub64 a b = a - b"
  by (simp add: wrapping_sub64_def mod_if)

lemma checked_add64_Some [simp]:
  "checked_add64 a b = Some c \<longleftrightarrow> c = a + b \<and> a + b \<le> u64_max"
  by (auto simp: checked_add64_def)

lemma checked_sub64_Some [simp]:
  "checked_sub64 a b = Some c \<longleftrightarrow> c = a - b \<and> b \<le> a"
  by (auto simp: checked_sub64_def)

section \<open>Results\<close>

text \<open>
  A Rust function that returns \<^verbatim>\<open>Result<T, E>\<close> and may panic returns \<open>('t, 'e) result\<close>:
  \<open>Ok x\<close>, \<open>Err e\<close>, or \<open>panic\<close> for a failed \<^verbatim>\<open>assert!\<close>, \<^verbatim>\<open>unwrap\<close> or index.
\<close>

datatype 'e fault = Raise 'e | Panic

type_synonym ('a, 'e) result = "'e fault + 'a"

abbreviation Ok :: "'a \<Rightarrow> ('a, 'e) result" where "Ok \<equiv> Inr"
abbreviation Err :: "'e \<Rightarrow> ('a, 'e) result" where "Err e \<equiv> Inl (Raise e)"
abbreviation panic :: "('a, 'e) result" where "panic \<equiv> Inl Panic"

text \<open>\<open>bindE m f\<close> is the \<^verbatim>\<open>?\<close> operator followed by the rest of the block.\<close>

definition bindE :: "('a, 'e) result \<Rightarrow> ('a \<Rightarrow> ('b, 'e) result) \<Rightarrow> ('b, 'e) result" where
  "bindE m f = (case m of Inl e \<Rightarrow> Inl e | Inr x \<Rightarrow> f x)"

definition guardE :: "bool \<Rightarrow> 'e \<Rightarrow> (unit, 'e) result" where
  "guardE b e = (if b then Ok () else Err e)"

definition assertE :: "bool \<Rightarrow> (unit, 'e) result" where
  "assertE b = (if b then Ok () else panic)"

definition ok_or :: "'a option \<Rightarrow> 'e \<Rightarrow> ('a, 'e) result" where
  "ok_or x e = (case x of None \<Rightarrow> Err e | Some y \<Rightarrow> Ok y)"

definition unwrap :: "'a option \<Rightarrow> ('a, 'e) result" where
  "unwrap x = (case x of None \<Rightarrow> panic | Some y \<Rightarrow> Ok y)"

definition expectE :: "('a, 'f) result \<Rightarrow> ('a, 'e) result" where
  "expectE m = (case m of Inl _ \<Rightarrow> panic | Inr x \<Rightarrow> Ok x)"

text \<open>The conversion a \<^verbatim>\<open>?\<close> applies when the error types differ (\<^verbatim>\<open>From\<close>).\<close>

definition map_err :: "('e \<Rightarrow> 'f) \<Rightarrow> ('a, 'e) result \<Rightarrow> ('a, 'f) result" where
  "map_err f m = (case m of Inl (Raise e) \<Rightarrow> Err (f e) | Inl Panic \<Rightarrow> panic | Inr x \<Rightarrow> Ok x)"

definition is_ok :: "('a, 'e) result \<Rightarrow> bool" where
  "is_ok m = (case m of Inl _ \<Rightarrow> False | Inr _ \<Rightarrow> True)"

lemma bindE_simps [simp]:
  "bindE (Inl e) f = Inl e"
  "bindE (Inr x) f = f x"
  by (simp_all add: bindE_def)

lemma bindE_Ok_iff [result_simps]:
  "bindE m f = Inr y \<longleftrightarrow> (\<exists>x. m = Inr x \<and> f x = Inr y)"
  by (cases m) auto

lemma bindE_Inl_iff:
  "bindE m f = Inl e \<longleftrightarrow> m = Inl e \<or> (\<exists>x. m = Inr x \<and> f x = Inl e)"
  by (cases m) auto

lemma bindE_cong: "m = m' \<Longrightarrow> (\<And>x. m = Ok x \<Longrightarrow> f x = g x) \<Longrightarrow> bindE m f = bindE m' g"
  by (cases m) auto

lemma bindE_assoc: "bindE (bindE m f) g = bindE m (\<lambda>x. bindE (f x) g)"
  by (cases m) simp_all

lemma expectE_Ok_iff [result_simps]: "expectE m = Inr x \<longleftrightarrow> m = Inr x"
  by (simp add: expectE_def split: sum.split)

lemma guardE_Ok_iff [result_simps]: "guardE b e = Inr u \<longleftrightarrow> b"
  by (auto simp: guardE_def)

lemma guardE_Inl_iff: "guardE b e = Inl x \<longleftrightarrow> \<not> b \<and> x = Raise e"
  by (auto simp: guardE_def)

lemma guardE_simps [simp]: "guardE True e = Ok ()" "guardE False e = Err e"
  by (simp_all add: guardE_def)

lemma assertE_Ok_iff [result_simps]: "assertE b = Inr u \<longleftrightarrow> b"
  by (auto simp: assertE_def)

lemma assertE_Inl_iff: "assertE b = Inl x \<longleftrightarrow> \<not> b \<and> x = Panic"
  by (auto simp: assertE_def)

lemma assertE_simps [simp]: "assertE True = Ok ()" "assertE False = panic"
  by (simp_all add: assertE_def)

lemma ok_or_Ok_iff [result_simps]: "ok_or x e = Inr y \<longleftrightarrow> x = Some y"
  by (cases x) (auto simp: ok_or_def)

lemma ok_or_Inl_iff: "ok_or x e = Inl f \<longleftrightarrow> x = None \<and> f = Raise e"
  by (cases x) (auto simp: ok_or_def)

lemma ok_or_simps [simp]: "ok_or None e = Err e" "ok_or (Some y) e = Ok y"
  by (simp_all add: ok_or_def)

lemma unwrap_Ok_iff [result_simps]: "unwrap x = Inr y \<longleftrightarrow> x = Some y"
  by (cases x) (auto simp: unwrap_def)

lemma unwrap_simps [simp]: "unwrap None = panic" "unwrap (Some y) = Ok y"
  by (simp_all add: unwrap_def)

lemma unwrap_Inl_iff: "unwrap x = Inl e \<longleftrightarrow> x = None \<and> e = Panic"
  by (cases x) auto

lemma map_err_Ok_iff [result_simps]: "map_err f m = Inr y \<longleftrightarrow> m = Inr y"
  by (auto simp: map_err_def split: sum.splits fault.splits)

lemma map_err_panic_iff [result_simps]: "map_err f m = Inl Panic \<longleftrightarrow> m = Inl Panic"
  by (auto simp: map_err_def split: sum.splits fault.splits)

lemma map_err_simps [simp]:
  "map_err f (Inr x) = Inr x" "map_err f (Err e) = Err (f e)" "map_err f panic = panic"
  by (simp_all add: map_err_def)

lemma is_ok_iff [simp]: "is_ok m \<longleftrightarrow> (\<exists>x. m = Inr x)"
  by (auto simp: is_ok_def split: sum.splits)

lemmas fault_iffs = bindE_Inl_iff guardE_Inl_iff assertE_Inl_iff ok_or_Inl_iff unwrap_Inl_iff

text \<open>A loop whose body may fail: \<open>for x in xs { s = body(x, s)?; }\<close>.\<close>

fun foldE :: "('a \<Rightarrow> 's \<Rightarrow> ('s, 'e) result) \<Rightarrow> 'a list \<Rightarrow> 's \<Rightarrow> ('s, 'e) result" where
  "foldE f [] s = Ok s"
| "foldE f (x # xs) s = bindE (f x s) (foldE f xs)"

lemma foldE_invariant:
  assumes "foldE f xs s = Ok t" and "P s"
    and "\<And>x u v. x \<in> set xs \<Longrightarrow> P u \<Longrightarrow> f x u = Ok v \<Longrightarrow> P v"
  shows "P t"
  using assms
proof (induction xs arbitrary: s)
  case Nil
  then show ?case by simp
next
  case (Cons x xs)
  from Cons.prems(1) obtain u where u: "f x s = Ok u" "foldE f xs u = Ok t"
    by (auto simp: result_simps)
  from u(1) Cons.prems(2,3) have "P u" by auto
  with u(2) show ?case by (rule Cons.IH) (use Cons.prems(3) in auto)
qed

text \<open>The same for a body that returns an \<open>Option\<close>.\<close>

fun foldO :: "('a \<Rightarrow> 's \<Rightarrow> 's option) \<Rightarrow> 'a list \<Rightarrow> 's \<Rightarrow> 's option" where
  "foldO f [] s = Some s"
| "foldO f (x # xs) s = Option.bind (f x s) (foldO f xs)"

text \<open>\<open>xs.iter().map(f).collect()\<close> where \<open>f\<close> may fail, and \<^verbatim>\<open>xs.get(i)\<close>.\<close>

fun mapE :: "('a \<Rightarrow> ('b, 'e) result) \<Rightarrow> 'a list \<Rightarrow> ('b list, 'e) result" where
  "mapE f [] = Ok []"
| "mapE f (x # xs) = bindE (f x) (\<lambda>y. bindE (mapE f xs) (\<lambda>ys. Ok (y # ys)))"

definition slice_get :: "'a list \<Rightarrow> nat \<Rightarrow> 'a option" where
  "slice_get xs i = (if i < length xs then Some (xs ! i) else None)"

lemma mapE_Ok: "mapE f xs = Ok ys \<longleftrightarrow> list_all2 (\<lambda>x y. f x = Ok y) xs ys"
  by (induction xs arbitrary: ys) (auto simp: result_simps list_all2_Cons1)

lemma mapE_Ok_map: "(\<And>x. x \<in> set xs \<Longrightarrow> f x = Ok (g x)) \<Longrightarrow> mapE f xs = Ok (map g xs)"
  by (induction xs) auto

lemma slice_get_Some: "slice_get xs i = Some x \<longleftrightarrow> i < length xs \<and> xs ! i = x"
  by (auto simp: slice_get_def)

lemma bindE_no_panic: "m \<noteq> panic \<Longrightarrow> (\<And>x. f x \<noteq> panic) \<Longrightarrow> bindE m f \<noteq> panic"
  by (cases m) (auto simp: bindE_def split: fault.splits)

lemma case_prod_no_panic: "(\<And>a b. f a b \<noteq> panic) \<Longrightarrow> (case x of (a, b) \<Rightarrow> f a b) \<noteq> panic"
  by (cases x) simp

lemma mapE_no_panic: "(\<And>x. x \<in> set xs \<Longrightarrow> f x \<noteq> panic) \<Longrightarrow> mapE f xs \<noteq> panic"
  by (induction xs) (simp_all add: bindE_no_panic)

lemma mapE_total: "(\<And>x. x \<in> set xs \<Longrightarrow> \<exists>y. f x = Ok y) \<Longrightarrow> \<exists>ys. mapE f xs = Ok ys"
proof (induction xs)
  case (Cons x xs)
  then obtain y ys where "f x = Ok y" "mapE f xs = Ok ys" by (meson list.set_intros)
  then show ?case by simp
qed simp

lemma foldE_enumerate:
  assumes "foldE f (List.enumerate n xs) s = Ok t" "P n s"
    and "\<And>i u v. i < length xs \<Longrightarrow> P (n + i) u \<Longrightarrow> f (n + i, xs ! i) u = Ok v \<Longrightarrow> P (Suc (n + i)) v"
  shows "P (n + length xs) t"
  using assms
proof (induction xs arbitrary: n s)
  case (Cons x xs)
  from Cons.prems(1) obtain u where u: "f (n, x) s = Ok u" "foldE f (List.enumerate (Suc n) xs) u = Ok t"
    by (auto simp: result_simps)
  have "P (Suc n) u" using Cons.prems(3) [of 0] u(1) Cons.prems(2) by simp
  moreover have "P (Suc (Suc n + i)) v" if "i < length xs" "P (Suc n + i) w" "f (Suc n + i, xs ! i) w = Ok v" for i w v
    using Cons.prems(3) [of "Suc i" w v] that by simp
  ultimately show ?case using Cons.IH [OF u(2)] by simp
qed simp

lemma unwrap_panic_iff: "unwrap x = panic \<longleftrightarrow> x = None"
  by (cases x) (simp_all add: unwrap_def)

end
