(* ===== verification/Collections.thy ===== *)
theory Collections
  imports Prelude
begin

text \<open>
  The standard library's collections as the components use them: \<^verbatim>\<open>slice::binary_search_by\<close>
  as the loop it is, and \<^verbatim>\<open>BTreeMap\<close> as an association list in key order. The locale
  \<open>ordered_map\<close> is what a client relies on, the interpretation \<open>bt\<close> shows it for the list.
\<close>

section \<open>Binary search\<close>

datatype ordering = Less | Equal | Greater

definition cmp :: "'a::linorder \<Rightarrow> 'a \<Rightarrow> ordering" where
  "cmp a b = (if a < b then Less else if a = b then Equal else Greater)"

lemma cmp_simps [simp]:
  "cmp a b = Less \<longleftrightarrow> a < b" "cmp a b = Equal \<longleftrightarrow> a = b" "cmp a b = Greater \<longleftrightarrow> b < a"
  by (auto simp: cmp_def)

text \<open>The result is \<open>Inr i\<close> for \<^verbatim>\<open>Ok(i)\<close> and \<open>Inl i\<close> for \<^verbatim>\<open>Err(i)\<close>, the insertion point.\<close>

function binary_search_loop :: "(nat \<Rightarrow> ordering) \<Rightarrow> nat \<Rightarrow> nat \<Rightarrow> nat + nat" where
  "binary_search_loop f left right =
     (if left < right then
        let mid = left + (right - left) div 2 in
        case f mid of
          Less \<Rightarrow> binary_search_loop f (mid + 1) right
        | Greater \<Rightarrow> binary_search_loop f left mid
        | Equal \<Rightarrow> Inr mid
      else Inl left)"
  by auto
termination
  by (relation "measure (\<lambda>(f, left, right). right - left)") auto

declare binary_search_loop.simps [simp del]

definition binary_search_by :: "('a \<Rightarrow> ordering) \<Rightarrow> 'a list \<Rightarrow> nat + nat" where
  "binary_search_by f xs = binary_search_loop (\<lambda>i. f (xs ! i)) 0 (length xs)"

text \<open>What a sorted slice gives: first the elements below the target, then those above.\<close>

definition search_ordered :: "('a \<Rightarrow> ordering) \<Rightarrow> 'a list \<Rightarrow> bool" where
  "search_ordered f xs \<longleftrightarrow>
     (\<forall>i j. i < j \<longrightarrow> j < length xs \<longrightarrow>
        (f (xs ! j) = Less \<longrightarrow> f (xs ! i) = Less) \<and>
        (f (xs ! i) = Greater \<longrightarrow> f (xs ! j) = Greater))"

lemma search_orderedD:
  assumes "search_ordered f xs" "i < j" "j < length xs"
  shows "f (xs ! j) = Less \<Longrightarrow> f (xs ! i) = Less" "f (xs ! i) = Greater \<Longrightarrow> f (xs ! j) = Greater"
  using assms unfolding search_ordered_def by blast+

lemma binary_search_loop_Inr:
  "binary_search_loop f l r = Inr i \<Longrightarrow> l \<le> i \<and> i < r \<and> f i = Equal"
proof (induction f l r rule: binary_search_loop.induct)
  case (1 f left right)
  show ?case
  proof (cases "left < right")
    case True
    let ?mid = "left + (right - left) div 2"
    have mid: "left \<le> ?mid" "?mid < right" using True by auto
    show ?thesis
    proof (cases "f ?mid")
      case Less
      with 1 True have "?mid + 1 \<le> i \<and> i < right \<and> f i = Equal"
        by (auto simp: binary_search_loop.simps [of f left right] Let_def)
      with mid show ?thesis by linarith
    next
      case Equal
      with 1(3) True mid show ?thesis
        by (auto simp: binary_search_loop.simps [of f left right] Let_def)
    next
      case Greater
      with 1 True have "left \<le> i \<and> i < ?mid \<and> f i = Equal"
        by (auto simp: binary_search_loop.simps [of f left right] Let_def)
      with mid show ?thesis by linarith
    qed
  next
    case False
    with 1(3) show ?thesis by (simp add: binary_search_loop.simps [of f left right])
  qed
qed

lemma binary_search_loop_Inl:
  assumes "binary_search_loop f l r = Inl i" "l \<le> r" "r \<le> n"
    and "\<And>a b. a < b \<Longrightarrow> b < n \<Longrightarrow> f b = Less \<Longrightarrow> f a = Less"
    and "\<And>a b. a < b \<Longrightarrow> b < n \<Longrightarrow> f a = Greater \<Longrightarrow> f b = Greater"
    and "\<And>a. a < l \<Longrightarrow> f a = Less" "\<And>b. r \<le> b \<Longrightarrow> b < n \<Longrightarrow> f b = Greater"
  shows "i \<le> n \<and> (\<forall>a < i. f a = Less) \<and> (\<forall>b. i \<le> b \<longrightarrow> b < n \<longrightarrow> f b = Greater)"
  using assms
proof (induction f l r rule: binary_search_loop.induct)
  case (1 f left right)
  show ?case
  proof (cases "left < right")
    case True
    let ?mid = "left + (right - left) div 2"
    have mid: "left \<le> ?mid" "?mid < right" using True by auto
    show ?thesis
    proof (cases "f ?mid")
      case Less
      have low: "f a = Less" if "a < ?mid + 1" for a
      proof (cases "a = ?mid")
        case False
        with that have "a < ?mid" by linarith
        moreover have "?mid < n" using mid "1.prems"(3) by linarith
        ultimately show ?thesis using "1.prems"(4) Less by blast
      qed (simp add: Less)
      have rec: "binary_search_loop f (?mid + 1) right = Inl i"
        using "1.prems"(1) True Less by (simp add: binary_search_loop.simps [of f left right] Let_def)
      show ?thesis
        by (rule "1.IH"(1) [OF True refl Less rec]) (use mid in simp, (fact "1.prems" low)+)
    next
      case Equal
      with "1.prems"(1) True show ?thesis
        by (simp add: binary_search_loop.simps [of f left right] Let_def)
    next
      case Greater
      have high: "f b = Greater" if "?mid \<le> b" "b < n" for b
      proof (cases "b = ?mid")
        case False
        with that have "?mid < b" by linarith
        then show ?thesis using "1.prems"(5) [OF _ that(2)] Greater by blast
      qed (simp add: Greater)
      have rec: "binary_search_loop f left ?mid = Inl i"
        using "1.prems"(1) True Greater by (simp add: binary_search_loop.simps [of f left right] Let_def)
      have "?mid \<le> n" using mid "1.prems"(3) by linarith
      show ?thesis
        by (rule "1.IH"(2) [OF True refl Greater rec mid(1) \<open>?mid \<le> n\<close>]) (fact "1.prems" high)+
    qed
  next
    case False
    have "left = right" using False "1.prems"(2) by linarith
    moreover have "i = left"
      using "1.prems"(1,2) False by (auto simp: binary_search_loop.simps [of f left right])
    ultimately show ?thesis using "1.prems"(3,6,7) by blast
  qed
qed

lemma binary_search_by_Inr:
  "binary_search_by f xs = Inr i \<Longrightarrow> i < length xs \<and> f (xs ! i) = Equal"
  using binary_search_loop_Inr [of "\<lambda>i. f (xs ! i)" 0 "length xs" i]
  by (simp add: binary_search_by_def)

lemma binary_search_by_Inl:
  assumes "binary_search_by f xs = Inl i" "search_ordered f xs"
  shows "i \<le> length xs" "\<And>a. a < i \<Longrightarrow> f (xs ! a) = Less"
    "\<And>b. i \<le> b \<Longrightarrow> b < length xs \<Longrightarrow> f (xs ! b) = Greater"
proof -
  have "i \<le> length xs \<and> (\<forall>a < i. f (xs ! a) = Less) \<and>
    (\<forall>b. i \<le> b \<longrightarrow> b < length xs \<longrightarrow> f (xs ! b) = Greater)"
    by (rule binary_search_loop_Inl [OF assms(1) [unfolded binary_search_by_def]])
      (blast intro: search_orderedD [OF assms(2)] le0 order_refl | linarith)+
  then show "i \<le> length xs" "\<And>a. a < i \<Longrightarrow> f (xs ! a) = Less"
    "\<And>b. i \<le> b \<Longrightarrow> b < length xs \<Longrightarrow> f (xs ! b) = Greater"
    by blast+
qed

lemma binary_search_by_found:
  assumes "search_ordered f xs"
  shows "isl (binary_search_by f xs) \<longleftrightarrow> (\<forall>x \<in> set xs. f x \<noteq> Equal)"
proof (cases "binary_search_by f xs")
  case (Inl i)
  then have "f x = Less \<or> f x = Greater" if "x \<in> set xs" for x
    using that binary_search_by_Inl [OF Inl assms] by (metis in_set_conv_nth not_less)
  with Inl show ?thesis by fastforce
next
  case (Inr i)
  with binary_search_by_Inr show ?thesis by (metis isl_def nth_mem old.sum.distinct(2))
qed

lemma search_ordered_cmp:
  assumes "sorted_wrt (<) (map k xs)"
  shows "search_ordered (\<lambda>x. cmp (k x) t) xs"
proof -
  have "k (xs ! i) < k (xs ! j)" if "i < j" "j < length xs" for i j
    using sorted_wrt_nth_less [OF assms, of i j] that by simp
  then show ?thesis unfolding search_ordered_def cmp_simps by (blast intro: order_less_trans)
qed

section \<open>Ordered maps\<close>

type_synonym ('k, 'v) btree_map = "('k \<times> 'v) list"

definition bt_get :: "('k, 'v) btree_map \<Rightarrow> 'k \<Rightarrow> 'v option" where
  "bt_get m k = map_of m k"

fun bt_insert :: "'k::linorder \<Rightarrow> 'v \<Rightarrow> ('k, 'v) btree_map \<Rightarrow> ('k, 'v) btree_map" where
  "bt_insert k v [] = [(k, v)]"
| "bt_insert k v ((k', v') # m) =
     (if k < k' then (k, v) # (k', v') # m
      else if k = k' then (k, v) # m
      else (k', v') # bt_insert k v m)"

definition bt_remove :: "'k \<Rightarrow> ('k, 'v) btree_map \<Rightarrow> ('k, 'v) btree_map" where
  "bt_remove k m = filter (\<lambda>(k', _). k' \<noteq> k) m"

text \<open>\<^verbatim>\<open>range(0..k)\<close> and its last entry.\<close>

definition bt_range_to :: "'k::linorder \<Rightarrow> ('k, 'v) btree_map \<Rightarrow> ('k \<times> 'v) list" where
  "bt_range_to k m = filter (\<lambda>(k', _). k' < k) m"

definition next_back :: "'a list \<Rightarrow> 'a option" where
  "next_back xs = (if xs = [] then None else Some (last xs))"

definition bt_pred :: "('k::linorder, 'v) btree_map \<Rightarrow> 'k \<Rightarrow> ('k \<times> 'v) option" where
  "bt_pred m k = next_back (bt_range_to k m)"

definition bt_wf :: "('k::linorder, 'v) btree_map \<Rightarrow> bool" where
  "bt_wf m \<longleftrightarrow> sorted_wrt (<) (map fst m)"

text \<open>
  The abstract content of a map from epochs: \<open>carried m e\<close> is the value set for epoch \<open>e\<close> or,
  where none is set, the one carried forward from the epoch before.
\<close>

fun carried :: "(nat \<Rightarrow> 'v option) \<Rightarrow> nat \<Rightarrow> 'v option" where
  "carried m 0 = m 0"
| "carried m (Suc e) = (case m (Suc e) of None \<Rightarrow> carried m e | Some v \<Rightarrow> Some v)"

lemma carried_unfold: "carried m e = (case m e of Some v \<Rightarrow> Some v | None \<Rightarrow> (case e of 0 \<Rightarrow> None | Suc d \<Rightarrow> carried m d))"
  by (cases e) (auto split: option.split)

lemma carried_Some: "m e = Some v \<Longrightarrow> carried m e = Some v"
  by (cases e) auto

lemma carried_gap:
  assumes "j \<le> e" "\<And>i. j < i \<Longrightarrow> i \<le> e \<Longrightarrow> m i = None"
  shows "carried m e = carried m j"
  using assms
proof (induction e)
  case (Suc e)
  then show ?case by (cases "j = Suc e") auto
qed simp

lemma carried_None: "(\<And>i. i \<le> e \<Longrightarrow> m i = None) \<Longrightarrow> carried m e = None"
  by (induction e) auto

lemma carried_cong: "(\<And>i. i \<le> e \<Longrightarrow> m i = m' i) \<Longrightarrow> carried m e = carried m' e"
  by (induction e) (auto split: option.split)

text \<open>Setting at \<open>t\<close> what is already carried there changes nothing.\<close>

lemma carried_cache:
  assumes "carried m t = Some v"
  shows "carried (m(t \<mapsto> v)) e = carried m e"
proof (induction e)
  case 0
  show ?case using assms by (cases "t = 0") auto
next
  case (Suc e)
  show ?case
  proof (cases "t = Suc e")
    case True
    then have "carried (m(t \<mapsto> v)) (Suc e) = Some v" by (intro carried_Some) simp
    with assms True show ?thesis by simp
  next
    case False
    with Suc show ?thesis by (auto split: option.split)
  qed
qed

text \<open>Forgetting what is set before \<open>c\<close> changes nothing from \<open>c\<close> on, where \<open>c\<close> itself is set.\<close>

lemma carried_restrict:
  assumes "c \<le> e" "m c = Some v"
  shows "carried (m |` {c..}) e = carried m e"
  using assms
proof (induction e)
  case 0
  then show ?case by simp
next
  case (Suc e)
  show ?case
  proof (cases "c = Suc e")
    case True
    then show ?thesis using Suc.prems by (simp add: restrict_map_def)
  next
    case False
    with Suc show ?thesis by (auto split: option.split)
  qed
qed

text \<open>Setting at \<open>t\<close> is seen from \<open>t\<close> up to the next entry, and nowhere below \<open>t\<close>.\<close>

lemma carried_update_below: "e < t \<Longrightarrow> carried (m(t \<mapsto> v)) e = carried m e"
  by (intro carried_cong) auto

lemma carried_update_above:
  assumes "t \<le> e" "\<And>i. t < i \<Longrightarrow> i \<le> e \<Longrightarrow> m i = None"
  shows "carried (m(t \<mapsto> v)) e = Some v"
proof -
  have "carried (m(t \<mapsto> v)) e = carried (m(t \<mapsto> v)) t"
    using assms by (intro carried_gap) auto
  also have "\<dots> = Some v" by (intro carried_Some) simp
  finally show ?thesis .
qed

locale ordered_map =
  fixes wf :: "'m \<Rightarrow> bool"
    and get :: "'m \<Rightarrow> nat \<Rightarrow> 'v option"
    and insert :: "nat \<Rightarrow> 'v \<Rightarrow> 'm \<Rightarrow> 'm"
    and remove :: "nat \<Rightarrow> 'm \<Rightarrow> 'm"
    and pred :: "'m \<Rightarrow> nat \<Rightarrow> (nat \<times> 'v) option"
  assumes wf_insert: "wf m \<Longrightarrow> wf (insert k v m)"
    and wf_remove: "wf m \<Longrightarrow> wf (remove k m)"
    and get_insert: "wf m \<Longrightarrow> get (insert k v m) = (get m)(k \<mapsto> v)"
    and get_remove: "wf m \<Longrightarrow> get (remove k m) = (get m)(k := None)"
    and pred_Some: "wf m \<Longrightarrow> pred m k = Some (j, v) \<Longrightarrow>
      j < k \<and> get m j = Some v \<and> (\<forall>i. j < i \<longrightarrow> i < k \<longrightarrow> get m i = None)"
    and pred_None: "wf m \<Longrightarrow> pred m k = None \<Longrightarrow> (\<forall>i < k. get m i = None)"
begin

lemma lookup_or_pred_carried:
  assumes "wf m"
  shows "(case get m e of Some v \<Rightarrow> Some v | None \<Rightarrow> map_option snd (pred m e)) = carried (get m) e"
proof (cases "get m e")
  case (Some v)
  then show ?thesis by (simp add: carried_Some)
next
  case None
  show ?thesis
  proof (cases "pred m e")
    case None': None
    then have "carried (get m) e = None"
      using pred_None [OF assms None'] None by (intro carried_None) (metis le_neq_implies_less)
    with None None' show ?thesis by simp
  next
    case (Some p)
    obtain j v where p: "p = (j, v)" by (cases p)
    then have j: "j < e" "get m j = Some v" "\<And>i. j < i \<Longrightarrow> i < e \<Longrightarrow> get m i = None"
      using pred_Some [OF assms] Some by blast+
    then have "carried (get m) e = carried (get m) j"
      using None by (intro carried_gap) (auto simp: le_less)
    with None Some p j show ?thesis by (simp add: carried_Some)
  qed
qed

lemma remove_all:
  assumes "wf m"
  shows "wf (fold remove ks m) \<and> get (fold remove ks m) = (\<lambda>i. if i \<in> set ks then None else get m i)"
  using assms
proof (induction ks arbitrary: m)
  case (Cons k ks)
  then show ?case by (auto simp: wf_remove get_remove fun_eq_iff)
qed simp

end

lemma bt_insert_keys: "set (map fst (bt_insert k v m)) = {k} \<union> set (map fst m)"
  by (induction k v m rule: bt_insert.induct) auto

lemma bt_wf_Cons: "bt_wf ((k, v) # m) \<longleftrightarrow> (\<forall>k' \<in> set (map fst m). k < k') \<and> bt_wf m"
  by (simp add: bt_wf_def)

lemma bt_wf_insert: "bt_wf m \<Longrightarrow> bt_wf (bt_insert k v m)"
proof (induction k v m rule: bt_insert.induct)
  case (1 k v)
  then show ?case by (simp add: bt_wf_def)
next
  case (2 k v k' v' m)
  consider "k < k'" | "k = k'" | "k' < k" by fastforce
  then show ?case
    using 2 by cases (force simp: bt_wf_Cons bt_insert_keys simp del: set_map)+
qed

lemma bt_get_insert:
  "bt_wf m \<Longrightarrow> bt_get (bt_insert k v m) = (bt_get m)(k \<mapsto> v)"
  by (induction k v m rule: bt_insert.induct) (auto simp: bt_get_def bt_wf_Cons fun_eq_iff)

lemma bt_wf_filter: "bt_wf m \<Longrightarrow> bt_wf (filter P m)"
  by (simp add: bt_wf_def sorted_wrt_map sorted_wrt_filter)

lemma bt_get_remove: "bt_get (bt_remove k m) = (bt_get m)(k := None)"
  by (induction m) (auto simp: bt_get_def bt_remove_def fun_eq_iff)

lemma bt_wf_distinct: "bt_wf m \<Longrightarrow> distinct (map fst m)"
  by (simp add: bt_wf_def strict_sorted_iff)

lemma bt_get_iff: "bt_wf m \<Longrightarrow> bt_get m k = Some v \<longleftrightarrow> (k, v) \<in> set m"
  by (simp add: bt_get_def bt_wf_distinct)

lemma bt_get_None: "bt_get m k = None \<longleftrightarrow> k \<notin> fst ` set m"
  by (simp add: bt_get_def map_of_eq_None_iff)

lemma bt_wf_last:
  assumes "bt_wf m" "(k, v) \<in> set m"
  shows "k \<le> fst (last m)"
  using assms by (induction m) (auto simp: bt_wf_def less_imp_le split: if_splits)

lemma bt_pred_Some:
  assumes "bt_wf m" "bt_pred m k = Some (j, v)"
  shows "j < k \<and> bt_get m j = Some v \<and> (\<forall>i. j < i \<longrightarrow> i < k \<longrightarrow> bt_get m i = None)"
proof -
  let ?r = "bt_range_to k m"
  have r: "?r \<noteq> []" "last ?r = (j, v)"
    using assms(2) by (auto simp: bt_pred_def next_back_def split: if_splits)
  have wf: "bt_wf ?r" using assms(1) by (simp add: bt_range_to_def bt_wf_filter)
  have "(j, v) \<in> set ?r" using r by (metis last_in_set)
  then have j: "j < k" "(j, v) \<in> set m" by (auto simp: bt_range_to_def)
  have "i \<notin> fst ` set m" if "j < i" "i < k" for i
  proof
    assume "i \<in> fst ` set m"
    then obtain w where "(i, w) \<in> set m" by force
    then have "(i, w) \<in> set ?r" using that by (simp add: bt_range_to_def)
    then show False using bt_wf_last [OF wf] r(2) that(1) by force
  qed
  with j assms(1) show ?thesis by (simp add: bt_get_iff bt_get_None)
qed

lemma bt_pred_None: "bt_pred m k = None \<Longrightarrow> \<forall>i < k. bt_get m i = None"
  by (force simp: bt_pred_def next_back_def bt_range_to_def bt_get_None filter_empty_conv
      split: if_splits)

interpretation bt: ordered_map bt_wf bt_get bt_insert bt_remove bt_pred
proof unfold_locales
  fix m :: "(nat \<times> 'a) list" and k :: nat and v :: 'a and j :: nat
  show "bt_wf m \<Longrightarrow> bt_wf (bt_insert k v m)" by (rule bt_wf_insert)
  show "bt_wf m \<Longrightarrow> bt_wf (bt_remove k m)" by (simp add: bt_remove_def bt_wf_filter)
  show "bt_wf m \<Longrightarrow> bt_get (bt_insert k v m) = (bt_get m)(k \<mapsto> v)" by (rule bt_get_insert)
  show "bt_wf m \<Longrightarrow> bt_get (bt_remove k m) = (bt_get m)(k := None)" by (rule bt_get_remove)
  show "bt_wf m \<Longrightarrow> bt_pred m k = Some (j, v) \<Longrightarrow>
      j < k \<and> bt_get m j = Some v \<and> (\<forall>i. j < i \<longrightarrow> i < k \<longrightarrow> bt_get m i = None)"
    by (rule bt_pred_Some)
  show "bt_wf m \<Longrightarrow> bt_pred m k = None \<Longrightarrow> \<forall>i < k. bt_get m i = None"
    by (rule bt_pred_None)
qed

end
