(* ===== verification/Authorized_Voters.thy ===== *)
theory Authorized_Voters
  imports Collections
begin

text \<open>
  The authorized voters of a vote account per epoch (\<^verbatim>\<open>programs/vote/src/authorized_voters.rs\<close>):
  a map from the epochs at which a voter was set. The voter of an epoch without an entry is the
  one of the epoch before; the code computes it by a range query, caches it and purges the
  epochs that have passed. The abstract view is \<open>carried\<close> of the map's content.
\<close>

type_synonym authorized_voters = "(epoch, pubkey) btree_map"

definition av_new :: "epoch \<Rightarrow> pubkey \<Rightarrow> authorized_voters" where
  "av_new epoch pubkey = bt_insert epoch pubkey []"

definition get_or_calculate_authorized_voter_for_epoch ::
  "authorized_voters \<Rightarrow> epoch \<Rightarrow> (pubkey \<times> bool) option" where
  "get_or_calculate_authorized_voter_for_epoch av epoch =
     (case bt_get av epoch of
        None \<Rightarrow> map_option (\<lambda>(_, pubkey). (pubkey, False)) (next_back (bt_range_to epoch av))
      | Some pubkey \<Rightarrow> Some (pubkey, True))"

definition av_get_authorized_voter :: "authorized_voters \<Rightarrow> epoch \<Rightarrow> pubkey option" where
  "av_get_authorized_voter av epoch =
     map_option fst (get_or_calculate_authorized_voter_for_epoch av epoch)"

definition get_and_cache_authorized_voter_for_epoch ::
  "authorized_voters \<Rightarrow> epoch \<Rightarrow> pubkey option \<times> authorized_voters" where
  "get_and_cache_authorized_voter_for_epoch av epoch =
     (case get_or_calculate_authorized_voter_for_epoch av epoch of
        None \<Rightarrow> (None, av)
      | Some (pubkey, existed) \<Rightarrow>
          (Some pubkey, if \<not> existed then bt_insert epoch pubkey av else av))"

definition av_insert :: "epoch \<Rightarrow> pubkey \<Rightarrow> authorized_voters \<Rightarrow> authorized_voters" where
  "av_insert epoch authorized_voter av = bt_insert epoch authorized_voter av"

definition av_is_empty :: "authorized_voters \<Rightarrow> bool" where
  "av_is_empty av = (av = [])"

definition purge_authorized_voters ::
  "epoch \<Rightarrow> authorized_voters \<Rightarrow> (authorized_voters \<times> bool, 'e) result" where
  "purge_authorized_voters current_epoch av =
     (let expired_keys = map fst (bt_range_to current_epoch av);
          av' = fold bt_remove expired_keys av
      in bindE (assertE (\<not> av_is_empty av')) (\<lambda>_. Ok (av', True)))"

definition av_first :: "authorized_voters \<Rightarrow> (epoch \<times> pubkey) option" where
  "av_first av = (case av of [] \<Rightarrow> None | x # _ \<Rightarrow> Some x)"

definition av_last :: "authorized_voters \<Rightarrow> (epoch \<times> pubkey) option" where
  "av_last av = next_back av"

definition av_len :: "authorized_voters \<Rightarrow> usize" where
  "av_len av = length av"

definition av_contains :: "authorized_voters \<Rightarrow> epoch \<Rightarrow> bool" where
  "av_contains av epoch = (bt_get av epoch \<noteq> None)"

section \<open>The map refines the voter of every epoch\<close>

lemma bt_wf_new [simp]: "bt_wf (av_new epoch pubkey)"
  by (simp add: av_new_def bt_wf_def)

lemma get_or_calculate_fst:
  assumes "bt_wf av"
  shows "map_option fst (get_or_calculate_authorized_voter_for_epoch av e) = carried (bt_get av) e"
proof -
  have "map_option fst (get_or_calculate_authorized_voter_for_epoch av e) =
    (case bt_get av e of Some v \<Rightarrow> Some v | None \<Rightarrow> map_option snd (bt_pred av e))"
    by (auto simp: get_or_calculate_authorized_voter_for_epoch_def bt_pred_def option.map_comp
        comp_def case_prod_beta split: option.splits)
  with bt.lookup_or_pred_carried [OF assms] show ?thesis by metis
qed

lemma get_or_calculate_snd:
  "get_or_calculate_authorized_voter_for_epoch av e = Some (p, x) \<Longrightarrow> x \<longleftrightarrow> bt_get av e \<noteq> None"
  by (auto simp: get_or_calculate_authorized_voter_for_epoch_def split: option.splits)

lemma get_and_cache_spec:
  assumes "bt_wf av" "get_and_cache_authorized_voter_for_epoch av e = (res, av')"
  shows "bt_wf av'" "res = carried (bt_get av) e"
    "bt_get av' = (case res of None \<Rightarrow> bt_get av | Some p \<Rightarrow> (bt_get av)(e \<mapsto> p))"
    "carried (bt_get av') = carried (bt_get av)"
proof -
  note spec = get_or_calculate_fst [OF assms(1), of e]
  show wf: "bt_wf av'" "res = carried (bt_get av) e"
    using assms spec
    by (auto simp: get_and_cache_authorized_voter_for_epoch_def bt_wf_insert split: option.splits prod.splits if_splits)
  show eq: "bt_get av' = (case res of None \<Rightarrow> bt_get av | Some p \<Rightarrow> (bt_get av)(e \<mapsto> p))"
  proof (cases "get_or_calculate_authorized_voter_for_epoch av e")
    case None
    with assms(2) show ?thesis by (simp add: get_and_cache_authorized_voter_for_epoch_def)
  next
    case (Some px)
    obtain p x where px: "px = (p, x)" by (cases px)
    show ?thesis
    proof (cases x)
      case True
      then have "bt_get av e = Some p"
        using Some px get_or_calculate_snd [of av e p x]
        by (auto simp: get_or_calculate_authorized_voter_for_epoch_def split: option.splits)
      moreover from this have "(bt_get av)(e \<mapsto> p) = bt_get av" by (rule map_upd_triv)
      moreover have "res = Some p" "av' = av"
        using True Some px assms(2) by (simp_all add: get_and_cache_authorized_voter_for_epoch_def)
      ultimately show ?thesis by simp
    next
      case False
      with Some px assms bt_get_insert [OF assms(1)] show ?thesis
        by (auto simp: get_and_cache_authorized_voter_for_epoch_def)
    qed
  qed
  show "carried (bt_get av') = carried (bt_get av)"
    using eq wf(2) carried_cache [of "bt_get av" e] by (fastforce split: option.splits)
qed

lemma purge_content:
  fixes av :: authorized_voters
  assumes "bt_wf av"
  shows "bt_wf (fold bt_remove (map fst (bt_range_to c av)) av)"
    "bt_get (fold bt_remove (map fst (bt_range_to c av)) av) = bt_get av |` {c..}"
proof -
  let ?ks = "map fst (bt_range_to c av)"
  have "(if i \<in> set ?ks then None else bt_get av i) = (bt_get av |` {c..}) i" for i
  proof (cases "i < c")
    case True
    then show ?thesis
      by (force simp: bt_range_to_def restrict_map_def bt_get_None)
  next
    case False
    then have "i \<notin> set ?ks" by (auto simp: bt_range_to_def)
    with False show ?thesis by (simp add: restrict_map_def)
  qed
  with bt.remove_all [OF assms, of ?ks]
  show "bt_wf (fold bt_remove ?ks av)" "bt_get (fold bt_remove ?ks av) = bt_get av |` {c..}"
    by (auto simp: fun_eq_iff)
qed

lemma bt_get_empty_iff: "bt_get m = Map.empty \<longleftrightarrow> m = []"
  by (cases m) (auto simp: bt_get_def fun_eq_iff)

lemma purge_spec:
  fixes av :: authorized_voters
  assumes "bt_wf av" "bt_get av c = Some p"
  shows "\<exists>av'. purge_authorized_voters c av = Ok (av', True) \<and> bt_wf av' \<and>
    bt_get av' = bt_get av |` {c..}"
proof -
  let ?av = "fold bt_remove (map fst (bt_range_to c av)) av"
  have "bt_get ?av c = Some p"
    using purge_content(2) [OF assms(1), of c] assms(2) by simp
  then have "?av \<noteq> []" by (auto simp: bt_get_def)
  with purge_content [OF assms(1), of c] show ?thesis
    by (auto simp: purge_authorized_voters_def av_is_empty_def Let_def)
qed

text \<open>
  Caching the voter of the current epoch and purging never panics when there is such a voter,
  and leaves the voter of every epoch from the current one on as it was.
\<close>

definition updated_voters :: "authorized_voters \<Rightarrow> epoch \<Rightarrow> pubkey \<Rightarrow> authorized_voters \<Rightarrow> bool" where
  "updated_voters av c p av' \<longleftrightarrow>
     bt_wf av' \<and> carried (bt_get av) c = Some p \<and>
     bt_get av' = ((bt_get av)(c \<mapsto> p)) |` {c..} \<and>
     (\<forall>e \<ge> c. carried (bt_get av') e = carried (bt_get av) e)"

lemma cache_and_purge:
  assumes "bt_wf av" "get_and_cache_authorized_voter_for_epoch av c = (Some p, av1)"
  shows "\<exists>av2. (purge_authorized_voters c av1 :: (_, 'e) result) = Ok (av2, True) \<and>
    updated_voters av c p av2"
proof -
  note cache = get_and_cache_spec [OF assms]
  have get1: "bt_get av1 = (bt_get av)(c \<mapsto> p)" using cache(3) by simp
  then have c: "bt_get av1 c = Some p" by simp
  obtain av2 where av2: "(purge_authorized_voters c av1 :: (_, 'e) result) = Ok (av2, True)" "bt_wf av2"
    "bt_get av2 = bt_get av1 |` {c..}"
    using purge_spec [OF cache(1) c] by metis
  have "carried (bt_get av2) e = carried (bt_get av) e" if "c \<le> e" for e
    unfolding av2(3) cache(4) [symmetric] using that c by (rule carried_restrict)
  moreover have "bt_get av2 = ((bt_get av)(c \<mapsto> p)) |` {c..}" unfolding av2(3) get1 ..
  ultimately have "updated_voters av c p av2"
    unfolding updated_voters_def
    using av2(2) cache(2) by (intro conjI allI impI) simp_all
  with av2(1) show ?thesis by (intro exI conjI)
qed

end
