(* ===== verification/Errors.thy ===== *)
theory Errors
  imports Prelude
begin

text \<open>
  The error enums of the SDK and the conversions between them: \<^verbatim>\<open>InstructionError\<close>,
  \<^verbatim>\<open>ProgramError\<close> and its \<^verbatim>\<open>u64\<close> return code (\<^verbatim>\<open>sdk/program/src/instruction.rs\<close>,
  \<^verbatim>\<open>program_error.rs\<close>), and the errors of the system program, of nonce accounts, of lamport
  arithmetic and of address derivation. A fieldless enum converts through its discriminant.
\<close>

section \<open>Instruction and program errors\<close>

datatype (plugins only: code size) instruction_error =
    GenericError | InvalidArgument | InvalidInstructionData | InvalidAccountData
  | AccountDataTooSmall | InsufficientFunds | IncorrectProgramId | MissingRequiredSignature
  | AccountAlreadyInitialized | UninitializedAccount | UnbalancedInstruction
  | ModifiedProgramId | ExternalAccountLamportSpend | ExternalAccountDataModified
  | ReadonlyLamportChange | ReadonlyDataModified | DuplicateAccountIndex
  | ExecutableModified | RentEpochModified | NotEnoughAccountKeys | AccountDataSizeChanged
  | AccountNotExecutable | AccountBorrowFailed | AccountBorrowOutstanding
  | DuplicateAccountOutOfSync | Custom u32 | InvalidError | ExecutableDataModified
  | ExecutableLamportChange | ExecutableAccountNotRentExempt | UnsupportedProgramId
  | CallDepth | MissingAccount | ReentrancyNotAllowed | MaxSeedLengthExceeded
  | InvalidSeeds | InvalidRealloc | ComputationalBudgetExceeded | PrivilegeEscalation
  | ProgramEnvironmentSetupFailure | ProgramFailedToComplete | ProgramFailedToCompile
  | Immutable | IncorrectAuthority | BorshIoError string | AccountNotRentExempt
  | InvalidAccountOwner | ArithmeticOverflow | UnsupportedSysvar | IllegalOwner
  | MaxAccountsDataSizeExceeded | ActiveVoteAccountClose

datatype (plugins only: code size) program_error =
    PE_Custom u32 | PE_InvalidArgument | PE_InvalidInstructionData | PE_InvalidAccountData
  | PE_AccountDataTooSmall | PE_InsufficientFunds | PE_IncorrectProgramId
  | PE_MissingRequiredSignature | PE_AccountAlreadyInitialized | PE_UninitializedAccount
  | PE_NotEnoughAccountKeys | PE_AccountBorrowFailed | PE_MaxSeedLengthExceeded
  | PE_InvalidSeeds | PE_BorshIoError string | PE_AccountNotRentExempt
  | PE_UnsupportedSysvar | PE_IllegalOwner | PE_MaxAccountsDataSizeExceeded
  | PE_InvalidRealloc

text \<open>Builtin return values occupy the upper 32 bits.\<close>

definition to_builtin :: "nat \<Rightarrow> u64" where
  "to_builtin n = n * 2 ^ 32"

fun u64_of_program_error :: "program_error \<Rightarrow> u64" where
  "u64_of_program_error PE_InvalidArgument = to_builtin 2"
| "u64_of_program_error PE_InvalidInstructionData = to_builtin 3"
| "u64_of_program_error PE_InvalidAccountData = to_builtin 4"
| "u64_of_program_error PE_AccountDataTooSmall = to_builtin 5"
| "u64_of_program_error PE_InsufficientFunds = to_builtin 6"
| "u64_of_program_error PE_IncorrectProgramId = to_builtin 7"
| "u64_of_program_error PE_MissingRequiredSignature = to_builtin 8"
| "u64_of_program_error PE_AccountAlreadyInitialized = to_builtin 9"
| "u64_of_program_error PE_UninitializedAccount = to_builtin 10"
| "u64_of_program_error PE_NotEnoughAccountKeys = to_builtin 11"
| "u64_of_program_error PE_AccountBorrowFailed = to_builtin 12"
| "u64_of_program_error PE_MaxSeedLengthExceeded = to_builtin 13"
| "u64_of_program_error PE_InvalidSeeds = to_builtin 14"
| "u64_of_program_error (PE_BorshIoError _) = to_builtin 15"
| "u64_of_program_error PE_AccountNotRentExempt = to_builtin 16"
| "u64_of_program_error PE_UnsupportedSysvar = to_builtin 17"
| "u64_of_program_error PE_IllegalOwner = to_builtin 18"
| "u64_of_program_error PE_MaxAccountsDataSizeExceeded = to_builtin 19"
| "u64_of_program_error PE_InvalidRealloc = to_builtin 20"
| "u64_of_program_error (PE_Custom error) = (if error = 0 then to_builtin 1 else error)"

definition program_error_of_u64 :: "u64 \<Rightarrow> program_error" where
  "program_error_of_u64 error =
     (if error = to_builtin 1 then PE_Custom 0
      else if error = to_builtin 2 then PE_InvalidArgument
      else if error = to_builtin 3 then PE_InvalidInstructionData
      else if error = to_builtin 4 then PE_InvalidAccountData
      else if error = to_builtin 5 then PE_AccountDataTooSmall
      else if error = to_builtin 6 then PE_InsufficientFunds
      else if error = to_builtin 7 then PE_IncorrectProgramId
      else if error = to_builtin 8 then PE_MissingRequiredSignature
      else if error = to_builtin 9 then PE_AccountAlreadyInitialized
      else if error = to_builtin 10 then PE_UninitializedAccount
      else if error = to_builtin 11 then PE_NotEnoughAccountKeys
      else if error = to_builtin 12 then PE_AccountBorrowFailed
      else if error = to_builtin 13 then PE_MaxSeedLengthExceeded
      else if error = to_builtin 14 then PE_InvalidSeeds
      else if error = to_builtin 15 then PE_BorshIoError ''Unknown''
      else if error = to_builtin 16 then PE_AccountNotRentExempt
      else if error = to_builtin 17 then PE_UnsupportedSysvar
      else if error = to_builtin 18 then PE_IllegalOwner
      else if error = to_builtin 19 then PE_MaxAccountsDataSizeExceeded
      else if error = to_builtin 20 then PE_InvalidRealloc
      else PE_Custom (error mod 2 ^ 32))"

definition program_error_of_instruction_error :: "instruction_error \<Rightarrow> (program_error, instruction_error) result" where
  "program_error_of_instruction_error error =
     (case error of
        Custom err \<Rightarrow> Ok (PE_Custom err)
      | InvalidArgument \<Rightarrow> Ok PE_InvalidArgument
      | InvalidInstructionData \<Rightarrow> Ok PE_InvalidInstructionData
      | InvalidAccountData \<Rightarrow> Ok PE_InvalidAccountData
      | AccountDataTooSmall \<Rightarrow> Ok PE_AccountDataTooSmall
      | InsufficientFunds \<Rightarrow> Ok PE_InsufficientFunds
      | IncorrectProgramId \<Rightarrow> Ok PE_IncorrectProgramId
      | MissingRequiredSignature \<Rightarrow> Ok PE_MissingRequiredSignature
      | AccountAlreadyInitialized \<Rightarrow> Ok PE_AccountAlreadyInitialized
      | UninitializedAccount \<Rightarrow> Ok PE_UninitializedAccount
      | NotEnoughAccountKeys \<Rightarrow> Ok PE_NotEnoughAccountKeys
      | AccountBorrowFailed \<Rightarrow> Ok PE_AccountBorrowFailed
      | MaxSeedLengthExceeded \<Rightarrow> Ok PE_MaxSeedLengthExceeded
      | InvalidSeeds \<Rightarrow> Ok PE_InvalidSeeds
      | BorshIoError err \<Rightarrow> Ok (PE_BorshIoError err)
      | AccountNotRentExempt \<Rightarrow> Ok PE_AccountNotRentExempt
      | UnsupportedSysvar \<Rightarrow> Ok PE_UnsupportedSysvar
      | IllegalOwner \<Rightarrow> Ok PE_IllegalOwner
      | MaxAccountsDataSizeExceeded \<Rightarrow> Ok PE_MaxAccountsDataSizeExceeded
      | InvalidRealloc \<Rightarrow> Ok PE_InvalidRealloc
      | _ \<Rightarrow> Err error)"

text \<open>\<^verbatim>\<open>impl From<T> for InstructionError\<close>, on the \<^verbatim>\<open>u64\<close> that \<^verbatim>\<open>to_u64\<close> gives.\<close>

definition instruction_error_of_u64 :: "u64 \<Rightarrow> instruction_error" where
  "instruction_error_of_u64 error =
     (if error = to_builtin 1 then Custom 0
      else if error = to_builtin 2 then InvalidArgument
      else if error = to_builtin 3 then InvalidInstructionData
      else if error = to_builtin 4 then InvalidAccountData
      else if error = to_builtin 5 then AccountDataTooSmall
      else if error = to_builtin 6 then InsufficientFunds
      else if error = to_builtin 7 then IncorrectProgramId
      else if error = to_builtin 8 then MissingRequiredSignature
      else if error = to_builtin 9 then AccountAlreadyInitialized
      else if error = to_builtin 10 then UninitializedAccount
      else if error = to_builtin 11 then NotEnoughAccountKeys
      else if error = to_builtin 12 then AccountBorrowFailed
      else if error = to_builtin 13 then MaxSeedLengthExceeded
      else if error = to_builtin 14 then InvalidSeeds
      else if error = to_builtin 15 then BorshIoError ''Unknown''
      else if error = to_builtin 16 then AccountNotRentExempt
      else if error = to_builtin 17 then UnsupportedSysvar
      else if error = to_builtin 18 then IllegalOwner
      else if error = to_builtin 19 then MaxAccountsDataSizeExceeded
      else if error = to_builtin 20 then InvalidRealloc
      else if error div 2 ^ 32 = 0 then Custom (error mod 2 ^ 32)
      else InvalidError)"

text \<open>The discriminants of the fieldless enums below are small, so the conversion is \<open>Custom\<close>.\<close>

lemma instruction_error_of_small [simp]:
  "n < 2 ^ 32 \<Longrightarrow> instruction_error_of_u64 n = Custom n"
  by (simp add: instruction_error_of_u64_def to_builtin_def)

section \<open>Errors of the modelled programs\<close>

datatype lamports_error = LE_ArithmeticUnderflow | LE_ArithmeticOverflow

fun instruction_error_of_lamports :: "lamports_error \<Rightarrow> instruction_error" where
  "instruction_error_of_lamports LE_ArithmeticOverflow = ArithmeticOverflow"
| "instruction_error_of_lamports LE_ArithmeticUnderflow = ArithmeticOverflow"

datatype pubkey_error = PKE_MaxSeedLengthExceeded | PKE_InvalidSeeds | PKE_IllegalOwner

fun pubkey_error_code :: "pubkey_error \<Rightarrow> u64" where
  "pubkey_error_code PKE_MaxSeedLengthExceeded = 0"
| "pubkey_error_code PKE_InvalidSeeds = 1"
| "pubkey_error_code PKE_IllegalOwner = 2"

definition instruction_error_of_pubkey :: "pubkey_error \<Rightarrow> instruction_error" where
  "instruction_error_of_pubkey e = instruction_error_of_u64 (pubkey_error_code e)"

datatype system_error =
    SE_AccountAlreadyInUse | SE_ResultWithNegativeLamports | SE_InvalidProgramId
  | SE_InvalidAccountDataLength | SE_MaxSeedLengthExceeded | SE_AddressWithSeedMismatch
  | SE_NonceNoRecentBlockhashes | SE_NonceBlockhashNotExpired
  | SE_NonceUnexpectedBlockhashValue

fun system_error_code :: "system_error \<Rightarrow> u64" where
  "system_error_code SE_AccountAlreadyInUse = 0"
| "system_error_code SE_ResultWithNegativeLamports = 1"
| "system_error_code SE_InvalidProgramId = 2"
| "system_error_code SE_InvalidAccountDataLength = 3"
| "system_error_code SE_MaxSeedLengthExceeded = 4"
| "system_error_code SE_AddressWithSeedMismatch = 5"
| "system_error_code SE_NonceNoRecentBlockhashes = 6"
| "system_error_code SE_NonceBlockhashNotExpired = 7"
| "system_error_code SE_NonceUnexpectedBlockhashValue = 8"

definition instruction_error_of_system :: "system_error \<Rightarrow> instruction_error" where
  "instruction_error_of_system e = instruction_error_of_u64 (system_error_code e)"

datatype nonce_error = NoRecentBlockhashes | NotExpired | UnexpectedValue | BadAccountState

text \<open>
  \<^verbatim>\<open>NonceErrorAdapter\<close> repeats the four constructors of \<^verbatim>\<open>NonceError\<close> in the same order, so
  it is the same type here; the code below is the adapter's discriminant.
\<close>

fun nonce_error_adapter_code :: "nonce_error \<Rightarrow> u64" where
  "nonce_error_adapter_code NoRecentBlockhashes = 0"
| "nonce_error_adapter_code NotExpired = 1"
| "nonce_error_adapter_code UnexpectedValue = 2"
| "nonce_error_adapter_code BadAccountState = 3"

definition nonce_to_instruction_error :: "nonce_error \<Rightarrow> bool \<Rightarrow> instruction_error" where
  "nonce_to_instruction_error error use_system_variant =
     (if use_system_variant then
        (case error of
           NoRecentBlockhashes \<Rightarrow> instruction_error_of_system SE_NonceNoRecentBlockhashes
         | NotExpired \<Rightarrow> instruction_error_of_system SE_NonceBlockhashNotExpired
         | UnexpectedValue \<Rightarrow> instruction_error_of_system SE_NonceUnexpectedBlockhashValue
         | BadAccountState \<Rightarrow> InvalidAccountData)
      else instruction_error_of_u64 (nonce_error_adapter_code error))"

fun system_error_from_u32 :: "u32 \<Rightarrow> system_error option" where
  "system_error_from_u32 n =
     find (\<lambda>e. system_error_code e = n)
       [SE_AccountAlreadyInUse, SE_ResultWithNegativeLamports, SE_InvalidProgramId,
        SE_InvalidAccountDataLength, SE_MaxSeedLengthExceeded, SE_AddressWithSeedMismatch,
        SE_NonceNoRecentBlockhashes, SE_NonceBlockhashNotExpired,
        SE_NonceUnexpectedBlockhashValue]"

definition instruction_to_nonce_error :: "instruction_error \<Rightarrow> bool \<Rightarrow> nonce_error option" where
  "instruction_to_nonce_error error use_system_variant =
     (if use_system_variant then
        (case error of
           Custom discriminant \<Rightarrow>
             (case system_error_from_u32 discriminant of
                Some SE_NonceNoRecentBlockhashes \<Rightarrow> Some NoRecentBlockhashes
              | Some SE_NonceBlockhashNotExpired \<Rightarrow> Some NotExpired
              | Some SE_NonceUnexpectedBlockhashValue \<Rightarrow> Some UnexpectedValue
              | _ \<Rightarrow> None)
         | InvalidAccountData \<Rightarrow> Some BadAccountState
         | _ \<Rightarrow> None)
      else
        (case error of
           Custom discriminant \<Rightarrow>
             find (\<lambda>e. nonce_error_adapter_code e = discriminant)
               [NoRecentBlockhashes, NotExpired, UnexpectedValue, BadAccountState]
         | _ \<Rightarrow> None))"

section \<open>Round trips\<close>

text \<open>The values of \<^verbatim>\<open>ProgramError\<close> that their return code determines.\<close>

definition encodable_program_error :: "program_error \<Rightarrow> bool" where
  "encodable_program_error e =
     (case e of PE_Custom n \<Rightarrow> n < 2 ^ 32 | PE_BorshIoError s \<Rightarrow> s = ''Unknown'' | _ \<Rightarrow> True)"

lemma program_error_u64_roundtrip:
  "encodable_program_error e \<Longrightarrow> program_error_of_u64 (u64_of_program_error e) = e"
  by (cases e)
     (simp_all add: encodable_program_error_def program_error_of_u64_def to_builtin_def)

lemma u64_of_program_error_range:
  "encodable_program_error e \<Longrightarrow> u64_of_program_error e < 2 ^ 64"
  by (cases e) (simp_all add: encodable_program_error_def to_builtin_def)

text \<open>
  A program's error survives the trip through the virtual machine: the \<^verbatim>\<open>u64\<close> a program
  returns for a \<^verbatim>\<open>ProgramError\<close> is turned by the runtime into the \<^verbatim>\<open>InstructionError\<close> that
  converts back to the same \<^verbatim>\<open>ProgramError\<close>. The message of a Borsh error is the one thing
  the code does not carry.
\<close>

theorem program_error_survives_runtime:
  assumes "encodable_program_error e"
  shows "program_error_of_instruction_error (instruction_error_of_u64 (u64_of_program_error e)) = Ok e"
  using assms
  by (cases e)
     (simp_all add: encodable_program_error_def instruction_error_of_u64_def to_builtin_def
        program_error_of_instruction_error_def)

theorem program_error_survives_runtime_witness:
  "encodable_program_error (PE_Custom 0) \<and>
   program_error_of_instruction_error (instruction_error_of_u64 (u64_of_program_error (PE_Custom 0))) =
     Ok (PE_Custom 0)"
  using program_error_survives_runtime [of "PE_Custom 0"] by (simp add: encodable_program_error_def)

lemma nonce_error_roundtrip:
  "instruction_to_nonce_error (nonce_to_instruction_error e b) b = Some e"
  by (cases e; cases b)
     (simp_all add: nonce_to_instruction_error_def instruction_to_nonce_error_def
        instruction_error_of_system_def)

end
