(* ===== verification/Float64.thy ===== *)
theory Float64
  imports Prelude Complex_Main
begin

text \<open>
  The \<^verbatim>\<open>f64\<close> arithmetic the source uses: IEEE 754 binary64 with rounding to nearest, ties to
  even. A finite value is a sign, a significand \<open>m < 2 ^ 53\<close> and an exponent \<open>e\<close>, and stands
  for \<open>m * 2 ^ e\<close>. Every operation computes the exact result as a fraction of natural
  numbers and rounds it once with \<open>f64_round\<close>; \<open>f64_round_nearest\<close> shows that this is
  the nearest representable number up to half a unit in the last place. The casts saturate,
  as Rust's \<^verbatim>\<open>as\<close> does.
\<close>

datatype f64 = F64_NaN | F64_Inf bool | F64 bool nat int

section \<open>Rounding\<close>

fun bitlen :: "nat \<Rightarrow> nat" where
  "bitlen n = (if n = 0 then 0 else Suc (bitlen (n div 2)))"

declare bitlen.simps [simp del]

definition round_half_even :: "nat \<Rightarrow> nat \<Rightarrow> nat" where
  "round_half_even n d =
     (let q = n div d; r = n mod d in
      if 2 * r < d \<or> (2 * r = d \<and> even q) then q else q + 1)"

text \<open>\<open>scale_frac n d e\<close> is a fraction equal to \<open>n / d * 2 ^ e\<close>.\<close>

definition scale_frac :: "nat \<Rightarrow> nat \<Rightarrow> int \<Rightarrow> nat \<times> nat" where
  "scale_frac n d e = (if 0 \<le> e then (n * 2 ^ nat e, d) else (n, d * 2 ^ nat (- e)))"

definition f64_pack :: "bool \<Rightarrow> nat \<Rightarrow> int \<Rightarrow> f64" where
  "f64_pack s m e = (if 971 < e then F64_Inf s else F64 s m e)"

definition f64_exponent :: "nat \<Rightarrow> nat \<Rightarrow> int" where
  "f64_exponent n d =
     (let k = int (bitlen n) - int (bitlen d) - 53;
          (a, b) = scale_frac n d (- k)
      in max (- 1074) (if 2 ^ 53 * b \<le> a then k + 1 else k))"

definition f64_round :: "bool \<Rightarrow> nat \<Rightarrow> nat \<Rightarrow> f64" where
  "f64_round s n d =
     (if n = 0 then F64 s 0 (- 1074)
      else let e = f64_exponent n d;
               (a, b) = scale_frac n d (- e);
               m = round_half_even a b
           in if m = 2 ^ 53 then f64_pack s (2 ^ 52) (e + 1) else f64_pack s m e)"

section \<open>Operations\<close>

definition f64_of_nat :: "nat \<Rightarrow> f64" where
  "f64_of_nat n = f64_round False n 1"

fun f64_neg :: "f64 \<Rightarrow> f64" where
  "f64_neg F64_NaN = F64_NaN"
| "f64_neg (F64_Inf s) = F64_Inf (\<not> s)"
| "f64_neg (F64 s m e) = F64 (\<not> s) m e"

fun f64_abs :: "f64 \<Rightarrow> f64" where
  "f64_abs F64_NaN = F64_NaN"
| "f64_abs (F64_Inf s) = F64_Inf False"
| "f64_abs (F64 s m e) = F64 False m e"

definition F64_EPSILON :: f64 where
  "F64_EPSILON = F64 False (2 ^ 52) (- 104)"

definition signed :: "bool \<Rightarrow> nat \<Rightarrow> int" where
  "signed s m = (if s then - int m else int m)"

fun f64_add :: "f64 \<Rightarrow> f64 \<Rightarrow> f64" where
  "f64_add F64_NaN y = F64_NaN"
| "f64_add x F64_NaN = F64_NaN"
| "f64_add (F64_Inf s) (F64_Inf t) = (if s = t then F64_Inf s else F64_NaN)"
| "f64_add (F64_Inf s) (F64 t n f) = F64_Inf s"
| "f64_add (F64 s m e) (F64_Inf t) = F64_Inf t"
| "f64_add (F64 s m e) (F64 t n f) =
     (let g = min e f;
          z = signed s m * 2 ^ nat (e - g) + signed t n * 2 ^ nat (f - g)
      in if z = 0 then F64 (s \<and> t) 0 (- 1074)
         else let (a, b) = scale_frac (nat \<bar>z\<bar>) 1 g in f64_round (z < 0) a b)"

definition f64_sub :: "f64 \<Rightarrow> f64 \<Rightarrow> f64" where
  "f64_sub x y = f64_add x (f64_neg y)"

fun f64_mul :: "f64 \<Rightarrow> f64 \<Rightarrow> f64" where
  "f64_mul F64_NaN y = F64_NaN"
| "f64_mul x F64_NaN = F64_NaN"
| "f64_mul (F64_Inf s) (F64_Inf t) = F64_Inf (s \<noteq> t)"
| "f64_mul (F64_Inf s) (F64 t n f) = (if n = 0 then F64_NaN else F64_Inf (s \<noteq> t))"
| "f64_mul (F64 s m e) (F64_Inf t) = (if m = 0 then F64_NaN else F64_Inf (s \<noteq> t))"
| "f64_mul (F64 s m e) (F64 t n f) =
     (let (a, b) = scale_frac (m * n) 1 (e + f) in f64_round (s \<noteq> t) a b)"

fun f64_div :: "f64 \<Rightarrow> f64 \<Rightarrow> f64" where
  "f64_div F64_NaN y = F64_NaN"
| "f64_div x F64_NaN = F64_NaN"
| "f64_div (F64_Inf s) (F64_Inf t) = F64_NaN"
| "f64_div (F64_Inf s) (F64 t n f) = F64_Inf (s \<noteq> t)"
| "f64_div (F64 s m e) (F64_Inf t) = F64 (s \<noteq> t) 0 (- 1074)"
| "f64_div (F64 s m e) (F64 t n f) =
     (if n = 0 then (if m = 0 then F64_NaN else F64_Inf (s \<noteq> t))
      else let (a, b) = scale_frac m n (e - f) in f64_round (s \<noteq> t) a b)"

fun isqrt :: "nat \<Rightarrow> nat" where
  "isqrt n = (if n = 0 then 0
              else let r = 2 * isqrt (n div 4) in if (r + 1) * (r + 1) \<le> n then r + 1 else r)"

declare isqrt.simps [simp del]

text \<open>
  For the square root the exponent \<open>t\<close> of the result is known from the operand, and the
  radicand \<open>m * 2 ^ (e - 2 * t)\<close> is an integer, so that no tie can arise.
\<close>

fun f64_sqrt :: "f64 \<Rightarrow> f64" where
  "f64_sqrt F64_NaN = F64_NaN"
| "f64_sqrt (F64_Inf s) = (if s then F64_NaN else F64_Inf False)"
| "f64_sqrt (F64 s m e) =
     (if m = 0 then F64 s 0 (- 1074)
      else if s then F64_NaN
      else let t = (int (bitlen m) + e + 1) div 2 - 53;
               x = m * 2 ^ nat (e - 2 * t);
               q = isqrt x;
               r = (if q * q + q < x then q + 1 else q);
               (a, b) = scale_frac r 1 t
           in f64_round False a b)"

fun f64_less :: "f64 \<Rightarrow> f64 \<Rightarrow> bool" where
  "f64_less F64_NaN y = False"
| "f64_less x F64_NaN = False"
| "f64_less (F64_Inf s) (F64_Inf t) = (s \<and> \<not> t)"
| "f64_less (F64_Inf s) (F64 t n f) = s"
| "f64_less (F64 s m e) (F64_Inf t) = (\<not> t)"
| "f64_less (F64 s m e) (F64 t n f) =
     (let g = min e f
      in signed s m * 2 ^ nat (e - g) < signed t n * 2 ^ nat (f - g))"

fun f64_floor :: "f64 \<Rightarrow> f64" where
  "f64_floor F64_NaN = F64_NaN"
| "f64_floor (F64_Inf s) = F64_Inf s"
| "f64_floor (F64 s m e) =
     (if 0 \<le> e \<or> m = 0 then F64 s m e
      else let d = 2 ^ nat (- e)
           in f64_round s (if s then (m + d - 1) div d else m div d) 1)"

text \<open>\<^verbatim>\<open>x as uN\<close>: truncate towards zero, saturate, and map NaN to zero.\<close>

fun f64_to_uint :: "nat \<Rightarrow> f64 \<Rightarrow> nat" where
  "f64_to_uint hi F64_NaN = 0"
| "f64_to_uint hi (F64_Inf s) = (if s then 0 else hi)"
| "f64_to_uint hi (F64 s m e) =
     (if s then 0
      else min hi (if 0 \<le> e then m * 2 ^ nat e else m div 2 ^ nat (- e)))"

abbreviation f64_to_u64 :: "f64 \<Rightarrow> u64" where "f64_to_u64 \<equiv> f64_to_uint u64_max"
abbreviation f64_to_u128 :: "f64 \<Rightarrow> u128" where "f64_to_u128 \<equiv> f64_to_uint u128_max"

section \<open>Exactness and rounding error\<close>

lemma bitlen_bounds: "0 < n \<Longrightarrow> 0 < bitlen n \<and> 2 ^ (bitlen n - 1) \<le> n \<and> n < 2 ^ bitlen n"
proof (induction n rule: bitlen.induct)
  case (1 n)
  show ?case
  proof (cases "n div 2 = 0")
    case True
    with "1.prems" have "n = 1" by simp
    then show ?thesis by (simp add: bitlen.simps)
  next
    case False
    with 1 have IH: "0 < bitlen (n div 2)" "2 ^ (bitlen (n div 2) - 1) \<le> n div 2"
      "n div 2 < 2 ^ bitlen (n div 2)" by auto
    have b: "bitlen n = Suc (bitlen (n div 2))" using "1.prems" by (simp add: bitlen.simps [of n])
    have "2 ^ (bitlen n - 1) = 2 * 2 ^ (bitlen (n div 2) - 1)"
      using IH(1) b by (simp flip: power_Suc)
    also have "\<dots> \<le> n" using IH(2) by linarith
    finally show ?thesis using b IH(3) by auto
  qed
qed

lemma scale_frac_val:
  assumes "scale_frac n d e = (a, b)"
  shows "real a / real b = real n / real d * 2 powi e"
    and "0 < d \<Longrightarrow> 0 < b"
proof -
  show "real a / real b = real n / real d * 2 powi e"
    using assms by (auto simp: scale_frac_def power_int_def field_simps split: if_splits)
  show "0 < d \<Longrightarrow> 0 < b" using assms by (auto simp: scale_frac_def split: if_splits)
qed

lemma bitlen_ratio:
  assumes "0 < n" "0 < d"
  defines "k \<equiv> int (bitlen n) - int (bitlen d) - 53"
  shows "2 powi (k + 52) < real n / real d" and "real n / real d < 2 powi (k + 54)"
proof -
  note n = bitlen_bounds [OF assms(1)] and d = bitlen_bounds [OF assms(2)]
  have n1: "(2::real) ^ (bitlen n - 1) \<le> n" "real n < 2 ^ bitlen n"
    using n by (metis numeral_power_le_of_nat_cancel_iff, metis of_nat_less_numeral_power_cancel_iff)
  have d1: "(2::real) ^ (bitlen d - 1) \<le> d" "real d < 2 ^ bitlen d"
    using d by (metis numeral_power_le_of_nat_cancel_iff, metis of_nat_less_numeral_power_cancel_iff)
  have "2 powi (k + 52) * real d < 2 powi (k + 52) * 2 ^ bitlen d"
    using d1(2) by (intro mult_strict_left_mono) auto
  also have "\<dots> = 2 powi (k + 52 + int (bitlen d))" by (simp add: power_int_add)
  also have "k + 52 + int (bitlen d) = int (bitlen n - 1)" using n by (simp add: k_def)
  also have "(2::real) powi \<dots> \<le> n" using n1(1) by simp
  finally show "2 powi (k + 52) < real n / real d" using assms(2) by (simp add: field_simps)
  have "real n < 2 ^ bitlen n" by (rule n1)
  also have "(2::real) ^ bitlen n = 2 powi (k + 54 + int (bitlen d - 1))"
    using d by (simp add: k_def of_nat_diff flip: power_int_of_nat)
  also have "\<dots> = 2 powi (k + 54) * 2 ^ (bitlen d - 1)" by (simp add: power_int_add)
  also have "\<dots> \<le> 2 powi (k + 54) * d" using d1(1) by (intro mult_left_mono) auto
  finally show "real n / real d < 2 powi (k + 54)" using assms(2) by (simp add: field_simps)
qed

lemma powi2_less_iff [simp]: "(2::real) powi i < 2 powi j \<longleftrightarrow> i < j"
proof
  show "i < j \<Longrightarrow> (2::real) powi i < 2 powi j" by (rule power_int_strict_increasing) auto
  assume "(2::real) powi i < 2 powi j"
  then show "i < j" using power_int_increasing [of j i "2::real"] by (cases "i < j") auto
qed

lemma powi2_unique:
  assumes "(2::real) powi i \<le> v" "v < 2 powi (i + 1)" "2 powi j \<le> v" "v < 2 powi (j + 1)"
  shows "i = j"
proof -
  from assms have "(2::real) powi i < 2 powi (j + 1)" "(2::real) powi j < 2 powi (i + 1)" by linarith+
  then show ?thesis by simp
qed

text \<open>The exponent is the one that puts 53 significant bits before the binary point.\<close>

lemma f64_exponent_range:
  assumes "0 < n" "0 < d"
  obtains e where "f64_exponent n d = max (- 1074) e"
    and "2 powi (e + 52) \<le> real n / real d" and "real n / real d < 2 powi (e + 53)"
proof -
  define k where "k = int (bitlen n) - int (bitlen d) - 53"
  obtain a b where ab: "scale_frac n d (- k) = (a, b)" by (cases "scale_frac n d (- k)")
  define v where "v = real n / real d"
  have k: "2 powi (k + 52) < v" "v < 2 powi (k + 54)"
    using bitlen_ratio [OF assms] unfolding k_def v_def by auto
  have b: "0 < real b" using scale_frac_val(2) [OF ab assms(2)] by simp
  have "2 ^ 53 * b \<le> a \<longleftrightarrow> 2 ^ 53 * real b \<le> real a"
    using of_nat_le_iff [of "2 ^ 53 * b" a, where 'a = real] by simp
  also have "\<dots> \<longleftrightarrow> 2 ^ 53 \<le> v * 2 powi (- k)"
    unfolding v_def scale_frac_val(1) [OF ab, symmetric] using b by (simp add: le_divide_eq)
  also have "\<dots> \<longleftrightarrow> 2 powi (k + 53) \<le> v"
    by (simp add: power_int_minus power_int_add le_divide_eq mult.commute flip: divide_inverse)
  finally have test: "2 ^ 53 * b \<le> a \<longleftrightarrow> 2 powi (k + 53) \<le> v" .
  define e where "e = (if 2 powi (k + 53) \<le> v then k + 1 else k)"
  have "f64_exponent n d = max (- 1074) e"
    using ab test by (simp add: f64_exponent_def e_def flip: k_def)
  moreover have "2 powi (e + 52) \<le> v" "v < 2 powi (e + 53)"
    using k by (auto simp: e_def add.commute)
  ultimately show thesis using that v_def by blast
qed

lemma f64_exponent_eq:
  assumes "0 < n" "0 < d" "- 1074 \<le> e"
    and "2 powi (e + 52) \<le> real n / real d" "real n / real d < 2 powi (e + 53)"
  shows "f64_exponent n d = e"
proof -
  obtain e' where e': "f64_exponent n d = max (- 1074) e'"
    "2 powi (e' + 52) \<le> real n / real d" "real n / real d < 2 powi (e' + 53)"
    by (rule f64_exponent_range [OF assms(1,2)])
  have "e' + 52 = e + 52" by (rule powi2_unique [of _ "real n / real d"]) (use e' assms in \<open>simp_all add: ac_simps\<close>)
  with e'(1) assms(3) show ?thesis by simp
qed

lemma round_half_even_exact: "0 < d \<Longrightarrow> round_half_even (m * d) d = m"
  by (simp add: round_half_even_def)

lemma round_half_even_nearest:
  assumes "0 < d"
  shows "2 * \<bar>int (round_half_even n d * d) - int n\<bar> \<le> int d"
proof -
  have n: "int n = int (n div d) * int d + int (n mod d)"
    by (metis div_mult_mod_eq of_nat_add of_nat_mult)
  have r: "n mod d < d" using assms by simp
  show ?thesis using n r
    by (auto simp: round_half_even_def Let_def algebra_simps)
qed

text \<open>A representable value is its own rounding.\<close>

lemma f64_round_exact:
  assumes "0 < d" "2 ^ 52 \<le> m" "m < 2 ^ 53" "- 1074 \<le> e" "e \<le> 971"
    and v: "real n / real d = real m * 2 powi e"
  shows "f64_round s n d = F64 s m e"
proof -
  have m: "2 ^ 52 \<le> real m" "real m < 2 ^ 53"
    using assms(2,3) by (metis numeral_power_le_of_nat_cancel_iff, metis of_nat_less_numeral_power_cancel_iff)
  have n: "0 < n" using v m assms(1) by (cases n) auto
  have "f64_exponent n d = e"
  proof (rule f64_exponent_eq [OF n assms(1,4)])
    show "2 powi (e + 52) \<le> real n / real d"
      unfolding v using mult_right_mono [OF m(1), of "2 powi e"] by (simp add: power_int_add mult.commute)
    show "real n / real d < 2 powi (e + 53)"
      unfolding v using mult_strict_right_mono [OF m(2), of "2 powi e"] by (simp add: power_int_add mult.commute)
  qed
  moreover obtain a b where ab: "scale_frac n d (- e) = (a, b)" by (cases "scale_frac n d (- e)")
  moreover have "a = m * b"
  proof -
    have b: "0 < b" using scale_frac_val(2) [OF ab assms(1)] .
    have "real a / real b = real m"
      using scale_frac_val(1) [OF ab] v by (simp add: power_int_minus)
    then have "real a = real (m * b)" using b by (simp add: field_simps)
    then show ?thesis by (simp only: of_nat_eq_iff)
  qed
  moreover have "0 < b" using scale_frac_val(2) [OF ab assms(1)] .
  ultimately show ?thesis
    using n assms(3,5) by (simp add: f64_round_def f64_pack_def round_half_even_exact)
qed
lemma f64_of_nat_repr:
  assumes "0 < n" "n < 2 ^ 53"
  obtains m e where "f64_of_nat n = F64 False m e" "2 ^ 52 \<le> m" "m < 2 ^ 53"
    "- 52 \<le> e" "e \<le> 0" "real n = real m * 2 powi e"
proof -
  note b = bitlen_bounds [OF assms(1)]
  have "2 ^ (bitlen n - 1) < (2::nat) ^ 53" using b assms(2) by linarith
  then have b53: "bitlen n \<le> 53" by (subst (asm) power_strict_increasing_iff) auto
  define m where "m = n * 2 ^ (53 - bitlen n)"
  define e where "e = int (bitlen n) - 53"
  have "(2::nat) ^ 52 = 2 ^ (bitlen n - 1) * 2 ^ (53 - bitlen n)"
    using b b53 by (simp flip: power_add)
  also have "\<dots> \<le> m" unfolding m_def using b by (intro mult_right_mono) auto
  finally have lo: "2 ^ 52 \<le> m" .
  have "m < 2 ^ bitlen n * 2 ^ (53 - bitlen n)"
    unfolding m_def using b by (intro mult_strict_right_mono) auto
  also have "\<dots> = (2::nat) ^ 53" using b53 by (simp flip: power_add)
  finally have hi: "m < 2 ^ 53" .
  have "e = - int (53 - bitlen n)" using b53 by (simp add: e_def)
  then have val: "real n = real m * 2 powi e"
    by (simp only: m_def power_int_minus power_int_of_nat) simp
  have "f64_of_nat n = F64 False m e"
    unfolding f64_of_nat_def by (rule f64_round_exact [OF _ lo hi]) (use val b b53 e_def in auto)
  then show thesis using that lo hi val b b53 e_def by simp
qed

lemma f64_to_uint_of_nat:
  assumes "n < 2 ^ 53" "n \<le> hi"
  shows "f64_to_uint hi (f64_of_nat n) = n"
proof (cases "n = 0")
  case True
  then show ?thesis by (simp add: f64_of_nat_def f64_round_def)
next
  case False
  obtain m e where m: "f64_of_nat n = F64 False m e" "e \<le> 0" "real n = real m * 2 powi e"
    using f64_of_nat_repr [of n] False assms(1) by blast
  have "real m = real n * 2 ^ nat (- e)"
    using m(2,3) by (simp add: power_int_def field_simps)
  then have "m = n * 2 ^ nat (- e)" by (simp flip: of_nat_eq_iff [where 'a = real])
  then show ?thesis using m(1,2) assms(2) by (cases "e = 0") auto
qed

lemma f64_mul_of_nat:
  assumes "a * b < 2 ^ 53" "0 < a" "0 < b"
  shows "f64_mul (f64_of_nat a) (f64_of_nat b) = f64_of_nat (a * b)"
proof -
  have "a \<le> a * b" "b \<le> a * b" using assms by auto
  then have lt: "a < 2 ^ 53" "b < 2 ^ 53" using assms(1) by linarith+
  obtain m e where m: "f64_of_nat a = F64 False m e" "real a = real m * 2 powi e"
    using f64_of_nat_repr [OF assms(2) lt(1)] by blast
  obtain n f where n: "f64_of_nat b = F64 False n f" "real b = real n * 2 powi f"
    using f64_of_nat_repr [OF assms(3) lt(2)] by blast
  obtain p g where p: "f64_of_nat (a * b) = F64 False p g" "2 ^ 52 \<le> p" "p < 2 ^ 53"
    "- 52 \<le> g" "g \<le> 0" "real (a * b) = real p * 2 powi g"
    using f64_of_nat_repr [of "a * b"] assms by auto
  obtain x y where xy: "scale_frac (m * n) 1 (e + f) = (x, y)"
    by (cases "scale_frac (m * n) 1 (e + f)")
  have "real x / real y = real (a * b)"
    using scale_frac_val(1) [OF xy] m(2) n(2) by (simp add: power_int_add)
  then have "f64_round False x y = F64 False p g"
    using p scale_frac_val(2) [OF xy] by (intro f64_round_exact) auto
  with m(1) n(1) p(1) xy show ?thesis by simp
qed

text \<open>The rounding error is at most half a unit in the last place.\<close>

definition f64_val :: "f64 \<Rightarrow> real" where
  "f64_val x = (case x of F64 s m e \<Rightarrow> (if s then - 1 else 1) * real m * 2 powi e | _ \<Rightarrow> 0)"

lemma f64_round_nearest:
  assumes "0 < n" "0 < d" and r: "f64_round False n d = F64 s m e"
  shows "\<bar>f64_val (F64 s m e) - real n / real d\<bar> \<le> 2 powi f64_exponent n d / 2"
proof -
  define g where "g = f64_exponent n d"
  obtain a b where ab: "scale_frac n d (- g) = (a, b)" by (cases "scale_frac n d (- g)")
  define q where "q = round_half_even a b"
  have b: "0 < b" using scale_frac_val(2) [OF ab assms(2)] .
  have s: "\<not> s \<and> real m * 2 powi e = real q * 2 powi g"
    using r assms(1) ab
    by (auto simp: f64_round_def f64_pack_def power_int_add simp flip: g_def q_def split: if_splits)
  have "2 * \<bar>int (q * b) - int a\<bar> \<le> int b"
    unfolding q_def by (rule round_half_even_nearest [OF b])
  then have "real_of_int (2 * \<bar>int (q * b) - int a\<bar>) \<le> real_of_int (int b)"
    by (simp only: of_int_le_iff)
  then have "2 * \<bar>real q * real b - real a\<bar> \<le> real b" by simp
  moreover have "real q * real b - real a = (real q - real a / real b) * real b"
    using b by (simp add: left_diff_distrib)
  ultimately have "(2 * \<bar>real q - real a / real b\<bar>) * real b \<le> 1 * real b"
    by (simp add: abs_mult)
  then have q: "\<bar>real q - real a / real b\<bar> \<le> 1 / 2" using b by simp
  have "real n / real d = real a / real b * 2 powi g"
    using scale_frac_val(1) [OF ab] by (simp add: power_int_minus)
  then have "f64_val (F64 s m e) - real n / real d = (real q - real a / real b) * 2 powi g"
    using s by (simp add: f64_val_def left_diff_distrib)
  then have "\<bar>f64_val (F64 s m e) - real n / real d\<bar> = \<bar>real q - real a / real b\<bar> * 2 powi g"
    by (simp add: abs_mult)
  also have "\<dots> \<le> 1 / 2 * 2 powi g" using q by (intro mult_right_mono) auto
  finally show ?thesis by (simp add: g_def)
qed

text \<open>Adding zero, and the integer square root.\<close>

lemma f64_add_zero:
  assumes "2 ^ 52 \<le> m" "m < 2 ^ 53" "- 1074 \<le> e" "e \<le> 971"
  shows "f64_add (F64 s m e) (F64 t 0 (- 1074)) = F64 s m e" "f64_add (F64 t 0 (- 1074)) (F64 s m e) = F64 s m e"
proof -
  have m: "0 < m" using assms(1) by (rule less_le_trans [rotated]) simp
  obtain k where k: "e = int k - 1074" using assms(3) by (metis add.commute diff_add_cancel zle_iff_zadd uminus_add_conv_diff)
  have "real (m * 2 ^ k) / real (2 ^ 1074) = real m * 2 powi e"
    by (simp add: k power_int_diff)
  then have r: "f64_round s (m * 2 ^ k) (2 ^ 1074) = F64 s m e"
    by (intro f64_round_exact assms) simp_all
  have abs: "nat \<bar>signed s m * 2 ^ k\<bar> = m * 2 ^ k" "signed s m * 2 ^ k < 0 \<longleftrightarrow> s" "signed s m \<noteq> 0" "signed t 0 = 0"
    using m by (auto simp: signed_def abs_mult nat_mult_distrib nat_power_eq mult_less_0_iff)
  show "f64_add (F64 s m e) (F64 t 0 (- 1074)) = F64 s m e"
    using abs r by (cases "k = 0") (simp_all add: k scale_frac_def min_def)
  show "f64_add (F64 t 0 (- 1074)) (F64 s m e) = F64 s m e"
    using abs r by (cases "k = 0") (simp_all add: k scale_frac_def min_def)
qed

lemma isqrt_bounds: "isqrt n * isqrt n \<le> n \<and> n < (isqrt n + 1) * (isqrt n + 1)"
proof (induction n rule: isqrt.induct)
  case (1 n)
  show ?case
  proof (cases "n = 0")
    case False
    let ?r = "isqrt (n div 4)"
    have IH: "?r * ?r \<le> n div 4" "n div 4 < (?r + 1) * (?r + 1)" using 1 [OF False] by auto
    have "2 * ?r * (2 * ?r) \<le> n" using IH(1) by (simp add: algebra_simps)
    moreover have "n < (2 * ?r + 2) * (2 * ?r + 2)" using IH(2) by (simp add: algebra_simps)
    ultimately show ?thesis using False by (subst (1 2 3 4) isqrt.simps) (simp add: Let_def algebra_simps)
  qed (simp add: isqrt.simps)
qed

lemma isqrt_unique: "r * r \<le> n \<Longrightarrow> n < (r + 1) * (r + 1) \<Longrightarrow> isqrt n = r"
  using isqrt_bounds [of n] mult_le_mono [of "isqrt n + 1" r "isqrt n + 1" r] mult_le_mono [of "r + 1" "isqrt n" "r + 1" "isqrt n"]
  by (cases "isqrt n" r rule: linorder_cases) auto

lemmas f64_eval = f64_of_nat_def f64_round_def f64_exponent_def scale_frac_def f64_pack_def
  round_half_even_def bitlen.simps f64_sub_def signed_def

end
