(* ===== verification/Accounts.thy ===== *)
theory Accounts
  imports Errors Float64
begin

text \<open>
  Accounts as programs see them: \<^verbatim>\<open>AccountSharedData\<close> (\<^verbatim>\<open>sdk/src/account.rs\<close>), the keyed
  accounts of an instruction (\<^verbatim>\<open>keyed_account.rs\<close>), address derivation from a seed
  (\<^verbatim>\<open>pubkey.rs\<close>), and the balances of a store.

  The changes of an instruction that fails are discarded with its transaction, so an
  operation returns the new store on success and only the error otherwise.

  The accounts of a transaction live in \<^verbatim>\<open>RefCell\<close>s, and two keyed accounts of an
  instruction may share one. A \<open>store\<close> is the list of cells and a keyed account holds the
  index of its cell, so that this aliasing is part of the model. Every borrow of the
  modelled code ends with its statement, so \<^verbatim>\<open>try_borrow\<close> does not fail there.

  Account data is bytes; \<^verbatim>\<open>bincode\<close> is a parameter, a \<open>codec\<close> with its serialiser and its
  deserialiser, and so is the hash function \<^verbatim>\<open>hashv\<close> (SHA-256).
\<close>

section \<open>Account data\<close>

record account_shared_data =
  acc_lamports :: u64
  acc_data :: bytes
  acc_owner :: pubkey
  acc_executable :: bool
  acc_rent_epoch :: epoch

definition account_create :: "u64 \<Rightarrow> bytes \<Rightarrow> pubkey \<Rightarrow> bool \<Rightarrow> epoch \<Rightarrow> account_shared_data" where
  "account_create lamports data owner executable rent_epoch =
     \<lparr>acc_lamports = lamports, acc_data = data, acc_owner = owner,
      acc_executable = executable, acc_rent_epoch = rent_epoch\<rparr>"

definition shared_new :: "u64 \<Rightarrow> usize \<Rightarrow> pubkey \<Rightarrow> account_shared_data" where
  "shared_new lamports space owner = account_create lamports (replicate space 0) owner False 0"

definition shared_new_rent_epoch :: "u64 \<Rightarrow> usize \<Rightarrow> pubkey \<Rightarrow> epoch \<Rightarrow> account_shared_data" where
  "shared_new_rent_epoch lamports space owner rent_epoch =
     account_create lamports (replicate space 0) owner False rent_epoch"

definition accounts_equal :: "account_shared_data \<Rightarrow> account_shared_data \<Rightarrow> bool" where
  "accounts_equal me other =
     (acc_lamports me = acc_lamports other \<and> acc_data me = acc_data other \<and>
      acc_owner me = acc_owner other \<and> acc_executable me = acc_executable other \<and>
      acc_rent_epoch me = acc_rent_epoch other)"

definition set_lamports :: "u64 \<Rightarrow> account_shared_data \<Rightarrow> account_shared_data" where
  "set_lamports lamports a = a\<lparr>acc_lamports := lamports\<rparr>"

definition checked_add_lamports ::
  "u64 \<Rightarrow> account_shared_data \<Rightarrow> (account_shared_data, lamports_error) result" where
  "checked_add_lamports lamports a =
     bindE (ok_or (checked_add64 (acc_lamports a) lamports) LE_ArithmeticOverflow)
       (\<lambda>l. Ok (set_lamports l a))"

definition checked_sub_lamports ::
  "u64 \<Rightarrow> account_shared_data \<Rightarrow> (account_shared_data, lamports_error) result" where
  "checked_sub_lamports lamports a =
     bindE (ok_or (checked_sub64 (acc_lamports a) lamports) LE_ArithmeticUnderflow)
       (\<lambda>l. Ok (set_lamports l a))"

definition saturating_add_lamports :: "u64 \<Rightarrow> account_shared_data \<Rightarrow> account_shared_data" where
  "saturating_add_lamports lamports a =
     set_lamports (saturating_add64 (acc_lamports a) lamports) a"

definition saturating_sub_lamports :: "u64 \<Rightarrow> account_shared_data \<Rightarrow> account_shared_data" where
  "saturating_sub_lamports lamports a =
     set_lamports (saturating_sub64 (acc_lamports a) lamports) a"

definition set_data :: "bytes \<Rightarrow> account_shared_data \<Rightarrow> account_shared_data" where
  "set_data d a = a\<lparr>acc_data := d\<rparr>"

definition set_data_from_slice :: "bytes \<Rightarrow> account_shared_data \<Rightarrow> account_shared_data" where
  "set_data_from_slice d a =
     (let len_different = (length (acc_data a) \<noteq> length d);
          different = (len_different \<or> d \<noteq> acc_data a)
      in if different then a\<lparr>acc_data := d\<rparr> else a)"

definition set_owner :: "pubkey \<Rightarrow> account_shared_data \<Rightarrow> account_shared_data" where
  "set_owner owner a = a\<lparr>acc_owner := owner\<rparr>"

definition set_executable :: "bool \<Rightarrow> account_shared_data \<Rightarrow> account_shared_data" where
  "set_executable executable a = a\<lparr>acc_executable := executable\<rparr>"

definition set_rent_epoch :: "epoch \<Rightarrow> account_shared_data \<Rightarrow> account_shared_data" where
  "set_rent_epoch epoch a = a\<lparr>acc_rent_epoch := epoch\<rparr>"

lemmas account_setters = set_lamports_def set_data_def set_owner_def set_executable_def
  set_rent_epoch_def

subsection \<open>State held in account data\<close>

record 'a codec =
  serialize :: "'a \<Rightarrow> bytes"
  deserialize :: "bytes \<Rightarrow> 'a option"

text \<open>
  What the code relies on for a value: deserialising reads it back, whatever follows it
  (\<^verbatim>\<open>bincode::deserialize\<close> ignores trailing bytes).
\<close>

definition codec_roundtrip :: "'a codec \<Rightarrow> 'a \<Rightarrow> bool" where
  "codec_roundtrip c x = (\<forall>rest. deserialize c (serialize c x @ rest) = Some x)"

text \<open>
  A weaker law that holds for every value, in the range of its type or not: what was written is never
  read back as something else.
\<close>

definition codec_faithful :: "'a codec \<Rightarrow> bool" where
  "codec_faithful c = (\<forall>x rest y. deserialize c (serialize c x @ rest) = Some y \<longrightarrow> y = x)"

text \<open>A codec for the values of a table, which writes the index of the value: for concrete examples.\<close>

definition table_codec :: "'a list \<Rightarrow> 'a codec" where
  "table_codec xs =
     \<lparr>serialize = (\<lambda>x. [of_nat (length (takeWhile (\<lambda>y. y \<noteq> x) xs))]),
      deserialize = (\<lambda>d. case d of [] \<Rightarrow> None | b # _ \<Rightarrow> if unat b < length xs then Some (xs ! unat b) else None)\<rparr>"

lemma table_codec_laws:
  assumes "length xs < 256"
  shows "codec_faithful (table_codec xs)" "x \<in> set xs \<Longrightarrow> codec_roundtrip (table_codec xs) x"
proof -
  define i where "i x = length (takeWhile (\<lambda>y. y \<noteq> x) xs)" for x
  have un: "unat (of_nat (i x) :: 8 word) = i x" for x
    using assms length_takeWhile_le [of "\<lambda>y. y \<noteq> x" xs] by (simp add: i_def unat_of_nat)
  have nth: "i x < length xs \<Longrightarrow> xs ! i x = x" for x
    unfolding i_def using nth_length_takeWhile by blast
  show "codec_faithful (table_codec xs)"
    using un nth by (auto simp: codec_faithful_def table_codec_def i_def [symmetric] split: if_splits)
  have "i x < length xs" if "x \<in> set xs" for x
    unfolding i_def using that by (induction xs) auto
  then show "x \<in> set xs \<Longrightarrow> codec_roundtrip (table_codec xs) x"
    using un nth by (auto simp: codec_roundtrip_def table_codec_def i_def [symmetric])
qed

definition deserialize_data :: "'a codec \<Rightarrow> account_shared_data \<Rightarrow> 'a option" where
  "deserialize_data c a = deserialize c (acc_data a)"

definition account_state :: "'a codec \<Rightarrow> account_shared_data \<Rightarrow> ('a, instruction_error) result" where
  "account_state c a = ok_or (deserialize_data c a) InvalidAccountData"

text \<open>
  \<^verbatim>\<open>serialize_into\<close> overwrites the beginning of the data and keeps its length; a state larger
  than the data is refused.
\<close>

definition account_set_state ::
  "'a codec \<Rightarrow> 'a \<Rightarrow> account_shared_data \<Rightarrow> (account_shared_data, instruction_error) result" where
  "account_set_state c x a =
     (let b = serialize c x in
      if length b > length (acc_data a) then Err AccountDataTooSmall
      else Ok (a\<lparr>acc_data := b @ drop (length b) (acc_data a)\<rparr>))"

lemma account_state_set_state:
  assumes "codec_roundtrip c x" "account_set_state c x a = Ok a'"
  shows "account_state c a' = Ok x"
  using assms
  by (auto simp: account_set_state_def account_state_def deserialize_data_def codec_roundtrip_def
      Let_def split: if_splits)

lemma account_set_state_frame:
  assumes "account_set_state c x a = Ok a'"
  shows "acc_lamports a' = acc_lamports a" "acc_owner a' = acc_owner a"
    "acc_executable a' = acc_executable a" "acc_rent_epoch a' = acc_rent_epoch a"
    "length (acc_data a') = length (acc_data a)"
  using assms by (auto simp: account_set_state_def Let_def split: if_splits)

section \<open>Keyed accounts\<close>

type_synonym store = "account_shared_data list"

record keyed_account =
  is_signer :: bool
  is_writable :: bool
  unsigned_key :: pubkey
  ka_account :: nat

definition signer_key :: "keyed_account \<Rightarrow> pubkey option" where
  "signer_key ka = (if is_signer ka then Some (unsigned_key ka) else None)"

definition account_ref :: "store \<Rightarrow> keyed_account \<Rightarrow> account_shared_data" where
  "account_ref s ka = s ! ka_account ka"

definition ka_lamports :: "store \<Rightarrow> keyed_account \<Rightarrow> u64" where
  "ka_lamports s ka = acc_lamports (account_ref s ka)"

definition ka_data_len :: "store \<Rightarrow> keyed_account \<Rightarrow> usize" where
  "ka_data_len s ka = length (acc_data (account_ref s ka))"

definition ka_data_is_empty :: "store \<Rightarrow> keyed_account \<Rightarrow> bool" where
  "ka_data_is_empty s ka = (acc_data (account_ref s ka) = [])"

definition ka_owner :: "store \<Rightarrow> keyed_account \<Rightarrow> pubkey" where
  "ka_owner s ka = acc_owner (account_ref s ka)"

definition ka_executable :: "store \<Rightarrow> keyed_account \<Rightarrow> bool" where
  "ka_executable s ka = acc_executable (account_ref s ka)"

definition ka_rent_epoch :: "store \<Rightarrow> keyed_account \<Rightarrow> epoch" where
  "ka_rent_epoch s ka = acc_rent_epoch (account_ref s ka)"

text \<open>A mutation of the cell behind a keyed account (\<^verbatim>\<open>try_account_ref_mut()?\<close>).\<close>

definition account_ref_mut ::
  "keyed_account \<Rightarrow> (account_shared_data \<Rightarrow> (account_shared_data, 'e) result) \<Rightarrow> store \<Rightarrow> (store, 'e) result" where
  "account_ref_mut ka f s =
     bindE (f (account_ref s ka)) (\<lambda>a. Ok (s[ka_account ka := a]))"

definition ka_state :: "'a codec \<Rightarrow> store \<Rightarrow> keyed_account \<Rightarrow> ('a, instruction_error) result" where
  "ka_state c s ka = account_state c (account_ref s ka)"

definition ka_set_state ::
  "'a codec \<Rightarrow> keyed_account \<Rightarrow> 'a \<Rightarrow> store \<Rightarrow> (store, instruction_error) result" where
  "ka_set_state c ka x s = account_ref_mut ka (account_set_state c x) s"

definition get_signers :: "keyed_account list \<Rightarrow> pubkey set" where
  "get_signers keyed_accounts = set (List.map_filter signer_key keyed_accounts)"

definition keyed_account_at_index ::
  "keyed_account list \<Rightarrow> usize \<Rightarrow> (keyed_account, instruction_error) result" where
  "keyed_account_at_index keyed_accounts index =
     (if index < length keyed_accounts then Ok (keyed_accounts ! index)
      else Err NotEnoughAccountKeys)"

definition ka_checked_add_lamports ::
  "keyed_account \<Rightarrow> u64 \<Rightarrow> store \<Rightarrow> (store, instruction_error) result" where
  "ka_checked_add_lamports ka lamports s =
     account_ref_mut ka (\<lambda>a. map_err instruction_error_of_lamports (checked_add_lamports lamports a)) s"

definition ka_checked_sub_lamports ::
  "keyed_account \<Rightarrow> u64 \<Rightarrow> store \<Rightarrow> (store, instruction_error) result" where
  "ka_checked_sub_lamports ka lamports s =
     account_ref_mut ka (\<lambda>a. map_err instruction_error_of_lamports (checked_sub_lamports lamports a)) s"

section \<open>Addresses derived from a seed\<close>

definition MAX_SEED_LEN :: usize where "MAX_SEED_LEN = 32"

definition PDA_MARKER :: bytes where
  "PDA_MARKER = map (of_nat \<circ> of_char) ''ProgramDerivedAddress''"

type_synonym hash_function = "bytes list \<Rightarrow> hash"

definition create_with_seed ::
  "hash_function \<Rightarrow> pubkey \<Rightarrow> bytes \<Rightarrow> pubkey \<Rightarrow> (pubkey, pubkey_error) result" where
  "create_with_seed hashv base seed owner =
     (if length seed > MAX_SEED_LEN then Err PKE_MaxSeedLengthExceeded
      else
        let owner_bytes = to_bytes owner in
        if length owner_bytes \<ge> length PDA_MARKER \<and>
           drop (length owner_bytes - length PDA_MARKER) owner_bytes = PDA_MARKER
        then Err PKE_IllegalOwner
        else Ok (hashv [to_bytes base, seed, owner_bytes]))"

section \<open>Balances\<close>

definition total_lamports :: "store \<Rightarrow> nat" where
  "total_lamports s = sum_list (map acc_lamports s)"

definition valid_keyed_account :: "store \<Rightarrow> keyed_account \<Rightarrow> bool" where
  "valid_keyed_account s ka = (ka_account ka < length s)"

definition lamports_in_range :: "store \<Rightarrow> bool" where
  "lamports_in_range s = (\<forall>a \<in> set s. acc_lamports a \<le> u64_max)"

lemma total_lamports_update:
  assumes "i < length s"
  shows "total_lamports (s[i := a]) + acc_lamports (s ! i) = total_lamports s + acc_lamports a"
proof -
  have le: "acc_lamports (s ! i) \<le> sum_list (map acc_lamports s)"
    using assms by (intro member_le_sum_list) auto
  have "total_lamports (s[i := a]) = sum_list ((map acc_lamports s)[i := acc_lamports a])"
    by (simp add: total_lamports_def map_update)
  also have "\<dots> = total_lamports s + acc_lamports a - acc_lamports (s ! i)"
    using assms by (simp add: sum_list_update total_lamports_def)
  finally show ?thesis using le by (simp add: total_lamports_def)
qed

lemma account_ref_mut_length [simp]:
  "account_ref_mut ka f s = Ok s' \<Longrightarrow> length s' = length s"
  by (auto simp: account_ref_mut_def result_simps)

lemma account_ref_mut_total:
  assumes "account_ref_mut ka f s = Ok s'" "valid_keyed_account s ka"
    and "\<And>a a'. f a = Ok a' \<Longrightarrow> acc_lamports a' = acc_lamports a"
  shows "total_lamports s' = total_lamports s"
proof -
  obtain a where "f (account_ref s ka) = Ok a" "s' = s[ka_account ka := a]"
    using assms(1) by (auto simp: account_ref_mut_def result_simps)
  with assms(2,3) total_lamports_update [of "ka_account ka" s a] show ?thesis
    by (fastforce simp: valid_keyed_account_def account_ref_def)
qed

lemma ka_set_state_total:
  assumes "ka_set_state c ka x s = Ok s'" "valid_keyed_account s ka"
  shows "total_lamports s' = total_lamports s"
  using assms(1,2) unfolding ka_set_state_def
  by (rule account_ref_mut_total) (auto dest: account_set_state_frame)

lemma ka_checked_sub_total:
  assumes "ka_checked_sub_lamports ka n s = Ok s'" "valid_keyed_account s ka"
  shows "total_lamports s' + n = total_lamports s" "n \<le> ka_lamports s ka"
proof -
  obtain a where a: "checked_sub_lamports n (account_ref s ka) = Ok a" "s' = s[ka_account ka := a]"
    using assms(1) by (auto simp: ka_checked_sub_lamports_def account_ref_mut_def result_simps)
  then have "acc_lamports a + n = acc_lamports (s ! ka_account ka)" "n \<le> acc_lamports (s ! ka_account ka)"
    by (auto simp: checked_sub_lamports_def set_lamports_def account_ref_def result_simps)
  with total_lamports_update [of "ka_account ka" s a] assms(2) a(2)
  show "total_lamports s' + n = total_lamports s" "n \<le> ka_lamports s ka"
    by (auto simp: valid_keyed_account_def ka_lamports_def account_ref_def)
qed

lemma ka_checked_add_total:
  assumes "ka_checked_add_lamports ka n s = Ok s'" "valid_keyed_account s ka"
  shows "total_lamports s' = total_lamports s + n"
proof -
  obtain a where a: "checked_add_lamports n (account_ref s ka) = Ok a" "s' = s[ka_account ka := a]"
    using assms(1) by (auto simp: ka_checked_add_lamports_def account_ref_mut_def result_simps)
  then have "acc_lamports a = acc_lamports (s ! ka_account ka) + n"
    by (auto simp: checked_add_lamports_def set_lamports_def account_ref_def result_simps)
  with total_lamports_update [of "ka_account ka" s a] assms(2) a(2) show ?thesis
    by (auto simp: valid_keyed_account_def)
qed

lemma valid_keyed_account_length:
  "length s' = length s \<Longrightarrow> valid_keyed_account s' ka = valid_keyed_account s ka"
  by (simp add: valid_keyed_account_def)

text \<open>Moving lamports from one keyed account to another, possibly the same one.\<close>

lemma move_lamports_total:
  assumes "ka_checked_sub_lamports from n s = Ok s1" "ka_checked_add_lamports to n s1 = Ok s2"
    and "valid_keyed_account s from" "valid_keyed_account s to"
  shows "total_lamports s2 = total_lamports s"
proof -
  have "length s1 = length s"
    using assms(1) by (simp add: ka_checked_sub_lamports_def)
  then have "valid_keyed_account s1 to"
    using assms(4) by (simp add: valid_keyed_account_def)
  then show ?thesis
    using ka_checked_sub_total [OF assms(1,3)] ka_checked_add_total [OF assms(2)] by simp
qed

lemma ka_set_state_reads:
  assumes "ka_set_state c ka x s = Ok s'" "valid_keyed_account s ka" "codec_roundtrip c x"
  shows "ka_state c s' ka = Ok x" "\<And>i. i \<noteq> ka_account ka \<Longrightarrow> s' ! i = s ! i"
    "ka_lamports s' ka = ka_lamports s ka" "ka_data_len s' ka = ka_data_len s ka"
    "length s' = length s"
proof -
  obtain a where a: "account_set_state c x (account_ref s ka) = Ok a" "s' = s[ka_account ka := a]"
    using assms(1) by (auto simp: ka_set_state_def account_ref_mut_def result_simps)
  note st = account_state_set_state [OF assms(3) a(1)] and fr = account_set_state_frame [OF a(1)]
  show "ka_state c s' ka = Ok x" "\<And>i. i \<noteq> ka_account ka \<Longrightarrow> s' ! i = s ! i"
    "ka_lamports s' ka = ka_lamports s ka" "ka_data_len s' ka = ka_data_len s ka"
    "length s' = length s"
    using a(2) assms(2) st fr
    by (simp_all add: ka_state_def account_ref_def valid_keyed_account_def ka_lamports_def ka_data_len_def)
qed

end
