(* ===== verification/Sysvars.thy ===== *)
theory Sysvars
  imports Accounts
begin

text \<open>
  Rent (\<^verbatim>\<open>sdk/program/src/rent.rs\<close>), the clock, the feature set, the sysvar cache
  (\<^verbatim>\<open>program-runtime/src/sysvar_cache.rs\<close>) and the part of the invoke context that the
  native programs read.
\<close>

section \<open>Rent\<close>

record rent =
  lamports_per_byte_year :: u64
  exemption_threshold :: f64
  burn_percent :: nat

definition DEFAULT_SLOTS_PER_EPOCH :: u64 where "DEFAULT_SLOTS_PER_EPOCH = 432000"

definition DEFAULT_LAMPORTS_PER_BYTE_YEAR :: u64 where
  "DEFAULT_LAMPORTS_PER_BYTE_YEAR = 1000000000 div 100 * 365 div (1024 * 1024)"

definition DEFAULT_EXEMPTION_THRESHOLD :: f64 where
  "DEFAULT_EXEMPTION_THRESHOLD = f64_of_nat 2"

definition DEFAULT_BURN_PERCENT :: nat where "DEFAULT_BURN_PERCENT = 50"

definition ACCOUNT_STORAGE_OVERHEAD :: u64 where "ACCOUNT_STORAGE_OVERHEAD = 128"

definition default_rent :: rent where
  "default_rent = \<lparr>lamports_per_byte_year = DEFAULT_LAMPORTS_PER_BYTE_YEAR,
     exemption_threshold = DEFAULT_EXEMPTION_THRESHOLD, burn_percent = DEFAULT_BURN_PERCENT\<rparr>"

definition calculate_burn :: "rent \<Rightarrow> u64 \<Rightarrow> u64 \<times> u64" where
  "calculate_burn r rent_collected =
     (let burned_portion = wrap64 (rent_collected * burn_percent r) div 100
      in (burned_portion, wrapping_sub64 rent_collected burned_portion))"

definition minimum_balance :: "rent \<Rightarrow> usize \<Rightarrow> u64" where
  "minimum_balance r data_len =
     f64_to_u64 (f64_mul
       (f64_of_nat (wrap64 (wrap64 (ACCOUNT_STORAGE_OVERHEAD + data_len) * lamports_per_byte_year r)))
       (exemption_threshold r))"

definition is_exempt :: "rent \<Rightarrow> u64 \<Rightarrow> usize \<Rightarrow> bool" where
  "is_exempt r balance data_len = (balance \<ge> minimum_balance r data_len)"

definition due_amount :: "rent \<Rightarrow> usize \<Rightarrow> f64 \<Rightarrow> u64" where
  "due_amount r data_len years_elapsed =
     (let actual_data_len = wrap64 (data_len + ACCOUNT_STORAGE_OVERHEAD);
          lamports_per_year = wrap64 (lamports_per_byte_year r * actual_data_len)
      in f64_to_u64 (f64_mul (f64_of_nat lamports_per_year) years_elapsed))"

datatype rent_due = Exempt | Paying u64

definition due :: "rent \<Rightarrow> u64 \<Rightarrow> usize \<Rightarrow> f64 \<Rightarrow> rent_due" where
  "due r balance data_len years_elapsed =
     (if is_exempt r balance data_len then Exempt
      else Paying (due_amount r data_len years_elapsed))"

fun rent_due_lamports :: "rent_due \<Rightarrow> u64" where
  "rent_due_lamports Exempt = 0"
| "rent_due_lamports (Paying x) = x"

fun rent_due_is_exempt :: "rent_due \<Rightarrow> bool" where
  "rent_due_is_exempt Exempt = True"
| "rent_due_is_exempt (Paying _) = False"

definition rent_free :: rent where
  "rent_free = default_rent\<lparr>lamports_per_byte_year := 0\<rparr>"

definition with_slots_per_epoch :: "u64 \<Rightarrow> rent" where
  "with_slots_per_epoch slots_per_epoch =
     (let ratio = f64_div (f64_of_nat slots_per_epoch) (f64_of_nat DEFAULT_SLOTS_PER_EPOCH)
      in default_rent
           \<lparr>lamports_per_byte_year :=
              f64_to_u64 (f64_div (f64_of_nat DEFAULT_LAMPORTS_PER_BYTE_YEAR) ratio),
            exemption_threshold := f64_mul DEFAULT_EXEMPTION_THRESHOLD ratio\<rparr>)"

section \<open>Clock, feature set and sysvars\<close>

record clock =
  clock_slot :: slot
  epoch_start_timestamp :: unix_timestamp
  clock_epoch :: epoch
  leader_schedule_epoch :: epoch
  clock_unix_timestamp :: unix_timestamp

definition default_clock :: clock where
  "default_clock = \<lparr>clock_slot = 0, epoch_start_timestamp = 0, clock_epoch = 0,
     leader_schedule_epoch = 0, clock_unix_timestamp = 0\<rparr>"

text \<open>The feature gates that the modelled code reads.\<close>

datatype feature =
    merge_nonce_error_into_system_error | nonce_must_be_writable | separate_nonce_from_blockhash
  | system_transfer_zero_check | vote_authorize_with_seed
  | allow_votes_to_directly_update_vote_state | reject_non_rent_exempt_vote_withdraws
  | reject_vote_account_close_unless_zero_credit_epoch | vote_stake_checked_instructions
  | vote_withdraw_authority_may_change_authorized_voter | filter_votes_outside_slot_hashes
  | return_none_for_zero_lamport_accounts | preserve_rent_epoch_for_rent_exempt_accounts
  | instructions_sysvar_owned_by_sysvar | do_support_realloc | include_account_index_in_rent_error
  | prevent_crediting_accounts_that_end_rent_paying | require_rent_exempt_accounts
  | tx_wide_compute_cap | neon_evm_compute_budget | requestable_heap_size | cap_accounts_data_len
  | record_instruction_in_transaction_context_push | reject_empty_instruction_without_program
  | remove_native_loader | prevent_calling_precompiles_as_programs | dedupe_config_program_signers
  | require_custodian_for_locked_stake_authorize | stake_merge_with_unmatched_credits_observed

type_synonym feature_set = "(feature \<times> slot) list"

definition is_active :: "feature_set \<Rightarrow> feature \<Rightarrow> bool" where
  "is_active active f = (map_of active f \<noteq> None)"

type_synonym slot_hash = "slot \<times> hash"

record epoch_schedule =
  slots_per_epoch :: u64
  leader_schedule_slot_offset :: u64
  warmup :: bool
  first_normal_epoch :: epoch
  first_normal_slot :: slot

record stake_history_entry =
  effective :: u64
  activating :: u64
  deactivating :: u64

type_synonym stake_history = "(epoch \<times> stake_history_entry) list"

record sysvar_cache =
  sc_clock :: "clock option"
  sc_epoch_schedule :: "epoch_schedule option"
  sc_fees :: "u64 option"
  sc_rent :: "rent option"
  sc_slot_hashes :: "slot_hash list option"
  sc_recent_blockhashes :: "(hash \<times> u64) list option"
  sc_stake_history :: "stake_history option"

definition default_sysvar_cache :: sysvar_cache where
  "default_sysvar_cache = \<lparr>sc_clock = None, sc_epoch_schedule = None, sc_fees = None, sc_rent = None,
     sc_slot_hashes = None, sc_recent_blockhashes = None, sc_stake_history = None\<rparr>"

definition get_clock :: "sysvar_cache \<Rightarrow> (clock, instruction_error) result" where
  "get_clock c = ok_or (sc_clock c) UnsupportedSysvar"

definition get_epoch_schedule :: "sysvar_cache \<Rightarrow> (epoch_schedule, instruction_error) result" where
  "get_epoch_schedule c = ok_or (sc_epoch_schedule c) UnsupportedSysvar"

definition get_fees :: "sysvar_cache \<Rightarrow> (u64, instruction_error) result" where
  "get_fees c = ok_or (sc_fees c) UnsupportedSysvar"

definition get_rent :: "sysvar_cache \<Rightarrow> (rent, instruction_error) result" where
  "get_rent c = ok_or (sc_rent c) UnsupportedSysvar"

definition get_slot_hashes :: "sysvar_cache \<Rightarrow> (slot_hash list, instruction_error) result" where
  "get_slot_hashes c = ok_or (sc_slot_hashes c) UnsupportedSysvar"

definition get_recent_blockhashes ::
  "sysvar_cache \<Rightarrow> ((hash \<times> u64) list, instruction_error) result" where
  "get_recent_blockhashes c = ok_or (sc_recent_blockhashes c) UnsupportedSysvar"

definition get_stake_history :: "sysvar_cache \<Rightarrow> (stake_history, instruction_error) result" where
  "get_stake_history c = ok_or (sc_stake_history c) UnsupportedSysvar"

lemmas sysvar_getters = get_clock_def get_epoch_schedule_def get_fees_def get_rent_def
  get_slot_hashes_def get_recent_blockhashes_def get_stake_history_def

text \<open>The decoders of the sysvar accounts (\<^verbatim>\<open>bincode::deserialize\<close>) are a parameter.\<close>

record sysvar_decoders =
  de_clock :: "bytes \<Rightarrow> clock option"
  de_epoch_schedule :: "bytes \<Rightarrow> epoch_schedule option"
  de_fees :: "bytes \<Rightarrow> u64 option"
  de_rent :: "bytes \<Rightarrow> rent option"
  de_slot_hashes :: "bytes \<Rightarrow> slot_hash list option"
  de_recent_blockhashes :: "bytes \<Rightarrow> (hash \<times> u64) list option"
  de_stake_history :: "bytes \<Rightarrow> stake_history option"

definition clock_id :: pubkey where
  "clock_id = 3010411245977774767103551433779408434046391008353408711474217313814305570816"
definition epoch_schedule_id :: pubkey where
  "epoch_schedule_id = 3010411245986328729646169808388022824879167805765813351222839694649813106688"
definition fees_id :: pubkey where
  "fees_id = 3010411245988839768080938779134895012715399673910392426883968584161274363904"
definition rent_id :: pubkey where
  "rent_id = 3010411246019284437244212147455409835011261068170932596721577831542904848384"
definition slot_hashes_id :: pubkey where
  "slot_hashes_id = 3010411246020387390845657635421930170267332101929006271628180992244983005184"
definition recent_blockhashes_id :: pubkey where
  "recent_blockhashes_id =
     3010411246019275183202241475159751154561037627022909547359528646525818241024"
definition stake_history_id :: pubkey where
  "stake_history_id = 3010411246023051902640053541412638131892130328438861384560211382976271876096"

definition load_entry ::
  "(pubkey \<Rightarrow> account_shared_data option) \<Rightarrow> pubkey \<Rightarrow> (bytes \<Rightarrow> 'a option) \<Rightarrow> 'a option \<Rightarrow> 'a option" where
  "load_entry load_sysvar_account sysvar_id de entry =
     (case entry of
        Some x \<Rightarrow> Some x
      | None \<Rightarrow> Option.bind (load_sysvar_account sysvar_id) (\<lambda>account. de (acc_data account)))"

definition fill_missing_entries ::
  "sysvar_decoders \<Rightarrow> (pubkey \<Rightarrow> account_shared_data option) \<Rightarrow> sysvar_cache \<Rightarrow> sysvar_cache" where
  "fill_missing_entries d load c =
     c\<lparr>sc_clock := load_entry load clock_id (de_clock d) (sc_clock c),
       sc_epoch_schedule := load_entry load epoch_schedule_id (de_epoch_schedule d) (sc_epoch_schedule c),
       sc_fees := load_entry load fees_id (de_fees d) (sc_fees c),
       sc_rent := load_entry load rent_id (de_rent d) (sc_rent c),
       sc_slot_hashes := load_entry load slot_hashes_id (de_slot_hashes d) (sc_slot_hashes c),
       sc_recent_blockhashes :=
         load_entry load recent_blockhashes_id (de_recent_blockhashes d) (sc_recent_blockhashes c),
       sc_stake_history := load_entry load stake_history_id (de_stake_history d) (sc_stake_history c)\<rparr>"

section \<open>The invoke context\<close>

record invoke_context =
  ic_keyed_accounts :: "keyed_account list"
  ic_sysvar_cache :: sysvar_cache
  ic_feature_set :: feature_set
  ic_blockhash :: hash
  ic_lamports_per_signature :: u64

definition check_sysvar_keyed_account :: "pubkey \<Rightarrow> keyed_account \<Rightarrow> (unit, instruction_error) result" where
  "check_sysvar_keyed_account sysvar_id ka = guardE (unsigned_key ka = sysvar_id) InvalidArgument"

definition check_clock :: "keyed_account \<Rightarrow> invoke_context \<Rightarrow> (clock, instruction_error) result" where
  "check_clock ka ic = bindE (check_sysvar_keyed_account clock_id ka)
     (\<lambda>_. get_clock (ic_sysvar_cache ic))"

definition check_rent :: "keyed_account \<Rightarrow> invoke_context \<Rightarrow> (rent, instruction_error) result" where
  "check_rent ka ic = bindE (check_sysvar_keyed_account rent_id ka)
     (\<lambda>_. get_rent (ic_sysvar_cache ic))"

definition check_slot_hashes ::
  "keyed_account \<Rightarrow> invoke_context \<Rightarrow> (slot_hash list, instruction_error) result" where
  "check_slot_hashes ka ic = bindE (check_sysvar_keyed_account slot_hashes_id ka)
     (\<lambda>_. get_slot_hashes (ic_sysvar_cache ic))"

definition check_recent_blockhashes ::
  "keyed_account \<Rightarrow> invoke_context \<Rightarrow> ((hash \<times> u64) list, instruction_error) result" where
  "check_recent_blockhashes ka ic = bindE (check_sysvar_keyed_account recent_blockhashes_id ka)
     (\<lambda>_. get_recent_blockhashes (ic_sysvar_cache ic))"

definition check_stake_history ::
  "keyed_account \<Rightarrow> invoke_context \<Rightarrow> (stake_history, instruction_error) result" where
  "check_stake_history ka ic = bindE (check_sysvar_keyed_account stake_history_id ka)
     (\<lambda>_. get_stake_history (ic_sysvar_cache ic))"

section \<open>Properties of rent\<close>

lemma minimum_balance_exact:
  assumes "exemption_threshold r = f64_of_nat 2" "0 < lamports_per_byte_year r"
    and "2 * ((128 + data_len) * lamports_per_byte_year r) < 2 ^ 53"
  shows "minimum_balance r data_len = 2 * ((128 + data_len) * lamports_per_byte_year r)"
proof -
  define m where "m = (128 + data_len) * lamports_per_byte_year r"
  have le: "128 + data_len \<le> m" and lt: "m * 2 < 2 ^ 53" and pos: "0 < m"
    using assms(2,3) unfolding m_def by simp_all
  have "wrap64 (128 + data_len) = 128 + data_len" "wrap64 m = m"
    using le lt by (auto intro!: wrap64_id)
  then have w: "wrap64 (wrap64 (ACCOUNT_STORAGE_OVERHEAD + data_len) * lamports_per_byte_year r) = m"
    by (simp add: ACCOUNT_STORAGE_OVERHEAD_def m_def)
  have "f64_mul (f64_of_nat m) (f64_of_nat 2) = f64_of_nat (m * 2)"
    using lt pos by (intro f64_mul_of_nat) auto
  moreover have "f64_to_u64 (f64_of_nat (m * 2)) = m * 2"
    using lt by (intro f64_to_uint_of_nat) simp_all
  ultimately show ?thesis
    unfolding minimum_balance_def w assms(1) by (simp add: m_def)
qed

lemma calculate_burn_conserves:
  assumes "rent_collected * 100 \<le> u64_max" "burn_percent r \<le> 100"
    "calculate_burn r rent_collected = (burned, left)"
  shows "burned + left = rent_collected" "burned = rent_collected * burn_percent r div 100"
proof -
  have le: "rent_collected * burn_percent r \<le> rent_collected * 100"
    using assms(2) by simp
  have w: "wrap64 (rent_collected * burn_percent r) = rent_collected * burn_percent r"
    using le assms(1) by (intro wrap64_id) linarith
  then show b: "burned = rent_collected * burn_percent r div 100"
    using assms(3) by (auto simp: calculate_burn_def Let_def)
  have "rent_collected * burn_percent r div 100 \<le> rent_collected"
    using div_le_mono [OF le, of 100] by simp
  moreover have "rent_collected \<le> u64_max" using assms(1) by linarith
  ultimately show "burned + left = rent_collected"
    using assms(3) w by (auto simp: calculate_burn_def Let_def)
qed

text \<open>
  The \<^verbatim>\<open>f64\<close> computation of the rent-exempt minimum is exact and monotone for every data length
  and rate whose doubled product fits the 53 bit mantissa: with the default threshold of two
  years, an account is exempt iff it holds two years of rent.
\<close>

lemma is_exempt_iff:
  assumes "exemption_threshold r = f64_of_nat 2" "0 < lamports_per_byte_year r"
    and "2 * ((128 + data_len) * lamports_per_byte_year r) < 2 ^ 53"
  shows "is_exempt r balance data_len \<longleftrightarrow>
    2 * ((128 + data_len) * lamports_per_byte_year r) \<le> balance"
  by (simp only: is_exempt_def minimum_balance_exact [OF assms])

end
