(* ===== verification/Vote_State.thy ===== *)
theory Vote_State
  imports Authorized_Voters Sysvars
begin

text \<open>
  The state of a vote account (\<^verbatim>\<open>programs/vote/src/vote_state/mod.rs\<close>): lockouts, the vote
  tower, epoch credits, prior voters and the timestamps. A \<^verbatim>\<open>VecDeque\<close> is a list from its
  front to its back.
\<close>

section \<open>Votes and lockouts\<close>

definition MAX_LOCKOUT_HISTORY :: usize where "MAX_LOCKOUT_HISTORY = 31"
definition INITIAL_LOCKOUT :: usize where "INITIAL_LOCKOUT = 2"
definition MAX_EPOCH_CREDITS_HISTORY :: usize where "MAX_EPOCH_CREDITS_HISTORY = 64"
definition DEFAULT_PRIOR_VOTERS_OFFSET :: usize where "DEFAULT_PRIOR_VOTERS_OFFSET = 82"
definition MAX_LEADER_SCHEDULE_EPOCH_OFFSET :: u64 where "MAX_LEADER_SCHEDULE_EPOCH_OFFSET = 3"

datatype (plugins only: code size) vote_error =
    VoteTooOld | SlotsMismatch | SlotHashMismatch | EmptySlots | TimestampTooOld
  | TooSoonToReauthorize | LockoutConflict | NewVoteStateLockoutMismatch | SlotsNotOrdered
  | ConfirmationsNotOrdered | ZeroConfirmations | ConfirmationTooLarge | RootRollBack
  | ConfirmationRollBack | SlotSmallerThanRoot | TooManyVotes | VotesTooOldAllFiltered
  | RootOnDifferentFork | ActiveVoteAccountClose

definition vote_error_code :: "vote_error \<Rightarrow> u64" where
  "vote_error_code e =
     (case e of VoteTooOld \<Rightarrow> 0 | SlotsMismatch \<Rightarrow> 1 | SlotHashMismatch \<Rightarrow> 2 | EmptySlots \<Rightarrow> 3
      | TimestampTooOld \<Rightarrow> 4 | TooSoonToReauthorize \<Rightarrow> 5 | LockoutConflict \<Rightarrow> 6
      | NewVoteStateLockoutMismatch \<Rightarrow> 7 | SlotsNotOrdered \<Rightarrow> 8 | ConfirmationsNotOrdered \<Rightarrow> 9
      | ZeroConfirmations \<Rightarrow> 10 | ConfirmationTooLarge \<Rightarrow> 11 | RootRollBack \<Rightarrow> 12
      | ConfirmationRollBack \<Rightarrow> 13 | SlotSmallerThanRoot \<Rightarrow> 14 | TooManyVotes \<Rightarrow> 15
      | VotesTooOldAllFiltered \<Rightarrow> 16 | RootOnDifferentFork \<Rightarrow> 17 | ActiveVoteAccountClose \<Rightarrow> 18)"

definition instruction_error_of_vote :: "vote_error \<Rightarrow> instruction_error" where
  "instruction_error_of_vote e = instruction_error_of_u64 (vote_error_code e)"

record vote =
  v_slots :: "slot list"
  v_hash :: hash
  v_timestamp :: "unix_timestamp option"

definition vote_new :: "slot list \<Rightarrow> hash \<Rightarrow> vote" where
  "vote_new slots h = \<lparr>v_slots = slots, v_hash = h, v_timestamp = None\<rparr>"

record lockout =
  lo_slot :: slot
  confirmation_count :: u32

definition lockout_new :: "slot \<Rightarrow> lockout" where
  "lockout_new slot = \<lparr>lo_slot = slot, confirmation_count = 1\<rparr>"

definition lockout_period :: "lockout \<Rightarrow> u64" where
  "lockout_period l = wrap64 (INITIAL_LOCKOUT ^ confirmation_count l)"

definition last_locked_out_slot :: "lockout \<Rightarrow> slot" where
  "last_locked_out_slot l = wrap64 (lo_slot l + lockout_period l)"

definition is_locked_out_at_slot :: "lockout \<Rightarrow> slot \<Rightarrow> bool" where
  "is_locked_out_at_slot l slot = (last_locked_out_slot l \<ge> slot)"

record vote_state_update =
  vsu_lockouts :: "lockout list"
  vsu_root :: "slot option"
  vsu_hash :: hash
  vsu_timestamp :: "unix_timestamp option"

definition vsu_of_recent_slots :: "(slot \<times> u32) list \<Rightarrow> vote_state_update" where
  "vsu_of_recent_slots recent_slots =
     \<lparr>vsu_lockouts = map (\<lambda>(slot, confirmation_count).
          \<lparr>lo_slot = slot, confirmation_count = confirmation_count\<rparr>) recent_slots,
      vsu_root = None, vsu_hash = 0, vsu_timestamp = None\<rparr>"

definition vsu_new :: "lockout list \<Rightarrow> slot option \<Rightarrow> hash \<Rightarrow> vote_state_update" where
  "vsu_new lockouts new_root h =
     \<lparr>vsu_lockouts = lockouts, vsu_root = new_root, vsu_hash = h, vsu_timestamp = None\<rparr>"

definition vsu_slots :: "vote_state_update \<Rightarrow> slot list" where
  "vsu_slots u = map lo_slot (vsu_lockouts u)"

datatype vote_transaction = VT_Vote vote | VT_VoteStateUpdate vote_state_update

fun vt_slots :: "vote_transaction \<Rightarrow> slot list" where
  "vt_slots (VT_Vote v) = v_slots v"
| "vt_slots (VT_VoteStateUpdate u) = vsu_slots u"

fun vt_slot :: "vote_transaction \<Rightarrow> usize \<Rightarrow> (slot, 'e) result" where
  "vt_slot (VT_Vote v) i = bindE (assertE (i < length (v_slots v))) (\<lambda>_. Ok (v_slots v ! i))"
| "vt_slot (VT_VoteStateUpdate u) i =
     bindE (assertE (i < length (vsu_lockouts u))) (\<lambda>_. Ok (lo_slot (vsu_lockouts u ! i)))"

fun vt_len :: "vote_transaction \<Rightarrow> usize" where
  "vt_len (VT_Vote v) = length (v_slots v)"
| "vt_len (VT_VoteStateUpdate u) = length (vsu_lockouts u)"

fun vt_is_empty :: "vote_transaction \<Rightarrow> bool" where
  "vt_is_empty (VT_Vote v) = (v_slots v = [])"
| "vt_is_empty (VT_VoteStateUpdate u) = (vsu_lockouts u = [])"

fun vt_hash :: "vote_transaction \<Rightarrow> hash" where
  "vt_hash (VT_Vote v) = v_hash v"
| "vt_hash (VT_VoteStateUpdate u) = vsu_hash u"

fun vt_timestamp :: "vote_transaction \<Rightarrow> unix_timestamp option" where
  "vt_timestamp (VT_Vote v) = v_timestamp v"
| "vt_timestamp (VT_VoteStateUpdate u) = vsu_timestamp u"

fun vt_set_timestamp :: "unix_timestamp option \<Rightarrow> vote_transaction \<Rightarrow> vote_transaction" where
  "vt_set_timestamp ts (VT_Vote v) = VT_Vote (v\<lparr>v_timestamp := ts\<rparr>)"
| "vt_set_timestamp ts (VT_VoteStateUpdate u) = VT_VoteStateUpdate (u\<lparr>vsu_timestamp := ts\<rparr>)"

fun vt_last_voted_slot :: "vote_transaction \<Rightarrow> slot option" where
  "vt_last_voted_slot (VT_Vote v) = next_back (v_slots v)"
| "vt_last_voted_slot (VT_VoteStateUpdate u) = map_option lo_slot (next_back (vsu_lockouts u))"

definition vt_last_voted_slot_hash :: "vote_transaction \<Rightarrow> (slot \<times> hash) option" where
  "vt_last_voted_slot_hash t = map_option (\<lambda>slot. (slot, vt_hash t)) (vt_last_voted_slot t)"

record vote_init =
  vi_node_pubkey :: pubkey
  vi_authorized_voter :: pubkey
  vi_authorized_withdrawer :: pubkey
  vi_commission :: nat

datatype vote_authorize = Voter | Withdrawer

record vote_authorize_with_seed_args =
  vas_authorization_type :: vote_authorize
  vas_current_authority_derived_key_owner :: pubkey
  vas_current_authority_derived_key_seed :: bytes
  vas_new_authority :: pubkey

record vote_authorize_checked_with_seed_args =
  vacs_authorization_type :: vote_authorize
  vacs_current_authority_derived_key_owner :: pubkey
  vacs_current_authority_derived_key_seed :: bytes

record block_timestamp =
  bts_slot :: slot
  bts_timestamp :: unix_timestamp

section \<open>The circular buffer of prior voters\<close>

definition MAX_ITEMS :: usize where "MAX_ITEMS = 32"

record 'i circ_buf =
  cb_buf :: "'i list"
  cb_idx :: usize
  cb_is_empty :: bool

definition circ_buf_default :: "'i \<Rightarrow> 'i circ_buf" where
  "circ_buf_default d = \<lparr>cb_buf = replicate MAX_ITEMS d, cb_idx = MAX_ITEMS - 1, cb_is_empty = True\<rparr>"

definition circ_buf_append :: "'i \<Rightarrow> 'i circ_buf \<Rightarrow> 'i circ_buf" where
  "circ_buf_append item b =
     (let idx = (cb_idx b + 1) mod MAX_ITEMS
      in b\<lparr>cb_idx := idx, cb_buf := (cb_buf b)[idx := item], cb_is_empty := False\<rparr>)"

definition circ_buf_last :: "'i circ_buf \<Rightarrow> 'i option" where
  "circ_buf_last b = (if \<not> cb_is_empty b then Some (cb_buf b ! cb_idx b) else None)"

section \<open>Vote state\<close>

record vote_state =
  node_pubkey :: pubkey
  authorized_withdrawer :: pubkey
  commission :: nat
  votes :: "lockout list"
  root_slot :: "slot option"
  authorized_voters :: authorized_voters
  prior_voters :: "(pubkey \<times> epoch \<times> epoch) circ_buf"
  epoch_credits :: "(epoch \<times> u64 \<times> u64) list"
  last_timestamp :: block_timestamp

definition vote_state_default :: vote_state where
  "vote_state_default =
     \<lparr>node_pubkey = 0, authorized_withdrawer = 0, commission = 0, votes = [], root_slot = None,
      authorized_voters = [], prior_voters = circ_buf_default (0, 0, 0), epoch_credits = [],
      last_timestamp = \<lparr>bts_slot = 0, bts_timestamp = 0\<rparr>\<rparr>"

definition vote_state_new :: "vote_init \<Rightarrow> clock \<Rightarrow> vote_state" where
  "vote_state_new vi clk =
     vote_state_default
       \<lparr>node_pubkey := vi_node_pubkey vi,
        authorized_voters := av_new (clock_epoch clk) (vi_authorized_voter vi),
        authorized_withdrawer := vi_authorized_withdrawer vi,
        commission := vi_commission vi\<rparr>"

definition get_authorized_voter :: "vote_state \<Rightarrow> epoch \<Rightarrow> pubkey option" where
  "get_authorized_voter s epoch = av_get_authorized_voter (authorized_voters s) epoch"

definition commission_split :: "vote_state \<Rightarrow> u64 \<Rightarrow> u64 \<times> u64 \<times> bool" where
  "commission_split s on =
     (let split = min (commission s) 100 in
      if split = 0 then (0, on, False)
      else if split = 100 then (on, 0, False)
      else
        let mine = on * split div 100; theirs = on * (100 - split) div 100
        in (wrap64 mine, wrap64 theirs, True))"

text \<open>The deque of a deserialised vote state is contiguous, so its search is that of a slice.\<close>

definition contains_slot :: "vote_state \<Rightarrow> slot \<Rightarrow> bool" where
  "contains_slot s candidate_slot =
     (\<not> isl (binary_search_by (\<lambda>l. cmp (lo_slot l) candidate_slot) (votes s)))"

text \<open>The voters of the largest state are random keys, a parameter.\<close>

definition get_max_sized_vote_state :: "(nat \<Rightarrow> pubkey) \<Rightarrow> vote_state" where
  "get_max_sized_vote_state new_rand =
     vote_state_default
       \<lparr>votes := replicate MAX_LOCKOUT_HISTORY \<lparr>lo_slot = 0, confirmation_count = 0\<rparr>,
        root_slot := Some u64_max,
        epoch_credits := replicate MAX_EPOCH_CREDITS_HISTORY (0, 0, 0),
        authorized_voters :=
          fold (\<lambda>i. av_insert i (new_rand i)) [0..<MAX_LEADER_SCHEDULE_EPOCH_OFFSET + 1] []\<rparr>"

definition nth_recent_vote :: "vote_state \<Rightarrow> usize \<Rightarrow> lockout option" where
  "nth_recent_vote s position =
     (if position < length (votes s) then Some (votes s ! (length (votes s) - 1 - position))
      else None)"

definition last_lockout :: "vote_state \<Rightarrow> lockout option" where
  "last_lockout s = next_back (votes s)"

definition last_voted_slot :: "vote_state \<Rightarrow> slot option" where
  "last_voted_slot s = map_option lo_slot (last_lockout s)"

definition tower :: "vote_state \<Rightarrow> slot list" where
  "tower s = map lo_slot (votes s)"

definition current_epoch :: "vote_state \<Rightarrow> epoch" where
  "current_epoch s = (if epoch_credits s = [] then 0 else fst (last (epoch_credits s)))"

definition credits :: "vote_state \<Rightarrow> u64" where
  "credits s = (if epoch_credits s = [] then 0 else fst (snd (last (epoch_credits s))))"

subsection \<open>Credits\<close>

definition map_last :: "('a \<Rightarrow> 'a) \<Rightarrow> 'a list \<Rightarrow> 'a list" where
  "map_last f xs = (if xs = [] then [] else butlast xs @ [f (last xs)])"

definition roll_epoch_credits ::
  "epoch \<Rightarrow> (epoch \<times> u64 \<times> u64) list \<Rightarrow> (epoch \<times> u64 \<times> u64) list" where
  "roll_epoch_credits epoch ec =
     (if ec = [] then [(epoch, 0, 0)]
      else if epoch \<noteq> fst (last ec) then
        let (_, credits, prev_credits) = last ec;
            ec' = (if credits \<noteq> prev_credits then ec @ [(epoch, credits, credits)]
                   else map_last (\<lambda>(_, c). (epoch, c)) ec)
        in if length ec' > MAX_EPOCH_CREDITS_HISTORY then tl ec' else ec'
      else ec)"

definition increment_credits :: "epoch \<Rightarrow> vote_state \<Rightarrow> vote_state" where
  "increment_credits epoch s =
     s\<lparr>epoch_credits :=
         map_last (\<lambda>(e, c, p). (e, wrap64 (c + 1), p)) (roll_epoch_credits epoch (epoch_credits s))\<rparr>"

subsection \<open>The tower\<close>

function pop_expired :: "slot \<Rightarrow> lockout list \<Rightarrow> lockout list" where
  "pop_expired next_vote_slot vs =
     (case next_back vs of
        Some vote \<Rightarrow>
          if \<not> is_locked_out_at_slot vote next_vote_slot then pop_expired next_vote_slot (butlast vs)
          else vs
      | None \<Rightarrow> vs)"
  by auto
termination
  by (relation "measure (length \<circ> snd)") (auto simp: next_back_def split: if_splits)

declare pop_expired.simps [simp del]

definition pop_expired_votes :: "slot \<Rightarrow> vote_state \<Rightarrow> vote_state" where
  "pop_expired_votes next_vote_slot s = s\<lparr>votes := pop_expired next_vote_slot (votes s)\<rparr>"

definition double_lockout :: "usize \<Rightarrow> nat \<times> lockout \<Rightarrow> lockout" where
  "double_lockout stack_depth = (\<lambda>(i, v).
     if stack_depth > i + confirmation_count v
     then v\<lparr>confirmation_count := (confirmation_count v + 1) mod 2 ^ 32\<rparr> else v)"

definition double_lockouts :: "vote_state \<Rightarrow> vote_state" where
  "double_lockouts s =
     s\<lparr>votes := map (double_lockout (length (votes s))) (enumerate 0 (votes s))\<rparr>"

definition process_next_vote_slot :: "slot \<Rightarrow> epoch \<Rightarrow> vote_state \<Rightarrow> vote_state" where
  "process_next_vote_slot next_vote_slot epoch s =
     (if (case last_voted_slot s of None \<Rightarrow> False | Some l \<Rightarrow> next_vote_slot \<le> l) then s
      else
        let vote = lockout_new next_vote_slot;
            s1 = pop_expired_votes next_vote_slot s;
            s2 = (if length (votes s1) = MAX_LOCKOUT_HISTORY
                  then increment_credits epoch
                         (s1\<lparr>root_slot := Some (lo_slot (hd (votes s1))), votes := tl (votes s1)\<rparr>)
                  else s1)
        in double_lockouts (s2\<lparr>votes := votes s2 @ [vote]\<rparr>))"

subsection \<open>Authorized voters and timestamps\<close>

definition get_and_update_authorized_voter ::
  "epoch \<Rightarrow> vote_state \<Rightarrow> (pubkey \<times> vote_state, instruction_error) result" where
  "get_and_update_authorized_voter epoch s =
     (let (res, av) = get_and_cache_authorized_voter_for_epoch (authorized_voters s) epoch in
      bindE (ok_or res InvalidAccountData) (\<lambda>pubkey.
      bindE (purge_authorized_voters epoch av) (\<lambda>(av', _).
      Ok (pubkey, s\<lparr>authorized_voters := av'\<rparr>))))"

definition set_new_authorized_voter ::
  "pubkey \<Rightarrow> epoch \<Rightarrow> epoch \<Rightarrow> (pubkey \<Rightarrow> (unit, instruction_error) result) \<Rightarrow>
   vote_state \<Rightarrow> (vote_state, instruction_error) result" where
  "set_new_authorized_voter authorized_pubkey epoch target_epoch verify s =
     bindE (get_and_update_authorized_voter epoch s) (\<lambda>(epoch_authorized_voter, s1).
     bindE (verify epoch_authorized_voter) (\<lambda>_.
     if av_contains (authorized_voters s1) target_epoch
     then Err (instruction_error_of_vote TooSoonToReauthorize)
     else
       bindE (ok_or (av_last (authorized_voters s1)) InvalidAccountData)
         (\<lambda>(latest_epoch, latest_authorized_pubkey).
       bindE
         (if latest_authorized_pubkey \<noteq> authorized_pubkey then
            let epoch_of_last_authorized_switch =
                  (case circ_buf_last (prior_voters s1) of None \<Rightarrow> 0 | Some (_, _, e) \<Rightarrow> e)
            in bindE (assertE (target_epoch > latest_epoch)) (\<lambda>_.
               Ok (s1\<lparr>prior_voters :=
                     circ_buf_append (latest_authorized_pubkey, epoch_of_last_authorized_switch,
                       target_epoch) (prior_voters s1)\<rparr>))
          else Ok s1) (\<lambda>s2.
       Ok (s2\<lparr>authorized_voters := av_insert target_epoch authorized_pubkey (authorized_voters s2)\<rparr>)))))"

definition process_timestamp ::
  "slot \<Rightarrow> unix_timestamp \<Rightarrow> vote_state \<Rightarrow> (vote_state, vote_error) result" where
  "process_timestamp slot timestamp s =
     (let lt = last_timestamp s; t = \<lparr>bts_slot = slot, bts_timestamp = timestamp\<rparr> in
      if (slot < bts_slot lt \<or> timestamp < bts_timestamp lt) \<or>
         (slot = bts_slot lt \<and> t \<noteq> lt \<and> bts_slot lt \<noteq> 0)
      then Err TimestampTooOld
      else Ok (s\<lparr>last_timestamp := t\<rparr>))"

definition is_correct_size_and_initialized :: "usize \<Rightarrow> bytes \<Rightarrow> bool" where
  "is_correct_size_and_initialized size_of data =
     (length data = size_of \<and>
      take DEFAULT_PRIOR_VOTERS_OFFSET (drop 4 data) \<noteq> replicate DEFAULT_PRIOR_VOTERS_OFFSET 0)"

end
