(* ===== verification/Vote_Tower.thy ===== *)
theory Vote_Tower
  imports Vote_State
begin

text \<open>
  Invariants of the vote state under its own operations: the tower stays well formed when a
  vote is pushed, a vote leaves it only by expiry or by becoming the root, credits go up by one
  per rooted slot and their history stays bounded, the commission is split without creating
  lamports, and the circular buffer returns the item appended last.
\<close>

section \<open>Well-formed towers\<close>

definition tower_step :: "lockout \<Rightarrow> lockout \<Rightarrow> bool" where
  "tower_step v w \<longleftrightarrow>
     lo_slot v < lo_slot w \<and> confirmation_count w < confirmation_count v \<and>
     lo_slot w \<le> last_locked_out_slot v"

definition tower_wf :: "lockout list \<Rightarrow> bool" where
  "tower_wf vs \<longleftrightarrow>
     length vs \<le> MAX_LOCKOUT_HISTORY \<and>
     (\<forall>v \<in> set vs. 0 < confirmation_count v \<and> confirmation_count v \<le> MAX_LOCKOUT_HISTORY) \<and>
     successively tower_step vs"

text \<open>Slots low enough that no lockout of at most \<open>2\<^sup>3\<^sup>1\<close> slots wraps.\<close>

definition slots_in_range :: "lockout list \<Rightarrow> bool" where
  "slots_in_range vs \<longleftrightarrow> (\<forall>v \<in> set vs. lo_slot v < 2 ^ 63)"

definition slots_sorted :: "lockout list \<Rightarrow> bool" where
  "slots_sorted vs \<longleftrightarrow> sorted_wrt (<) (map lo_slot vs)"

lemma last_locked_out_slot_exact:
  assumes "lo_slot v < 2 ^ 63" "confirmation_count v \<le> MAX_LOCKOUT_HISTORY"
  shows "last_locked_out_slot v = lo_slot v + 2 ^ confirmation_count v"
proof -
  have "(2::nat) ^ confirmation_count v \<le> 2 ^ 31"
    using assms(2) unfolding MAX_LOCKOUT_HISTORY_def by (intro power_increasing) simp_all
  then show ?thesis
    using assms(1) by (simp add: last_locked_out_slot_def lockout_period_def INITIAL_LOCKOUT_def)
qed

lemma tower_step_slots: "successively tower_step vs \<Longrightarrow> sorted_wrt (<) (map lo_slot vs)"
proof -
  assume "successively tower_step vs"
  then have "successively (<) (map lo_slot vs)"
    unfolding successively_map by (rule successively_mono) (auto simp: tower_step_def)
  then show ?thesis by (simp add: successively_conv_sorted_wrt)
qed

lemma tower_wf_sorted: "tower_wf vs \<Longrightarrow> slots_sorted vs"
  by (simp add: tower_wf_def slots_sorted_def tower_step_slots)

lemma tower_head_confirmations:
  "successively tower_step (v # vs) \<Longrightarrow> \<forall>w \<in> set (v # vs). 0 < confirmation_count w \<Longrightarrow>
   length (v # vs) \<le> confirmation_count v"
proof (induction vs arbitrary: v)
  case (Cons w ws)
  then have "length (w # ws) \<le> confirmation_count w" "confirmation_count w < confirmation_count v"
    by (auto simp: tower_step_def)
  then show ?case by simp
qed simp

lemma tower_confirmations:
  assumes "tower_wf vs" "i < length vs"
  shows "length vs - i \<le> confirmation_count (vs ! i)"
proof -
  have d: "drop i vs = vs ! i # drop (Suc i) vs" using assms(2) by (simp add: Cons_nth_drop_Suc)
  have "successively tower_step (take i vs @ drop i vs)"
    using assms(1) by (simp add: tower_wf_def)
  then have "successively tower_step (drop i vs)"
    by (simp only: successively_append_iff)
  moreover have "\<forall>w \<in> set (drop i vs). 0 < confirmation_count w"
    using assms(1) by (auto simp: tower_wf_def dest: in_set_dropD)
  ultimately have "length (drop i vs) \<le> confirmation_count (vs ! i)"
    unfolding d by (rule tower_head_confirmations)
  then show ?thesis by simp
qed

lemma tower_wf_take: "tower_wf vs \<Longrightarrow> tower_wf (take k vs)"
  unfolding tower_wf_def
  by (metis append_take_drop_id in_set_takeD le_trans length_take min.cobounded1 successively_append_iff)

lemma tower_wf_tl: "tower_wf vs \<Longrightarrow> tower_wf (tl vs)"
  unfolding tower_wf_def
  by (cases vs) (auto simp: successively_Cons)

subsection \<open>Popping expired votes\<close>

lemma pop_expired_Nil [simp]: "pop_expired s [] = []"
  by (simp add: pop_expired.simps next_back_def)

lemma pop_expired_snoc [simp]:
  "pop_expired s (vs @ [v]) = (if is_locked_out_at_slot v s then vs @ [v] else pop_expired s vs)"
  by (simp add: pop_expired.simps [of s "vs @ [v]"] next_back_def)

lemma pop_expired_split:
  "\<exists>popped. vs = pop_expired s vs @ popped \<and> (\<forall>v \<in> set popped. last_locked_out_slot v < s)"
proof (induction vs rule: rev_induct)
  case (snoc v vs)
  then obtain popped where "vs = pop_expired s vs @ popped" "\<forall>v \<in> set popped. last_locked_out_slot v < s"
    by blast
  then have "\<not> is_locked_out_at_slot v s \<Longrightarrow> vs @ [v] = pop_expired s vs @ (popped @ [v]) \<and>
    (\<forall>v \<in> set (popped @ [v]). last_locked_out_slot v < s)"
    by (simp add: is_locked_out_at_slot_def)
  then show ?case by (cases "is_locked_out_at_slot v s") (simp, metis pop_expired_snoc)
qed simp

lemma pop_expired_last:
  "pop_expired s vs \<noteq> [] \<Longrightarrow> is_locked_out_at_slot (last (pop_expired s vs)) s"
  by (induction vs rule: rev_induct) auto

lemma pop_expired_take: "\<exists>k. pop_expired s vs = take k vs"
  using pop_expired_split [of vs s] by (metis append_eq_conv_conj)

subsection \<open>Pushing a vote\<close>

definition push_vote :: "slot \<Rightarrow> lockout list \<Rightarrow> lockout list" where
  "push_vote next_slot vs =
     map (double_lockout (length vs + 1)) (enumerate 0 (vs @ [lockout_new next_slot]))"

lemma length_push_vote [simp]: "length (push_vote next_slot vs) = length vs + 1"
  by (simp add: push_vote_def)

lemma push_vote_nth:
  fixes next_slot :: slot
  assumes "tower_wf vs" "length vs < MAX_LOCKOUT_HISTORY" "i \<le> length vs"
  defines "v \<equiv> (vs @ [lockout_new next_slot]) ! i"
  shows "lo_slot (push_vote next_slot vs ! i) = lo_slot v"
    "confirmation_count (push_vote next_slot vs ! i) =
       max (confirmation_count v) (length vs + 1 - i)"
proof -
  have nth: "push_vote next_slot vs ! i = double_lockout (length vs + 1) (i, v)"
    using assms(3) by (simp add: push_vote_def v_def nth_enumerate_eq)
  then show "lo_slot (push_vote next_slot vs ! i) = lo_slot v"
    by (simp add: double_lockout_def)
  have "length vs - i \<le> confirmation_count v" "i = length vs \<Longrightarrow> confirmation_count v = 1"
    using tower_confirmations [OF assms(1), of i] assms(3)
    by (auto simp: v_def nth_append lockout_new_def)
  then show "confirmation_count (push_vote next_slot vs ! i) =
       max (confirmation_count v) (length vs + 1 - i)"
    using assms(2,3) unfolding nth
    by (cases "i = length vs") (auto simp: double_lockout_def MAX_LOCKOUT_HISTORY_def max_def)
qed

lemma push_vote_wf:
  assumes wf: "tower_wf vs" and len: "length vs < MAX_LOCKOUT_HISTORY"
    and range: "slots_in_range vs" "next_slot < 2 ^ 63"
    and newer: "\<forall>v \<in> set vs. lo_slot v < next_slot"
    and locked: "vs \<noteq> [] \<Longrightarrow> is_locked_out_at_slot (last vs) next_slot"
  shows "tower_wf (push_vote next_slot vs)"
proof -
  let ?new = "lockout_new next_slot"
  let ?us = "vs @ [?new]"
  let ?ws = "push_vote next_slot vs"
  note nth = push_vote_nth [OF wf len, where next_slot = next_slot]
  have conf: "confirmation_count (?us ! i) \<le> MAX_LOCKOUT_HISTORY"
    "lo_slot (?us ! i) < 2 ^ 63" if "i \<le> length vs" for i
    using that wf range by (auto simp: tower_wf_def slots_in_range_def nth_append lockout_new_def
        MAX_LOCKOUT_HISTORY_def)
  have bound: "0 < confirmation_count w \<and> confirmation_count w \<le> MAX_LOCKOUT_HISTORY"
    if mem: "w \<in> set ?ws" for w
  proof -
    obtain i where "i < length ?ws" and w: "?ws ! i = w"
      using mem unfolding in_set_conv_nth by blast
    then have i: "i \<le> length vs" by simp
    with w nth(2) [OF i] conf(1) [OF i] len show ?thesis by auto
  qed
  have step: "tower_step (?ws ! i) (?ws ! Suc i)" if "Suc i < length ?ws" for i
  proof -
    have i: "i < length vs" "i \<le> length vs" "Suc i \<le> length vs" using that by auto
    have old: "lo_slot (?us ! i) < lo_slot (?us ! Suc i) \<and>
      lo_slot (?us ! Suc i) \<le> last_locked_out_slot (?us ! i) \<and>
      confirmation_count (?us ! Suc i) < max (confirmation_count (?us ! i)) (length vs + 1 - i)"
    proof (cases "Suc i < length vs")
      case True
      then have "tower_step (vs ! i) (vs ! Suc i)"
        using wf by (simp add: tower_wf_def successively_conv_nth)
      with True show ?thesis by (auto simp: tower_step_def nth_append)
    next
      case False
      then have n: "length vs = Suc i" using i by simp
      then have "vs \<noteq> []" by force
      with n have l: "vs \<noteq> []" "last vs = vs ! i" by (simp_all add: last_conv_nth)
      have c: "confirmation_count (vs ! i) \<ge> 1" using wf i by (auto simp: tower_wf_def Suc_le_eq)
      from n l c locked newer show ?thesis
        by (auto simp: nth_append lockout_new_def is_locked_out_at_slot_def)
    qed
    have llo: "last_locked_out_slot (?us ! i) \<le> last_locked_out_slot (?ws ! i)"
    proof -
      have c: "confirmation_count (?us ! i) \<le> confirmation_count (?ws ! i)"
        using nth(2) [OF i(2)] by simp
      have "?ws ! i \<in> set ?ws" using that by (intro nth_mem) simp
      then have b: "confirmation_count (?ws ! i) \<le> MAX_LOCKOUT_HISTORY" using bound by blast
      have s: "lo_slot (?ws ! i) = lo_slot (?us ! i)" using nth(1) [OF i(2)] .
      have "lo_slot (?ws ! i) < 2 ^ 63" using conf(2) [OF i(2)] s by simp
      then show ?thesis
        using last_locked_out_slot_exact [OF conf(2) [OF i(2)] conf(1) [OF i(2)]]
          last_locked_out_slot_exact [OF _ b] s c by simp
    qed
    show ?thesis
      using old llo nth [OF i(2)] nth [OF i(3)] unfolding tower_step_def by auto
  qed
  show ?thesis
    using bound step len unfolding tower_wf_def successively_conv_nth by auto
qed

subsection \<open>Processing a vote slot\<close>

definition ignores_slot :: "vote_state \<Rightarrow> slot \<Rightarrow> bool" where
  "ignores_slot s next_slot = (case last_voted_slot s of None \<Rightarrow> False | Some l \<Rightarrow> next_slot \<le> l)"

definition base_votes :: "slot \<Rightarrow> lockout list \<Rightarrow> lockout list" where
  "base_votes next_slot vs =
     (let kept = pop_expired next_slot vs
      in if length kept = MAX_LOCKOUT_HISTORY then tl kept else kept)"

lemma increment_credits_frame [simp]:
  "votes (increment_credits e s) = votes s" "root_slot (increment_credits e s) = root_slot s"
  "authorized_voters (increment_credits e s) = authorized_voters s"
  "last_timestamp (increment_credits e s) = last_timestamp s"
  by (simp_all add: increment_credits_def)

lemma process_next_vote_slot_votes:
  "votes (process_next_vote_slot next_slot e s) =
     (if ignores_slot s next_slot then votes s else push_vote next_slot (base_votes next_slot (votes s)))"
  by (auto simp: process_next_vote_slot_def ignores_slot_def base_votes_def push_vote_def
      double_lockouts_def pop_expired_votes_def Let_def simp del: enumerate_append_eq)

lemma process_next_vote_slot_root:
  "root_slot (process_next_vote_slot next_slot e s) =
     (if \<not> ignores_slot s next_slot \<and> length (pop_expired next_slot (votes s)) = MAX_LOCKOUT_HISTORY
      then Some (lo_slot (hd (pop_expired next_slot (votes s)))) else root_slot s)"
  by (auto simp: process_next_vote_slot_def ignores_slot_def double_lockouts_def
      pop_expired_votes_def Let_def)

lemma base_votes_wf:
  assumes "tower_wf vs"
  shows "tower_wf (base_votes next_slot vs)" "length (base_votes next_slot vs) < MAX_LOCKOUT_HISTORY"
    "set (base_votes next_slot vs) \<subseteq> set vs"
    "base_votes next_slot vs \<noteq> [] \<Longrightarrow> is_locked_out_at_slot (last (base_votes next_slot vs)) next_slot"
proof -
  let ?kept = "pop_expired next_slot vs"
  obtain k where k: "?kept = take k vs" using pop_expired_take by blast
  then have wf: "tower_wf ?kept" and sub: "set ?kept \<subseteq> set vs"
    using assms by (auto simp: tower_wf_take dest: in_set_takeD)
  then show "tower_wf (base_votes next_slot vs)"
    by (simp add: base_votes_def Let_def tower_wf_tl)
  have "length ?kept \<le> MAX_LOCKOUT_HISTORY" using wf by (simp add: tower_wf_def)
  then show "length (base_votes next_slot vs) < MAX_LOCKOUT_HISTORY"
    by (auto simp: base_votes_def Let_def MAX_LOCKOUT_HISTORY_def)
  show "set (base_votes next_slot vs) \<subseteq> set vs"
    using sub by (cases ?kept) (auto simp: base_votes_def Let_def)
  show "base_votes next_slot vs \<noteq> [] \<Longrightarrow> is_locked_out_at_slot (last (base_votes next_slot vs)) next_slot"
    using pop_expired_last [of next_slot vs]
    by (cases ?kept) (auto simp: base_votes_def Let_def last_tl split: if_splits)
qed

lemma not_ignored_newer:
  assumes "tower_wf (votes s)" "\<not> ignores_slot s next_slot" "v \<in> set (votes s)"
  shows "lo_slot v < next_slot"
proof -
  have "lo_slot v \<le> lo_slot (last (votes s))"
  proof -
    obtain i where i: "i < length (votes s)" "v = votes s ! i"
      using assms(3) by (auto simp: in_set_conv_nth)
    have "sorted_wrt (<) (map lo_slot (votes s))"
      using assms(1) by (simp add: tower_wf_def tower_step_slots)
    then have "sorted (map lo_slot (votes s))" by (rule strict_sorted_imp_sorted)
    then have "lo_slot (votes s ! i) \<le> lo_slot (votes s ! (length (votes s) - 1))"
      using i(1) sorted_nth_mono [of "map lo_slot (votes s)" i "length (votes s) - 1"] by simp
    with i show ?thesis by (metis last_conv_nth length_greater_0_conv less_nat_zero_code list.size(3))
  qed
  with assms(2,3) show ?thesis
    by (auto simp: ignores_slot_def last_voted_slot_def last_lockout_def next_back_def split: if_splits)
qed

lemma process_next_vote_slot_wf:
  assumes "tower_wf (votes s)" "slots_in_range (votes s)" "next_slot < 2 ^ 63"
  shows "tower_wf (votes (process_next_vote_slot next_slot e s))"
proof (cases "ignores_slot s next_slot")
  case True
  with assms show ?thesis by (simp add: process_next_vote_slot_votes)
next
  case False
  note base = base_votes_wf [OF assms(1), where next_slot = next_slot]
  have "slots_in_range (base_votes next_slot (votes s))"
    "\<forall>v \<in> set (base_votes next_slot (votes s)). lo_slot v < next_slot"
    using assms(2) base(3) not_ignored_newer [OF assms(1) False] by (auto simp: slots_in_range_def)
  with push_vote_wf [OF base(1,2) _ assms(3) _ base(4)] False show ?thesis
    by (simp add: process_next_vote_slot_votes)
qed

lemma push_vote_member:
  assumes "tower_wf vs" "length vs < MAX_LOCKOUT_HISTORY" "v \<in> set vs"
  shows "\<exists>w \<in> set (push_vote next_slot vs). lo_slot w = lo_slot v \<and>
    confirmation_count v \<le> confirmation_count w"
proof -
  obtain i where i: "i < length vs" "v = vs ! i"
    using assms(3) by (auto simp: in_set_conv_nth)
  then have "push_vote next_slot vs ! i \<in> set (push_vote next_slot vs)"
    by (intro nth_mem) simp
  with push_vote_nth [OF assms(1,2), of i next_slot] i show ?thesis
    by (intro bexI [of _ "push_vote next_slot vs ! i"]) (auto simp: nth_append)
qed

lemma push_vote_slots:
  "map lo_slot (push_vote next_slot vs) = map lo_slot vs @ [next_slot]"
proof -
  have "lo_slot (double_lockout n x) = lo_slot (snd x)" for n x
    by (cases x) (simp add: double_lockout_def)
  then have "map lo_slot (push_vote next_slot vs) =
      map lo_slot (map snd (enumerate 0 (vs @ [lockout_new next_slot])))"
    unfolding push_vote_def map_map by (intro map_cong) simp_all
  then show ?thesis by (simp add: lockout_new_def del: enumerate_append_eq)
qed

lemma kept_expired_or_rooted:
  assumes "tower_wf (votes s)" "v \<in> set (votes s)" "\<not> ignores_slot s next_slot"
  shows "last_locked_out_slot v < next_slot \<or>
    root_slot (process_next_vote_slot next_slot e s) = Some (lo_slot v) \<or>
    v \<in> set (base_votes next_slot (votes s))"
proof -
  let ?kept = "pop_expired next_slot (votes s)"
  obtain popped where p: "votes s = ?kept @ popped" "\<forall>v \<in> set popped. last_locked_out_slot v < next_slot"
    using pop_expired_split by metis
  then have "last_locked_out_slot v < next_slot \<or> v \<in> set ?kept"
    using assms(2) by (metis UnE set_append)
  with assms(3) show ?thesis
    by (cases ?kept) (auto simp: base_votes_def process_next_vote_slot_root Let_def)
qed

section \<open>Credits\<close>

lemma map_last_simps [simp]:
  "map_last f [] = []" "map_last f (xs @ [x]) = xs @ [f x]" "length (map_last f xs) = length xs"
  by (auto simp: map_last_def)

lemma last_map_last [simp]: "xs \<noteq> [] \<Longrightarrow> last (map_last f xs) = f (last xs)"
  by (simp add: map_last_def)

lemma map_last_Nil [simp]: "map_last f xs = [] \<longleftrightarrow> xs = []"
  by (simp add: map_last_def)

lemma roll_epoch_credits_nonempty: "roll_epoch_credits e ec \<noteq> []"
  by (cases ec rule: rev_cases)
    (auto simp: roll_epoch_credits_def MAX_EPOCH_CREDITS_HISTORY_def Let_def tl_append
      split: prod.splits if_splits list.splits)

lemma last_roll_epoch_credits:
  "fst (snd (last (roll_epoch_credits e ec))) = (if ec = [] then 0 else fst (snd (last ec)))"
  by (cases ec rule: rev_cases)
    (auto simp: roll_epoch_credits_def MAX_EPOCH_CREDITS_HISTORY_def Let_def tl_append
      split: prod.splits list.splits)

lemma last_epoch_roll: "fst (last (roll_epoch_credits e ec)) = e"
  by (cases ec rule: rev_cases)
    (auto simp: roll_epoch_credits_def MAX_EPOCH_CREDITS_HISTORY_def Let_def tl_append
      split: prod.splits list.splits)

lemma length_roll_epoch_credits:
  "length ec \<le> MAX_EPOCH_CREDITS_HISTORY \<Longrightarrow> length (roll_epoch_credits e ec) \<le> MAX_EPOCH_CREDITS_HISTORY"
  by (auto simp: roll_epoch_credits_def MAX_EPOCH_CREDITS_HISTORY_def Let_def split: prod.splits)

lemma credits_increment:
  "credits (increment_credits e s) = wrap64 (credits s + 1)"
  "current_epoch (increment_credits e s) = e"
  "length (epoch_credits s) \<le> MAX_EPOCH_CREDITS_HISTORY \<Longrightarrow>
   length (epoch_credits (increment_credits e s)) \<le> MAX_EPOCH_CREDITS_HISTORY"
  using roll_epoch_credits_nonempty [of e "epoch_credits s"]
    last_roll_epoch_credits [of e "epoch_credits s"] last_epoch_roll [of e "epoch_credits s"]
    length_roll_epoch_credits [of "epoch_credits s" e]
  by (auto simp: increment_credits_def credits_def current_epoch_def case_prod_beta)

section \<open>Commission and prior voters\<close>

lemma commission_split_bounds:
  assumes "commission_split s amount = (mine, theirs, was_split)" "amount \<le> u64_max"
  shows "mine + theirs \<le> amount" "amount \<le> mine + theirs + 1"
proof -
  define c where "c = min (commission s) 100"
  have le: "amount * c div 100 + amount * (100 - c) div 100 \<le> amount"
    "amount \<le> amount * c div 100 + amount * (100 - c) div 100 + 1"
  proof -
    have "c \<le> 100" by (simp add: c_def)
    then have "amount * c + amount * (100 - c) = amount * 100"
      by (simp add: add_mult_distrib2 [symmetric])
    then show "amount * c div 100 + amount * (100 - c) div 100 \<le> amount"
      "amount \<le> amount * c div 100 + amount * (100 - c) div 100 + 1"
      by linarith+
  qed
  have "wrap64 (amount * c div 100) = amount * c div 100"
    "wrap64 (amount * (100 - c) div 100) = amount * (100 - c) div 100"
    using le(1) assms(2) by (auto intro!: wrap64_id)
  with le assms(1) show "mine + theirs \<le> amount" "amount \<le> mine + theirs + 1"
    by (auto simp: commission_split_def c_def [symmetric] Let_def split: if_splits)
qed

definition circ_buf_wf :: "'i circ_buf \<Rightarrow> bool" where
  "circ_buf_wf b \<longleftrightarrow> length (cb_buf b) = MAX_ITEMS \<and> cb_idx b < MAX_ITEMS"

lemma circ_buf_append_last:
  assumes "circ_buf_wf b"
  shows "circ_buf_last (circ_buf_append x b) = Some x" "circ_buf_wf (circ_buf_append x b)"
  using assms by (auto simp: circ_buf_wf_def circ_buf_append_def circ_buf_last_def Let_def MAX_ITEMS_def)

lemma circ_buf_default_wf [simp]: "circ_buf_wf (circ_buf_default d)"
  by (simp add: circ_buf_wf_def circ_buf_default_def MAX_ITEMS_def)

lemma contains_slot_iff:
  assumes "slots_sorted (votes s)"
  shows "contains_slot s t \<longleftrightarrow> (\<exists>v \<in> set (votes s). lo_slot v = t)"
  using binary_search_by_found [OF search_ordered_cmp [of lo_slot "votes s" t]] assms
  by (auto simp: contains_slot_def slots_sorted_def)

end
