(* ===== verification/Vote_Checks.thy ===== *)
theory Vote_Checks
  imports Vote_Tower
begin

text \<open>
  The checks that decide whether a vote or a proposed tower is accepted
  (\<^verbatim>\<open>check_slots_are_valid\<close>, \<^verbatim>\<open>check_update_vote_state_slots_are_valid\<close>,
  \<^verbatim>\<open>process_new_vote_state\<close>, \<^verbatim>\<open>process_vote\<close> of \<^verbatim>\<open>vote_state/mod.rs\<close>), loop by loop, and what
  they guarantee.
\<close>

section \<open>Checking the slots of a vote\<close>

function check_slots_loop ::
  "slot option \<Rightarrow> slot list \<Rightarrow> slot_hash list \<Rightarrow> nat \<Rightarrow> nat \<Rightarrow> nat \<times> nat" where
  "check_slots_loop last_voted vote_slots slot_hashes i j =
     (if i < length vote_slots \<and> j > 0 then
        if (case last_voted of None \<Rightarrow> False | Some l \<Rightarrow> vote_slots ! i \<le> l)
        then check_slots_loop last_voted vote_slots slot_hashes (i + 1) j
        else if vote_slots ! i \<noteq> fst (slot_hashes ! (j - 1))
        then check_slots_loop last_voted vote_slots slot_hashes i (j - 1)
        else check_slots_loop last_voted vote_slots slot_hashes (i + 1) (j - 1)
      else (i, j))"
  by auto
termination
  by (relation "measure (\<lambda>(l, vs, hs, i, j). (length vs - i) + j)") auto

declare check_slots_loop.simps [simp del]

definition check_slots_are_valid ::
  "vote_state \<Rightarrow> slot list \<Rightarrow> hash \<Rightarrow> slot_hash list \<Rightarrow> (unit, vote_error) result" where
  "check_slots_are_valid s vote_slots vote_hash slot_hashes =
     (let (i, j) = check_slots_loop (last_voted_slot s) vote_slots slot_hashes 0 (length slot_hashes) in
      if j = length slot_hashes then Err VoteTooOld
      else if i \<noteq> length vote_slots then Err SlotsMismatch
      else if snd (slot_hashes ! j) \<noteq> vote_hash then Err SlotHashMismatch
      else Ok ())"

definition process_vote_slots :: "slot list \<Rightarrow> epoch \<Rightarrow> vote_state \<Rightarrow> vote_state" where
  "process_vote_slots vote_slots epoch s = fold (\<lambda>slot. process_next_vote_slot slot epoch) vote_slots s"

definition filtered_vote_slots :: "vote \<Rightarrow> slot_hash list \<Rightarrow> feature_set option \<Rightarrow> slot list" where
  "filtered_vote_slots v slot_hashes fs =
     (case fs of
        None \<Rightarrow> v_slots v
      | Some features \<Rightarrow>
          if is_active features filter_votes_outside_slot_hashes then
            let earliest_slot_in_history =
                  (case next_back slot_hashes of None \<Rightarrow> 0 | Some (slot, _) \<Rightarrow> slot)
            in filter (\<lambda>slot. slot \<ge> earliest_slot_in_history) (v_slots v)
          else v_slots v)"

definition vs_process_vote ::
  "vote \<Rightarrow> slot_hash list \<Rightarrow> epoch \<Rightarrow> feature_set option \<Rightarrow> vote_state \<Rightarrow>
   (vote_state, vote_error) result" where
  "vs_process_vote v slot_hashes epoch fs s =
     (if v_slots v = [] then Err EmptySlots
      else
        let vote_slots = filtered_vote_slots v slot_hashes fs in
        if vote_slots = [] then Err VotesTooOldAllFiltered
        else
          bindE (check_slots_are_valid s vote_slots (v_hash v) slot_hashes) (\<lambda>_.
          Ok (process_vote_slots vote_slots epoch s)))"

definition process_vote_unchecked :: "vote \<Rightarrow> vote_state \<Rightarrow> vote_state" where
  "process_vote_unchecked v s =
     (let slot_hashes = map (\<lambda>x. (x, v_hash v)) (rev (v_slots v)) in
      case vs_process_vote v slot_hashes (current_epoch s) None s of Ok s' \<Rightarrow> s' | Inl _ \<Rightarrow> s)"

definition process_slot_vote_unchecked :: "slot \<Rightarrow> vote_state \<Rightarrow> vote_state" where
  "process_slot_vote_unchecked slot s = process_vote_unchecked (vote_new [slot] 0) s"

section \<open>Checking the slots of a proposed tower\<close>

function check_update_loop ::
  "vote_state \<Rightarrow> lockout list \<Rightarrow> slot_hash list \<Rightarrow> slot \<Rightarrow> slot option \<Rightarrow> nat \<Rightarrow> nat \<Rightarrow> nat list \<Rightarrow>
   (nat \<times> nat \<times> nat list, vote_error) result" where
  "check_update_loop s lockouts slot_hashes earliest check_root i j to_filter =
     (if i < length lockouts \<and> j > 0 then
        let proposed_vote_slot = (case check_root of Some r \<Rightarrow> r | None \<Rightarrow> lo_slot (lockouts ! i)) in
        if check_root = None \<and> i > 0 \<and> proposed_vote_slot \<le> lo_slot (lockouts ! (i - 1))
        then Err SlotsNotOrdered
        else
          let ancestor_slot = fst (slot_hashes ! (j - 1)) in
          case cmp proposed_vote_slot ancestor_slot of
            Less \<Rightarrow>
              if j = length slot_hashes then
                if \<not> proposed_vote_slot < earliest then panic
                else
                  (case check_root of
                     Some _ \<Rightarrow>
                       (case root_slot s of
                          None \<Rightarrow> panic
                        | Some r \<Rightarrow>
                            if r < earliest
                            then check_update_loop s lockouts slot_hashes earliest None i j to_filter
                            else panic)
                   | None \<Rightarrow>
                       check_update_loop s lockouts slot_hashes earliest None (i + 1) j
                         (if \<not> contains_slot s proposed_vote_slot then to_filter @ [i] else to_filter))
              else if check_root \<noteq> None then Err RootOnDifferentFork
              else Err SlotsMismatch
          | Greater \<Rightarrow>
              check_update_loop s lockouts slot_hashes earliest check_root i (j - 1) to_filter
          | Equal \<Rightarrow>
              (case check_root of
                 Some _ \<Rightarrow> check_update_loop s lockouts slot_hashes earliest None i j to_filter
               | None \<Rightarrow>
                   check_update_loop s lockouts slot_hashes earliest None (i + 1) (j - 1) to_filter)
      else Ok (i, j, to_filter))"
  by auto
termination
  by (relation "measure (\<lambda>(s, ls, hs, e, r, i, j, f).
        (length ls - i) + j + (case r of None \<Rightarrow> 0 | Some _ \<Rightarrow> 1))") auto

declare check_update_loop.simps [simp del]

fun retain_votes :: "nat \<Rightarrow> nat list \<Rightarrow> lockout list \<Rightarrow> lockout list" where
  "retain_votes i fs [] = []"
| "retain_votes i [] (l # ls) = l # retain_votes (i + 1) [] ls"
| "retain_votes i (f # fs) (l # ls) =
     (if i = f then retain_votes (i + 1) fs ls else l # retain_votes (i + 1) (f # fs) ls)"

definition adjusted_root :: "vote_state \<Rightarrow> slot \<Rightarrow> slot option \<Rightarrow> slot option" where
  "adjusted_root s earliest proposed =
     (case proposed of
        None \<Rightarrow> None
      | Some r \<Rightarrow> if earliest > r then root_slot s else Some r)"

definition check_update_vote_state_slots_are_valid ::
  "vote_state \<Rightarrow> vote_state_update \<Rightarrow> slot_hash list \<Rightarrow> (vote_state_update, vote_error) result" where
  "check_update_vote_state_slots_are_valid s u slot_hashes =
     (if vsu_lockouts u = [] then Err EmptySlots
      else
        let last_slot = lo_slot (last (vsu_lockouts u)) in
        if (case last_voted_slot s of None \<Rightarrow> False | Some l \<Rightarrow> last_slot \<le> l) then Err VoteTooOld
        else if slot_hashes = [] then Err SlotsMismatch
        else
          let earliest = fst (last slot_hashes) in
          if last_slot < earliest then Err VoteTooOld
          else
            let u1 = u\<lparr>vsu_root := adjusted_root s earliest (vsu_root u)\<rparr> in
            bindE (check_update_loop s (vsu_lockouts u1) slot_hashes earliest (vsu_root u1) 0
                     (length slot_hashes) []) (\<lambda>(i, j, to_filter).
            if i \<noteq> length (vsu_lockouts u1) then Err SlotsMismatch
            else
              bindE (assertE (j < length slot_hashes)) (\<lambda>_.
              bindE (assertE (last_slot = fst (slot_hashes ! j))) (\<lambda>_.
              if snd (slot_hashes ! j) \<noteq> vsu_hash u1 then Err SlotHashMismatch
              else Ok (u1\<lparr>vsu_lockouts := retain_votes 0 to_filter (vsu_lockouts u1)\<rparr>)))))"

section \<open>Accepting a proposed tower\<close>

fun check_new_votes ::
  "slot option \<Rightarrow> lockout option \<Rightarrow> lockout list \<Rightarrow> (unit, vote_error) result" where
  "check_new_votes new_root previous_vote [] = Ok ()"
| "check_new_votes new_root previous_vote (vote # rest) =
     (if confirmation_count vote = 0 then Err ZeroConfirmations
      else if confirmation_count vote > MAX_LOCKOUT_HISTORY then Err ConfirmationTooLarge
      else if (case new_root of None \<Rightarrow> False | Some r \<Rightarrow> lo_slot vote \<le> r \<and> r \<noteq> 0)
      then Err SlotSmallerThanRoot
      else
        (case previous_vote of
           None \<Rightarrow> check_new_votes new_root (Some vote) rest
         | Some prev \<Rightarrow>
             if lo_slot prev \<ge> lo_slot vote then Err SlotsNotOrdered
             else if confirmation_count prev \<le> confirmation_count vote
             then Err ConfirmationsNotOrdered
             else if lo_slot vote > last_locked_out_slot prev
             then Err NewVoteStateLockoutMismatch
             else check_new_votes new_root (Some vote) rest))"

text \<open>The two indices of the comparison loop become the suffixes still to be compared.\<close>

fun check_rollback :: "lockout list \<Rightarrow> lockout list \<Rightarrow> (unit, vote_error) result" where
  "check_rollback [] new_state = Ok ()"
| "check_rollback (c # cs) [] = Ok ()"
| "check_rollback (c # cs) (n # ns) =
     (if lo_slot c < lo_slot n then
        if last_locked_out_slot c \<ge> lo_slot n then Err LockoutConflict
        else check_rollback cs (n # ns)
      else if lo_slot c = lo_slot n then
        if confirmation_count n < confirmation_count c then Err ConfirmationRollBack
        else check_rollback cs ns
      else check_rollback (c # cs) ns)"

definition votes_above_root :: "slot option \<Rightarrow> lockout list \<Rightarrow> lockout list" where
  "votes_above_root new_root vs =
     dropWhile (\<lambda>v. case new_root of None \<Rightarrow> False | Some r \<Rightarrow> lo_slot v \<le> r) vs"

definition root_rolled_back :: "slot option \<Rightarrow> slot option \<Rightarrow> bool" where
  "root_rolled_back new_root current_root =
     (case (new_root, current_root) of
        (Some n, Some c) \<Rightarrow> n < c
      | (None, Some _) \<Rightarrow> True
      | _ \<Rightarrow> False)"

definition process_new_vote_state ::
  "lockout list \<Rightarrow> slot option \<Rightarrow> unix_timestamp option \<Rightarrow> epoch \<Rightarrow> vote_state \<Rightarrow>
   (vote_state, vote_error) result" where
  "process_new_vote_state new_state new_root timestamp epoch s =
     bindE (assertE (new_state \<noteq> [])) (\<lambda>_.
     if length new_state > MAX_LOCKOUT_HISTORY then Err TooManyVotes
     else if root_rolled_back new_root (root_slot s) then Err RootRollBack
     else
       bindE (check_new_votes new_root None new_state) (\<lambda>_.
       bindE (check_rollback (votes_above_root new_root (votes s)) new_state) (\<lambda>_.
       let s1 = (if root_slot s \<noteq> new_root then increment_credits epoch s else s) in
       bindE (case timestamp of
                None \<Rightarrow> Ok s1
              | Some ts \<Rightarrow> process_timestamp (lo_slot (last new_state)) ts s1) (\<lambda>s2.
       Ok (s2\<lparr>root_slot := new_root, votes := new_state\<rparr>)))))"

section \<open>What accepting a tower guarantees\<close>

text \<open>
  The requirement of the source comment: for every vote of the current state, the first vote of
  the new state at or after its slot either confirms it at least as much, or lies beyond its
  lockout.
\<close>

definition no_rollback :: "lockout list \<Rightarrow> lockout list \<Rightarrow> bool" where
  "no_rollback current new_state \<longleftrightarrow>
     (\<forall>c \<in> set current.
        case find (\<lambda>n. lo_slot c \<le> lo_slot n) new_state of
          None \<Rightarrow> True
        | Some n \<Rightarrow>
            if lo_slot n = lo_slot c then confirmation_count c \<le> confirmation_count n
            else last_locked_out_slot c < lo_slot n)"

lemma check_new_votes_Ok:
  "check_new_votes r p vs = Ok () \<longleftrightarrow>
     (\<forall>v \<in> set vs. 0 < confirmation_count v \<and> confirmation_count v \<le> MAX_LOCKOUT_HISTORY \<and>
        (\<forall>x. r = Some x \<longrightarrow> x < lo_slot v \<or> x = 0)) \<and>
     successively tower_step (case p of None \<Rightarrow> vs | Some q \<Rightarrow> q # vs)"
proof (induction r p vs rule: check_new_votes.induct)
  case (2 r p v vs)
  then show ?case
    by (cases p; cases r) (auto simp: tower_step_def not_less not_le split: if_splits)
qed (auto split: option.split)

lemma slots_sorted_Cons:
  "slots_sorted (v # vs) \<longleftrightarrow> (\<forall>w \<in> set vs. lo_slot v < lo_slot w) \<and> slots_sorted vs"
  by (auto simp: slots_sorted_def)

lemma check_rollback_Ok:
  "slots_sorted cs \<Longrightarrow> slots_sorted ns \<Longrightarrow> check_rollback cs ns = Ok () \<longleftrightarrow> no_rollback cs ns"
proof (induction cs ns rule: check_rollback.induct)
  case (3 c cs n ns)
  note sorted = "3.prems"
  consider "lo_slot c < lo_slot n" | "lo_slot c = lo_slot n" | "lo_slot n < lo_slot c" by linarith
  then show ?case
  proof cases
    case 1
    with 3 show ?thesis by (auto simp: no_rollback_def slots_sorted_Cons not_le)
  next
    case 2
    have "find (\<lambda>m. lo_slot d \<le> lo_slot m) (n # ns) = find (\<lambda>m. lo_slot d \<le> lo_slot m) ns"
      if "d \<in> set cs" for d
      using that 2 sorted by (auto simp: slots_sorted_Cons)
    with 2 3 show ?thesis by (auto simp: no_rollback_def slots_sorted_Cons not_less)
  next
    case gt: 3
    have "find (\<lambda>m. lo_slot d \<le> lo_slot m) (n # ns) = find (\<lambda>m. lo_slot d \<le> lo_slot m) ns"
      if "d \<in> set (c # cs)" for d
      using that gt sorted by (auto simp: slots_sorted_Cons)
    then have "no_rollback (c # cs) (n # ns) \<longleftrightarrow> no_rollback (c # cs) ns"
      unfolding no_rollback_def by (metis (no_types, lifting))
    with 3 gt show ?thesis by (simp add: slots_sorted_Cons)
  qed
qed (auto simp: no_rollback_def)

lemma slots_sorted_dropWhile: "slots_sorted vs \<Longrightarrow> slots_sorted (dropWhile P vs)"
  by (induction vs) (auto simp: slots_sorted_Cons)

lemma votes_above_root_set:
  assumes "slots_sorted vs"
  shows "set (votes_above_root r vs) =
    {v \<in> set vs. case r of None \<Rightarrow> True | Some x \<Rightarrow> x < lo_slot v}"
  using assms unfolding votes_above_root_def
  by (induction vs) (force simp: slots_sorted_Cons split: option.splits)+

lemma process_timestamp_frame:
  "process_timestamp slot ts s = Ok s' \<Longrightarrow>
     s' = s\<lparr>last_timestamp := \<lparr>bts_slot = slot, bts_timestamp = ts\<rparr>\<rparr> \<and>
     bts_slot (last_timestamp s) \<le> slot \<and> bts_timestamp (last_timestamp s) \<le> ts"
  by (auto simp: process_timestamp_def Let_def not_less split: if_splits)

lemma process_new_vote_state_Ok:
  assumes "process_new_vote_state new_state new_root ts e s = Ok s'"
  shows "new_state \<noteq> []" "tower_wf new_state" "votes s' = new_state" "root_slot s' = new_root"
    "\<not> root_rolled_back new_root (root_slot s)"
    "\<forall>v \<in> set new_state. \<forall>x. new_root = Some x \<longrightarrow> x < lo_slot v \<or> x = 0"
    "check_rollback (votes_above_root new_root (votes s)) new_state = Ok ()"
    "credits s' = (if root_slot s \<noteq> new_root then wrap64 (credits s + 1) else credits s)"
proof -
  let ?s1 = "if root_slot s \<noteq> new_root then increment_credits e s else s"
  obtain s2 where *: "new_state \<noteq> []" "length new_state \<le> MAX_LOCKOUT_HISTORY"
    "\<not> root_rolled_back new_root (root_slot s)"
    "check_new_votes new_root None new_state = Ok ()"
    "check_rollback (votes_above_root new_root (votes s)) new_state = Ok ()"
    "(case ts of None \<Rightarrow> Ok ?s1 | Some t \<Rightarrow> process_timestamp (lo_slot (last new_state)) t ?s1) = Ok s2"
    "s' = s2\<lparr>root_slot := new_root, votes := new_state\<rparr>"
    using assms by (auto simp: process_new_vote_state_def result_simps Let_def split: if_splits)
  then show "new_state \<noteq> []" "votes s' = new_state" "root_slot s' = new_root"
    "\<not> root_rolled_back new_root (root_slot s)"
    "check_rollback (votes_above_root new_root (votes s)) new_state = Ok ()" by simp_all
  from *(2,4) show "tower_wf new_state"
    "\<forall>v \<in> set new_state. \<forall>x. new_root = Some x \<longrightarrow> x < lo_slot v \<or> x = 0"
    by (auto simp: tower_wf_def check_new_votes_Ok)
  have "credits s2 = credits ?s1"
    using *(6) by (auto simp: credits_def split: option.splits dest!: process_timestamp_frame)
  moreover have "credits s' = credits s2" by (simp add: *(7) credits_def)
  ultimately show "credits s' = (if root_slot s \<noteq> new_root then wrap64 (credits s + 1) else credits s)"
    by (simp add: credits_increment)
qed

lemma process_new_vote_state_panic:
  "process_new_vote_state new_state new_root ts e s = panic \<longleftrightarrow> new_state = []"
proof -
  have "check_new_votes r p vs \<noteq> panic" for r p vs
    by (induction r p vs rule: check_new_votes.induct) (auto split: option.splits)
  moreover have "check_rollback cs ns \<noteq> panic" for cs ns
    by (induction cs ns rule: check_rollback.induct) auto
  ultimately show ?thesis
    by (auto simp: process_new_vote_state_def process_timestamp_def fault_iffs Let_def
        split: option.splits if_splits)
qed

section \<open>What the check of a vote's slots decides\<close>

definition newer_slots :: "slot option \<Rightarrow> slot list \<Rightarrow> slot list" where
  "newer_slots last_voted vote_slots =
     filter (\<lambda>slot. case last_voted of None \<Rightarrow> True | Some l \<Rightarrow> l < slot) vote_slots"

definition skipped :: "slot option \<Rightarrow> slot \<Rightarrow> bool" where
  "skipped lv slot = (case lv of None \<Rightarrow> False | Some l \<Rightarrow> slot \<le> l)"

lemma skipped_mono: "\<not> skipped lv a \<Longrightarrow> a \<le> b \<Longrightarrow> \<not> skipped lv b"
  by (auto simp: skipped_def split: option.splits)

text \<open>The loop walks two suffixes: the slots still to match and the history, oldest first.\<close>

fun match_slots :: "slot option \<Rightarrow> slot list \<Rightarrow> slot_hash list \<Rightarrow> slot list \<times> slot_hash list" where
  "match_slots lv [] rs = ([], rs)"
| "match_slots lv (v # vs) [] = (v # vs, [])"
| "match_slots lv (v # vs) (r # rs) =
     (if skipped lv v then match_slots lv vs (r # rs)
      else if v \<noteq> fst r then match_slots lv (v # vs) rs
      else match_slots lv vs rs)"

lemma check_slots_loop_match:
  "i \<le> length vs \<Longrightarrow> j \<le> length hs \<Longrightarrow>
   check_slots_loop lv vs hs i j =
     (let m = match_slots lv (drop i vs) (rev (take j hs))
      in (length vs - length (fst m), length (snd m)))"
proof (induction lv vs hs i j rule: check_slots_loop.induct)
  case (1 lv vs hs i j)
  note IH = 1(1-3) and prems = 1(4,5)
  show ?case
  proof (cases "i < length vs \<and> 0 < j")
    case True
    then obtain k where k: "j = Suc k" by (cases j) auto
    have d: "drop i vs = vs ! i # drop (i + 1) vs" using True by (simp add: Cons_nth_drop_Suc)
    have t: "rev (take j hs) = hs ! (j - 1) # rev (take (j - 1) hs)"
      using True prems(2) by (simp add: k take_Suc_conv_app_nth)
    let ?skip = "case lv of None \<Rightarrow> False | Some l \<Rightarrow> vs ! i \<le> l"
    note unfold = check_slots_loop.simps [of lv vs hs i j]
    consider ?skip | "\<not> ?skip" "vs ! i \<noteq> fst (hs ! (j - 1))" | "\<not> ?skip" "vs ! i = fst (hs ! (j - 1))"
      by blast
    then show ?thesis
    proof cases
      case 1
      have "check_slots_loop lv vs hs i j = check_slots_loop lv vs hs (i + 1) j"
        unfolding unfold using True 1 by simp
      moreover have "match_slots lv (drop i vs) (rev (take j hs)) =
        match_slots lv (drop (i + 1) vs) (rev (take j hs))"
        unfolding d t using 1 by (simp add: skipped_def)
      ultimately show ?thesis using IH(1) [OF True 1] True prems by simp
    next
      case 2
      have "check_slots_loop lv vs hs i j = check_slots_loop lv vs hs i (j - 1)"
        unfolding unfold using True 2 by simp
      moreover have "match_slots lv (drop i vs) (rev (take j hs)) =
        match_slots lv (drop i vs) (rev (take (j - 1) hs))"
        unfolding d t using 2 by (simp add: skipped_def)
      ultimately show ?thesis using IH(2) [OF True 2] True prems by simp
    next
      case 3
      then have ne: "\<not> vs ! i \<noteq> fst (hs ! (j - 1))" by simp
      have sk: "\<not> skipped lv (vs ! i)" using 3(1) by (simp add: skipped_def)
      have "check_slots_loop lv vs hs i j = check_slots_loop lv vs hs (i + 1) (j - 1)"
        unfolding unfold using True 3 by simp
      moreover have "match_slots lv (drop i vs) (rev (take j hs)) =
        match_slots lv (drop (i + 1) vs) (rev (take (j - 1) hs))"
        unfolding d t using sk 3(2) by simp
      ultimately show ?thesis using IH(3) [OF True 3(1) ne] True prems by simp
    qed
  next
    case False
    then have "check_slots_loop lv vs hs i j = (i, j)" 
      unfolding check_slots_loop.simps [of lv vs hs i j] by (simp only: if_False)
    moreover have "match_slots lv (drop i vs) (rev (take j hs)) = (drop i vs, rev (take j hs))"
      using False by (cases "drop i vs") auto
    ultimately show ?thesis using prems by simp
  qed
qed

lemma match_slots_drop_skipped:
  "rs \<noteq> [] \<Longrightarrow> match_slots lv vs rs = match_slots lv (dropWhile (skipped lv) vs) rs"
  by (induction vs) (auto simp: neq_Nil_conv)

definition consumed :: "slot list \<Rightarrow> slot_hash list \<Rightarrow> slot list \<Rightarrow> slot_hash list \<Rightarrow> slot_hash list \<Rightarrow> bool" where
  "consumed vs rs us qs ps \<longleftrightarrow> rs = ps @ qs \<and> (vs = [] \<longrightarrow> ps = []) \<and> (vs \<noteq> [] \<longrightarrow> rs \<noteq> [] \<longrightarrow> ps \<noteq> []) \<and>
     (us = [] \<longrightarrow> vs \<noteq> [] \<longrightarrow> ps \<noteq> [] \<and> fst (last ps) = last vs)"

lemma consumed_match: "consumed vs rs us qs ps \<Longrightarrow> fst r = v \<Longrightarrow> consumed (v # vs) (r # rs) us qs (r # ps)"
  by (auto simp: consumed_def)

lemma consumed_advance: "consumed (v # vs) rs us qs ps \<Longrightarrow> consumed (v # vs) (r # rs) us qs (r # ps)"
  by (auto simp: consumed_def)

lemma match_slots_consumed:
  "\<forall>v \<in> set vs. \<not> skipped lv v \<Longrightarrow> match_slots lv vs rs = (us, qs) \<Longrightarrow> \<exists>ps. consumed vs rs us qs ps"
proof (induction lv vs rs rule: match_slots.induct)
  case (3 lv v vs r rs)
  have nv: "\<not> skipped lv v" using "3.prems"(1) by simp
  show ?case
  proof (cases "v = fst r")
    case True
    then have "match_slots lv vs rs = (us, qs)" using "3.prems"(2) nv by simp
    then obtain ps where "consumed vs rs us qs ps"
      using "3.IH"(3) nv True "3.prems"(1) by auto
    then show ?thesis using consumed_match True by metis
  next
    case False
    then have "match_slots lv (v # vs) rs = (us, qs)" using "3.prems"(2) nv by simp
    then obtain ps where "consumed (v # vs) rs us qs ps"
      using "3.IH"(2) [OF nv False "3.prems"(1)] by blast
    then show ?thesis using consumed_advance by metis
  qed
qed (auto simp: consumed_def)

lemma match_slots_all:
  "sorted_wrt (<) vs \<Longrightarrow> sorted_wrt (<) (map fst rs) \<Longrightarrow> \<forall>v \<in> set vs. \<not> skipped lv v \<Longrightarrow>
   fst (match_slots lv vs rs) = [] \<longleftrightarrow> set vs \<subseteq> fst ` set rs"
proof (induction lv vs rs rule: match_slots.induct)
  case (3 lv v vs r rs)
  have nv: "\<not> skipped lv v" using "3.prems"(3) by simp
  show ?case
  proof (cases "v = fst r")
    case True
    have "set vs \<subseteq> fst ` set rs \<longleftrightarrow> set (v # vs) \<subseteq> fst ` set (r # rs)"
      using "3.prems"(1) True by auto
    moreover have "fst (match_slots lv vs rs) = [] \<longleftrightarrow> set vs \<subseteq> fst ` set rs"
      using "3.IH"(3) nv True "3.prems" by simp
    ultimately show ?thesis using nv True by simp
  next
    case False
    have "set (v # vs) \<subseteq> fst ` set rs \<longleftrightarrow> set (v # vs) \<subseteq> fst ` set (r # rs)"
    proof
      assume *: "set (v # vs) \<subseteq> fst ` set (r # rs)"
      then have "v \<in> fst ` set rs" using False by auto
      then have "fst r < v" using "3.prems"(2) by auto
      then have "\<forall>w \<in> set (v # vs). w \<noteq> fst r" using "3.prems"(1) by auto
      with * show "set (v # vs) \<subseteq> fst ` set rs" by auto
    qed auto
    moreover have "fst (match_slots lv (v # vs) rs) = [] \<longleftrightarrow> set (v # vs) \<subseteq> fst ` set rs"
      using "3.IH"(2) [OF nv False "3.prems"(1) _ "3.prems"(3)] "3.prems"(2) by simp
    ultimately show ?thesis using nv False by simp
  qed
qed auto

lemma dropWhile_skipped:
  "sorted_wrt (<) vs \<Longrightarrow> dropWhile (skipped lv) vs = newer_slots lv vs"
proof (induction vs)
  case (Cons v vs)
  show ?case
  proof (cases "skipped lv v")
    case True
    with Cons show ?thesis by (auto simp: newer_slots_def skipped_def split: option.splits)
  next
    case False
    then have "\<forall>w \<in> set vs. \<not> skipped lv w"
      using Cons.prems skipped_mono by fastforce
    with False have "filter (\<lambda>s. case lv of None \<Rightarrow> True | Some l \<Rightarrow> l < s) (v # vs) = v # vs"
      by (intro filter_True) (auto simp: skipped_def not_le split: option.splits)
    with False show ?thesis by (simp add: newer_slots_def)
  qed
qed (simp add: newer_slots_def)

lemma newer_slots_props:
  assumes "sorted_wrt (<) vs"
  shows "sorted_wrt (<) (newer_slots lv vs)" "\<forall>v \<in> set (newer_slots lv vs). \<not> skipped lv v"
    "newer_slots lv vs \<noteq> [] \<Longrightarrow> last (newer_slots lv vs) = last vs"
proof -
  show "sorted_wrt (<) (newer_slots lv vs)" "\<forall>v \<in> set (newer_slots lv vs). \<not> skipped lv v"
    using assms by (auto simp: newer_slots_def skipped_def sorted_wrt_filter split: option.splits)
  have "takeWhile (skipped lv) vs @ newer_slots lv vs = vs"
    using dropWhile_skipped [OF assms, of lv] by (metis takeWhile_dropWhile_id)
  then show "newer_slots lv vs \<noteq> [] \<Longrightarrow> last (newer_slots lv vs) = last vs"
    by (metis last_appendR)
qed

lemma check_slots_are_valid_iff:
  assumes vs: "sorted_wrt (<) vs" and hs: "sorted_wrt (>) (map fst hs)"
  shows "check_slots_are_valid s vs h hs = Ok () \<longleftrightarrow>
    newer_slots (last_voted_slot s) vs \<noteq> [] \<and>
    set (newer_slots (last_voted_slot s) vs) \<subseteq> fst ` set hs \<and> map_of hs (last vs) = Some h"
proof (cases "hs = []")
  case True
  then show ?thesis by (auto simp: check_slots_are_valid_def check_slots_loop.simps)
next
  case False
  let ?lv = "last_voted_slot s"
  let ?ns = "newer_slots ?lv vs"
  obtain us qs where m: "match_slots ?lv ?ns (rev hs) = (us, qs)" by fastforce
  have loop: "check_slots_loop ?lv vs hs 0 (length hs) = (length vs - length us, length qs)"
    using check_slots_loop_match [of 0 vs "length hs" hs ?lv] m False
      match_slots_drop_skipped [of "rev hs" ?lv vs] dropWhile_skipped [OF vs, of ?lv]
    by (simp add: Let_def)
  have rs: "sorted_wrt (<) (map fst (rev hs))"
    using hs by (simp add: rev_map [symmetric] sorted_wrt_rev)
  note ns_props = newer_slots_props [OF vs, of ?lv]
  have us: "us = [] \<longleftrightarrow> set ?ns \<subseteq> fst ` set hs"
    using match_slots_all [OF ns_props(1) rs ns_props(2)] m by simp
  obtain ps where ps: "consumed ?ns (rev hs) us qs ps"
    using match_slots_consumed [OF ns_props(2) m] by blast
  show ?thesis
  proof (cases "?ns = []")
    case True
    then have "length qs = length hs" using m by auto
    with True loop show ?thesis by (simp add: check_slots_are_valid_def)
  next
    case ns: False
    have ne: "ps \<noteq> []" and hs_eq: "hs = rev qs @ rev ps"
      using ps ns False by (auto simp: consumed_def rev_swap)
    then have j: "length qs \<noteq> length hs" "length qs < length hs" "hs ! length qs = last ps"
      by (auto simp: nth_append hd_conv_nth [symmetric] hd_rev)
    have v: "check_slots_are_valid s vs h hs = Ok () \<longleftrightarrow>
        length vs - length us = length vs \<and> snd (last ps) = h"
      using loop j by (simp add: check_slots_are_valid_def)
    have "vs \<noteq> []" using ns by (auto simp: newer_slots_def)
    then have i: "length vs - length us = length vs \<longleftrightarrow> us = []" by (cases us; cases vs) auto
    have "map_of hs (last vs) = Some h \<longleftrightarrow> snd (last ps) = h" if "us = []"
    proof -
      have "last ps \<in> set hs" using ne hs_eq by (metis UnCI last_in_set set_append set_rev)
      moreover have "fst (last ps) = last vs"
        using ps that ns ns_props(3) by (simp add: consumed_def)
      moreover have "distinct (map fst hs)"
        using rs by (metis distinct_rev rev_map strict_sorted_iff)
      ultimately have "map_of hs (last vs) = Some (snd (last ps))"
        by (metis map_of_eq_Some_iff prod.collapse)
      then show ?thesis by simp
    qed
    with v i us ns show ?thesis by blast
  qed
qed



section \<open>What the check of a proposed tower decides\<close>

definition too_old :: "vote_state \<Rightarrow> slot \<Rightarrow> lockout \<Rightarrow> bool" where
  "too_old s earliest l \<longleftrightarrow> lo_slot l < earliest \<and> \<not> contains_slot s (lo_slot l)"

text \<open>What a completed run of the loop from index \<open>i\<close> has established.\<close>

definition accepted ::
  "vote_state \<Rightarrow> lockout list \<Rightarrow> slot_hash list \<Rightarrow> slot \<Rightarrow> slot option \<Rightarrow> nat \<Rightarrow> nat \<Rightarrow> nat list \<Rightarrow> nat \<Rightarrow> nat list \<Rightarrow> bool" where
  "accepted s ls hs earliest cr i j f j' f' \<longleftrightarrow>
     (\<forall>k. i \<le> k \<longrightarrow> k < length ls \<longrightarrow>
        (lo_slot (ls ! k) \<in> fst ` set hs \<or> lo_slot (ls ! k) < earliest) \<and>
        (0 < k \<longrightarrow> lo_slot (ls ! (k - 1)) < lo_slot (ls ! k))) \<and>
     f' = f @ filter (\<lambda>k. too_old s earliest (ls ! k)) [i..<length ls] \<and>
     (if i < length ls
      then earliest \<le> lo_slot (last ls) \<longrightarrow> j' < length hs \<and> fst (hs ! j') = lo_slot (last ls)
      else j' = j) \<and>
     (\<forall>r. cr = Some r \<longrightarrow> r \<in> fst ` set hs \<or> r < earliest)"

lemma accepted_root:
  "accepted s ls hs earliest None i j f j' f' \<Longrightarrow> r \<in> fst ` set hs \<or> r < earliest \<Longrightarrow>
   accepted s ls hs earliest (Some r) i j f j' f'"
  by (simp add: accepted_def)

lemma accepted_index_irrelevant:
  "i < length ls \<Longrightarrow> accepted s ls hs earliest cr i j f j' f' = accepted s ls hs earliest cr i k f j' f'"
  by (simp add: accepted_def)

lemma accepted_step:
  assumes "i < length ls" "0 < i \<Longrightarrow> lo_slot (ls ! (i - 1)) < lo_slot (ls ! i)"
    and "lo_slot (ls ! i) \<in> fst ` set hs \<or> lo_slot (ls ! i) < earliest"
    and "accepted s ls hs earliest None (i + 1) k
      (if too_old s earliest (ls ! i) then f @ [i] else f) j' f'"
    and "earliest \<le> lo_slot (ls ! i) \<Longrightarrow> k < length hs \<and> fst (hs ! k) = lo_slot (ls ! i)"
  shows "accepted s ls hs earliest None i j f j' f'"
proof -
  have up: "[i..<length ls] = i # [i + 1..<length ls]" using assms(1) by (simp add: upt_conv_Cons)
  have l: "last ls = ls ! i" if "\<not> i + 1 < length ls"
    using that assms(1) by (subst last_conv_nth) (auto intro: arg_cong [where f = "(!) ls"])
  show ?thesis
    unfolding accepted_def
  proof (intro conjI)
    show "\<forall>k. i \<le> k \<longrightarrow> k < length ls \<longrightarrow>
        (lo_slot (ls ! k) \<in> fst ` set hs \<or> lo_slot (ls ! k) < earliest) \<and>
        (0 < k \<longrightarrow> lo_slot (ls ! (k - 1)) < lo_slot (ls ! k))"
    proof (intro allI impI)
      fix k
      assume k: "i \<le> k" "k < length ls"
      show "(lo_slot (ls ! k) \<in> fst ` set hs \<or> lo_slot (ls ! k) < earliest) \<and>
          (0 < k \<longrightarrow> lo_slot (ls ! (k - 1)) < lo_slot (ls ! k))"
        using assms(2-4) k by (cases "k = i") (simp_all add: accepted_def)
    qed
    show "f' = f @ filter (\<lambda>k. too_old s earliest (ls ! k)) [i..<length ls]"
      using assms(4) unfolding up accepted_def by auto
    show "if i < length ls
      then earliest \<le> lo_slot (last ls) \<longrightarrow> j' < length hs \<and> fst (hs ! j') = lo_slot (last ls)
      else j' = j"
      using assms(1,4,5) l by (auto simp: accepted_def split: if_splits)
  qed simp
qed

lemma check_update_stop:
  "\<not> (i < length ls \<and> 0 < j) \<Longrightarrow> check_update_loop s ls hs e cr i j f = Ok (i, j, f)"
  by (subst check_update_loop.simps) (simp only: if_False)

lemma check_update_unordered:
  assumes "i < length ls" "0 < j" "0 < i" "lo_slot (ls ! i) \<le> lo_slot (ls ! (i - 1))"
  shows "check_update_loop s ls hs e None i j f = Err SlotsNotOrdered"
  by (subst check_update_loop.simps) (use assms in \<open>simp add: Let_def\<close>)

lemmas eval_branch = Let_def option.case if_True if_False simp_thms ordering.case option.distinct

lemma check_update_none:
  assumes "i < length ls" "0 < j" "\<not> (0 < i \<and> lo_slot (ls ! i) \<le> lo_slot (ls ! (i - 1)))"
  shows "fst (hs ! (j - 1)) < lo_slot (ls ! i) \<Longrightarrow>
      check_update_loop s ls hs e None i j f = check_update_loop s ls hs e None i (j - 1) f"
    "lo_slot (ls ! i) = fst (hs ! (j - 1)) \<Longrightarrow>
      check_update_loop s ls hs e None i j f = check_update_loop s ls hs e None (i + 1) (j - 1) f"
    "lo_slot (ls ! i) < fst (hs ! (j - 1)) \<Longrightarrow> j \<noteq> length hs \<Longrightarrow>
      check_update_loop s ls hs e None i j f = Err SlotsMismatch"
    "lo_slot (ls ! i) < fst (hs ! (j - 1)) \<Longrightarrow> j = length hs \<Longrightarrow> lo_slot (ls ! i) < e \<Longrightarrow>
      check_update_loop s ls hs e None i j f =
        check_update_loop s ls hs e None (i + 1) j (if too_old s e (ls ! i) then f @ [i] else f)"
proof -
  let ?c = "cmp (lo_slot (ls ! i)) (fst (hs ! (j - 1)))"
  assume "fst (hs ! (j - 1)) < lo_slot (ls ! i)"
  then have c: "?c = Greater" by simp
  show "check_update_loop s ls hs e None i j f = check_update_loop s ls hs e None i (j - 1) f"
    by (subst check_update_loop.simps) (simp only: assms c eval_branch)
next
  assume "lo_slot (ls ! i) = fst (hs ! (j - 1))"
  then have c: "cmp (lo_slot (ls ! i)) (fst (hs ! (j - 1))) = Equal" by simp
  show "check_update_loop s ls hs e None i j f = check_update_loop s ls hs e None (i + 1) (j - 1) f"
    by (subst check_update_loop.simps) (simp only: assms c eval_branch)
next
  assume "lo_slot (ls ! i) < fst (hs ! (j - 1))" and j: "j \<noteq> length hs"
  then have c: "cmp (lo_slot (ls ! i)) (fst (hs ! (j - 1))) = Less" by simp
  show "check_update_loop s ls hs e None i j f = Err SlotsMismatch"
    by (subst check_update_loop.simps) (simp only: assms c j eval_branch)
next
  assume "lo_slot (ls ! i) < fst (hs ! (j - 1))" and j: "j = length hs" and p: "lo_slot (ls ! i) < e"
  then have c: "cmp (lo_slot (ls ! i)) (fst (hs ! (j - 1))) = Less" by simp
  have old: "too_old s e (ls ! i) \<longleftrightarrow> \<not> contains_slot s (lo_slot (ls ! i))"
    using p by (simp add: too_old_def)
  have b: "(j = length hs) = True" using j by simp
  show "check_update_loop s ls hs e None i j f =
        check_update_loop s ls hs e None (i + 1) j (if too_old s e (ls ! i) then f @ [i] else f)"
    unfolding old by (subst check_update_loop.simps) (simp only: assms c b p eval_branch)
qed

lemma check_update_some:
  assumes "i < length ls" "0 < j"
  shows "fst (hs ! (j - 1)) < p \<Longrightarrow>
      check_update_loop s ls hs e (Some p) i j f = check_update_loop s ls hs e (Some p) i (j - 1) f"
    "p = fst (hs ! (j - 1)) \<Longrightarrow>
      check_update_loop s ls hs e (Some p) i j f = check_update_loop s ls hs e None i j f"
    "p < fst (hs ! (j - 1)) \<Longrightarrow> j \<noteq> length hs \<Longrightarrow>
      check_update_loop s ls hs e (Some p) i j f = Err RootOnDifferentFork"
    "p < fst (hs ! (j - 1)) \<Longrightarrow> j = length hs \<Longrightarrow> p < e \<Longrightarrow> root_slot s = Some p \<Longrightarrow>
      check_update_loop s ls hs e (Some p) i j f = check_update_loop s ls hs e None i j f"
proof -
  assume "fst (hs ! (j - 1)) < p"
  then have c: "cmp p (fst (hs ! (j - 1))) = Greater" by simp
  show "check_update_loop s ls hs e (Some p) i j f = check_update_loop s ls hs e (Some p) i (j - 1) f"
    by (subst check_update_loop.simps) (simp only: assms c eval_branch)
next
  assume "p = fst (hs ! (j - 1))"
  then have c: "cmp p (fst (hs ! (j - 1))) = Equal" by simp
  show "check_update_loop s ls hs e (Some p) i j f = check_update_loop s ls hs e None i j f"
    by (subst check_update_loop.simps) (simp only: assms c eval_branch)
next
  assume "p < fst (hs ! (j - 1))" and j: "j \<noteq> length hs"
  then have c: "cmp p (fst (hs ! (j - 1))) = Less" by simp
  show "check_update_loop s ls hs e (Some p) i j f = Err RootOnDifferentFork"
    by (subst check_update_loop.simps) (simp only: assms c j eval_branch)
next
  assume "p < fst (hs ! (j - 1))" and j: "j = length hs" and p: "p < e" "root_slot s = Some p"
  then have c: "cmp p (fst (hs ! (j - 1))) = Less" by simp
  have b: "(j = length hs) = True" using j by simp
  show "check_update_loop s ls hs e (Some p) i j f = check_update_loop s ls hs e None i j f"
    by (subst check_update_loop.simps) (simp only: assms c b p eval_branch)
qed

lemma check_update_loop_none:
  assumes e: "earliest = fst (last hs)" "hs \<noteq> []" "\<forall>h \<in> set hs. earliest \<le> fst h"
    and "j \<le> length hs" "i \<le> length ls"
  shows "check_update_loop s ls hs earliest None i j f \<noteq> panic \<and>
    (\<forall>j' f'. check_update_loop s ls hs earliest None i j f = Ok (length ls, j', f') \<longrightarrow>
       accepted s ls hs earliest None i j f j' f')"
  using assms(4,5)
proof (induction "(length ls - i) + j" arbitrary: i j f rule: less_induct)
  case less
  show ?case
  proof (cases "i < length ls \<and> 0 < j")
    case False
    then have "check_update_loop s ls hs earliest None i j f = Ok (i, j, f)" by (rule check_update_stop)
    then show ?thesis by (simp add: accepted_def)
  next
    case True
    let ?p = "lo_slot (ls ! i)" and ?a = "fst (hs ! (j - 1))"
    have hmem: "hs ! (j - 1) \<in> set hs" using True less.prems(1) by (intro nth_mem) linarith
    have ge: "earliest \<le> ?a" using e(3) hmem by blast
    have jlen: "?a = earliest" if "j = length hs" using that e(1,2) by (simp add: last_conv_nth)
    show ?thesis
    proof (cases "0 < i \<and> ?p \<le> lo_slot (ls ! (i - 1))")
      case bad: True
      then show ?thesis using check_update_unordered True by simp
    next
      case ord: False
      have il: "i < length ls" and j0: "0 < j" using True by simp_all
      have o: "0 < i \<Longrightarrow> lo_slot (ls ! (i - 1)) < ?p" using ord by linarith
      note eq = check_update_none [OF il j0 ord, where hs = hs and s = s and e = earliest and f = f]
      consider "?p < ?a" "j \<noteq> length hs" | "?p < ?a" "j = length hs" | "?p = ?a" | "?a < ?p" by linarith
      then show ?thesis
      proof cases
        case 1
        show ?thesis unfolding eq(3) [OF 1] by simp
      next
        case 2
        let ?f = "if too_old s earliest (ls ! i) then f @ [i] else f"
        have p: "?p < earliest" using 2 jlen by simp
        have rec: "check_update_loop s ls hs earliest None i j f =
            check_update_loop s ls hs earliest None (i + 1) j ?f"
          by (rule eq(4) [OF 2 p])
        have acc: "accepted s ls hs earliest None i j f j' f'"
          if "accepted s ls hs earliest None (i + 1) j ?f j' f'" for j' f'
          by (rule accepted_step [OF il o _ that]) (use p in simp_all)
        show ?thesis
          unfolding rec using less.hyps [of "i + 1" j ?f] il less.prems(1) acc by (simp del: One_nat_def)
      next
        case 3
        have nt: "\<not> too_old s earliest (ls ! i)" using 3 ge by (simp add: too_old_def)
        have rec: "check_update_loop s ls hs earliest None i j f =
            check_update_loop s ls hs earliest None (i + 1) (j - 1) f"
          by (rule eq(2) [OF 3])
        have acc: "accepted s ls hs earliest None i j f j' f'"
          if "accepted s ls hs earliest None (i + 1) (j - 1) f j' f'" for j' f'
        proof (rule accepted_step [OF il o, where k = "j - 1"])
          show "?p \<in> fst ` set hs \<or> ?p < earliest" using 3 hmem by simp
          show "accepted s ls hs earliest None (i + 1) (j - 1)
              (if too_old s earliest (ls ! i) then f @ [i] else f) j' f'"
            using that nt by simp
          show "j - 1 < length hs \<and> fst (hs ! (j - 1)) = ?p"
            using j0 less.prems(1) 3 by linarith
        qed
        show ?thesis
          unfolding rec using less.hyps [of "i + 1" "j - 1" f] il j0 less.prems(1) acc by (simp del: One_nat_def)
      next
        case 4
        have rec: "check_update_loop s ls hs earliest None i j f =
            check_update_loop s ls hs earliest None i (j - 1) f"
          by (rule eq(1) [OF 4])
        have irr: "accepted s ls hs earliest None i (j - 1) f j' f' = accepted s ls hs earliest None i j f j' f'" for j' f'
          using accepted_index_irrelevant True by blast
        show ?thesis
          unfolding rec irr [symmetric] using less.hyps [of i "j - 1" f] il j0 less.prems by simp
      qed
    qed
  qed
qed

lemma check_update_loop_some:
  assumes e: "earliest = fst (last hs)" "hs \<noteq> []" "\<forall>h \<in> set hs. earliest \<le> fst h"
    and i: "i < length ls" and root: "r < earliest \<Longrightarrow> root_slot s = Some r"
    and "j \<le> length hs"
  shows "check_update_loop s ls hs earliest (Some r) i j f \<noteq> panic \<and>
    (\<forall>j' f'. check_update_loop s ls hs earliest (Some r) i j f = Ok (length ls, j', f') \<longrightarrow>
       accepted s ls hs earliest (Some r) i j f j' f')"
  using assms(6)
proof (induction j)
  case 0
  then show ?case using i by (simp add: check_update_stop)
next
  case (Suc j)
  let ?a = "fst (hs ! j)"
  note eq = check_update_some [OF i, of "Suc j", simplified]
  note none = check_update_loop_none [OF e Suc.prems less_imp_le [OF i], of s f]
  have hmem: "hs ! j \<in> set hs" using Suc.prems by (intro nth_mem) linarith
  have jlen: "?a = earliest" if "Suc j = length hs"
    using that e(1,2) by (metis diff_Suc_1 last_conv_nth)
  consider "r < ?a" "Suc j \<noteq> length hs" | "r < ?a" "Suc j = length hs" | "r = ?a" | "?a < r" by linarith
  then show ?case
  proof cases
    case 1
    then show ?thesis using eq(3) by simp
  next
    case 2
    then have r: "r < earliest" using jlen by simp
    then have "check_update_loop s ls hs earliest (Some r) i (Suc j) f =
        check_update_loop s ls hs earliest None i (Suc j) f"
      using eq(4) 2 root by blast
    with none r show ?thesis by (metis accepted_root)
  next
    case 3
    then have "check_update_loop s ls hs earliest (Some r) i (Suc j) f =
        check_update_loop s ls hs earliest None i (Suc j) f"
      using eq(2) by blast
    with none 3 hmem show ?thesis by (metis accepted_root image_eqI)
  next
    case 4
    then have "check_update_loop s ls hs earliest (Some r) i (Suc j) f =
        check_update_loop s ls hs earliest (Some r) i j f"
      using eq(1) by blast
    moreover have "accepted s ls hs earliest (Some r) i j f j' f' =
        accepted s ls hs earliest (Some r) i (Suc j) f j' f'" for j' f'
      using accepted_index_irrelevant i by blast
    ultimately show ?thesis using Suc by simp
  qed
qed

lemma retain_votes_ne: "(\<forall>f \<in> set fs. f \<noteq> i) \<Longrightarrow> retain_votes i fs (l # ls) = l # retain_votes (i + 1) fs ls"
  by (cases fs) auto

lemma retain_votes_filter:
  assumes "\<And>k. k < length ls \<Longrightarrow> P (i + k) \<longleftrightarrow> R (ls ! k)"
  shows "retain_votes i (filter P [i..<i + length ls]) ls = filter (\<lambda>l. \<not> R l) ls"
  using assms
proof (induction ls arbitrary: i)
  case (Cons l ls)
  have up: "[i..<i + length (l # ls)] = i # [i + 1..<i + 1 + length ls]"
    by (subst upt_conv_Cons) simp_all
  have "retain_votes (i + 1) (filter P [i + 1..<i + 1 + length ls]) ls = filter (\<lambda>l. \<not> R l) ls"
    using Cons.prems [of "Suc _"] by (intro Cons.IH) auto
  moreover have "P i \<longleftrightarrow> R l" using Cons.prems [of 0] by simp
  moreover have "\<forall>f \<in> set (filter P [i + 1..<i + 1 + length ls]). f \<noteq> i" by auto
  ultimately show ?case unfolding up by (simp add: retain_votes_ne del: upt_Suc)
qed simp

lemma sorted_history_earliest:
  fixes hs :: "slot_hash list"
  assumes "sorted_wrt (>) (map fst hs)" "hs \<noteq> []"
  shows "\<forall>h \<in> set hs. fst (last hs) \<le> fst h"
  using assms
proof (induction hs)
  case (Cons a hs)
  then show ?case by (cases hs) (auto intro: less_imp_le less_trans le_less_trans)
qed simp

lemma check_update_Ok:
  assumes ok: "check_update_vote_state_slots_are_valid s u hs = Ok u'"
    and hs: "sorted_wrt (>) (map fst hs)"
  defines "earliest \<equiv> fst (last hs)"
  shows "hs \<noteq> []" "vsu_lockouts u \<noteq> []"
    "\<And>l. last_voted_slot s = Some l \<Longrightarrow> l < lo_slot (last (vsu_lockouts u))"
    "earliest \<le> lo_slot (last (vsu_lockouts u))"
    "sorted_wrt (<) (map lo_slot (vsu_lockouts u))"
    "vsu_lockouts u' = filter (\<lambda>l. \<not> too_old s earliest l) (vsu_lockouts u)"
    "\<And>l. l \<in> set (vsu_lockouts u) \<Longrightarrow> earliest \<le> lo_slot l \<Longrightarrow> lo_slot l \<in> fst ` set hs"
    "map_of hs (lo_slot (last (vsu_lockouts u))) = Some (vsu_hash u)"
    "vsu_root u' = adjusted_root s earliest (vsu_root u)"
    "\<And>r. vsu_root u' = Some r \<Longrightarrow> r \<in> fst ` set hs \<or> r < earliest"
    "vsu_hash u' = vsu_hash u" "vsu_timestamp u' = vsu_timestamp u"
proof -
  let ?ls = "vsu_lockouts u" and ?r = "adjusted_root s earliest (vsu_root u)"
  let ?last = "lo_slot (last ?ls)"
  obtain j f where *: "hs \<noteq> []" "?ls \<noteq> []"
    "\<not> (case last_voted_slot s of None \<Rightarrow> False | Some l \<Rightarrow> ?last \<le> l)" "earliest \<le> ?last"
    "check_update_loop s ?ls hs earliest ?r 0 (length hs) [] = Ok (length ?ls, j, f)"
    "?last = fst (hs ! j)" "j < length hs" "snd (hs ! j) = vsu_hash u"
    "u' = u\<lparr>vsu_root := ?r, vsu_lockouts := retain_votes 0 f ?ls\<rparr>"
    using ok by (auto simp: check_update_vote_state_slots_are_valid_def earliest_def result_simps
        Let_def not_less split: if_splits)
  show "hs \<noteq> []" "?ls \<noteq> []" "earliest \<le> ?last" "\<And>l. last_voted_slot s = Some l \<Longrightarrow> l < ?last"
    "vsu_root u' = ?r" "vsu_hash u' = vsu_hash u" "vsu_timestamp u' = vsu_timestamp u"
    using * by auto
  have hge: "\<forall>h \<in> set hs. earliest \<le> fst h"
    unfolding earliest_def by (rule sorted_history_earliest [OF hs *(1)])
  have len: "0 < length ?ls" using *(2) by simp
  have "accepted s ?ls hs earliest ?r 0 (length hs) [] j f"
  proof (cases ?r)
    case None
    with check_update_loop_none [OF earliest_def [THEN meta_eq_to_obj_eq] *(1) hge order_refl, of 0 ?ls s "[]"] *(5)
    show ?thesis by simp
  next
    case (Some r)
    then have "r < earliest \<Longrightarrow> root_slot s = Some r"
      by (auto simp: adjusted_root_def split: option.splits if_splits)
    with check_update_loop_some [OF earliest_def [THEN meta_eq_to_obj_eq] *(1) hge len _ order_refl, of r s "[]"] *(5) Some
    show ?thesis by simp
  qed
  note acc = this [unfolded accepted_def]
  have "successively (<) (map lo_slot ?ls)"
    unfolding successively_conv_nth
  proof (intro allI impI)
    fix i
    assume i: "Suc i < length (map lo_slot ?ls)"
    then show "map lo_slot ?ls ! i < map lo_slot ?ls ! Suc i"
      using acc [THEN conjunct1, rule_format, of "Suc i"] by simp
  qed
  then show "sorted_wrt (<) (map lo_slot ?ls)" by (simp add: successively_conv_sorted_wrt)
  show "\<And>l. l \<in> set ?ls \<Longrightarrow> earliest \<le> lo_slot l \<Longrightarrow> lo_slot l \<in> fst ` set hs"
    using acc [THEN conjunct1] by (metis in_set_conv_nth le0 not_le)
  have "f = filter (\<lambda>k. too_old s earliest (?ls ! k)) [0..<0 + length ?ls]" using acc by simp
  then show "vsu_lockouts u' = filter (\<lambda>l. \<not> too_old s earliest l) ?ls"
    using *(9) retain_votes_filter [of ?ls "\<lambda>k. too_old s earliest (?ls ! k)" 0] by simp
  show "\<And>r. vsu_root u' = Some r \<Longrightarrow> r \<in> fst ` set hs \<or> r < earliest"
    using acc *(9) by simp
  have "distinct (map fst hs)" using hs
    by (metis sorted_wrt_rev rev_map strict_sorted_iff distinct_rev)
  moreover have "hs ! j \<in> set hs" using *(7) by simp
  ultimately show "map_of hs ?last = Some (vsu_hash u)"
    using *(6,8) by (metis map_of_eq_Some_iff prod.collapse)
qed

lemma check_update_no_panic:
  assumes "sorted_wrt (>) (map fst hs)"
  shows "check_update_vote_state_slots_are_valid s u hs \<noteq> panic"
proof
  let ?earliest = "fst (last hs)" and ?ls = "vsu_lockouts u"
  let ?r = "adjusted_root s ?earliest (vsu_root u)"
  let ?loop = "check_update_loop s ?ls hs ?earliest ?r 0 (length hs) []"
  assume panic: "check_update_vote_state_slots_are_valid s u hs = panic"
  then have ne: "hs \<noteq> []" "?ls \<noteq> []" "?earliest \<le> lo_slot (last ?ls)"
    by (auto simp: check_update_vote_state_slots_are_valid_def Let_def not_less split: if_splits)
  have hge: "\<forall>h \<in> set hs. ?earliest \<le> fst h"
    by (rule sorted_history_earliest [OF assms ne(1)])
  have len: "0 < length ?ls" using ne(2) by simp
  have spec: "?loop \<noteq> panic \<and> (\<forall>j f. ?loop = Ok (length ?ls, j, f) \<longrightarrow>
      accepted s ?ls hs ?earliest ?r 0 (length hs) [] j f)"
  proof (cases ?r)
    case None
    with check_update_loop_none [OF refl ne(1) hge order_refl, of 0 ?ls s "[]"] show ?thesis by simp
  next
    case (Some r)
    then have "r < ?earliest \<Longrightarrow> root_slot s = Some r"
      by (auto simp: adjusted_root_def split: option.splits if_splits)
    with check_update_loop_some [OF refl ne(1) hge len _ order_refl, of r s "[]"] Some
    show ?thesis by simp
  qed
  then have "\<And>j f. ?loop = Ok (length ?ls, j, f) \<Longrightarrow> j < length hs \<and> fst (hs ! j) = lo_slot (last ?ls)"
    using ne(3) len by (auto simp: accepted_def)
  with panic spec show False
    by (auto simp: check_update_vote_state_slots_are_valid_def Let_def fault_iffs split: if_splits)
qed

end
