(* ===== verification/Program_Interface.thy ===== *)
theory Program_Interface
  imports Sysvars
begin

text \<open>
  What the runtime relies on from a native program: a successful instruction creates and destroys
  no lamports, keeps the set of accounts, and changes neither the executable flag nor the rent
  epoch of an account. The locale \<open>native_program\<close> states the contract and lifts it to a
  sequence of instructions; the vote program and the system program interpret it.
\<close>

named_theorems conserving_intros \<open>rules that build conservation from the steps of an operation\<close>

definition store_frame :: "store \<Rightarrow> store \<Rightarrow> bool" where
  "store_frame s s' \<longleftrightarrow>
     length s' = length s \<and>
     (\<forall>i < length s. acc_executable (s' ! i) = acc_executable (s ! i) \<and>
        acc_rent_epoch (s' ! i) = acc_rent_epoch (s ! i))"

definition conserving :: "store \<Rightarrow> (store, 'e) result \<Rightarrow> bool" where
  "conserving s m \<longleftrightarrow> (\<forall>s'. m = Ok s' \<longrightarrow> total_lamports s' = total_lamports s \<and> store_frame s s')"

definition valid_accounts :: "store \<Rightarrow> keyed_account list \<Rightarrow> bool" where
  "valid_accounts s kas \<longleftrightarrow> (\<forall>ka \<in> set kas. valid_keyed_account s ka)"

text \<open>A sequence of instructions, each with its context and data, as one transaction runs it.\<close>

definition run_instructions ::
  "(bytes \<Rightarrow> invoke_context \<Rightarrow> store \<Rightarrow> (store, instruction_error) result) \<Rightarrow>
   (bytes \<times> invoke_context) list \<Rightarrow> store \<Rightarrow> (store, instruction_error) result" where
  "run_instructions process instructions s =
     foldE (\<lambda>(data, ic). process data ic) instructions s"

lemma store_frame_refl [simp]: "store_frame s s"
  by (simp add: store_frame_def)

lemma store_frame_trans: "store_frame s t \<Longrightarrow> store_frame t u \<Longrightarrow> store_frame s u"
  by (auto simp: store_frame_def)

lemma store_frame_valid: "store_frame s s' \<Longrightarrow> valid_keyed_account s' ka = valid_keyed_account s ka"
  by (simp add: store_frame_def valid_keyed_account_def)

lemma store_frame_update:
  "acc_executable a = acc_executable (s ! i) \<Longrightarrow> acc_rent_epoch a = acc_rent_epoch (s ! i) \<Longrightarrow>
   store_frame s (s[i := a])"
  by (cases "i < length s") (auto simp: store_frame_def nth_list_update)

lemma account_ref_mut_frame:
  assumes "account_ref_mut ka f s = Ok s'"
    and "\<And>a a'. f a = Ok a' \<Longrightarrow> acc_executable a' = acc_executable a \<and> acc_rent_epoch a' = acc_rent_epoch a"
  shows "store_frame s s'"
proof -
  obtain a where a: "f (account_ref s ka) = Ok a" "s' = s[ka_account ka := a]"
    using assms(1) by (auto simp: account_ref_mut_def result_simps)
  with assms(2) [OF a(1)] show ?thesis
    by (auto simp: account_ref_def intro: store_frame_update)
qed

lemma conserving_Ok [conserving_intros]: "conserving s (Ok s)"
  by (simp add: conserving_def)

lemma conserving_fault [conserving_intros]: "conserving s (Inl e)"
  by (simp add: conserving_def)

lemma conserving_bind [conserving_intros]:
  "(\<And>x. m = Ok x \<Longrightarrow> conserving s (f x)) \<Longrightarrow> conserving s (bindE m f)"
  by (auto simp: conserving_def result_simps)

lemma conserving_if [conserving_intros]:
  "(b \<Longrightarrow> conserving s m) \<Longrightarrow> (\<not> b \<Longrightarrow> conserving s n) \<Longrightarrow> conserving s (if b then m else n)"
  by simp

lemma conserving_split [conserving_intros]:
  "(\<And>a b. x = (a, b) \<Longrightarrow> conserving s (f a b)) \<Longrightarrow> conserving s (case x of (a, b) \<Rightarrow> f a b)"
  by (cases x) simp

lemma conserving_option [conserving_intros]:
  "conserving s m \<Longrightarrow> (\<And>x. conserving s (f x)) \<Longrightarrow>
   conserving s (case v of None \<Rightarrow> m | Some x \<Rightarrow> f x)"
  by (cases v) simp_all

text \<open>Composition of two steps that each conserve.\<close>

lemma conserving_seq:
  assumes "conserving s m" "\<And>t. m = Ok t \<Longrightarrow> store_frame s t \<Longrightarrow> conserving t (f t)"
  shows "conserving s (bindE m f)"
  using assms unfolding conserving_def bindE_Ok_iff by (metis store_frame_trans)

lemma conserving_set_state:
  assumes "valid_keyed_account s ka"
  shows "conserving s (ka_set_state c ka x s)"
proof -
  have "store_frame s s'" if "ka_set_state c ka x s = Ok s'" for s'
    using that unfolding ka_set_state_def
    by (rule account_ref_mut_frame) (auto dest: account_set_state_frame)
  with assms show ?thesis by (auto simp: conserving_def dest: ka_set_state_total)
qed

lemma conserving_account_ref_mut:
  assumes "valid_keyed_account s ka"
    and "\<And>a a'. f a = Ok a' \<Longrightarrow> acc_lamports a' = acc_lamports a \<and>
      acc_executable a' = acc_executable a \<and> acc_rent_epoch a' = acc_rent_epoch a"
  shows "conserving s (account_ref_mut ka f s)"
  unfolding conserving_def
  using account_ref_mut_total [of ka f s] account_ref_mut_frame [of ka f s] assms by blast

lemma lamports_frame:
  "ka_checked_sub_lamports ka n s = Ok s' \<Longrightarrow> store_frame s s'"
  "ka_checked_add_lamports ka n s = Ok s' \<Longrightarrow> store_frame s s'"
  unfolding ka_checked_sub_lamports_def ka_checked_add_lamports_def
  by (erule account_ref_mut_frame;
      auto simp: checked_sub_lamports_def checked_add_lamports_def set_lamports_def result_simps)+

lemma conserving_move:
  assumes "valid_keyed_account s from" "valid_keyed_account s to"
  shows "conserving s (bindE (ka_checked_sub_lamports from n s) (ka_checked_add_lamports to n))"
  using assms unfolding conserving_def bindE_Ok_iff
  by (metis lamports_frame move_lamports_total store_frame_trans)

lemma keyed_account_at_valid:
  "valid_accounts s kas \<Longrightarrow> keyed_account_at_index kas i = Ok ka \<Longrightarrow> valid_keyed_account s ka"
  by (auto simp: keyed_account_at_index_def valid_accounts_def split: if_splits)

locale native_program =
  fixes process :: "bytes \<Rightarrow> invoke_context \<Rightarrow> store \<Rightarrow> (store, instruction_error) result"
  assumes process_conserving:
    "valid_accounts s (ic_keyed_accounts ic) \<Longrightarrow> conserving s (process data ic s)"
begin

lemma run_conserving:
  assumes "\<forall>(data, ic) \<in> set instructions. valid_accounts s (ic_keyed_accounts ic)"
  shows "conserving s (run_instructions process instructions s)"
  using assms unfolding run_instructions_def
proof (induction instructions arbitrary: s)
  case Nil
  then show ?case by (simp add: conserving_Ok)
next
  case (Cons i rest)
  obtain data ic where i: "i = (data, ic)" by (cases i)
  have "conserving s (process data ic s)"
    using Cons.prems i by (intro process_conserving) simp
  moreover have "conserving t (foldE (\<lambda>(data, ic). process data ic) rest t)" if "store_frame s t" for t
    using Cons.prems that
    by (intro Cons.IH) (auto simp: valid_accounts_def store_frame_valid)
  ultimately show ?case
    unfolding i by (auto intro: conserving_seq)
qed

lemma run_total:
  assumes "\<forall>(data, ic) \<in> set instructions. valid_accounts s (ic_keyed_accounts ic)"
    "run_instructions process instructions s = Ok s'"
  shows "total_lamports s' = total_lamports s \<and> store_frame s s'"
  using run_conserving [OF assms(1)] assms(2) by (simp add: conserving_def)

end

section \<open>Which accounts an instruction may change\<close>

text \<open>
  \<open>touches R P s m\<close>: if the operation succeeds, every cell that it changes in the sense of \<open>R\<close>
  satisfies \<open>P\<close>. The locale has the rules for a change that is not reflexive and cannot cancel
  out halfway; a debit and a change of owner are such.
\<close>

named_theorems touches_intros \<open>rules that bound the accounts an operation changes\<close>

definition touches ::
  "(account_shared_data \<Rightarrow> account_shared_data \<Rightarrow> bool) \<Rightarrow> (nat \<Rightarrow> bool) \<Rightarrow> store \<Rightarrow>
   (store, 'e) result \<Rightarrow> bool" where
  "touches R P s m \<longleftrightarrow> (\<forall>s'. m = Ok s' \<longrightarrow> (\<forall>i < length s. R (s ! i) (s' ! i) \<longrightarrow> P i))"

definition debited :: "account_shared_data \<Rightarrow> account_shared_data \<Rightarrow> bool" where
  "debited a b = (acc_lamports b < acc_lamports a)"

definition reowned :: "account_shared_data \<Rightarrow> account_shared_data \<Rightarrow> bool" where
  "reowned a b = (acc_owner b \<noteq> acc_owner a)"

locale account_change =
  fixes R :: "account_shared_data \<Rightarrow> account_shared_data \<Rightarrow> bool"
  assumes change_irrefl: "\<not> R a a"
    and change_cotrans: "R a c \<Longrightarrow> R a b \<or> R b c"
begin

lemma touches_Ok [touches_intros]: "touches R P s (Ok s)"
  by (simp add: touches_def change_irrefl)

lemma touches_fault [touches_intros]: "touches R P s (Inl e)"
  by (simp add: touches_def)

lemma touches_bind [touches_intros]:
  "(\<And>x. m = Ok x \<Longrightarrow> touches R P s (f x)) \<Longrightarrow> touches R P s (bindE m f)"
  by (auto simp: touches_def result_simps)

lemma touches_if [touches_intros]:
  "(b \<Longrightarrow> touches R P s m) \<Longrightarrow> (\<not> b \<Longrightarrow> touches R P s n) \<Longrightarrow> touches R P s (if b then m else n)"
  by simp

lemma touches_split [touches_intros]:
  "(\<And>a b. x = (a, b) \<Longrightarrow> touches R P s (f a b)) \<Longrightarrow> touches R P s (case x of (a, b) \<Rightarrow> f a b)"
  by (cases x) simp

lemma touches_option [touches_intros]:
  "touches R P s m \<Longrightarrow> (\<And>x. v = Some x \<Longrightarrow> touches R P s (f x)) \<Longrightarrow>
   touches R P s (case v of None \<Rightarrow> m | Some x \<Rightarrow> f x)"
  by (cases v) simp_all

lemma touches_seq:
  assumes "touches R P s m" "\<And>t. m = Ok t \<Longrightarrow> length t = length s \<and> touches R P t (f t)"
  shows "touches R P s (bindE m f)"
  unfolding touches_def
proof (intro allI impI)
  fix s' i
  assume s': "bindE m f = Ok s'" and i: "i < length s" and R: "R (s ! i) (s' ! i)"
  then obtain t where t: "m = Ok t" "f t = Ok s'" by (auto simp: result_simps)
  from change_cotrans [OF R, of "t ! i"] assms(1) assms(2) [OF t(1)] t i
  show "P i" by (auto simp: touches_def)
qed

lemma touches_ref_mut:
  assumes "\<And>a. f (account_ref s ka) = Ok a \<Longrightarrow> R (account_ref s ka) a \<Longrightarrow> P (ka_account ka)"
  shows "touches R P s (account_ref_mut ka f s)"
  unfolding touches_def
proof (intro allI impI)
  fix s' i
  assume "account_ref_mut ka f s = Ok s'" "i < length s" and R: "R (s ! i) (s' ! i)"
  then obtain a where a: "f (account_ref s ka) = Ok a" "s' = s[ka_account ka := a]"
    by (auto simp: account_ref_mut_def result_simps)
  show "P i"
  proof (cases "i = ka_account ka")
    case True
    with R a(2) \<open>i < length s\<close> have "R (account_ref s ka) a" by (simp add: account_ref_def)
    with a(1) True show ?thesis using assms by blast
  qed (use R a(2) change_irrefl in auto)
qed

end

interpretation debit: account_change debited
  by unfold_locales (auto simp: debited_def)

interpretation reown: account_change reowned
  by unfold_locales (auto simp: reowned_def)

lemma touches_set_state [touches_intros]:
  "touches debited P s (ka_set_state c ka x s)" "touches reowned P s (ka_set_state c ka x s)"
  unfolding ka_set_state_def
  by (rule debit.touches_ref_mut reown.touches_ref_mut;
      auto simp: debited_def reowned_def dest: account_set_state_frame)+

lemma touches_move:
  assumes "P (ka_account from)"
  shows "touches debited P s (bindE (ka_checked_sub_lamports from n s) (ka_checked_add_lamports to n))"
    and "touches reowned Q s (bindE (ka_checked_sub_lamports from n s) (ka_checked_add_lamports to n))"
proof -
  have len: "ka_checked_sub_lamports from n s = Ok t \<Longrightarrow> length t = length s" for t
    by (simp add: ka_checked_sub_lamports_def)
  have sub: "touches debited P s (ka_checked_sub_lamports from n s)"
    "touches reowned Q s (ka_checked_sub_lamports from n s)"
    unfolding ka_checked_sub_lamports_def using assms
    by (auto intro!: debit.touches_ref_mut reown.touches_ref_mut
        simp: reowned_def checked_sub_lamports_def set_lamports_def result_simps)
  have add: "touches debited P t (ka_checked_add_lamports to n t)"
    "touches reowned Q t (ka_checked_add_lamports to n t)" for t
    unfolding ka_checked_add_lamports_def
    by (auto intro!: debit.touches_ref_mut reown.touches_ref_mut
        simp: debited_def reowned_def checked_add_lamports_def set_lamports_def result_simps)
  show "touches debited P s (bindE (ka_checked_sub_lamports from n s) (ka_checked_add_lamports to n))"
    "touches reowned Q s (bindE (ka_checked_sub_lamports from n s) (ka_checked_add_lamports to n))"
    using sub add len by (auto intro!: debit.touches_seq reown.touches_seq)
qed

lemma keyed_account_at_mem:
  assumes "keyed_account_at_index kas i = Ok ka" "first \<le> i"
  shows "ka \<in> set (drop first kas)"
proof -
  have i: "i < length kas" "ka = kas ! i"
    using assms(1) by (auto simp: keyed_account_at_index_def split: if_splits)
  then have "ka = drop first kas ! (i - first)" "i - first < length (drop first kas)"
    using assms(2) by auto
  then show ?thesis by (metis nth_mem)
qed

lemma signer_in_signers:
  assumes "keyed_account_at_index kas i = Ok ka" "first \<le> i" "signer_key ka \<noteq> None"
  shows "unsigned_key ka \<in> get_signers (drop first kas)"
proof -
  have "signer_key ka = Some (unsigned_key ka)"
    using assms(3) by (simp add: signer_key_def split: if_splits)
  with keyed_account_at_mem [OF assms(1,2)] show ?thesis
    by (force simp: get_signers_def List.map_filter_def)
qed

end
