(* ===== verification/Vote_Program.thy ===== *)
theory Vote_Program
  imports Vote_Checks Program_Interface
begin

text \<open>
  The vote program: the versions of its account state (\<^verbatim>\<open>vote_state_versions.rs\<close>,
  \<^verbatim>\<open>vote_state_0_23_5.rs\<close>), its operations on accounts (the second half of
  \<^verbatim>\<open>vote_state/mod.rs\<close>) and the instruction processor (\<^verbatim>\<open>vote_processor.rs\<close>).
\<close>

section \<open>Versions of the account state\<close>

record 'i circ_buf_0_23_5 =
  cb0_buf :: "'i list"
  cb0_idx :: usize

record vote_state_0_23_5 =
  v0_node_pubkey :: pubkey
  v0_authorized_voter :: pubkey
  v0_authorized_voter_epoch :: epoch
  v0_prior_voters :: "(pubkey \<times> epoch \<times> epoch \<times> slot) circ_buf_0_23_5"
  v0_authorized_withdrawer :: pubkey
  v0_commission :: nat
  v0_votes :: "lockout list"
  v0_root_slot :: "slot option"
  v0_epoch_credits :: "(epoch \<times> u64 \<times> u64) list"
  v0_last_timestamp :: block_timestamp

definition circ_buf_0_23_5_default :: "'i \<Rightarrow> 'i circ_buf_0_23_5" where
  "circ_buf_0_23_5_default d = \<lparr>cb0_buf = replicate MAX_ITEMS d, cb0_idx = MAX_ITEMS - 1\<rparr>"

definition circ_buf_0_23_5_append :: "'i \<Rightarrow> 'i circ_buf_0_23_5 \<Rightarrow> 'i circ_buf_0_23_5" where
  "circ_buf_0_23_5_append item b =
     (let idx = (cb0_idx b + 1) mod MAX_ITEMS
      in b\<lparr>cb0_idx := idx, cb0_buf := (cb0_buf b)[idx := item]\<rparr>)"

datatype vote_state_versions = V0_23_5 vote_state_0_23_5 | Current vote_state

definition new_current :: "vote_state \<Rightarrow> vote_state_versions" where
  "new_current s = Current s"

fun convert_to_current :: "vote_state_versions \<Rightarrow> vote_state" where
  "convert_to_current (V0_23_5 s) =
     \<lparr>node_pubkey = v0_node_pubkey s,
      authorized_withdrawer = v0_authorized_withdrawer s,
      commission = v0_commission s,
      votes = v0_votes s,
      root_slot = v0_root_slot s,
      authorized_voters = av_new (v0_authorized_voter_epoch s) (v0_authorized_voter s),
      prior_voters = circ_buf_default (0, 0, 0),
      epoch_credits = v0_epoch_credits s,
      last_timestamp = v0_last_timestamp s\<rparr>"
| "convert_to_current (Current s) = s"

fun is_uninitialized :: "vote_state_versions \<Rightarrow> bool" where
  "is_uninitialized (V0_23_5 s) = (v0_authorized_voter s = 0)"
| "is_uninitialized (Current s) = av_is_empty (authorized_voters s)"

type_synonym vote_codec = "vote_state_versions codec"

definition vote_state_size_of :: "vote_codec \<Rightarrow> (nat \<Rightarrow> pubkey) \<Rightarrow> usize" where
  "vote_state_size_of c new_rand = length (serialize c (new_current (get_max_sized_vote_state new_rand)))"

definition get_rent_exempt_reserve :: "vote_codec \<Rightarrow> (nat \<Rightarrow> pubkey) \<Rightarrow> rent \<Rightarrow> u64" where
  "get_rent_exempt_reserve c new_rand r = minimum_balance r (vote_state_size_of c new_rand)"

definition vote_state_deserialize :: "vote_codec \<Rightarrow> bytes \<Rightarrow> (vote_state, instruction_error) result" where
  "vote_state_deserialize c input =
     ok_or (map_option convert_to_current (deserialize c input)) InvalidAccountData"

definition vote_state_from :: "vote_codec \<Rightarrow> account_shared_data \<Rightarrow> vote_state option" where
  "vote_state_from c a =
     (case vote_state_deserialize c (acc_data a) of Ok s \<Rightarrow> Some s | Inl _ \<Rightarrow> None)"

definition credits_from :: "vote_codec \<Rightarrow> account_shared_data \<Rightarrow> u64 option" where
  "credits_from c a = map_option credits (vote_state_from c a)"

section \<open>Operations on vote accounts\<close>

definition verify_authorized_signer :: "pubkey \<Rightarrow> pubkey set \<Rightarrow> (unit, instruction_error) result" where
  "verify_authorized_signer authorized signers =
     (if authorized \<in> signers then Ok () else Err MissingRequiredSignature)"

definition current_state ::
  "vote_codec \<Rightarrow> store \<Rightarrow> keyed_account \<Rightarrow> (vote_state, instruction_error) result" where
  "current_state c s ka = bindE (ka_state c s ka) (\<lambda>v. Ok (convert_to_current v))"

definition authorize ::
  "vote_codec \<Rightarrow> keyed_account \<Rightarrow> pubkey \<Rightarrow> vote_authorize \<Rightarrow> pubkey set \<Rightarrow> clock \<Rightarrow> feature_set \<Rightarrow>
   store \<Rightarrow> (store, instruction_error) result" where
  "authorize c vote_account authorized vote_auth signers clk fs s =
     bindE (current_state c s vote_account) (\<lambda>vs.
     bindE
       (case vote_auth of
          Voter \<Rightarrow>
            let authorized_withdrawer_signer =
                  (if is_active fs vote_withdraw_authority_may_change_authorized_voter
                   then is_ok (verify_authorized_signer (authorized_withdrawer vs) signers)
                   else False)
            in set_new_authorized_voter authorized (clock_epoch clk)
                 (wrap64 (leader_schedule_epoch clk + 1))
                 (\<lambda>epoch_authorized_voter.
                    if authorized_withdrawer_signer then Ok ()
                    else verify_authorized_signer epoch_authorized_voter signers) vs
        | Withdrawer \<Rightarrow>
            bindE (verify_authorized_signer (authorized_withdrawer vs) signers) (\<lambda>_.
            Ok (vs\<lparr>authorized_withdrawer := authorized\<rparr>))) (\<lambda>vs'.
     ka_set_state c vote_account (new_current vs') s))"

definition update_validator_identity ::
  "vote_codec \<Rightarrow> keyed_account \<Rightarrow> pubkey \<Rightarrow> pubkey set \<Rightarrow> store \<Rightarrow> (store, instruction_error) result" where
  "update_validator_identity c vote_account node signers s =
     bindE (current_state c s vote_account) (\<lambda>vs.
     bindE (verify_authorized_signer (authorized_withdrawer vs) signers) (\<lambda>_.
     bindE (verify_authorized_signer node signers) (\<lambda>_.
     ka_set_state c vote_account (new_current (vs\<lparr>node_pubkey := node\<rparr>)) s)))"

definition update_commission ::
  "vote_codec \<Rightarrow> keyed_account \<Rightarrow> nat \<Rightarrow> pubkey set \<Rightarrow> store \<Rightarrow> (store, instruction_error) result" where
  "update_commission c vote_account new_commission signers s =
     bindE (current_state c s vote_account) (\<lambda>vs.
     bindE (verify_authorized_signer (authorized_withdrawer vs) signers) (\<lambda>_.
     ka_set_state c vote_account (new_current (vs\<lparr>commission := new_commission\<rparr>)) s))"

definition reject_active_vote_account_close :: "clock option \<Rightarrow> vote_state \<Rightarrow> bool" where
  "reject_active_vote_account_close clk vs =
     (case (clk, next_back (epoch_credits vs)) of
        (Some c, Some (last_epoch_with_credits, _, _)) \<Rightarrow>
          saturating_sub64 (clock_epoch c) last_epoch_with_credits < 2
      | _ \<Rightarrow> False)"

definition withdraw ::
  "vote_codec \<Rightarrow> keyed_account \<Rightarrow> u64 \<Rightarrow> keyed_account \<Rightarrow> pubkey set \<Rightarrow> rent option \<Rightarrow> clock option \<Rightarrow>
   store \<Rightarrow> (store, instruction_error) result" where
  "withdraw c vote_account lamports to_account signers rent_sysvar clk s =
     bindE (current_state c s vote_account) (\<lambda>vs.
     bindE (verify_authorized_signer (authorized_withdrawer vs) signers) (\<lambda>_.
     bindE (ok_or (checked_sub64 (ka_lamports s vote_account) lamports) InsufficientFunds)
       (\<lambda>remaining_balance.
     bindE
       (if remaining_balance = 0 then
          if reject_active_vote_account_close clk vs
          then Err (instruction_error_of_vote ActiveVoteAccountClose)
          else ka_set_state c vote_account (new_current vote_state_default) s
        else
          (case rent_sysvar of
             None \<Rightarrow> Ok s
           | Some r \<Rightarrow>
               if remaining_balance < minimum_balance r (ka_data_len s vote_account)
               then Err InsufficientFunds else Ok s)) (\<lambda>s1.
     bindE (ka_checked_sub_lamports vote_account lamports s1) (\<lambda>s2.
     ka_checked_add_lamports to_account lamports s2)))))"

definition initialize_account ::
  "vote_codec \<Rightarrow> (nat \<Rightarrow> pubkey) \<Rightarrow> keyed_account \<Rightarrow> vote_init \<Rightarrow> pubkey set \<Rightarrow> clock \<Rightarrow>
   store \<Rightarrow> (store, instruction_error) result" where
  "initialize_account c new_rand vote_account vi signers clk s =
     (if ka_data_len s vote_account \<noteq> vote_state_size_of c new_rand then Err InvalidAccountData
      else
        bindE (ka_state c s vote_account) (\<lambda>versioned.
        if \<not> is_uninitialized versioned then Err AccountAlreadyInitialized
        else
          bindE (verify_authorized_signer (vi_node_pubkey vi) signers) (\<lambda>_.
          ka_set_state c vote_account (new_current (vote_state_new vi clk)) s)))"

definition verify_and_get_vote_state ::
  "vote_codec \<Rightarrow> keyed_account \<Rightarrow> clock \<Rightarrow> pubkey set \<Rightarrow> store \<Rightarrow> (vote_state, instruction_error) result" where
  "verify_and_get_vote_state c vote_account clk signers s =
     bindE (ka_state c s vote_account) (\<lambda>versioned.
     if is_uninitialized versioned then Err UninitializedAccount
     else
       bindE (get_and_update_authorized_voter (clock_epoch clk) (convert_to_current versioned))
         (\<lambda>(authorized_voter, vs).
       bindE (verify_authorized_signer authorized_voter signers) (\<lambda>_.
       Ok vs)))"

definition process_vote ::
  "vote_codec \<Rightarrow> keyed_account \<Rightarrow> slot_hash list \<Rightarrow> clock \<Rightarrow> vote \<Rightarrow> pubkey set \<Rightarrow> feature_set \<Rightarrow>
   store \<Rightarrow> (store, instruction_error) result" where
  "process_vote c vote_account slot_hashes clk v signers fs s =
     bindE (verify_and_get_vote_state c vote_account clk signers s) (\<lambda>vs.
     bindE (map_err instruction_error_of_vote
              (vs_process_vote v slot_hashes (clock_epoch clk) (Some fs) vs)) (\<lambda>vs1.
     bindE
       (case v_timestamp v of
          None \<Rightarrow> Ok vs1
        | Some timestamp \<Rightarrow>
            map_err instruction_error_of_vote
              (if v_slots v = [] then Err EmptySlots
               else process_timestamp (Max (set (v_slots v))) timestamp vs1)) (\<lambda>vs2.
     ka_set_state c vote_account (new_current vs2) s)))"

definition process_vote_state_update ::
  "vote_codec \<Rightarrow> keyed_account \<Rightarrow> slot_hash list \<Rightarrow> clock \<Rightarrow> vote_state_update \<Rightarrow> pubkey set \<Rightarrow>
   store \<Rightarrow> (store, instruction_error) result" where
  "process_vote_state_update c vote_account slot_hashes clk u signers s =
     bindE (verify_and_get_vote_state c vote_account clk signers s) (\<lambda>vs.
     bindE (map_err instruction_error_of_vote
              (check_update_vote_state_slots_are_valid vs u slot_hashes)) (\<lambda>u'.
     bindE (map_err instruction_error_of_vote
              (process_new_vote_state (vsu_lockouts u') (vsu_root u') (vsu_timestamp u')
                 (clock_epoch clk) vs)) (\<lambda>vs'.
     ka_set_state c vote_account (new_current vs') s)))"

definition create_account_with_authorized ::
  "vote_codec \<Rightarrow> (nat \<Rightarrow> pubkey) \<Rightarrow> pubkey \<Rightarrow> pubkey \<Rightarrow> pubkey \<Rightarrow> pubkey \<Rightarrow> nat \<Rightarrow> u64 \<Rightarrow>
   (account_shared_data, instruction_error) result" where
  "create_account_with_authorized c new_rand program_id node voter withdrawer comm lamports =
     (let vote_account = shared_new lamports (vote_state_size_of c new_rand) program_id;
          vs = vote_state_new \<lparr>vi_node_pubkey = node, vi_authorized_voter = voter,
                 vi_authorized_withdrawer = withdrawer, vi_commission = comm\<rparr> default_clock
      in (case account_set_state c (new_current vs) vote_account of Ok a \<Rightarrow> Ok a | Inl _ \<Rightarrow> panic))"

section \<open>The instruction processor\<close>

definition vote_program_id :: pubkey where
  "vote_program_id = 3338071818571248938818993247932504658966148473698877128351861063997718528000"

datatype vote_instruction =
    InitializeAccount vote_init
  | Authorize pubkey vote_authorize
  | Vote vote
  | Withdraw u64
  | UpdateValidatorIdentity
  | UpdateCommission nat
  | VoteSwitch vote hash
  | AuthorizeChecked vote_authorize
  | UpdateVoteState vote_state_update
  | UpdateVoteStateSwitch vote_state_update hash
  | AuthorizeWithSeed vote_authorize_with_seed_args
  | AuthorizeCheckedWithSeed vote_authorize_checked_with_seed_args

text \<open>
  What the program calls in other crates: the account codec, the hash function, the random keys
  of the largest state and the decoder of instruction data (\<^verbatim>\<open>limited_deserialize\<close>).
\<close>

record vote_env =
  ve_codec :: vote_codec
  ve_hashv :: hash_function
  ve_new_rand :: "nat \<Rightarrow> pubkey"
  ve_instruction :: "bytes \<Rightarrow> vote_instruction option"

definition verify_rent_exemption :: "keyed_account \<Rightarrow> rent \<Rightarrow> store \<Rightarrow> (unit, instruction_error) result" where
  "verify_rent_exemption ka r s =
     (if \<not> is_exempt r (ka_lamports s ka) (ka_data_len s ka) then Err InsufficientFunds else Ok ())"

definition process_authorize_with_seed_instruction ::
  "vote_env \<Rightarrow> keyed_account list \<Rightarrow> usize \<Rightarrow> keyed_account \<Rightarrow> pubkey \<Rightarrow> vote_authorize \<Rightarrow> pubkey \<Rightarrow>
   bytes \<Rightarrow> clock \<Rightarrow> feature_set \<Rightarrow> store \<Rightarrow> (store, instruction_error) result" where
  "process_authorize_with_seed_instruction env keyed_accounts first vote_account new_authority
       authorization_type derived_key_owner derived_key_seed clk fs s =
     bindE (keyed_account_at_index keyed_accounts (first + 2)) (\<lambda>base_account.
     bindE
       (case signer_key base_account of
          None \<Rightarrow> Ok {}
        | Some base_pubkey \<Rightarrow>
            bindE (map_err instruction_error_of_pubkey
                     (create_with_seed (ve_hashv env) base_pubkey derived_key_seed derived_key_owner))
              (\<lambda>k. Ok {k})) (\<lambda>expected_authority_keys.
     authorize (ve_codec env) vote_account new_authority authorization_type
       expected_authority_keys clk fs s))"

definition required_signer_at :: "keyed_account list \<Rightarrow> usize \<Rightarrow> (pubkey, instruction_error) result" where
  "required_signer_at keyed_accounts i =
     bindE (keyed_account_at_index keyed_accounts i) (\<lambda>ka.
     ok_or (signer_key ka) MissingRequiredSignature)"

definition clock_at ::
  "keyed_account list \<Rightarrow> usize \<Rightarrow> invoke_context \<Rightarrow> (clock, instruction_error) result" where
  "clock_at keyed_accounts i ic =
     bindE (keyed_account_at_index keyed_accounts i) (\<lambda>ka. check_clock ka ic)"

definition process_vote_instruction ::
  "vote_env \<Rightarrow> usize \<Rightarrow> vote_instruction \<Rightarrow> invoke_context \<Rightarrow> keyed_account \<Rightarrow> pubkey set \<Rightarrow>
   store \<Rightarrow> (store, instruction_error) result" where
  "process_vote_instruction env first instr ic me signers s =
     (let c = ve_codec env; kas = ic_keyed_accounts ic; fs = ic_feature_set ic in
      case instr of
        InitializeAccount vi \<Rightarrow>
          bindE (keyed_account_at_index kas (first + 1)) (\<lambda>rka.
          bindE (check_rent rka ic) (\<lambda>r.
          bindE (verify_rent_exemption me r s) (\<lambda>_.
          bindE (clock_at kas (first + 2) ic) (\<lambda>clk.
          initialize_account c (ve_new_rand env) me vi signers clk s))))
      | Authorize voter_pubkey vote_auth \<Rightarrow>
          bindE (clock_at kas (first + 1) ic) (\<lambda>clk.
          authorize c me voter_pubkey vote_auth signers clk fs s)
      | AuthorizeWithSeed args \<Rightarrow>
          if \<not> is_active fs vote_authorize_with_seed then Err InvalidInstructionData
          else
            bindE (clock_at kas (first + 1) ic) (\<lambda>clk.
            process_authorize_with_seed_instruction env kas first me (vas_new_authority args)
              (vas_authorization_type args) (vas_current_authority_derived_key_owner args)
              (vas_current_authority_derived_key_seed args) clk fs s)
      | AuthorizeCheckedWithSeed args \<Rightarrow>
          if \<not> is_active fs vote_authorize_with_seed then Err InvalidInstructionData
          else
            bindE (required_signer_at kas (first + 3)) (\<lambda>new_authority.
            bindE (clock_at kas (first + 1) ic) (\<lambda>clk.
            process_authorize_with_seed_instruction env kas first me new_authority
              (vacs_authorization_type args) (vacs_current_authority_derived_key_owner args)
              (vacs_current_authority_derived_key_seed args) clk fs s))
      | UpdateValidatorIdentity \<Rightarrow>
          bindE (keyed_account_at_index kas (first + 1)) (\<lambda>ka.
          update_validator_identity c me (unsigned_key ka) signers s)
      | UpdateCommission comm \<Rightarrow> update_commission c me comm signers s
      | Vote v \<Rightarrow>
          bindE (keyed_account_at_index kas (first + 1)) (\<lambda>hka.
          bindE (check_slot_hashes hka ic) (\<lambda>slot_hashes.
          bindE (clock_at kas (first + 2) ic) (\<lambda>clk.
          process_vote c me slot_hashes clk v signers fs s)))
      | VoteSwitch v _ \<Rightarrow>
          bindE (keyed_account_at_index kas (first + 1)) (\<lambda>hka.
          bindE (check_slot_hashes hka ic) (\<lambda>slot_hashes.
          bindE (clock_at kas (first + 2) ic) (\<lambda>clk.
          process_vote c me slot_hashes clk v signers fs s)))
      | UpdateVoteState u \<Rightarrow>
          if is_active fs allow_votes_to_directly_update_vote_state then
            bindE (get_slot_hashes (ic_sysvar_cache ic)) (\<lambda>slot_hashes.
            bindE (get_clock (ic_sysvar_cache ic)) (\<lambda>clk.
            process_vote_state_update c me slot_hashes clk u signers s))
          else Err InvalidInstructionData
      | UpdateVoteStateSwitch u _ \<Rightarrow>
          if is_active fs allow_votes_to_directly_update_vote_state then
            bindE (get_slot_hashes (ic_sysvar_cache ic)) (\<lambda>slot_hashes.
            bindE (get_clock (ic_sysvar_cache ic)) (\<lambda>clk.
            process_vote_state_update c me slot_hashes clk u signers s))
          else Err InvalidInstructionData
      | Withdraw lamports \<Rightarrow>
          bindE (keyed_account_at_index kas (first + 1)) (\<lambda>to.
          bindE (if is_active fs reject_non_rent_exempt_vote_withdraws
                 then bindE (get_rent (ic_sysvar_cache ic)) (\<lambda>r. Ok (Some r)) else Ok None)
            (\<lambda>rent_sysvar.
          bindE (if is_active fs reject_vote_account_close_unless_zero_credit_epoch
                 then bindE (get_clock (ic_sysvar_cache ic)) (\<lambda>clk. Ok (Some clk)) else Ok None)
            (\<lambda>clock_if_feature_active.
          withdraw c me lamports to signers rent_sysvar clock_if_feature_active s)))
      | AuthorizeChecked vote_auth \<Rightarrow>
          if is_active fs vote_stake_checked_instructions then
            bindE (required_signer_at kas (first + 3)) (\<lambda>voter_pubkey.
            bindE (clock_at kas (first + 1) ic) (\<lambda>clk.
            authorize c me voter_pubkey vote_auth signers clk fs s))
          else Err InvalidInstructionData)"

definition vote_process_instruction ::
  "vote_env \<Rightarrow> usize \<Rightarrow> bytes \<Rightarrow> invoke_context \<Rightarrow> store \<Rightarrow> (store, instruction_error) result" where
  "vote_process_instruction env first data ic s =
     (let kas = ic_keyed_accounts ic in
      bindE (keyed_account_at_index kas first) (\<lambda>me.
      if ka_owner s me \<noteq> vote_program_id then Err InvalidAccountOwner
      else
        let signers = get_signers (drop first kas) in
        bindE (ok_or (ve_instruction env data) InvalidInstructionData) (\<lambda>instr.
        process_vote_instruction env first instr ic me signers s)))"

section \<open>Properties of the operations\<close>

lemma verify_authorized_signer_Ok [result_simps]:
  "verify_authorized_signer k signers = Inr u \<longleftrightarrow> k \<in> signers"
  by (simp add: verify_authorized_signer_def)

lemma vote_ops_conserving [conserving_intros]:
  assumes "valid_keyed_account s me"
  shows "conserving s (authorize c me k va signers clk fs s)"
    "conserving s (update_validator_identity c me k signers s)"
    "conserving s (update_commission c me n signers s)"
    "conserving s (initialize_account c rnd me vi signers clk s)"
    "conserving s (process_vote c me hs clk v signers fs s)"
    "conserving s (process_vote_state_update c me hs clk u signers s)"
  unfolding authorize_def update_validator_identity_def update_commission_def
    initialize_account_def process_vote_def process_vote_state_update_def
  by (intro conserving_intros conserving_set_state assms)+

lemma withdraw_conserving:
  assumes "valid_keyed_account s me" "valid_keyed_account s to"
  shows "conserving s (withdraw c me n to signers r clk s)"
proof -
  have move: "conserving t (bindE (ka_checked_sub_lamports me n t) (ka_checked_add_lamports to n))"
    if "store_frame s t" for t
    using assms that by (intro conserving_move) (simp_all add: store_frame_valid)
  have seq: "conserving s (bindE m (\<lambda>t. bindE (ka_checked_sub_lamports me n t) (ka_checked_add_lamports to n)))"
    if "conserving s m" for m
    using that move by (rule conserving_seq)
  have first: "conserving s
     (if x = 0 then
        if reject_active_vote_account_close clk vs
        then Err (instruction_error_of_vote ActiveVoteAccountClose)
        else ka_set_state c me (new_current vote_state_default) s
      else (case r of None \<Rightarrow> Ok s | Some r \<Rightarrow>
          if x < minimum_balance r (ka_data_len s me) then Err InsufficientFunds else Ok s))" for x vs
    using conserving_set_state [OF assms(1)] by (auto simp: conserving_Ok conserving_fault split: option.split)
  show ?thesis
    unfolding withdraw_def
    by (rule conserving_bind, rule conserving_bind, rule conserving_bind, rule seq, rule first)
qed

lemma process_authorize_with_seed_conserving [conserving_intros]:
  "valid_keyed_account s me \<Longrightarrow>
   conserving s (process_authorize_with_seed_instruction env kas first me k va owner seed clk fs s)"
  unfolding process_authorize_with_seed_instruction_def by (intro conserving_intros)

lemma process_vote_instruction_conserving:
  assumes "valid_keyed_account s me" "valid_accounts s (ic_keyed_accounts ic)"
  shows "conserving s (process_vote_instruction env first instr ic me signers s)"
  unfolding process_vote_instruction_def Let_def
  by (cases instr; simp only: vote_instruction.case;
      intro conserving_intros withdraw_conserving assms(1);
      elim keyed_account_at_valid [OF assms(2)])

lemma vote_process_instruction_conserving:
  assumes "valid_accounts s (ic_keyed_accounts ic)"
  shows "conserving s (vote_process_instruction env first data ic s)"
  unfolding vote_process_instruction_def Let_def
  by (intro conserving_intros process_vote_instruction_conserving assms)
    (rule keyed_account_at_valid [OF assms])

interpretation vote_native: native_program "vote_process_instruction env first" for env first
  by unfold_locales (rule vote_process_instruction_conserving)

lemma get_and_update_authorized_voter_spec:
  assumes "bt_wf (authorized_voters vs)"
  shows "get_and_update_authorized_voter e vs = Err InvalidAccountData \<or>
    (\<exists>p av. get_and_update_authorized_voter e vs = Ok (p, vs\<lparr>authorized_voters := av\<rparr>) \<and>
       updated_voters (authorized_voters vs) e p av)"
proof -
  obtain res av where c: "get_and_cache_authorized_voter_for_epoch (authorized_voters vs) e = (res, av)"
    by fastforce
  show ?thesis
  proof (cases res)
    case None
    with c show ?thesis by (simp add: get_and_update_authorized_voter_def)
  next
    case (Some q)
    obtain av2 where av2: "(purge_authorized_voters e av :: (_, instruction_error) result) = Ok (av2, True)"
      "updated_voters (authorized_voters vs) e q av2"
      using cache_and_purge [OF assms c [unfolded Some], where 'e = instruction_error] by (elim exE conjE)
    then have "get_and_update_authorized_voter e vs = Ok (q, vs\<lparr>authorized_voters := av2\<rparr>)"
      using c Some by (simp add: get_and_update_authorized_voter_def)
    with av2(2) show ?thesis by (intro disjI2 exI conjI)
  qed
qed

end
