(* ===== verification/Vote_Properties.thy ===== *)
theory Vote_Properties
  imports Vote_Program
begin

text \<open>
  The correctness properties of the vote program, each over the definitions that model
  \<^verbatim>\<open>programs/vote\<close>, with a witness on a concrete vote account.
\<close>

text \<open>A vote account for the witnesses, with a codec that knows its state.\<close>

definition example_vote_state :: vote_state where
  "example_vote_state = vote_state_default
     \<lparr>votes := [\<lparr>lo_slot = 3, confirmation_count = 1\<rparr>], authorized_voters := [(0, 11)],
      authorized_withdrawer := 12\<rparr>"

definition example_vote_codec :: vote_codec where
  "example_vote_codec =
     \<lparr>serialize = (\<lambda>_. [7]), deserialize = (\<lambda>_. Some (Current example_vote_state))\<rparr>"

definition example_store :: store where
  "example_store = [account_create 10 [0] vote_program_id False 0, account_create 5 [] 0 False 0]"

definition example_keyed_account :: "bool \<Rightarrow> nat \<Rightarrow> keyed_account" where
  "example_keyed_account signer i =
     \<lparr>is_signer = signer, is_writable = True, unsigned_key = of_nat (11 + i), ka_account = i\<rparr>"

definition example_update :: vote_state_update where
  "example_update = \<lparr>vsu_lockouts = [\<lparr>lo_slot = 3, confirmation_count = 2\<rparr>,
     \<lparr>lo_slot = 5, confirmation_count = 1\<rparr>], vsu_root = None, vsu_hash = 42, vsu_timestamp = None\<rparr>"

lemmas example_defs = example_vote_state_def example_vote_codec_def example_store_def
  example_keyed_account_def example_update_def account_create_def vote_state_default_def

section \<open>The tower\<close>

text \<open>
  (C4) Processing a vote slot keeps the tower well formed: at most 31 votes, slots strictly
  increasing, confirmation counts strictly decreasing and between 1 and 31, and every vote still
  locked out at the slot of its successor.
\<close>

theorem process_next_vote_slot_keeps_tower:
  assumes "tower_wf (votes s)" "slots_in_range (votes s)" "next_slot < 2 ^ 63"
  shows "tower_wf (votes (process_next_vote_slot next_slot e s))"
  using assms by (rule process_next_vote_slot_wf)

theorem process_next_vote_slot_keeps_tower_witness:
  "tower_wf (votes (process_next_vote_slot 5 0
     (vote_state_default\<lparr>votes := [\<lparr>lo_slot = 3, confirmation_count = 2\<rparr>,
        \<lparr>lo_slot = 4, confirmation_count = 1\<rparr>]\<rparr>)))"
  by (rule process_next_vote_slot_keeps_tower)
    (simp_all add: tower_wf_def tower_step_def MAX_LOCKOUT_HISTORY_def last_locked_out_slot_def
      lockout_period_def INITIAL_LOCKOUT_def wrap64_def slots_in_range_def)

text \<open>
  (C21) A vote leaves the tower only when its lockout has expired at the new slot or when it
  becomes the root; otherwise it stays with at least the confirmations it had.
\<close>

theorem vote_leaves_by_expiry_or_root:
  fixes next_slot :: slot and e :: epoch
  assumes "tower_wf (votes s)" "v \<in> set (votes s)"
  defines "s' \<equiv> process_next_vote_slot next_slot e s"
  shows "last_locked_out_slot v < next_slot \<or> root_slot s' = Some (lo_slot v) \<or>
    (\<exists>w \<in> set (votes s'). lo_slot w = lo_slot v \<and> confirmation_count v \<le> confirmation_count w)"
proof (cases "ignores_slot s next_slot")
  case True
  then have "votes s' = votes s" by (simp add: s'_def process_next_vote_slot_votes)
  with assms(2) show ?thesis by auto
next
  case False
  note base = base_votes_wf [OF assms(1), where next_slot = next_slot]
  have "votes s' = push_vote next_slot (base_votes next_slot (votes s))"
    using False by (simp add: s'_def process_next_vote_slot_votes)
  then have kept: "v \<in> set (base_votes next_slot (votes s)) \<Longrightarrow>
      \<exists>w \<in> set (votes s'). lo_slot w = lo_slot v \<and> confirmation_count v \<le> confirmation_count w"
    using push_vote_member [OF base(1,2)] by simp
  show ?thesis
    using kept_expired_or_rooted [OF assms(1,2) False, of e] kept by (auto simp: s'_def)
qed

theorem vote_leaves_by_expiry_or_root_witness:
  "last_locked_out_slot \<lparr>lo_slot = 3, confirmation_count = 1\<rparr> < 9 \<or>
   root_slot (process_next_vote_slot 9 0
     (vote_state_default\<lparr>votes := [\<lparr>lo_slot = 3, confirmation_count = 1\<rparr>]\<rparr>)) = Some 3 \<or>
   (\<exists>w \<in> set (votes (process_next_vote_slot 9 0
     (vote_state_default\<lparr>votes := [\<lparr>lo_slot = 3, confirmation_count = 1\<rparr>]\<rparr>))).
      lo_slot w = 3 \<and> 1 \<le> confirmation_count w)"
  using vote_leaves_by_expiry_or_root [of "vote_state_default\<lparr>votes := [\<lparr>lo_slot = 3, confirmation_count = 1\<rparr>]\<rparr>"
      "\<lparr>lo_slot = 3, confirmation_count = 1\<rparr>" 9 0]
  by (simp add: tower_wf_def MAX_LOCKOUT_HISTORY_def)

section \<open>Accepting votes\<close>

text \<open>
  (C22) On a vote with ordered slots and an ordered slot history, the index loop of
  \<^verbatim>\<open>check_slots_are_valid\<close> accepts exactly the votes that have a slot newer than the last
  vote, whose newer slots are all in the history, and whose hash is the one recorded for the
  last slot.
\<close>

theorem check_slots_are_valid_decides:
  assumes "sorted_wrt (<) vote_slots" "sorted_wrt (>) (map fst slot_hashes)"
  shows "check_slots_are_valid s vote_slots vote_hash slot_hashes = Ok () \<longleftrightarrow>
    newer_slots (last_voted_slot s) vote_slots \<noteq> [] \<and>
    set (newer_slots (last_voted_slot s) vote_slots) \<subseteq> fst ` set slot_hashes \<and>
    map_of slot_hashes (last vote_slots) = Some vote_hash"
  using assms by (rule check_slots_are_valid_iff)

theorem check_slots_are_valid_decides_witness:
  "check_slots_are_valid (vote_state_default\<lparr>votes := [\<lparr>lo_slot = 2, confirmation_count = 1\<rparr>]\<rparr>)
     [2, 4, 7] 42 [(9, 1), (7, 42), (5, 3), (4, 2)] = Ok ()"
  by (subst check_slots_are_valid_decides)
    (simp_all add: newer_slots_def last_voted_slot_def last_lockout_def next_back_def)



lemma verify_and_get_Ok:
  assumes "verify_and_get_vote_state c me clk signers s = Ok vs" "ka_state c s me = Ok versioned"
    "bt_wf (authorized_voters (convert_to_current versioned))"
  shows "\<exists>p av. updated_voters (authorized_voters (convert_to_current versioned)) (clock_epoch clk) p av \<and>
    p \<in> signers \<and> vs = (convert_to_current versioned)\<lparr>authorized_voters := av\<rparr>"
proof -
  obtain p where "get_and_update_authorized_voter (clock_epoch clk) (convert_to_current versioned) = Ok (p, vs)"
    "p \<in> signers"
    using assms(1,2) by (auto simp: verify_and_get_vote_state_def result_simps split: if_splits)
  with get_and_update_authorized_voter_spec [OF assms(3), of "clock_epoch clk"] show ?thesis by auto
qed

lemma slots_sorted_le_last:
  assumes "slots_sorted vs" "v \<in> set vs"
  shows "lo_slot v \<le> lo_slot (last vs)"
  using assms by (induction vs) (auto simp: slots_sorted_Cons less_imp_le split: if_splits)

lemma filter_keeps_last: "xs \<noteq> [] \<Longrightarrow> P (last xs) \<Longrightarrow> last (filter P xs) = last xs \<and> filter P xs \<noteq> []"
  by (induction xs rule: rev_induct) auto

text \<open>
  (C23) When a proposed tower is accepted and stored, the authorized voter of the current epoch has
  signed; the stored tower is well formed, its last slot is newer than every vote before and is in
  the slot history with the hash the update carries; the root has not moved back and no vote
  above it is rolled back.
\<close>

theorem process_vote_state_update_accepts:
  assumes "process_vote_state_update c me slot_hashes clk u signers s = Ok s'"
    and "ka_state c s me = Ok versioned"
    and "bt_wf (authorized_voters (convert_to_current versioned))"
    and "slots_sorted (votes (convert_to_current versioned))"
    and "sorted_wrt (>) (map fst slot_hashes)"
  defines "old \<equiv> convert_to_current versioned"
  shows "\<exists>p new. carried (bt_get (authorized_voters old)) (clock_epoch clk) = Some p \<and> p \<in> signers \<and>
    ka_set_state c me (new_current new) s = Ok s' \<and> tower_wf (votes new) \<and>
    (\<forall>v \<in> set (votes old). lo_slot v < lo_slot (last (votes new))) \<and>
    map_of slot_hashes (lo_slot (last (votes new))) = Some (vsu_hash u) \<and>
    \<not> root_rolled_back (root_slot new) (root_slot old) \<and>
    no_rollback (filter (\<lambda>v. case root_slot new of None \<Rightarrow> True | Some r \<Rightarrow> r < lo_slot v) (votes old)) (votes new)"
proof -
  obtain vs u' new where *: "verify_and_get_vote_state c me clk signers s = Ok vs"
    "check_update_vote_state_slots_are_valid vs u slot_hashes = Ok u'"
    "process_new_vote_state (vsu_lockouts u') (vsu_root u') (vsu_timestamp u') (clock_epoch clk) vs = Ok new"
    "ka_set_state c me (new_current new) s = Ok s'"
    using assms(1) by (auto simp: process_vote_state_update_def result_simps)
  obtain p av where p: "updated_voters (authorized_voters old) (clock_epoch clk) p av" "p \<in> signers"
    and vs: "vs = old\<lparr>authorized_voters := av\<rparr>"
    using verify_and_get_Ok [OF *(1) assms(2,3)] unfolding old_def by blast
  have eq: "votes vs = votes old" "root_slot vs = root_slot old" "last_voted_slot vs = last_voted_slot old"
    by (simp_all add: vs last_voted_slot_def last_lockout_def)
  have sorted: "slots_sorted (votes vs)" using assms(4) eq(1) by (simp add: old_def)
  note upd = check_update_Ok [OF *(2) assms(5)]
  note new = process_new_vote_state_Ok [OF *(3)]
  have last: "last (vsu_lockouts u') = last (vsu_lockouts u)"
    unfolding upd(6) using filter_keeps_last [OF upd(2), of "\<lambda>l. \<not> too_old vs (fst (last slot_hashes)) l"] upd(4)
    by (simp add: too_old_def)
  have newer: "lo_slot v < lo_slot (last (votes new))" if "v \<in> set (votes old)" for v
  proof -
    have "lo_slot v \<le> lo_slot (last (votes old))" "votes old \<noteq> []"
      using that slots_sorted_le_last sorted eq(1) by fastforce+
    moreover have "last_voted_slot vs = Some (lo_slot (last (votes old)))"
      using \<open>votes old \<noteq> []\<close> eq(1) by (simp add: last_voted_slot_def last_lockout_def next_back_def)
    ultimately show ?thesis using upd(3) last new(3) by fastforce
  qed
  have hash: "map_of slot_hashes (lo_slot (last (votes new))) = Some (vsu_hash u)"
    using upd(8) last new(3) by simp
  have "no_rollback (votes_above_root (vsu_root u') (votes vs)) (vsu_lockouts u')"
    using new(7) check_rollback_Ok [OF _ tower_wf_sorted [OF new(2)]] sorted
    by (simp add: slots_sorted_dropWhile votes_above_root_def)
  moreover have "set (votes_above_root (vsu_root u') (votes vs)) =
      set (filter (\<lambda>v. case root_slot new of None \<Rightarrow> True | Some r \<Rightarrow> r < lo_slot v) (votes old))"
    unfolding eq(1) [symmetric] votes_above_root_set [OF sorted] new(4) by auto
  ultimately have roll: "no_rollback (filter (\<lambda>v. case root_slot new of None \<Rightarrow> True | Some r \<Rightarrow> r < lo_slot v) (votes old)) (votes new)"
    by (simp add: no_rollback_def new(3))
  have "carried (bt_get (authorized_voters old)) (clock_epoch clk) = Some p"
    using p(1) by (simp add: updated_voters_def)
  moreover have "tower_wf (votes new)" using new(2,3) by simp
  moreover have "\<not> root_rolled_back (root_slot new) (root_slot old)" using new(4,5) eq(2) by simp
  ultimately show ?thesis using p(2) *(4) newer hash roll by blast
qed

lemma example_ka_state:
  "ka_state example_vote_codec example_store (example_keyed_account b i) = Ok (Current example_vote_state)"
  by (simp add: example_vote_codec_def ka_state_def account_state_def deserialize_data_def)

lemma example_get_and_update:
  "get_and_update_authorized_voter 0 example_vote_state = Ok (11, example_vote_state)"
  by (simp add: get_and_update_authorized_voter_def get_and_cache_authorized_voter_for_epoch_def
      get_or_calculate_authorized_voter_for_epoch_def purge_authorized_voters_def bt_get_def
      bt_range_to_def av_is_empty_def example_vote_state_def vote_state_default_def)

lemma example_check_update:
  "check_update_vote_state_slots_are_valid example_vote_state example_update [(5, 42), (3, 9)] =
     Ok example_update"
proof -
  have "check_update_loop example_vote_state
      [\<lparr>lo_slot = 3, confirmation_count = 2\<rparr>, \<lparr>lo_slot = 5, confirmation_count = 1\<rparr>]
      [(5, 42), (3, 9)] 3 None 0 2 [] = Ok (2, 0, [])"
    by (simp add: check_update_loop.simps cmp_def Let_def)
  then show ?thesis
    by (simp add: check_update_vote_state_slots_are_valid_def example_update_def adjusted_root_def
        last_voted_slot_def last_lockout_def next_back_def example_vote_state_def Let_def
        numeral_2_eq_2)
qed

lemma example_process_vote_state_update:
  "\<exists>s'. process_vote_state_update example_vote_codec (example_keyed_account True 0) [(5, 42), (3, 9)]
     default_clock example_update {11} example_store = Ok s'"
proof -
  have "\<exists>vs. process_new_vote_state (vsu_lockouts example_update) None None 0 example_vote_state = Ok vs"
    by (simp add: process_new_vote_state_def example_defs root_rolled_back_def votes_above_root_def
        MAX_LOCKOUT_HISTORY_def last_locked_out_slot_def lockout_period_def INITIAL_LOCKOUT_def wrap64_def)
  moreover have "\<exists>s'. ka_set_state example_vote_codec (example_keyed_account True 0) x example_store = Ok s'" for x
    by (simp add: ka_set_state_def account_ref_mut_def account_set_state_def account_ref_def
        example_defs Let_def)
  moreover have "vsu_root example_update = None" "vsu_timestamp example_update = None"
    "clock_epoch default_clock = 0" "\<not> is_uninitialized (Current example_vote_state)"
    by (simp_all add: example_defs default_clock_def av_is_empty_def)
  ultimately show ?thesis
    using example_ka_state [of True 0] example_get_and_update example_check_update
    by (auto simp: process_vote_state_update_def verify_and_get_vote_state_def verify_authorized_signer_def)
qed

theorem process_vote_state_update_accepts_witness:
  "\<exists>s' p new. process_vote_state_update example_vote_codec (example_keyed_account True 0)
       [(5, 42), (3, 9)] default_clock example_update {11} example_store = Ok s' \<and>
     p \<in> {11 :: pubkey} \<and> tower_wf (votes new) \<and> 3 < lo_slot (last (votes new)) \<and>
     ka_set_state example_vote_codec (example_keyed_account True 0) (new_current new) example_store = Ok s'"
proof -
  obtain s' where s': "process_vote_state_update example_vote_codec (example_keyed_account True 0)
       [(5, 42), (3, 9)] default_clock example_update {11} example_store = Ok s'"
    using example_process_vote_state_update by blast
  have "bt_wf (authorized_voters (convert_to_current (Current example_vote_state)))"
    "slots_sorted (votes (convert_to_current (Current example_vote_state)))"
    "sorted_wrt (>) (map fst [(5 :: slot, 42 :: hash), (3, 9)])"
    by (simp_all add: example_vote_state_def bt_wf_def slots_sorted_def)
  from process_vote_state_update_accepts [OF s' example_ka_state this] s' show ?thesis
    by (force simp: example_vote_state_def)
qed

text \<open>
  (C24) Processing a proposed tower never panics: none of the assertions of
  \<^verbatim>\<open>check_update_vote_state_slots_are_valid\<close>, \<^verbatim>\<open>process_new_vote_state\<close> and
  \<^verbatim>\<open>purge_authorized_voters\<close> can fail, whatever tower is proposed.
\<close>

theorem process_vote_state_update_no_panic:
  assumes "\<And>versioned. ka_state c s me = Ok versioned \<Longrightarrow> bt_wf (authorized_voters (convert_to_current versioned))"
    and "sorted_wrt (>) (map fst slot_hashes)"
  shows "process_vote_state_update c me slot_hashes clk u signers s \<noteq> panic"
proof
  assume panic: "process_vote_state_update c me slot_hashes clk u signers s = panic"
  have set: "ka_set_state c me x s \<noteq> panic" for x
    by (auto simp: ka_set_state_def account_ref_mut_def account_set_state_def Let_def fault_iffs split: if_splits)
  have state: "ka_state c s me \<noteq> panic"
    by (auto simp: ka_state_def account_state_def fault_iffs)
  have voter: "verify_and_get_vote_state c me clk signers s \<noteq> panic"
    using get_and_update_authorized_voter_spec [OF assms(1), of _ "clock_epoch clk"] state
    by (fastforce simp: verify_and_get_vote_state_def fault_iffs verify_authorized_signer_def split: if_splits)
  obtain vs u' where *: "check_update_vote_state_slots_are_valid vs u slot_hashes = Ok u'"
    "process_new_vote_state (vsu_lockouts u') (vsu_root u') (vsu_timestamp u') (clock_epoch clk) vs = panic"
    using panic voter set check_update_no_panic [OF assms(2)]
    unfolding process_vote_state_update_def
    by (auto simp: fault_iffs result_simps)
  note upd = check_update_Ok [OF *(1) assms(2)]
  have "vsu_lockouts u' \<noteq> []"
    unfolding upd(6) using filter_keeps_last [OF upd(2), of "\<lambda>l. \<not> too_old vs (fst (last slot_hashes)) l"] upd(4)
    by (simp add: too_old_def)
  with *(2) show False by (simp add: process_new_vote_state_panic)
qed

theorem process_vote_state_update_no_panic_witness:
  "process_vote_state_update example_vote_codec (example_keyed_account True 0) [(5, 42), (3, 9)]
     default_clock example_update {11} example_store \<noteq> panic"
  by (rule process_vote_state_update_no_panic)
    (auto simp: example_ka_state example_vote_state_def bt_wf_def)

end
