(* ===== verification/Fee_Rate.thy ===== *)
theory Fee_Rate
  imports Prelude
begin

text \<open>
  Fees per signature (\<^verbatim>\<open>sdk/program/src/fee_calculator.rs\<close>): the calculator, and the governor
  that derives the rate of a slot from the rate of its parent and the parent's load. The lemmas
  give the range of the derived rate and its convergence under a constant load.
\<close>

section \<open>The calculator and the governor\<close>

record fee_calculator =
  fc_lamports_per_signature :: u64

definition fee_calculator_new :: "u64 \<Rightarrow> fee_calculator" where
  "fee_calculator_new lps = \<lparr>fc_lamports_per_signature = lps\<rparr>"

record fee_rate_governor =
  frg_lamports_per_signature :: u64
  frg_target_lamports_per_signature :: u64
  frg_target_signatures_per_slot :: u64
  frg_min_lamports_per_signature :: u64
  frg_max_lamports_per_signature :: u64
  frg_burn_percent :: nat

definition DEFAULT_MS_PER_SLOT :: u64 where "DEFAULT_MS_PER_SLOT = 1000 * 64 div 160"
definition DEFAULT_TARGET_LAMPORTS_PER_SIGNATURE :: u64 where
  "DEFAULT_TARGET_LAMPORTS_PER_SIGNATURE = 10000"
definition DEFAULT_TARGET_SIGNATURES_PER_SLOT :: u64 where
  "DEFAULT_TARGET_SIGNATURES_PER_SLOT = 50 * DEFAULT_MS_PER_SLOT"
definition DEFAULT_FEE_BURN_PERCENT :: nat where "DEFAULT_FEE_BURN_PERCENT = 50"

definition default_fee_rate_governor :: fee_rate_governor where
  "default_fee_rate_governor =
     \<lparr>frg_lamports_per_signature = 0,
      frg_target_lamports_per_signature = DEFAULT_TARGET_LAMPORTS_PER_SIGNATURE,
      frg_target_signatures_per_slot = DEFAULT_TARGET_SIGNATURES_PER_SLOT,
      frg_min_lamports_per_signature = 0,
      frg_max_lamports_per_signature = 0,
      frg_burn_percent = DEFAULT_FEE_BURN_PERCENT\<rparr>"

text \<open>
  The two locals of \<^verbatim>\<open>new_derived\<close>: the rate that the load asks for, and one adjustment of the
  rate towards it. The signed arithmetic is on \<^verbatim>\<open>i64\<close> and wraps.
\<close>

definition desired_lamports_per_signature :: "fee_rate_governor \<Rightarrow> u64 \<Rightarrow> u64" where
  "desired_lamports_per_signature me latest_signatures_per_slot =
     min (frg_max_lamports_per_signature me)
       (max (frg_min_lamports_per_signature me)
         (wrap64 (frg_target_lamports_per_signature me * min latest_signatures_per_slot (2 ^ 32 - 1))
           div frg_target_signatures_per_slot me))"

definition gap_adjust :: "fee_rate_governor \<Rightarrow> i64 \<Rightarrow> i64" where
  "gap_adjust me gap =
     wrap_i64 (i64_of_u64 (max 1 (frg_target_lamports_per_signature me div 20)) * sgn gap)"

definition new_derived :: "fee_rate_governor \<Rightarrow> u64 \<Rightarrow> fee_rate_governor" where
  "new_derived base latest_signatures_per_slot =
     (if frg_target_signatures_per_slot base > 0 then
        let me = base
              \<lparr>frg_min_lamports_per_signature := max 1 (frg_target_lamports_per_signature base div 2),
               frg_max_lamports_per_signature := wrap64 (frg_target_lamports_per_signature base * 10)\<rparr>;
            desired = desired_lamports_per_signature me latest_signatures_per_slot;
            gap = wrap_i64 (i64_of_u64 desired - i64_of_u64 (frg_lamports_per_signature base))
        in if gap = 0 then me\<lparr>frg_lamports_per_signature := desired\<rparr>
           else
             me\<lparr>frg_lamports_per_signature :=
                  min (frg_max_lamports_per_signature me)
                    (max (frg_min_lamports_per_signature me)
                      (u64_of_i64 (wrap_i64
                        (i64_of_u64 (frg_lamports_per_signature base) + gap_adjust me gap))))\<rparr>
      else
        base\<lparr>frg_lamports_per_signature := frg_target_lamports_per_signature base,
             frg_min_lamports_per_signature := frg_target_lamports_per_signature base,
             frg_max_lamports_per_signature := frg_target_lamports_per_signature base\<rparr>)"

definition fee_rate_governor_new :: "u64 \<Rightarrow> u64 \<Rightarrow> fee_rate_governor" where
  "fee_rate_governor_new target_lamports_per_signature target_signatures_per_slot =
     (let base_fee_rate_governor = default_fee_rate_governor
            \<lparr>frg_target_lamports_per_signature := target_lamports_per_signature,
             frg_lamports_per_signature := target_lamports_per_signature,
             frg_target_signatures_per_slot := target_signatures_per_slot\<rparr>
      in new_derived base_fee_rate_governor 0)"

definition clone_with_lamports_per_signature :: "u64 \<Rightarrow> fee_rate_governor \<Rightarrow> fee_rate_governor" where
  "clone_with_lamports_per_signature lps me = me\<lparr>frg_lamports_per_signature := lps\<rparr>"

text \<open>Returns the unburned and the burned part.\<close>

definition burn :: "fee_rate_governor \<Rightarrow> u64 \<Rightarrow> u64 \<times> u64" where
  "burn me fees =
     (let burned = wrap64 (fees * frg_burn_percent me) div 100
      in (wrapping_sub64 fees burned, burned))"

definition create_fee_calculator :: "fee_rate_governor \<Rightarrow> fee_calculator" where
  "create_fee_calculator me = fee_calculator_new (frg_lamports_per_signature me)"

section \<open>The range of the rate\<close>

text \<open>The rates a governor can have without leaving the range of \<^verbatim>\<open>i64\<close>.\<close>

definition governor_ok :: "fee_rate_governor \<Rightarrow> bool" where
  "governor_ok g \<longleftrightarrow>
     0 < frg_target_signatures_per_slot g \<and> 0 < frg_target_lamports_per_signature g \<and>
     frg_target_lamports_per_signature g \<le> 2 ^ 32 \<and> frg_lamports_per_signature g < 2 ^ 62"

definition fee_step :: "fee_rate_governor \<Rightarrow> nat" where
  "fee_step g = max 1 (frg_target_lamports_per_signature g div 20)"

definition fee_min :: "fee_rate_governor \<Rightarrow> nat" where
  "fee_min g = max 1 (frg_target_lamports_per_signature g div 2)"

definition fee_max :: "fee_rate_governor \<Rightarrow> nat" where
  "fee_max g = 10 * frg_target_lamports_per_signature g"

text \<open>What the load asks for, without the machine arithmetic.\<close>

definition fee_desired :: "fee_rate_governor \<Rightarrow> nat \<Rightarrow> nat" where
  "fee_desired g n = min (fee_max g) (max (fee_min g)
     (frg_target_lamports_per_signature g * min n (2 ^ 32 - 1) div frg_target_signatures_per_slot g))"

definition fee_towards :: "nat \<Rightarrow> nat \<Rightarrow> nat \<Rightarrow> nat" where
  "fee_towards d t r = (if r = d then d else if r < d then r + t else r - t)"

lemma fee_min_le_max: "governor_ok g \<Longrightarrow> fee_min g \<le> fee_max g"
  by (auto simp: fee_min_def fee_max_def governor_ok_def)

lemma fee_desired_range:
  "governor_ok g \<Longrightarrow> fee_min g \<le> fee_desired g n \<and> fee_desired g n \<le> fee_max g"
  using fee_min_le_max [of g] by (simp add: fee_desired_def)

lemma fee_max_less: "governor_ok g \<Longrightarrow> fee_max g < 2 ^ 36"
  by (auto simp: fee_max_def governor_ok_def)

lemma desired_eq:
  assumes "governor_ok g"
  shows "desired_lamports_per_signature
    (g\<lparr>frg_min_lamports_per_signature := fee_min g, frg_max_lamports_per_signature := fee_max g\<rparr>) n =
    fee_desired g n"
proof -
  have "frg_target_lamports_per_signature g * min n (2 ^ 32 - 1) \<le> 2 ^ 32 * (2 ^ 32 - 1)"
    using assms by (intro mult_mono) (auto simp: governor_ok_def)
  then have "frg_target_lamports_per_signature g * min n (2 ^ 32 - 1) \<le> u64_max" by simp
  then show ?thesis by (simp add: desired_lamports_per_signature_def fee_desired_def)
qed

lemma fee_step_le_min: "fee_step g \<le> fee_min g"
  unfolding fee_step_def fee_min_def by (intro max.mono order_refl div_le_mono2) simp_all

lemma gap_adjust_eq:
  assumes "frg_target_lamports_per_signature g \<le> 2 ^ 32"
  shows "gap_adjust g z = int (fee_step g) * sgn z"
proof -
  have t: "fee_step g < 2 ^ 62" using assms by (simp add: fee_step_def)
  then have "i64_of_u64 (fee_step g) = int (fee_step g)" by simp
  then have "gap_adjust g z = wrap_i64 (int (fee_step g) * sgn z)"
    unfolding gap_adjust_def fee_step_def by (simp only:)
  then show ?thesis using t by (cases "0::int" z rule: linorder_cases) simp_all
qed

lemma fee_adjust_eq:
  assumes "d < 2 ^ 62" "r < 2 ^ 62" "t < 2 ^ 62" "t \<le> d"
  defines "gap \<equiv> wrap_i64 (i64_of_u64 d - i64_of_u64 r)"
  shows "gap = 0 \<longleftrightarrow> r = d"
    and "gap \<noteq> 0 \<Longrightarrow> u64_of_i64 (wrap_i64 (i64_of_u64 r + int t * sgn gap)) = fee_towards d t r"
proof -
  have gap: "gap = int d - int r" using assms(1,2) unfolding gap_def by simp
  then show "gap = 0 \<longleftrightarrow> r = d" by auto
  assume "gap \<noteq> 0"
  with gap consider "r < d" "sgn gap = 1" | "d < r" "sgn gap = - 1" by (cases r d rule: linorder_cases) auto
  then show "u64_of_i64 (wrap_i64 (i64_of_u64 r + int t * sgn gap)) = fee_towards d t r"
    using assms(1-4) by cases (simp_all add: fee_towards_def nat_add_distrib nat_diff_distrib)
qed

lemma new_derived_step:
  assumes ok: "governor_ok g"
  shows "new_derived g n =
    g\<lparr>frg_min_lamports_per_signature := fee_min g, frg_max_lamports_per_signature := fee_max g,
      frg_lamports_per_signature :=
        min (fee_max g) (max (fee_min g)
          (fee_towards (fee_desired g n) (fee_step g) (frg_lamports_per_signature g)))\<rparr>"
proof -
  let ?d = "fee_desired g n" and ?r = "frg_lamports_per_signature g" and ?t = "fee_step g"
  let ?me = "g\<lparr>frg_min_lamports_per_signature := fee_min g, frg_max_lamports_per_signature := fee_max g\<rparr>"
  note rng = fee_desired_range [OF ok, of n] and mx = fee_max_less [OF ok]
  have t: "?t \<le> ?d" using fee_step_le_min rng order_trans by blast
  have lt: "?d < 2 ^ 62" "?r < 2 ^ 62" "?t < 2 ^ 62"
    using rng mx t ok by (simp_all add: governor_ok_def)
  note adj = fee_adjust_eq [OF lt t]
  have m: "max 1 (frg_target_lamports_per_signature g div 2) = fee_min g"
    "wrap64 (frg_target_lamports_per_signature g * 10) = fee_max g"
    using mx by (simp_all add: fee_min_def fee_max_def wrap64_def)
  have ga: "gap_adjust ?me z = int ?t * sgn z" for z
    using ok gap_adjust_eq [of ?me z] by (simp add: governor_ok_def fee_step_def)
  have "frg_target_signatures_per_slot g > 0" using ok by (simp add: governor_ok_def)
  then show ?thesis
    unfolding new_derived_def Let_def m desired_eq [OF ok] ga using adj rng
    by (cases "?r = ?d") (simp_all add: fee_towards_def)
qed

section \<open>Convergence\<close>

definition fee_distance :: "nat \<Rightarrow> nat \<Rightarrow> nat" where
  "fee_distance d r = (if r < d then d - r else r - d)"

lemma fee_towards_distance:
  assumes "lo \<le> d" "d \<le> hi"
  shows "fee_distance d (min hi (max lo (fee_towards d t r))) \<le> max t (fee_distance d r - t)"
  using assms by (auto simp: fee_distance_def fee_towards_def min_def max_def)

lemma new_derived_keeps:
  assumes "governor_ok g"
  shows "governor_ok (new_derived g n)" "fee_desired (new_derived g n) k = fee_desired g k"
    "fee_step (new_derived g n) = fee_step g" "fee_max (new_derived g n) = fee_max g"
    "fee_min (new_derived g n) = fee_min g"
proof -
  have targets: "frg_target_lamports_per_signature (new_derived g n) = frg_target_lamports_per_signature g"
    "frg_target_signatures_per_slot (new_derived g n) = frg_target_signatures_per_slot g"
    unfolding new_derived_step [OF assms] by simp_all
  have "min (fee_max g) x < 2 ^ 62" for x using fee_max_less [OF assms] by simp
  then show "governor_ok (new_derived g n)"
    using assms unfolding new_derived_step [OF assms] by (simp add: governor_ok_def)
  show "fee_desired (new_derived g n) k = fee_desired g k" "fee_step (new_derived g n) = fee_step g"
    "fee_max (new_derived g n) = fee_max g" "fee_min (new_derived g n) = fee_min g"
    unfolding fee_desired_def fee_min_def fee_max_def fee_step_def targets by (rule refl)+
qed

lemma derived_n_distance:
  assumes "governor_ok g"
  shows "governor_ok (((\<lambda>g. new_derived g n) ^^ k) g) \<and>
    fee_desired (((\<lambda>g. new_derived g n) ^^ k) g) n = fee_desired g n \<and>
    fee_step (((\<lambda>g. new_derived g n) ^^ k) g) = fee_step g \<and>
    fee_distance (fee_desired g n) (frg_lamports_per_signature (((\<lambda>g. new_derived g n) ^^ k) g)) \<le>
      max (fee_step g) (fee_distance (fee_desired g n) (frg_lamports_per_signature g) - k * fee_step g)"
proof (induction k)
  case 0
  then show ?case using assms by simp
next
  case (Suc k)
  define h where "h = ((\<lambda>g. new_derived g n) ^^ k) g"
  have h: "governor_ok h" "fee_desired h n = fee_desired g n" "fee_step h = fee_step g"
    "fee_distance (fee_desired g n) (frg_lamports_per_signature h) \<le>
       max (fee_step g) (fee_distance (fee_desired g n) (frg_lamports_per_signature g) - k * fee_step g)"
    using Suc unfolding h_def by auto
  have "fee_distance (fee_desired h n) (frg_lamports_per_signature (new_derived h n)) \<le>
      max (fee_step h) (fee_distance (fee_desired h n) (frg_lamports_per_signature h) - fee_step h)"
    unfolding new_derived_step [OF h(1)]
    using fee_towards_distance fee_desired_range [OF h(1)] by simp
  also have "\<dots> \<le> max (fee_step g)
      (fee_distance (fee_desired g n) (frg_lamports_per_signature g) - Suc k * fee_step g)"
    using h by (auto simp: max_def split: if_splits)
  finally show ?case
    using new_derived_keeps [OF h(1)] h by (simp add: h_def)
qed

lemma burn_conserves:
  assumes "fees * 100 \<le> u64_max" "frg_burn_percent g \<le> 100" "burn g fees = (kept, burned)"
  shows "kept + burned = fees" "burned = fees * frg_burn_percent g div 100"
proof -
  have le: "fees * frg_burn_percent g \<le> fees * 100" using assms(2) by simp
  have w: "wrap64 (fees * frg_burn_percent g) = fees * frg_burn_percent g"
    using le assms(1) by (intro wrap64_id) linarith
  then show b: "burned = fees * frg_burn_percent g div 100"
    using assms(3) by (auto simp: burn_def Let_def)
  have "fees * frg_burn_percent g div 100 \<le> fees" using div_le_mono [OF le, of 100] by simp
  moreover have "fees \<le> u64_max" using assms(1) by linarith
  ultimately show "kept + burned = fees" using assms(3) w by (auto simp: burn_def Let_def)
qed

section \<open>Properties\<close>

definition example_governor :: fee_rate_governor where
  "example_governor = clone_with_lamports_per_signature 10000 default_fee_rate_governor"

lemma example_governor_facts:
  "governor_ok example_governor" "fee_desired example_governor 40000 = 20000"
  "fee_step example_governor = 500" "frg_lamports_per_signature example_governor = 10000"
  "frg_target_lamports_per_signature example_governor = 10000"
  by (simp_all add: governor_ok_def example_governor_def clone_with_lamports_per_signature_def
      default_fee_rate_governor_def DEFAULT_TARGET_SIGNATURES_PER_SLOT_def DEFAULT_MS_PER_SLOT_def
      DEFAULT_TARGET_LAMPORTS_PER_SIGNATURE_def fee_desired_def fee_min_def fee_max_def fee_step_def)

text \<open>
  The rate a slot derives stays between half the target (at least one lamport) and ten times
  the target, whatever the parent's rate and load.
\<close>

theorem new_derived_in_range:
  assumes "governor_ok g"
  shows "let r = frg_lamports_per_signature (new_derived g n); t = frg_target_lamports_per_signature g
    in max 1 (t div 2) \<le> r \<and> r \<le> 10 * t"
  using fee_min_le_max [OF assms] unfolding new_derived_step [OF assms] Let_def
  by (simp add: fee_min_def fee_max_def)

theorem new_derived_in_range_witness:
  "governor_ok example_governor \<and>
   5000 \<le> frg_lamports_per_signature (new_derived example_governor 0) \<and>
   frg_lamports_per_signature (new_derived example_governor 0) \<le> 100000"
  using new_derived_in_range [of example_governor 0] example_governor_facts by (simp add: Let_def)

text \<open>
  C27. Under a constant load the rate converges: once enough slots have passed to cover the
  distance in steps of a twentieth of the target, the rate is within one step of the rate the
  load asks for, and it stays there.
\<close>

theorem fee_rate_converges:
  assumes "governor_ok g"
    and "fee_distance (fee_desired g n) (frg_lamports_per_signature g) \<le> Suc k * fee_step g"
  shows "fee_distance (fee_desired g n)
    (frg_lamports_per_signature (((\<lambda>g. new_derived g n) ^^ k) g)) \<le> fee_step g"
  using derived_n_distance [OF assms(1), of k n] assms(2) by auto

theorem fee_rate_converges_witness:
  "governor_ok example_governor \<and>
   fee_distance 20000 (frg_lamports_per_signature example_governor) = 10000 \<and>
   fee_distance 20000
     (frg_lamports_per_signature (((\<lambda>g. new_derived g 40000) ^^ 19) example_governor)) \<le> 500"
  using fee_rate_converges [of example_governor 40000 19] example_governor_facts
  by (simp add: fee_distance_def)

end
