(* ===== verification/Nonce.thy ===== *)
theory Nonce
  imports Program_Interface Fee_Rate
begin

text \<open>
  Durable nonces: the account state and its versions (\<^verbatim>\<open>sdk/program/src/nonce/state\<close>), the
  check a transaction's blockhash goes through (\<^verbatim>\<open>sdk/src/nonce_account.rs\<close>) and the four
  operations of the system program on a nonce account
  (\<^verbatim>\<open>runtime/src/nonce_keyed_account.rs\<close>). The hash function and the codec of the account
  state are parameters.
\<close>

section \<open>Nonce state\<close>

record nonce_data =
  nd_authority :: pubkey
  nd_durable_nonce :: hash
  nd_fee_calculator :: fee_calculator

datatype nonce_state = Uninitialized | Initialized nonce_data

datatype nonce_versions = Nonce_Legacy nonce_state | Nonce_Current nonce_state

type_synonym nonce_codec = "nonce_versions codec"

definition DURABLE_NONCE_HASH_PREFIX :: bytes where
  "DURABLE_NONCE_HASH_PREFIX = map (of_nat \<circ> of_char) ''DURABLE_NONCE''"

definition nonce_data_new :: "pubkey \<Rightarrow> hash \<Rightarrow> u64 \<Rightarrow> nonce_data" where
  "nonce_data_new authority durable_nonce lps =
     \<lparr>nd_authority = authority, nd_durable_nonce = durable_nonce,
      nd_fee_calculator = fee_calculator_new lps\<rparr>"

definition nonce_data_default :: nonce_data where
  "nonce_data_default = nonce_data_new 0 0 0"

definition nd_blockhash :: "nonce_data \<Rightarrow> hash" where
  "nd_blockhash d = nd_durable_nonce d"

definition nd_lamports_per_signature :: "nonce_data \<Rightarrow> u64" where
  "nd_lamports_per_signature d = fc_lamports_per_signature (nd_fee_calculator d)"

definition from_blockhash :: "hash_function \<Rightarrow> hash \<Rightarrow> bool \<Rightarrow> hash" where
  "from_blockhash hashv blockhash separate_domains =
     (if separate_domains then hashv [DURABLE_NONCE_HASH_PREFIX, to_bytes blockhash] else blockhash)"

definition new_initialized :: "pubkey \<Rightarrow> hash \<Rightarrow> u64 \<Rightarrow> nonce_state" where
  "new_initialized authority durable_nonce lps = Initialized (nonce_data_new authority durable_nonce lps)"

definition versions_new :: "nonce_state \<Rightarrow> bool \<Rightarrow> nonce_versions" where
  "versions_new state separate_domains =
     (if separate_domains then Nonce_Current state else Nonce_Legacy state)"

fun versions_state :: "nonce_versions \<Rightarrow> nonce_state" where
  "versions_state (Nonce_Legacy state) = state"
| "versions_state (Nonce_Current state) = state"

fun versions_separate_domains :: "nonce_versions \<Rightarrow> bool" where
  "versions_separate_domains (Nonce_Legacy _) = False"
| "versions_separate_domains (Nonce_Current _) = True"

definition nonce_state_size :: "nonce_codec \<Rightarrow> usize" where
  "nonce_state_size c = length (serialize c (versions_new (Initialized nonce_data_default) True))"

definition verify_recent_blockhash :: "nonce_versions \<Rightarrow> hash \<Rightarrow> bool \<Rightarrow> nonce_data option" where
  "verify_recent_blockhash v recent_blockhash separate_domains =
     (case (case v of
              Nonce_Legacy state \<Rightarrow> if separate_domains then None else Some state
            | Nonce_Current state \<Rightarrow> Some state) of
        None \<Rightarrow> None
      | Some Uninitialized \<Rightarrow> None
      | Some (Initialized d) \<Rightarrow> if recent_blockhash = nd_blockhash d then Some d else None)"

fun versions_upgrade :: "hash_function \<Rightarrow> nonce_versions \<Rightarrow> nonce_versions option" where
  "versions_upgrade hashv (Nonce_Legacy Uninitialized) = None"
| "versions_upgrade hashv (Nonce_Legacy (Initialized d)) =
     Some (Nonce_Current (Initialized
       (d\<lparr>nd_durable_nonce := from_blockhash hashv (nd_blockhash d) True\<rparr>)))"
| "versions_upgrade hashv (Nonce_Current _) = None"

section \<open>Nonce accounts\<close>

definition system_program_id :: pubkey where "system_program_id = 0"

definition verify_nonce_account ::
  "nonce_codec \<Rightarrow> account_shared_data \<Rightarrow> hash \<Rightarrow> bool \<Rightarrow> nonce_data option" where
  "verify_nonce_account c account recent_blockhash separate_domains =
     (if acc_owner account = system_program_id then
        (case account_state c account of
           Inl _ \<Rightarrow> None
         | Inr v \<Rightarrow> verify_recent_blockhash v recent_blockhash separate_domains)
      else None)"

definition lamports_per_signature_of :: "nonce_codec \<Rightarrow> account_shared_data \<Rightarrow> u64 option" where
  "lamports_per_signature_of c account =
     (case account_state c account of
        Inl _ \<Rightarrow> None
      | Inr v \<Rightarrow>
          (case versions_state v of
             Initialized d \<Rightarrow> Some (nd_lamports_per_signature d)
           | Uninitialized \<Rightarrow> None))"

definition get_durable_nonce :: "hash_function \<Rightarrow> invoke_context \<Rightarrow> hash \<times> bool" where
  "get_durable_nonce hashv ic =
     (let separate = is_active (ic_feature_set ic) separate_nonce_from_blockhash
      in (from_blockhash hashv (ic_blockhash ic) separate, separate))"

text \<open>The guard all four operations start with.\<close>

definition nonce_writable :: "keyed_account \<Rightarrow> invoke_context \<Rightarrow> (unit, instruction_error) result" where
  "nonce_writable me ic =
     guardE (\<not> (is_active (ic_feature_set ic) nonce_must_be_writable \<and> \<not> is_writable me)) InvalidArgument"

definition nonce_error_of :: "invoke_context \<Rightarrow> nonce_error \<Rightarrow> instruction_error" where
  "nonce_error_of ic e =
     nonce_to_instruction_error e (is_active (ic_feature_set ic) merge_nonce_error_into_system_error)"

definition advance_nonce_account ::
  "hash_function \<Rightarrow> nonce_codec \<Rightarrow> keyed_account \<Rightarrow> pubkey set \<Rightarrow> invoke_context \<Rightarrow>
   store \<Rightarrow> (store, instruction_error) result" where
  "advance_nonce_account hashv c me signers ic s =
     bindE (nonce_writable me ic) (\<lambda>_.
     bindE (ka_state c s me) (\<lambda>versions.
     case versions_state versions of
       Initialized d \<Rightarrow>
         bindE (guardE (nd_authority d \<in> signers) MissingRequiredSignature) (\<lambda>_.
         let (next_durable_nonce, separate_domains) = get_durable_nonce hashv ic in
         bindE (guardE (nd_durable_nonce d \<noteq> next_durable_nonce) (nonce_error_of ic NotExpired)) (\<lambda>_.
         let new_data = nonce_data_new (nd_authority d) next_durable_nonce (ic_lamports_per_signature ic)
         in ka_set_state c me (versions_new (Initialized new_data) separate_domains) s))
     | Uninitialized \<Rightarrow> Err (nonce_error_of ic BadAccountState)))"

text \<open>
  The \<^verbatim>\<open>match\<close> of a withdrawal: who has to sign, and the store, which a withdrawal of the whole
  balance of an initialized account has set to \<^verbatim>\<open>Uninitialized\<close>.
\<close>

definition withdraw_nonce_signer ::
  "hash_function \<Rightarrow> nonce_codec \<Rightarrow> keyed_account \<Rightarrow> u64 \<Rightarrow> rent \<Rightarrow> invoke_context \<Rightarrow> nonce_state \<Rightarrow>
   store \<Rightarrow> (pubkey \<times> store, instruction_error) result" where
  "withdraw_nonce_signer hashv c me lamports r ic state s =
     (case state of
        Uninitialized \<Rightarrow>
          bindE (guardE (lamports \<le> ka_lamports s me) InsufficientFunds) (\<lambda>_.
          Ok (unsigned_key me, s))
      | Initialized d \<Rightarrow>
          bindE
            (if lamports = ka_lamports s me then
               let (durable_nonce, separate_domains) = get_durable_nonce hashv ic in
               bindE (guardE (nd_durable_nonce d \<noteq> durable_nonce) (nonce_error_of ic NotExpired)) (\<lambda>_.
               ka_set_state c me (versions_new Uninitialized separate_domains) s)
             else
               let min_balance = minimum_balance r (ka_data_len s me) in
               bindE (ok_or (checked_add64 lamports min_balance) InsufficientFunds) (\<lambda>amount.
               bindE (guardE (amount \<le> ka_lamports s me) InsufficientFunds) (\<lambda>_. Ok s)))
            (\<lambda>s'. Ok (nd_authority d, s')))"

definition withdraw_nonce_account ::
  "hash_function \<Rightarrow> nonce_codec \<Rightarrow> keyed_account \<Rightarrow> u64 \<Rightarrow> keyed_account \<Rightarrow> rent \<Rightarrow> pubkey set \<Rightarrow>
   invoke_context \<Rightarrow> store \<Rightarrow> (store, instruction_error) result" where
  "withdraw_nonce_account hashv c me lamports to r signers ic s =
     bindE (nonce_writable me ic) (\<lambda>_.
     bindE (ka_state c s me) (\<lambda>versions.
     bindE (withdraw_nonce_signer hashv c me lamports r ic (versions_state versions) s) (\<lambda>(signer, s1).
     bindE (guardE (signer \<in> signers) MissingRequiredSignature) (\<lambda>_.
     bindE (ok_or (checked_sub64 (ka_lamports s1 me) lamports) ArithmeticOverflow) (\<lambda>nonce_balance.
     bindE (account_ref_mut me (\<lambda>a. Ok (set_lamports nonce_balance a)) s1) (\<lambda>s2.
     bindE (ok_or (checked_add64 (ka_lamports s2 to) lamports) ArithmeticOverflow) (\<lambda>to_balance.
     account_ref_mut to (\<lambda>a. Ok (set_lamports to_balance a)) s2)))))))"

definition initialize_nonce_account ::
  "hash_function \<Rightarrow> nonce_codec \<Rightarrow> keyed_account \<Rightarrow> pubkey \<Rightarrow> rent \<Rightarrow> invoke_context \<Rightarrow>
   store \<Rightarrow> (store, instruction_error) result" where
  "initialize_nonce_account hashv c me nonce_authority r ic s =
     bindE (nonce_writable me ic) (\<lambda>_.
     bindE (ka_state c s me) (\<lambda>versions.
     case versions_state versions of
       Uninitialized \<Rightarrow>
         bindE (guardE (minimum_balance r (ka_data_len s me) \<le> ka_lamports s me) InsufficientFunds) (\<lambda>_.
         let (durable_nonce, separate_domains) = get_durable_nonce hashv ic;
             d = nonce_data_new nonce_authority durable_nonce (ic_lamports_per_signature ic)
         in ka_set_state c me (versions_new (Initialized d) separate_domains) s)
     | Initialized _ \<Rightarrow> Err (nonce_error_of ic BadAccountState)))"

definition authorize_nonce_account ::
  "nonce_codec \<Rightarrow> keyed_account \<Rightarrow> pubkey \<Rightarrow> pubkey set \<Rightarrow> invoke_context \<Rightarrow>
   store \<Rightarrow> (store, instruction_error) result" where
  "authorize_nonce_account c me nonce_authority signers ic s =
     bindE (nonce_writable me ic) (\<lambda>_.
     bindE (ka_state c s me) (\<lambda>versions.
     case versions_state versions of
       Initialized d \<Rightarrow>
         bindE (guardE (nd_authority d \<in> signers) MissingRequiredSignature) (\<lambda>_.
         let new_data = nonce_data_new nonce_authority (nd_durable_nonce d) (nd_lamports_per_signature d)
         in ka_set_state c me (versions_new (Initialized new_data) (versions_separate_domains versions)) s)
     | Uninitialized \<Rightarrow> Err (nonce_error_of ic BadAccountState)))"

section \<open>Lemmas\<close>

lemma versions_new_simps [simp]:
  "versions_state (versions_new st b) = st" "versions_separate_domains (versions_new st b) = b"
  by (simp_all add: versions_new_def)

lemma nonce_data_new_simps [simp]:
  "nd_authority (nonce_data_new a h n) = a" "nd_durable_nonce (nonce_data_new a h n) = h"
  "nd_lamports_per_signature (nonce_data_new a h n) = n"
  by (simp_all add: nonce_data_new_def nd_lamports_per_signature_def fee_calculator_new_def)

lemma verify_recent_blockhash_Some:
  "verify_recent_blockhash v h b = Some d \<longleftrightarrow>
     versions_state v = Initialized d \<and> h = nd_durable_nonce d \<and> (b \<longrightarrow> versions_separate_domains v)"
  by (cases v) (auto simp: verify_recent_blockhash_def nd_blockhash_def split: nonce_state.splits if_splits)

lemma nonce_state_case_Ok [result_simps]:
  "(case st of Uninitialized \<Rightarrow> Inl e | Initialized d \<Rightarrow> f d) = Inr y \<longleftrightarrow>
     (\<exists>d. st = Initialized d \<and> f d = Inr y)"
  by (cases st) simp_all

lemma advance_nonce_account_Ok:
  "advance_nonce_account hashv c me signers ic s = Ok s' \<longleftrightarrow>
     (is_active (ic_feature_set ic) nonce_must_be_writable \<longrightarrow> is_writable me) \<and>
     (\<exists>v d. ka_state c s me = Ok v \<and> versions_state v = Initialized d \<and> nd_authority d \<in> signers \<and>
        nd_durable_nonce d \<noteq> fst (get_durable_nonce hashv ic) \<and>
        ka_set_state c me (versions_new (Initialized (nonce_data_new (nd_authority d)
            (fst (get_durable_nonce hashv ic)) (ic_lamports_per_signature ic)))
          (snd (get_durable_nonce hashv ic))) s = Ok s')"
  by (cases "get_durable_nonce hashv ic")
    (auto simp: advance_nonce_account_def nonce_writable_def result_simps Let_def)

text \<open>A write of a balance read from the same cell, as \<^verbatim>\<open>set_lamports\<close> of a checked sum.\<close>

lemma set_lamports_sub:
  "bindE (ok_or (checked_sub64 (ka_lamports s ka) n) ArithmeticOverflow)
     (\<lambda>l. account_ref_mut ka (\<lambda>a. Ok (set_lamports l a)) s) = ka_checked_sub_lamports ka n s"
  by (auto simp: ka_checked_sub_lamports_def checked_sub_lamports_def account_ref_mut_def ka_lamports_def
      checked_sub64_def account_ref_def)

lemma set_lamports_add:
  "(\<lambda>s. bindE (ok_or (checked_add64 (ka_lamports s ka) n) ArithmeticOverflow)
     (\<lambda>l. account_ref_mut ka (\<lambda>a. Ok (set_lamports l a)) s)) = ka_checked_add_lamports ka n"
  by (auto simp: fun_eq_iff ka_checked_add_lamports_def checked_add_lamports_def account_ref_mut_def ka_lamports_def
      checked_add64_def account_ref_def)

lemma withdraw_nonce_account_move:
  "withdraw_nonce_account hashv c me n to r signers ic s =
     bindE (nonce_writable me ic) (\<lambda>_.
     bindE (ka_state c s me) (\<lambda>versions.
     bindE (withdraw_nonce_signer hashv c me n r ic (versions_state versions) s) (\<lambda>(signer, s1).
     bindE (guardE (signer \<in> signers) MissingRequiredSignature) (\<lambda>_.
     bindE (ka_checked_sub_lamports me n s1) (ka_checked_add_lamports to n)))))"
  by (simp only: withdraw_nonce_account_def set_lamports_sub [symmetric] set_lamports_add [symmetric] bindE_assoc)

lemma withdraw_nonce_signer_cases:
  assumes "withdraw_nonce_signer hashv c me n r ic st s = Ok (signer, s1)"
  shows "(s1 = s \<or> (\<exists>v. ka_set_state c me v s = Ok s1)) \<and>
    (signer = unsigned_key me \<or> (\<exists>d. st = Initialized d \<and> signer = nd_authority d))"
  using assms
  by (cases st) (auto simp: withdraw_nonce_signer_def result_simps Let_def split: if_splits prod.splits)

lemma nonce_ops_conserving:
  assumes "valid_keyed_account s me"
  shows "conserving s (advance_nonce_account hashv c me signers ic s)"
    "conserving s (initialize_nonce_account hashv c me k r ic s)"
    "conserving s (authorize_nonce_account c me k signers ic s)"
proof -
  have st: "conserving s (case v of Initialized d \<Rightarrow> f d | Uninitialized \<Rightarrow> g)"
    if "\<And>d. conserving s (f d)" "conserving s g" for v f g
    using that by (cases v) simp_all
  show "conserving s (advance_nonce_account hashv c me signers ic s)"
    "conserving s (initialize_nonce_account hashv c me k r ic s)"
    "conserving s (authorize_nonce_account c me k signers ic s)"
    unfolding advance_nonce_account_def initialize_nonce_account_def authorize_nonce_account_def Let_def
    by (intro conserving_intros st conserving_set_state assms)+
qed

lemma withdraw_nonce_conserving:
  assumes me: "valid_keyed_account s me" and to: "valid_keyed_account s to"
  shows "conserving s (withdraw_nonce_account hashv c me n to r signers ic s)"
proof -
  have "conserving s (case x of (signer, s1) \<Rightarrow> bindE (guardE (signer \<in> signers) MissingRequiredSignature)
      (\<lambda>_. bindE (ka_checked_sub_lamports me n s1) (ka_checked_add_lamports to n)))"
    if x: "withdraw_nonce_signer hashv c me n r ic st s = Ok x" for x st
  proof (cases x)
    case (Pair signer s1)
    have "conserving s (Ok s1 :: (store, instruction_error) result)"
      using withdraw_nonce_signer_cases [OF x [unfolded Pair]] conserving_set_state [OF me, of c]
      by (auto simp: conserving_def)
    then have s1: "total_lamports s1 = total_lamports s" "store_frame s s1"
      by (simp_all add: conserving_def)
    have "conserving s1 (bindE (ka_checked_sub_lamports me n s1) (ka_checked_add_lamports to n))"
      using assms s1(2) by (intro conserving_move) (simp_all add: store_frame_valid)
    then have "conserving s (bindE (ka_checked_sub_lamports me n s1) (ka_checked_add_lamports to n))"
      using s1 store_frame_trans by (auto simp: conserving_def)
    then show ?thesis unfolding Pair prod.case by (rule conserving_bind)
  qed
  then show ?thesis unfolding withdraw_nonce_account_move by (intro conserving_bind)
qed

section \<open>A nonce verifies one transaction\<close>

text \<open>What an account holds after its nonce was advanced.\<close>

definition advanced_nonce :: "hash_function \<Rightarrow> invoke_context \<Rightarrow> pubkey \<Rightarrow> nonce_data" where
  "advanced_nonce hashv ic authority =
     nonce_data_new authority (fst (get_durable_nonce hashv ic)) (ic_lamports_per_signature ic)"

definition advanced_versions :: "hash_function \<Rightarrow> invoke_context \<Rightarrow> pubkey \<Rightarrow> nonce_versions" where
  "advanced_versions hashv ic authority =
     versions_new (Initialized (advanced_nonce hashv ic authority)) (snd (get_durable_nonce hashv ic))"

lemma verify_nonce_account_Some:
  "verify_nonce_account c a h b = Some d \<longleftrightarrow>
     acc_owner a = system_program_id \<and>
     (\<exists>v. account_state c a = Ok v \<and> versions_state v = Initialized d \<and> h = nd_durable_nonce d \<and>
        (b \<longrightarrow> versions_separate_domains v))"
  by (auto simp: verify_nonce_account_def verify_recent_blockhash_Some split: sum.splits)

lemma ka_set_state_owner:
  assumes "ka_set_state c ka x s = Ok s'" "valid_keyed_account s ka"
  shows "acc_owner (account_ref s' ka) = acc_owner (account_ref s ka)"
  using assms
  by (auto simp: ka_set_state_def account_ref_mut_def account_ref_def valid_keyed_account_def result_simps
      dest: account_set_state_frame)

lemma advance_nonce_state:
  assumes "advance_nonce_account hashv c me signers ic s = Ok s'" "valid_keyed_account s me"
    "ka_state c s me = Ok v" "versions_state v = Initialized d"
    "codec_roundtrip c (advanced_versions hashv ic (nd_authority d))"
  shows "nd_authority d \<in> signers" "nd_durable_nonce d \<noteq> fst (get_durable_nonce hashv ic)"
    "ka_state c s' me = Ok (advanced_versions hashv ic (nd_authority d))"
    "acc_owner (account_ref s' me) = acc_owner (account_ref s me)"
    "nonce_writable me ic = Ok ()"
proof -
  have "ka_set_state c me (advanced_versions hashv ic (nd_authority d)) s = Ok s'"
    and *: "nd_authority d \<in> signers" "nd_durable_nonce d \<noteq> fst (get_durable_nonce hashv ic)"
    "nonce_writable me ic = Ok ()"
    using assms(1,3,4)
    by (auto simp: advance_nonce_account_Ok advanced_versions_def advanced_nonce_def nonce_writable_def)
  with ka_set_state_reads(1) [OF _ assms(2,5)] ka_set_state_owner [OF _ assms(2)]
  show "nd_authority d \<in> signers" "nd_durable_nonce d \<noteq> fst (get_durable_nonce hashv ic)"
    "ka_state c s' me = Ok (advanced_versions hashv ic (nd_authority d))"
    "acc_owner (account_ref s' me) = acc_owner (account_ref s me)" "nonce_writable me ic = Ok ()"
    by auto
qed

text \<open>
  C12. Advancing a nonce retires it: when the instruction succeeds, the authority signed, the
  blockhash that the account verified before verifies no more, the account now verifies the
  nonce derived from the current blockhash, and a second advance under the same blockhash is
  refused. The codec has to read back the one state the instruction writes.
\<close>

theorem advance_nonce_retires:
  assumes "advance_nonce_account hashv c me signers ic s = Ok s'"
    and "valid_keyed_account s me"
    and "verify_nonce_account c (account_ref s me) old b = Some d"
    and "codec_roundtrip c (advanced_versions hashv ic (nd_authority d))"
  shows "nd_authority d \<in> signers \<and>
    (\<forall>b'. verify_nonce_account c (account_ref s' me) old b' = None) \<and>
    verify_nonce_account c (account_ref s' me) (fst (get_durable_nonce hashv ic))
      (snd (get_durable_nonce hashv ic)) = Some (advanced_nonce hashv ic (nd_authority d)) \<and>
    advance_nonce_account hashv c me signers ic s' = Err (nonce_error_of ic NotExpired)"
proof -
  from assms(3) obtain v where v: "ka_state c s me = Ok v" "versions_state v = Initialized d"
    "old = nd_durable_nonce d" "acc_owner (account_ref s me) = system_program_id"
    by (auto simp: verify_nonce_account_Some ka_state_def)
  note st = advance_nonce_state [OF assms(1,2) v(1,2) assms(4)]
  have "verify_nonce_account c (account_ref s' me) old b' = None" for b'
    using st v(3) by (cases "verify_nonce_account c (account_ref s' me) old b'")
      (auto simp: verify_nonce_account_Some ka_state_def advanced_versions_def advanced_nonce_def)
  moreover have "verify_nonce_account c (account_ref s' me) (fst (get_durable_nonce hashv ic))
      (snd (get_durable_nonce hashv ic)) = Some (advanced_nonce hashv ic (nd_authority d))"
    using st v(4)
    by (simp add: verify_nonce_account_Some ka_state_def advanced_versions_def advanced_nonce_def)
  moreover have "advance_nonce_account hashv c me signers ic s' = Err (nonce_error_of ic NotExpired)"
    using st
    by (simp add: advance_nonce_account_def advanced_versions_def advanced_nonce_def split: prod.split)
  ultimately show ?thesis using st(1) by simp
qed

text \<open>
  A concrete nonce account for the witness: the codec knows the state before and the state after,
  and the hash function is constant.
\<close>

definition two_state_codec :: "'a \<Rightarrow> 'a \<Rightarrow> 'a codec" where
  "two_state_codec x y =
     \<lparr>serialize = (\<lambda>v. [if v = x then 0 else 1]),
      deserialize = (\<lambda>d. case d of [] \<Rightarrow> None | b # _ \<Rightarrow> Some (if b = 0 then x else y))\<rparr>"

lemma two_state_codec_roundtrip:
  "codec_roundtrip (two_state_codec x y) x" "codec_roundtrip (two_state_codec x y) y"
  by (simp_all add: codec_roundtrip_def two_state_codec_def)

definition example_hashv :: hash_function where "example_hashv bs = 77"

definition example_nonce :: nonce_data where "example_nonce = nonce_data_new 5 11 5000"

definition example_nonce_context :: invoke_context where
  "example_nonce_context =
     \<lparr>ic_keyed_accounts = [], ic_sysvar_cache = default_sysvar_cache,
      ic_feature_set = [(separate_nonce_from_blockhash, 0), (nonce_must_be_writable, 0)],
      ic_blockhash = 42, ic_lamports_per_signature = 6000\<rparr>"

definition example_nonce_account :: keyed_account where
  "example_nonce_account = \<lparr>is_signer = False, is_writable = True, unsigned_key = 9, ka_account = 0\<rparr>"

definition example_nonce_codec :: nonce_codec where
  "example_nonce_codec = two_state_codec (Nonce_Current (Initialized example_nonce))
     (advanced_versions example_hashv example_nonce_context 5)"

definition example_nonce_store :: store where
  "example_nonce_store = [account_create 1000000 [0] system_program_id False 0]"

lemmas example_nonce_defs = example_nonce_def example_nonce_context_def example_nonce_account_def
  example_nonce_codec_def example_nonce_store_def example_hashv_def account_create_def

theorem advance_nonce_retires_witness:
  "\<exists>s'. advance_nonce_account example_hashv example_nonce_codec example_nonce_account {5}
      example_nonce_context example_nonce_store = Ok s' \<and>
    verify_nonce_account example_nonce_codec (account_ref example_nonce_store example_nonce_account)
      11 True = Some example_nonce \<and>
    verify_nonce_account example_nonce_codec (account_ref s' example_nonce_account) 11 True = None \<and>
    advance_nonce_account example_hashv example_nonce_codec example_nonce_account {5}
      example_nonce_context s' = Err (nonce_error_of example_nonce_context NotExpired)"
proof -
  have st: "ka_state example_nonce_codec example_nonce_store example_nonce_account =
      Ok (Nonce_Current (Initialized example_nonce))"
    by (simp add: example_nonce_defs two_state_codec_def ka_state_def account_state_def account_ref_def
        deserialize_data_def)
  then have v: "verify_nonce_account example_nonce_codec
      (account_ref example_nonce_store example_nonce_account) 11 True = Some example_nonce"
    by (simp add: verify_nonce_account_Some ka_state_def) (simp add: example_nonce_defs account_ref_def)
  obtain s' where s': "advance_nonce_account example_hashv example_nonce_codec example_nonce_account {5}
      example_nonce_context example_nonce_store = Ok s'"
    using st
    by (simp add: advance_nonce_account_Ok)
      (simp add: example_nonce_defs two_state_codec_def ka_set_state_def account_ref_mut_def
        account_ref_def account_set_state_def get_durable_nonce_def from_blockhash_def is_active_def)
  have "codec_roundtrip example_nonce_codec
      (advanced_versions example_hashv example_nonce_context (nd_authority example_nonce))"
    using two_state_codec_roundtrip(2) by (simp add: example_nonce_codec_def example_nonce_def)
  with advance_nonce_retires [OF s' _ v] s' v show ?thesis
    by (auto simp: valid_keyed_account_def example_nonce_defs)
qed

end
