(* ===== verification/System_Program.thy ===== *)
theory System_Program
  imports Nonce
begin

text \<open>
  The system program (\<^verbatim>\<open>runtime/src/system_instruction_processor.rs\<close>): creation, allocation and
  assignment of accounts, transfers, and the instructions on nonce accounts, with the
  instruction type of \<^verbatim>\<open>sdk/program/src/system_instruction.rs\<close>.
\<close>

section \<open>Instructions\<close>

datatype system_instruction =
    CreateAccount u64 u64 pubkey
  | Assign pubkey
  | Transfer u64
  | CreateAccountWithSeed pubkey bytes u64 u64 pubkey
  | AdvanceNonceAccount
  | WithdrawNonceAccount u64
  | InitializeNonceAccount pubkey
  | AuthorizeNonceAccount pubkey
  | Allocate u64
  | AllocateWithSeed pubkey bytes u64 pubkey
  | AssignWithSeed pubkey bytes pubkey
  | TransferWithSeed u64 bytes pubkey
  | UpgradeNonceAccount

definition MAX_PERMITTED_DATA_LENGTH :: u64 where
  "MAX_PERMITTED_DATA_LENGTH = 10 * 1024 * 1024"

text \<open>
  What the processor calls and the repository does not define: SHA-256, the codec of nonce
  accounts and the decoder of instruction data.
\<close>

record system_env =
  se_hashv :: hash_function
  se_nonce_codec :: nonce_codec
  se_instruction :: "bytes \<Rightarrow> system_instruction option"

section \<open>Addresses\<close>

record address =
  ad_address :: pubkey
  ad_base :: "pubkey option"

definition address_is_signer :: "address \<Rightarrow> pubkey set \<Rightarrow> bool" where
  "address_is_signer a signers =
     (case ad_base a of Some base \<Rightarrow> base \<in> signers | None \<Rightarrow> ad_address a \<in> signers)"

definition address_create ::
  "hash_function \<Rightarrow> pubkey \<Rightarrow> (pubkey \<times> bytes \<times> pubkey) option \<Rightarrow> (address, instruction_error) result" where
  "address_create hashv addr with_seed =
     bindE
       (case with_seed of
          Some (base, seed, owner) \<Rightarrow>
            bindE (map_err instruction_error_of_pubkey (create_with_seed hashv base seed owner))
              (\<lambda>address_with_seed.
            if addr \<noteq> address_with_seed then Err (instruction_error_of_system SE_AddressWithSeedMismatch)
            else Ok (Some base))
        | None \<Rightarrow> Ok None)
       (\<lambda>base. Ok \<lparr>ad_address = addr, ad_base = base\<rparr>)"

section \<open>Operations\<close>

definition allocate ::
  "address \<Rightarrow> u64 \<Rightarrow> pubkey set \<Rightarrow> account_shared_data \<Rightarrow> (account_shared_data, instruction_error) result" where
  "allocate addr space signers account =
     (if \<not> address_is_signer addr signers then Err MissingRequiredSignature
      else if acc_data account \<noteq> [] \<or> acc_owner account \<noteq> system_program_id
      then Err (instruction_error_of_system SE_AccountAlreadyInUse)
      else if space > MAX_PERMITTED_DATA_LENGTH
      then Err (instruction_error_of_system SE_InvalidAccountDataLength)
      else Ok (set_data (replicate space 0) account))"

definition assign ::
  "address \<Rightarrow> pubkey \<Rightarrow> pubkey set \<Rightarrow> account_shared_data \<Rightarrow> (account_shared_data, instruction_error) result" where
  "assign addr owner signers account =
     (if acc_owner account = owner then Ok account
      else if \<not> address_is_signer addr signers then Err MissingRequiredSignature
      else Ok (set_owner owner account))"

definition allocate_and_assign ::
  "address \<Rightarrow> u64 \<Rightarrow> pubkey \<Rightarrow> pubkey set \<Rightarrow> account_shared_data \<Rightarrow>
   (account_shared_data, instruction_error) result" where
  "allocate_and_assign to_address space owner signers to =
     bindE (allocate to_address space signers to) (assign to_address owner signers)"

definition transfer_verified ::
  "keyed_account \<Rightarrow> keyed_account \<Rightarrow> u64 \<Rightarrow> store \<Rightarrow> (store, instruction_error) result" where
  "transfer_verified from to lamports s =
     (if \<not> ka_data_is_empty s from then Err InvalidArgument
      else if lamports > ka_lamports s from
      then Err (instruction_error_of_system SE_ResultWithNegativeLamports)
      else bindE (ka_checked_sub_lamports from lamports s) (ka_checked_add_lamports to lamports))"

definition transfer ::
  "keyed_account \<Rightarrow> keyed_account \<Rightarrow> u64 \<Rightarrow> invoke_context \<Rightarrow> store \<Rightarrow> (store, instruction_error) result" where
  "transfer from to lamports ic s =
     (if \<not> is_active (ic_feature_set ic) system_transfer_zero_check \<and> lamports = 0 then Ok s
      else if signer_key from = None then Err MissingRequiredSignature
      else transfer_verified from to lamports s)"

definition transfer_with_seed ::
  "hash_function \<Rightarrow> keyed_account \<Rightarrow> keyed_account \<Rightarrow> bytes \<Rightarrow> pubkey \<Rightarrow> keyed_account \<Rightarrow> u64 \<Rightarrow>
   invoke_context \<Rightarrow> store \<Rightarrow> (store, instruction_error) result" where
  "transfer_with_seed hashv from from_base from_seed from_owner to lamports ic s =
     (if \<not> is_active (ic_feature_set ic) system_transfer_zero_check \<and> lamports = 0 then Ok s
      else if signer_key from_base = None then Err MissingRequiredSignature
      else
        bindE (map_err instruction_error_of_pubkey
                 (create_with_seed hashv (unsigned_key from_base) from_seed from_owner))
          (\<lambda>address_from_seed.
        if unsigned_key from \<noteq> address_from_seed
        then Err (instruction_error_of_system SE_AddressWithSeedMismatch)
        else transfer_verified from to lamports s))"

definition create_account ::
  "keyed_account \<Rightarrow> keyed_account \<Rightarrow> address \<Rightarrow> u64 \<Rightarrow> u64 \<Rightarrow> pubkey \<Rightarrow> pubkey set \<Rightarrow>
   invoke_context \<Rightarrow> store \<Rightarrow> (store, instruction_error) result" where
  "create_account from to to_address lamports space owner signers ic s =
     bindE
       (account_ref_mut to (\<lambda>a.
          if acc_lamports a > 0 then Err (instruction_error_of_system SE_AccountAlreadyInUse)
          else allocate_and_assign to_address space owner signers a) s)
       (transfer from to lamports ic)"

text \<open>The arms of \<^verbatim>\<open>process_instruction\<close>, after the signers were collected.\<close>

definition process_system_instruction ::
  "system_env \<Rightarrow> usize \<Rightarrow> system_instruction \<Rightarrow> pubkey set \<Rightarrow> invoke_context \<Rightarrow>
   store \<Rightarrow> (store, instruction_error) result" where
  "process_system_instruction env first instr signers ic s =
     (let kas = ic_keyed_accounts ic; hashv = se_hashv env; c = se_nonce_codec env in
      case instr of
        CreateAccount lamports space owner \<Rightarrow>
          bindE (keyed_account_at_index kas first) (\<lambda>from.
          bindE (keyed_account_at_index kas (first + 1)) (\<lambda>to.
          bindE (address_create hashv (unsigned_key to) None) (\<lambda>to_address.
          create_account from to to_address lamports space owner signers ic s)))
      | CreateAccountWithSeed base seed lamports space owner \<Rightarrow>
          bindE (keyed_account_at_index kas first) (\<lambda>from.
          bindE (keyed_account_at_index kas (first + 1)) (\<lambda>to.
          bindE (address_create hashv (unsigned_key to) (Some (base, seed, owner))) (\<lambda>to_address.
          create_account from to to_address lamports space owner signers ic s)))
      | Assign owner \<Rightarrow>
          bindE (keyed_account_at_index kas first) (\<lambda>ka.
          bindE (address_create hashv (unsigned_key ka) None) (\<lambda>addr.
          account_ref_mut ka (assign addr owner signers) s))
      | Transfer lamports \<Rightarrow>
          bindE (keyed_account_at_index kas first) (\<lambda>from.
          bindE (keyed_account_at_index kas (first + 1)) (\<lambda>to.
          transfer from to lamports ic s))
      | TransferWithSeed lamports from_seed from_owner \<Rightarrow>
          bindE (keyed_account_at_index kas first) (\<lambda>from.
          bindE (keyed_account_at_index kas (first + 1)) (\<lambda>base.
          bindE (keyed_account_at_index kas (first + 2)) (\<lambda>to.
          transfer_with_seed hashv from base from_seed from_owner to lamports ic s)))
      | AdvanceNonceAccount \<Rightarrow>
          bindE (keyed_account_at_index kas first) (\<lambda>me.
          bindE (keyed_account_at_index kas (first + 1)) (\<lambda>bka.
          bindE (check_recent_blockhashes bka ic) (\<lambda>recent_blockhashes.
          if recent_blockhashes = []
          then Err (instruction_error_of_u64 (nonce_error_adapter_code NoRecentBlockhashes))
          else advance_nonce_account hashv c me signers ic s)))
      | WithdrawNonceAccount lamports \<Rightarrow>
          bindE (keyed_account_at_index kas first) (\<lambda>me.
          bindE (keyed_account_at_index kas (first + 1)) (\<lambda>to.
          bindE (keyed_account_at_index kas (first + 2)) (\<lambda>bka.
          bindE (check_recent_blockhashes bka ic) (\<lambda>_.
          bindE (keyed_account_at_index kas (first + 3)) (\<lambda>rka.
          bindE (check_rent rka ic) (\<lambda>r.
          withdraw_nonce_account hashv c me lamports to r signers ic s))))))
      | InitializeNonceAccount authorized \<Rightarrow>
          bindE (keyed_account_at_index kas first) (\<lambda>me.
          bindE (keyed_account_at_index kas (first + 1)) (\<lambda>bka.
          bindE (check_recent_blockhashes bka ic) (\<lambda>recent_blockhashes.
          if recent_blockhashes = []
          then Err (instruction_error_of_u64 (nonce_error_adapter_code NoRecentBlockhashes))
          else
            bindE (keyed_account_at_index kas (first + 2)) (\<lambda>rka.
            bindE (check_rent rka ic) (\<lambda>r.
            initialize_nonce_account hashv c me authorized r ic s)))))
      | AuthorizeNonceAccount nonce_authority \<Rightarrow>
          bindE (keyed_account_at_index kas first) (\<lambda>me.
          authorize_nonce_account c me nonce_authority signers ic s)
      | UpgradeNonceAccount \<Rightarrow>
          if \<not> is_active (ic_feature_set ic) separate_nonce_from_blockhash
          then Err InvalidInstructionData
          else
            bindE (keyed_account_at_index kas first) (\<lambda>nonce_account.
            if ka_owner s nonce_account \<noteq> system_program_id then Err InvalidAccountOwner
            else if \<not> is_writable nonce_account then Err InvalidArgument
            else
              bindE (ka_state c s nonce_account) (\<lambda>nonce_versions.
              case versions_upgrade hashv nonce_versions of
                None \<Rightarrow> Err InvalidArgument
              | Some upgraded \<Rightarrow> ka_set_state c nonce_account upgraded s))
      | Allocate space \<Rightarrow>
          bindE (keyed_account_at_index kas first) (\<lambda>ka.
          bindE (address_create hashv (unsigned_key ka) None) (\<lambda>addr.
          account_ref_mut ka (allocate addr space signers) s))
      | AllocateWithSeed base seed space owner \<Rightarrow>
          bindE (keyed_account_at_index kas first) (\<lambda>ka.
          bindE (address_create hashv (unsigned_key ka) (Some (base, seed, owner))) (\<lambda>addr.
          account_ref_mut ka (allocate_and_assign addr space owner signers) s))
      | AssignWithSeed base seed owner \<Rightarrow>
          bindE (keyed_account_at_index kas first) (\<lambda>ka.
          bindE (address_create hashv (unsigned_key ka) (Some (base, seed, owner))) (\<lambda>addr.
          account_ref_mut ka (assign addr owner signers) s)))"

definition system_process_instruction ::
  "system_env \<Rightarrow> usize \<Rightarrow> bytes \<Rightarrow> invoke_context \<Rightarrow> store \<Rightarrow> (store, instruction_error) result" where
  "system_process_instruction env first data ic s =
     (let kas = ic_keyed_accounts ic in
      bindE (ok_or (se_instruction env data) InvalidInstructionData) (\<lambda>instr.
      bindE (keyed_account_at_index kas first) (\<lambda>_.
      process_system_instruction env first instr (get_signers (drop first kas)) ic s)))"

section \<open>Kinds of system accounts\<close>

datatype system_account_kind = SAK_System | SAK_Nonce

definition get_system_account_kind ::
  "nonce_codec \<Rightarrow> account_shared_data \<Rightarrow> system_account_kind option" where
  "get_system_account_kind c account =
     (if acc_owner account = system_program_id then
        if acc_data account = [] then Some SAK_System
        else if length (acc_data account) = nonce_state_size c then
          (case account_state c account of
             Inl _ \<Rightarrow> None
           | Inr v \<Rightarrow>
               (case versions_state v of Uninitialized \<Rightarrow> None | Initialized _ \<Rightarrow> Some SAK_Nonce))
        else None
      else None)"

section \<open>Conservation\<close>

lemma assign_frame:
  "assign addr owner signers a = Ok a' \<Longrightarrow> acc_lamports a' = acc_lamports a \<and> acc_data a' = acc_data a \<and>
   acc_executable a' = acc_executable a \<and> acc_rent_epoch a' = acc_rent_epoch a"
  by (auto simp: assign_def account_setters split: if_splits)

lemma allocate_frame:
  "allocate addr space signers a = Ok a' \<Longrightarrow> acc_lamports a' = acc_lamports a \<and> acc_owner a' = acc_owner a \<and>
   acc_executable a' = acc_executable a \<and> acc_rent_epoch a' = acc_rent_epoch a"
  by (auto simp: allocate_def account_setters split: if_splits)

lemma allocate_and_assign_frame:
  "allocate_and_assign addr space owner signers a = Ok a' \<Longrightarrow> acc_lamports a' = acc_lamports a \<and>
   acc_executable a' = acc_executable a \<and> acc_rent_epoch a' = acc_rent_epoch a"
  by (auto simp: allocate_and_assign_def result_simps dest!: allocate_frame assign_frame)

lemma account_ops_conserving [conserving_intros]:
  assumes "valid_keyed_account s ka"
  shows "conserving s (account_ref_mut ka (assign addr owner signers) s)"
    "conserving s (account_ref_mut ka (allocate addr space signers) s)"
    "conserving s (account_ref_mut ka (allocate_and_assign addr space owner signers) s)"
  by (intro conserving_account_ref_mut [OF assms];
      drule assign_frame allocate_frame allocate_and_assign_frame; simp)+

lemma transfer_conserving:
  assumes "valid_keyed_account s from" "valid_keyed_account s to"
  shows "conserving s (transfer_verified from to n s)" "conserving s (transfer from to n ic s)"
    "conserving s (transfer_with_seed hashv from base seed owner to n ic s)"
proof -
  show v: "conserving s (transfer_verified from to n s)"
    unfolding transfer_verified_def by (intro conserving_if conserving_fault conserving_move assms)
  show "conserving s (transfer from to n ic s)"
    "conserving s (transfer_with_seed hashv from base seed owner to n ic s)"
    unfolding transfer_def transfer_with_seed_def
    by (intro conserving_if conserving_fault conserving_Ok conserving_bind v)+
qed

lemma create_account_conserving:
  assumes "valid_keyed_account s from" "valid_keyed_account s to"
  shows "conserving s (create_account from to addr n space owner signers ic s)"
  unfolding create_account_def
proof (rule conserving_seq)
  show "conserving s (account_ref_mut to (\<lambda>a.
          if acc_lamports a > 0 then Err (instruction_error_of_system SE_AccountAlreadyInUse)
          else allocate_and_assign addr space owner signers a) s)"
    by (rule conserving_account_ref_mut [OF assms(2)])
      (auto split: if_splits dest: allocate_and_assign_frame)
qed (use assms in \<open>intro transfer_conserving; simp add: store_frame_valid\<close>)

lemma process_system_instruction_conserving:
  assumes "valid_accounts s (ic_keyed_accounts ic)"
  shows "conserving s (process_system_instruction env first instr signers ic s)"
  unfolding process_system_instruction_def Let_def
  by (cases instr; simp only: system_instruction.case;
      intro conserving_intros transfer_conserving create_account_conserving nonce_ops_conserving
        withdraw_nonce_conserving conserving_set_state;
      elim keyed_account_at_valid [OF assms])

lemma system_process_instruction_conserving:
  assumes "valid_accounts s (ic_keyed_accounts ic)"
  shows "conserving s (system_process_instruction env first data ic s)"
  unfolding system_process_instruction_def Let_def
  by (intro conserving_bind process_system_instruction_conserving assms)

interpretation system_native: native_program "system_process_instruction env first" for env first
  by unfold_locales (rule system_process_instruction_conserving)

end
