(* ===== verification/System_Properties.thy ===== *)
theory System_Properties
  imports System_Program
begin

text \<open>
  Properties of the system program: who can debit or reassign an account, what the creation of an
  account does, and the conservation of lamports over a sequence of instructions.
\<close>

section \<open>Authorisation\<close>

text \<open>
  The signatures that the program accepts for an account: its own key, the base key its address
  derives from, and for a debit the authority of the nonce it holds.
\<close>

definition signed_for :: "hash_function \<Rightarrow> pubkey set \<Rightarrow> pubkey \<Rightarrow> bool" where
  "signed_for hashv signers key \<longleftrightarrow>
     key \<in> signers \<or> (\<exists>base seed owner. base \<in> signers \<and> create_with_seed hashv base seed owner = Ok key)"

definition nonce_authority_signed :: "nonce_codec \<Rightarrow> pubkey set \<Rightarrow> account_shared_data \<Rightarrow> bool" where
  "nonce_authority_signed c signers a \<longleftrightarrow>
     (\<exists>v d. account_state c a = Ok v \<and> versions_state v = Initialized d \<and> nd_authority d \<in> signers)"

definition may_debit :: "system_env \<Rightarrow> usize \<Rightarrow> invoke_context \<Rightarrow> store \<Rightarrow> nat \<Rightarrow> bool" where
  "may_debit env first ic s i \<longleftrightarrow>
     (let signers = get_signers (drop first (ic_keyed_accounts ic)) in
      \<exists>ka \<in> set (drop first (ic_keyed_accounts ic)). ka_account ka = i \<and>
        (signed_for (se_hashv env) signers (unsigned_key ka) \<or>
         nonce_authority_signed (se_nonce_codec env) signers (s ! i)))"

definition may_assign :: "system_env \<Rightarrow> usize \<Rightarrow> invoke_context \<Rightarrow> nat \<Rightarrow> bool" where
  "may_assign env first ic i \<longleftrightarrow>
     (\<exists>ka \<in> set (drop first (ic_keyed_accounts ic)). ka_account ka = i \<and>
        signed_for (se_hashv env) (get_signers (drop first (ic_keyed_accounts ic))) (unsigned_key ka))"

lemma address_create_signed:
  assumes "address_create hashv key ws = Ok addr" "address_is_signer addr signers"
  shows "signed_for hashv signers key"
  using assms
  by (cases ws)
    (auto simp: address_create_def address_is_signer_def signed_for_def result_simps split: if_splits)

lemma assign_reowned:
  "assign addr owner signers a = Ok a' \<Longrightarrow> reowned a a' \<Longrightarrow> address_is_signer addr signers"
  by (auto simp: assign_def reowned_def split: if_splits)

lemma allocate_and_assign_signed:
  "allocate_and_assign addr space owner signers a = Ok a' \<Longrightarrow> address_is_signer addr signers"
  by (auto simp: allocate_and_assign_def allocate_def result_simps split: if_splits)

lemma account_ops_debit [touches_intros]:
  "touches debited P s (account_ref_mut ka (assign addr owner signers) s)"
  "touches debited P s (account_ref_mut ka (allocate addr space signers) s)"
  "touches debited P s (account_ref_mut ka (allocate_and_assign addr space owner signers) s)"
  by (rule debit.touches_ref_mut;
      auto simp: debited_def dest!: assign_frame allocate_frame allocate_and_assign_frame)+

lemma account_ops_reown:
  assumes "address_is_signer addr signers \<Longrightarrow> P (ka_account ka)"
  shows "touches reowned P s (account_ref_mut ka (assign addr owner signers) s)"
    "touches reowned P s (account_ref_mut ka (allocate addr space signers) s)"
    "touches reowned P s (account_ref_mut ka (allocate_and_assign addr space owner signers) s)"
  using assms
  by (auto intro!: reown.touches_ref_mut dest: assign_reowned allocate_and_assign_signed
      simp: reowned_def dest!: allocate_frame)

lemma transfer_verified_touches:
  "(P (ka_account from)) \<Longrightarrow> touches debited P s (transfer_verified from to n s)"
  "touches reowned Q s (transfer_verified from to n s)"
  unfolding transfer_verified_def by (intro touches_intros touches_move; assumption?)+

lemma transfer_touches:
  "(signer_key from \<noteq> None \<Longrightarrow> P (ka_account from)) \<Longrightarrow> touches debited P s (transfer from to n ic s)"
  "touches reowned Q s (transfer from to n ic s)"
  unfolding transfer_def by (intro touches_intros transfer_verified_touches; simp)+

lemma transfer_with_seed_touches:
  "(signer_key base \<noteq> None \<Longrightarrow>
     create_with_seed hashv (unsigned_key base) seed owner = Ok (unsigned_key from) \<Longrightarrow> P (ka_account from)) \<Longrightarrow>
   touches debited P s (transfer_with_seed hashv from base seed owner to n ic s)"
  "touches reowned Q s (transfer_with_seed hashv from base seed owner to n ic s)"
  unfolding transfer_with_seed_def
  by (intro touches_intros transfer_verified_touches; simp add: result_simps)+

lemma create_account_touches:
  assumes "signer_key from \<noteq> None \<Longrightarrow> P (ka_account from)"
    and "address_is_signer addr signers \<Longrightarrow> Q (ka_account to)"
  shows "touches debited P s (create_account from to addr n space owner signers ic s)"
    "touches reowned Q s (create_account from to addr n space owner signers ic s)"
proof -
  show "touches debited P s (create_account from to addr n space owner signers ic s)"
    unfolding create_account_def
    by (rule debit.touches_seq) (auto intro!: debit.touches_ref_mut transfer_touches assms(1)
        simp: debited_def split: if_splits dest: allocate_and_assign_frame)
  show "touches reowned Q s (create_account from to addr n space owner signers ic s)"
    unfolding create_account_def
    by (rule reown.touches_seq) (auto intro!: reown.touches_ref_mut transfer_touches assms(2)
        split: if_splits dest: allocate_and_assign_signed)
qed

lemma nonce_ops_touch [touches_intros]:
  "touches debited P s (advance_nonce_account hashv c me signers ic s)"
  "touches debited P s (initialize_nonce_account hashv c me k r ic s)"
  "touches debited P s (authorize_nonce_account c me k signers ic s)"
  "touches reowned P s (advance_nonce_account hashv c me signers ic s)"
  "touches reowned P s (initialize_nonce_account hashv c me k r ic s)"
  "touches reowned P s (authorize_nonce_account c me k signers ic s)"
proof -
  have st: "touches debited P s (case v of Initialized d \<Rightarrow> f d | Uninitialized \<Rightarrow> g)"
    if "\<And>d. touches debited P s (f d)" "touches debited P s g" for v P f and g :: "(store, 'e) result"
    using that by (cases v) simp_all
  have st': "touches reowned P s (case v of Initialized d \<Rightarrow> f d | Uninitialized \<Rightarrow> g)"
    if "\<And>d. touches reowned P s (f d)" "touches reowned P s g" for v P f and g :: "(store, 'e) result"
    using that by (cases v) simp_all
  show "touches debited P s (advance_nonce_account hashv c me signers ic s)"
    "touches debited P s (initialize_nonce_account hashv c me k r ic s)"
    "touches debited P s (authorize_nonce_account c me k signers ic s)"
    "touches reowned P s (advance_nonce_account hashv c me signers ic s)"
    "touches reowned P s (initialize_nonce_account hashv c me k r ic s)"
    "touches reowned P s (authorize_nonce_account c me k signers ic s)"
    unfolding advance_nonce_account_def initialize_nonce_account_def authorize_nonce_account_def Let_def
    by (intro touches_intros st st')+
qed

lemma withdraw_nonce_touches:
  assumes "unsigned_key me \<in> signers \<or> nonce_authority_signed c signers (account_ref s me) \<Longrightarrow> P (ka_account me)"
  shows "touches debited P s (withdraw_nonce_account hashv c me n to r signers ic s)"
    "touches reowned Q s (withdraw_nonce_account hashv c me n to r signers ic s)"
proof -
  have via: "length s1 = length s \<and> touches debited P s (Ok s1 :: (store, instruction_error) result) \<and>
      touches reowned Q s (Ok s1 :: (store, instruction_error) result)"
    "signer \<in> signers \<Longrightarrow> P (ka_account me)"
    if "withdraw_nonce_signer hashv c me n r ic (versions_state v) s = Ok (signer, s1)"
      "ka_state c s me = Ok v" for v signer s1
  proof -
    note cs = withdraw_nonce_signer_cases [OF that(1)]
    then consider "s1 = s" | w where "ka_set_state c me w s = Ok s1" by blast
    then show "length s1 = length s \<and> touches debited P s (Ok s1 :: (store, instruction_error) result) \<and>
        touches reowned Q s (Ok s1 :: (store, instruction_error) result)"
    proof cases
      case 2
      then show ?thesis
        using touches_set_state(1) [of P s c me w] touches_set_state(2) [of Q s c me w]
        by (simp add: touches_def ka_set_state_def)
    qed (simp add: touches_intros)
    show "signer \<in> signers \<Longrightarrow> P (ka_account me)"
      using cs assms that(2) by (auto simp: nonce_authority_signed_def ka_state_def)
  qed
  let ?move = "\<lambda>t. bindE (ka_checked_sub_lamports me n t) (ka_checked_add_lamports to n)"
  have debit: "touches debited P s (?move s1)" and reown: "touches reowned Q s (?move s1)"
    if "withdraw_nonce_signer hashv c me n r ic (versions_state v) s = Ok (signer, s1)"
      "ka_state c s me = Ok v" "guardE (signer \<in> signers) MissingRequiredSignature = Ok u" for v signer s1 u
    using via [OF that(1,2)] that(3) debit.touches_seq [of P s "Ok s1" ?move]
      reown.touches_seq [of Q s "Ok s1" ?move] touches_move(1) [of P me s1 n to]
      touches_move(2) [of "\<lambda>_. True" me Q s1 n to]
    by (simp_all add: result_simps)
  show "touches debited P s (withdraw_nonce_account hashv c me n to r signers ic s)"
    unfolding withdraw_nonce_account_move
    by (rule debit.touches_bind, rule debit.touches_bind, rule debit.touches_bind,
        rule debit.touches_split, rule debit.touches_bind) (simp only: debit)
  show "touches reowned Q s (withdraw_nonce_account hashv c me n to r signers ic s)"
    unfolding withdraw_nonce_account_move
    by (rule reown.touches_bind, rule reown.touches_bind, rule reown.touches_bind,
        rule reown.touches_split, rule reown.touches_bind) (simp only: reown)
qed

lemma process_system_instruction_touches:
  fixes env first ic
  defines "kas \<equiv> ic_keyed_accounts ic"
  defines "signers \<equiv> get_signers (drop first kas)"
  shows "touches debited (may_debit env first ic s) s
      (process_system_instruction env first instr signers ic s)"
    and "touches reowned (may_assign env first ic) s
      (process_system_instruction env first instr signers ic s)"
proof -
  have mem: "keyed_account_at_index kas (first + k) = Ok ka \<Longrightarrow> ka \<in> set (drop first kas)" for k ka
    by (erule keyed_account_at_mem) (rule le_add1)
  note mem0 = mem [of 0, simplified]
  have signed: "keyed_account_at_index kas (first + k) = Ok ka \<Longrightarrow> signer_key ka \<noteq> None \<Longrightarrow>
      unsigned_key ka \<in> signers" for k ka
    unfolding signers_def by (erule signer_in_signers [OF _ le_add1])
  note signed0 = signed [of 0, simplified]
  have direct: "k \<in> signers \<Longrightarrow> signed_for (se_hashv env) signers k" for k
    by (simp add: signed_for_def)
  have seed: "keyed_account_at_index kas (first + k) = Ok base \<Longrightarrow> signer_key base = Some y \<Longrightarrow>
      create_with_seed (se_hashv env) (unsigned_key base) sd owner = Ok key \<Longrightarrow>
      signed_for (se_hashv env) signers key" for k base y sd owner key
    using signed [of k base] by (auto simp: signed_for_def)
  have own: "ka \<in> set (drop first kas) \<Longrightarrow> signed_for (se_hashv env) signers (unsigned_key ka) \<or>
      nonce_authority_signed (se_nonce_codec env) signers (account_ref s ka) \<Longrightarrow>
      may_debit env first ic s (ka_account ka)" for ka
    unfolding may_debit_def signers_def kas_def account_ref_def by (auto simp: Let_def)
  have asg: "ka \<in> set (drop first kas) \<Longrightarrow> signed_for (se_hashv env) signers (unsigned_key ka) \<Longrightarrow>
      may_assign env first ic (ka_account ka)" for ka
    unfolding may_assign_def signers_def kas_def by auto
  show "touches debited (may_debit env first ic s) s
      (process_system_instruction env first instr signers ic s)"
    unfolding process_system_instruction_def Let_def kas_def [symmetric]
    by (cases instr; simp only: system_instruction.case;
        intro touches_intros transfer_touches transfer_with_seed_touches create_account_touches
          withdraw_nonce_touches;
        auto intro!: own dest: mem0 signed0 seed [of 1, simplified] simp: direct)
  show "touches reowned (may_assign env first ic) s
      (process_system_instruction env first instr signers ic s)"
    unfolding process_system_instruction_def Let_def kas_def [symmetric]
    by (cases instr; simp only: system_instruction.case;
        intro touches_intros transfer_touches transfer_with_seed_touches create_account_touches
          withdraw_nonce_touches account_ops_reown;
        auto intro!: asg dest: mem0 mem [of 1, simplified] address_create_signed)
qed

section \<open>Creation of an account\<close>

text \<open>The account that \<^verbatim>\<open>create_account\<close> leaves, and the conditions it checks on the way.\<close>

definition created :: "u64 \<Rightarrow> u64 \<Rightarrow> pubkey \<Rightarrow> account_shared_data \<Rightarrow> account_shared_data" where
  "created lamports space owner a =
     a\<lparr>acc_data := replicate space 0, acc_owner := owner, acc_lamports := lamports\<rparr>"

definition can_create :: "u64 \<Rightarrow> address \<Rightarrow> pubkey set \<Rightarrow> account_shared_data \<Rightarrow> bool" where
  "can_create space addr signers a \<longleftrightarrow>
     acc_lamports a = 0 \<and> acc_data a = [] \<and> acc_owner a = system_program_id \<and>
     space \<le> MAX_PERMITTED_DATA_LENGTH \<and> address_is_signer addr signers"

definition can_fund :: "invoke_context \<Rightarrow> keyed_account \<Rightarrow> u64 \<Rightarrow> account_shared_data \<Rightarrow> bool" where
  "can_fund ic from lamports a \<longleftrightarrow>
     (lamports = 0 \<and> \<not> is_active (ic_feature_set ic) system_transfer_zero_check) \<or>
     (is_signer from \<and> acc_data a = [] \<and> lamports \<le> acc_lamports a)"

lemma allocate_and_assign_Ok:
  "acc_lamports a = 0 \<Longrightarrow> allocate_and_assign addr space owner signers a = Ok a' \<longleftrightarrow>
     can_create space addr signers a \<and> a' = created 0 space owner a"
  by (auto simp: allocate_and_assign_def allocate_def assign_def can_create_def created_def
      account_setters result_simps split: if_splits)

lemma transfer_Ok:
  assumes "ka_account from \<noteq> ka_account to" "valid_keyed_account s from" "valid_keyed_account s to"
    and "ka_lamports s to + n \<le> u64_max"
  shows "transfer from to n ic s = Ok s' \<longleftrightarrow> can_fund ic from n (account_ref s from) \<and>
    s' = s[ka_account from := set_lamports (ka_lamports s from - n) (account_ref s from),
           ka_account to := set_lamports (ka_lamports s to + n) (account_ref s to)]"
proof -
  have id: "s[i := set_lamports (acc_lamports (s ! i)) (s ! i)] = s" for i and s :: store
    by (simp add: set_lamports_def)
  show ?thesis using assms
    by (auto simp: transfer_def transfer_verified_def can_fund_def signer_key_def ka_data_is_empty_def
        ka_checked_sub_lamports_def ka_checked_add_lamports_def account_ref_mut_def checked_sub_lamports_def
        checked_add_lamports_def ka_lamports_def account_ref_def valid_keyed_account_def result_simps id
        split: if_splits)
qed

lemma create_account_Ok:
  assumes "ka_account from \<noteq> ka_account to" "valid_keyed_account s from" "valid_keyed_account s to"
    and "n \<le> u64_max"
  shows "create_account from to addr n space owner signers ic s = Ok s' \<longleftrightarrow>
    can_create space addr signers (account_ref s to) \<and> can_fund ic from n (account_ref s from) \<and>
    s' = s[ka_account from := set_lamports (ka_lamports s from - n) (account_ref s from),
           ka_account to := created n space owner (account_ref s to)]"
proof -
  define t where "t = s[ka_account to := created 0 space owner (account_ref s to)]"
  have t: "transfer from to n ic t = Ok s' \<longleftrightarrow> can_fund ic from n (account_ref s from) \<and>
    s' = s[ka_account from := set_lamports (ka_lamports s from - n) (account_ref s from),
           ka_account to := created n space owner (account_ref s to)]"
    using transfer_Ok [of "from" to t n ic s'] assms
    by (auto simp: t_def valid_keyed_account_def ka_lamports_def account_ref_def created_def set_lamports_def
        list_update_swap)
  have "account_ref_mut to (\<lambda>a.
          if acc_lamports a > 0 then Err (instruction_error_of_system SE_AccountAlreadyInUse)
          else allocate_and_assign addr space owner signers a) s = Ok u \<longleftrightarrow>
        can_create space addr signers (account_ref s to) \<and> u = t" for u
    using allocate_and_assign_Ok [of "account_ref s to" addr space owner signers]
    by (auto simp: account_ref_mut_def result_simps t_def can_create_def)
  then show ?thesis unfolding create_account_def bindE_Ok_iff t [symmetric] by auto
qed

section \<open>Properties\<close>

text \<open>
  C10. The system program moves nothing without authority. If an instruction succeeds and an
  account lost lamports, the account's key signed, or the base key that its address derives
  from signed, or the authority of the nonce the account held signed; if the account changed
  owner, the account's key or the base key signed. This is for every instruction, and also where
  several of its accounts share a cell.
\<close>

theorem system_changes_authorised:
  assumes "system_process_instruction env first data ic s = Ok s'" "i < length s"
  shows "(acc_lamports (s' ! i) < acc_lamports (s ! i) \<longrightarrow> may_debit env first ic s i) \<and>
    (acc_owner (s' ! i) \<noteq> acc_owner (s ! i) \<longrightarrow> may_assign env first ic i)"
proof -
  obtain instr where "process_system_instruction env first instr
      (get_signers (drop first (ic_keyed_accounts ic))) ic s = Ok s'"
    using assms(1) by (auto simp: system_process_instruction_def Let_def result_simps)
  with process_system_instruction_touches [where env = env and first = first and ic = ic and s = s and instr = instr]
    assms(2)
  show ?thesis by (auto simp: touches_def debited_def reowned_def)
qed

text \<open>
  C25. \<^verbatim>\<open>CreateAccount\<close> succeeds exactly when the new account is unused (no lamports, no data, owned
  by the system program), its key signed, the size is permitted, and the funding account signed,
  holds no data and has the lamports; it then holds exactly the requested lamports, zeroed data
  and owner, the funding account is debited by as much, and no other account changes.
\<close>

theorem create_account_instruction:
  assumes "se_instruction env data = Some (CreateAccount lamports space owner)"
    and "keyed_account_at_index (ic_keyed_accounts ic) first = Ok from"
    and "keyed_account_at_index (ic_keyed_accounts ic) (first + 1) = Ok to"
    and "ka_account from \<noteq> ka_account to" "valid_keyed_account s from" "valid_keyed_account s to"
    and "lamports \<le> u64_max"
  shows "system_process_instruction env first data ic s = Ok s' \<longleftrightarrow>
    can_create space \<lparr>ad_address = unsigned_key to, ad_base = None\<rparr>
      (get_signers (drop first (ic_keyed_accounts ic))) (account_ref s to) \<and>
    can_fund ic from lamports (account_ref s from) \<and>
    s' = s[ka_account from := set_lamports (ka_lamports s from - lamports) (account_ref s from),
           ka_account to := created lamports space owner (account_ref s to)]"
  using assms(1-3) create_account_Ok [OF assms(4-7)]
  by (simp add: system_process_instruction_def process_system_instruction_def address_create_def)

text \<open>
  C26. No sequence of system instructions creates or destroys lamports, adds or removes an account,
  or changes an executable flag or a rent epoch.
\<close>

theorem system_program_conserves:
  assumes "\<forall>(data, ic) \<in> set instructions. valid_accounts s (ic_keyed_accounts ic)"
    and "run_instructions (system_process_instruction env first) instructions s = Ok s'"
  shows "total_lamports s' = total_lamports s \<and> store_frame s s'"
  using assms by (rule system_native.run_total)

subsection \<open>Witnesses\<close>

definition example_system_env :: "system_instruction \<Rightarrow> system_env" where
  "example_system_env i =
     \<lparr>se_hashv = example_hashv, se_nonce_codec = example_nonce_codec, se_instruction = (\<lambda>_. Some i)\<rparr>"

definition example_payer :: keyed_account where
  "example_payer = \<lparr>is_signer = True, is_writable = True, unsigned_key = 1, ka_account = 0\<rparr>"

definition example_fresh :: keyed_account where
  "example_fresh = \<lparr>is_signer = True, is_writable = True, unsigned_key = 2, ka_account = 1\<rparr>"

definition example_system_context :: invoke_context where
  "example_system_context = example_nonce_context\<lparr>ic_keyed_accounts := [example_payer, example_fresh]\<rparr>"

definition example_system_store :: store where
  "example_system_store =
     [account_create 100 [] system_program_id False 0, account_create 0 [] system_program_id False 0]"

lemmas example_system_defs = example_system_env_def example_payer_def example_fresh_def
  example_system_context_def example_system_store_def account_create_def

lemma example_signers: "get_signers (ic_keyed_accounts example_system_context) = {1, 2}"
  by (auto simp: get_signers_def List.map_filter_def signer_key_def example_system_defs)

lemma replicate_2: "replicate 2 x = [x, x]"
  by (simp add: numeral_2_eq_2)

lemma example_create:
  "system_process_instruction (example_system_env (CreateAccount 30 2 9)) 0 [] example_system_context
     example_system_store =
   Ok [account_create 70 [] system_program_id False 0, account_create 30 [0, 0] 9 False 0]"
  by (simp add: system_process_instruction_def example_signers,
      simp add: example_system_defs process_system_instruction_def
      keyed_account_at_index_def create_account_def account_ref_mut_def account_ref_def
      allocate_and_assign_def allocate_def assign_def address_create_def address_is_signer_def
      transfer_def transfer_verified_def signer_key_def ka_data_is_empty_def ka_lamports_def
      ka_checked_sub_lamports_def ka_checked_add_lamports_def checked_sub_lamports_def
      checked_add_lamports_def account_setters replicate_2 MAX_PERMITTED_DATA_LENGTH_def checked_add64_def checked_sub64_def)

theorem system_changes_authorised_witness:
  "\<exists>s'. system_process_instruction (example_system_env (CreateAccount 30 2 9)) 0 [] example_system_context
       example_system_store = Ok s' \<and>
     acc_lamports (s' ! 0) < acc_lamports (example_system_store ! 0) \<and>
     may_debit (example_system_env (CreateAccount 30 2 9)) 0 example_system_context example_system_store 0 \<and>
     acc_owner (s' ! 1) \<noteq> acc_owner (example_system_store ! 1) \<and>
     may_assign (example_system_env (CreateAccount 30 2 9)) 0 example_system_context 1"
  using system_changes_authorised [OF example_create, of 0] system_changes_authorised [OF example_create, of 1]
    example_create
  by (auto simp: example_system_store_def account_create_def system_program_id_def)

theorem create_account_instruction_witness:
  "system_process_instruction (example_system_env (CreateAccount 30 2 9)) 0 [] example_system_context
     example_system_store =
   Ok (example_system_store[0 := set_lamports 70 (example_system_store ! 0),
         1 := created 30 2 9 (example_system_store ! 1)])"
  by (subst create_account_instruction [of _ _ 30 2 9 _ _ example_payer example_fresh])
    (simp_all add: example_signers, simp_all add: example_system_defs keyed_account_at_index_def
      valid_keyed_account_def can_create_def can_fund_def account_ref_def ka_lamports_def
      MAX_PERMITTED_DATA_LENGTH_def address_is_signer_def)

theorem system_program_conserves_witness:
  "\<exists>s'. run_instructions (system_process_instruction (example_system_env (CreateAccount 30 2 9)) 0)
      [([], example_system_context)] example_system_store = Ok s' \<and> total_lamports s' = 100"
proof -
  have "run_instructions (system_process_instruction (example_system_env (CreateAccount 30 2 9)) 0)
      [([], example_system_context)] example_system_store =
    Ok [account_create 70 [] system_program_id False 0, account_create 30 [0, 0] 9 False 0]"
    by (simp add: run_instructions_def example_create)
  with system_program_conserves [OF _ this] show ?thesis
    by (auto simp: valid_accounts_def valid_keyed_account_def example_system_defs total_lamports_def)
qed

end
