(* ===== verification/Messages.thy ===== *)
theory Messages
  imports System_Program Collections
begin

text \<open>
  Transaction messages (\<^verbatim>\<open>sdk/program/src/message\<close>): the compilation of instructions into a legacy
  message (\<^verbatim>\<open>compiled_keys.rs\<close>, \<^verbatim>\<open>legacy.rs\<close>), messages with address table lookups
  (\<^verbatim>\<open>versions/v0\<close>), the key list of a loaded message (\<^verbatim>\<open>account_keys.rs\<close>), the sanitize checks,
  and the sanitized message that the runtime works with (\<^verbatim>\<open>sanitized.rs\<close>).

  A \<^verbatim>\<open>u8\<close> index or count is a natural number below 256; a cast \<^verbatim>\<open>as u8\<close> is \<open>mod 256\<close>. The
  predicates on one account index a key list that a sanitized message keeps in range; where the
  source would index out of range they read no key.
\<close>

section \<open>Instructions\<close>

record account_meta =
  am_pubkey :: pubkey
  am_is_signer :: bool
  am_is_writable :: bool

record instruction =
  ix_program_id :: pubkey
  ix_accounts :: "account_meta list"
  ix_data :: bytes

record compiled_instruction =
  ci_program_id_index :: nat
  ci_accounts :: "nat list"
  ci_data :: bytes

record message_header =
  num_required_signatures :: nat
  num_readonly_signed_accounts :: nat
  num_readonly_unsigned_accounts :: nat

section \<open>Reserved keys\<close>

definition rewards_id :: pubkey where
  "rewards_id = 3010411246019292312979761209880469183404341140736143741603546036852764966912"
definition slot_history_id :: pubkey where
  "slot_history_id = 3010411246020387390882771635765924662261524573769583470181990702897938038784"
definition instructions_id :: pubkey where
  "instructions_id = 3010411245946659004650937024412888917526102981211644260807408457663811420160"
definition bpf_loader_id :: pubkey where
  "bpf_loader_id = 1203157751113443873660160097494192217694197863828223470469643324391874887680"
definition bpf_loader_deprecated_id :: pubkey where
  "bpf_loader_deprecated_id =
     1203157751113443858060189220861420229533383809681776218343720119607431790592"
definition bpf_loader_upgradeable_id :: pubkey where
  "bpf_loader_upgradeable_id =
     1203157751113444292085578490895711631870746999416992000355168191203933945856"

definition ALL_IDS :: "pubkey list" where
  "ALL_IDS = [clock_id, epoch_schedule_id, fees_id, recent_blockhashes_id, rent_id, rewards_id,
     slot_hashes_id, slot_history_id, stake_history_id, instructions_id]"

definition is_sysvar_id :: "pubkey \<Rightarrow> bool" where
  "is_sysvar_id k = (k \<in> set ALL_IDS)"

definition BUILTIN_PROGRAMS_KEYS :: "pubkey list" where
  "BUILTIN_PROGRAMS_KEYS =
     [1368054751858961187610615744159202396902912294346696811737198408170517561344,
      1697283009773004509314654261529545701582471225670895602380440637121876721664,
      2501004778692694513383192626365552564445537874725049955997982167012726538240,
      2999830881511641543315636960581363899061052244619701952529276772483092971520,
      2999830883595957297425391470815370877654746576576239794379788187849801596928,
      3338071818571248938818993247932504658966148473698877128351861063997718528000,
      system_program_id, bpf_loader_id, bpf_loader_deprecated_id, bpf_loader_upgradeable_id]"

section \<open>Compilation of keys\<close>

record compiled_key_meta =
  ckm_is_signer :: bool
  ckm_is_writable :: bool

record compiled_keys =
  writable_signer_keys :: "pubkey list"
  readonly_signer_keys :: "pubkey list"
  writable_non_signer_keys :: "pubkey list"
  readonly_non_signer_keys :: "pubkey list"

type_synonym key_meta_map = "(pubkey, compiled_key_meta) btree_map"

text \<open>\<^verbatim>\<open>entry(k).or_default()\<close>: the entry, and the map with the entry.\<close>

definition meta_of :: "key_meta_map \<Rightarrow> pubkey \<Rightarrow> compiled_key_meta" where
  "meta_of m k =
     (case bt_get m k of None \<Rightarrow> \<lparr>ckm_is_signer = False, ckm_is_writable = False\<rparr> | Some meta \<Rightarrow> meta)"

definition add_program_id :: "pubkey \<Rightarrow> key_meta_map \<Rightarrow> key_meta_map" where
  "add_program_id k m = bt_insert k (meta_of m k) m"

definition add_account_meta :: "account_meta \<Rightarrow> key_meta_map \<Rightarrow> key_meta_map" where
  "add_account_meta am m =
     (let meta = meta_of m (am_pubkey am)
      in bt_insert (am_pubkey am)
           \<lparr>ckm_is_signer = (ckm_is_signer meta \<or> am_is_signer am),
            ckm_is_writable = (ckm_is_writable meta \<or> am_is_writable am)\<rparr> m)"

definition key_meta_map_of :: "instruction list \<Rightarrow> key_meta_map" where
  "key_meta_map_of instructions =
     fold (\<lambda>ix m. fold add_account_meta (ix_accounts ix) (add_program_id (ix_program_id ix) m)) instructions []"

definition keys_where :: "(compiled_key_meta \<Rightarrow> bool) \<Rightarrow> key_meta_map \<Rightarrow> pubkey list" where
  "keys_where P m = map fst (filter (\<lambda>(_, meta). P meta) m)"

definition compile_keys :: "instruction list \<Rightarrow> pubkey option \<Rightarrow> compiled_keys" where
  "compile_keys instructions payer =
     (let key_meta_map = key_meta_map_of instructions;
          key_meta_map = (case payer of Some p \<Rightarrow> bt_remove p key_meta_map | None \<Rightarrow> key_meta_map)
      in \<lparr>writable_signer_keys = (case payer of Some p \<Rightarrow> [p] | None \<Rightarrow> []) @
            keys_where (\<lambda>meta. ckm_is_signer meta \<and> ckm_is_writable meta) key_meta_map,
          readonly_signer_keys =
            keys_where (\<lambda>meta. ckm_is_signer meta \<and> \<not> ckm_is_writable meta) key_meta_map,
          writable_non_signer_keys =
            keys_where (\<lambda>meta. \<not> ckm_is_signer meta \<and> ckm_is_writable meta) key_meta_map,
          readonly_non_signer_keys =
            keys_where (\<lambda>meta. \<not> ckm_is_signer meta \<and> \<not> ckm_is_writable meta) key_meta_map\<rparr>)"

definition u8_try_from :: "nat \<Rightarrow> nat option" where
  "u8_try_from n = (if n < 256 then Some n else None)"

definition try_into_message_components :: "compiled_keys \<Rightarrow> (message_header \<times> pubkey list) option" where
  "try_into_message_components k =
     Option.bind (u8_try_from (length (writable_signer_keys k) + length (readonly_signer_keys k))) (\<lambda>nrs.
     Option.bind (u8_try_from (length (readonly_signer_keys k))) (\<lambda>nros.
     Option.bind (u8_try_from (length (readonly_non_signer_keys k))) (\<lambda>nrou.
     Some (\<lparr>num_required_signatures = nrs, num_readonly_signed_accounts = nros,
            num_readonly_unsigned_accounts = nrou\<rparr>,
           writable_signer_keys k @ readonly_signer_keys k @ writable_non_signer_keys k @
           readonly_non_signer_keys k))))"

section \<open>Legacy messages\<close>

record legacy_message =
  lm_header :: message_header
  lm_account_keys :: "pubkey list"
  lm_recent_blockhash :: hash
  lm_instructions :: "compiled_instruction list"

fun position :: "'a list \<Rightarrow> 'a \<Rightarrow> nat option" where
  "position [] x = None"
| "position (y # ys) x = (if y = x then Some 0 else map_option Suc (position ys x))"

definition key_position :: "pubkey list \<Rightarrow> pubkey \<Rightarrow> (nat, 'e) result" where
  "key_position keys key = bindE (unwrap (position keys key)) (\<lambda>i. Ok (i mod 256))"

definition compile_instruction :: "instruction \<Rightarrow> pubkey list \<Rightarrow> (compiled_instruction, 'e) result" where
  "compile_instruction ix keys =
     bindE (mapE (\<lambda>account_meta. key_position keys (am_pubkey account_meta)) (ix_accounts ix)) (\<lambda>accounts.
     bindE (key_position keys (ix_program_id ix)) (\<lambda>program_id_index.
     Ok \<lparr>ci_program_id_index = program_id_index, ci_accounts = accounts, ci_data = ix_data ix\<rparr>))"

definition compile_instructions ::
  "instruction list \<Rightarrow> pubkey list \<Rightarrow> (compiled_instruction list, 'e) result" where
  "compile_instructions ixs keys = mapE (\<lambda>ix. compile_instruction ix keys) ixs"

definition new_with_compiled_instructions ::
  "nat \<Rightarrow> nat \<Rightarrow> nat \<Rightarrow> pubkey list \<Rightarrow> hash \<Rightarrow> compiled_instruction list \<Rightarrow> legacy_message" where
  "new_with_compiled_instructions nrs nros nrou account_keys recent_blockhash instructions =
     \<lparr>lm_header = \<lparr>num_required_signatures = nrs, num_readonly_signed_accounts = nros,
        num_readonly_unsigned_accounts = nrou\<rparr>,
      lm_account_keys = account_keys, lm_recent_blockhash = recent_blockhash,
      lm_instructions = instructions\<rparr>"

definition new_with_blockhash ::
  "instruction list \<Rightarrow> pubkey option \<Rightarrow> hash \<Rightarrow> (legacy_message, 'e) result" where
  "new_with_blockhash instructions payer blockhash =
     bindE (unwrap (try_into_message_components (compile_keys instructions payer))) (\<lambda>(header, account_keys).
     bindE (compile_instructions instructions account_keys) (\<lambda>compiled.
     Ok (new_with_compiled_instructions (num_required_signatures header)
           (num_readonly_signed_accounts header) (num_readonly_unsigned_accounts header)
           account_keys blockhash compiled)))"

definition message_new :: "instruction list \<Rightarrow> pubkey option \<Rightarrow> (legacy_message, 'e) result" where
  "message_new instructions payer = new_with_blockhash instructions payer 0"

datatype sanitize_error = SanE_IndexOutOfBounds | SanE_ValueOutOfBounds | SanE_InvalidValue

text \<open>The checks on one compiled instruction, with the bounds of the program index and the accounts.\<close>

definition sanitize_instruction :: "nat \<Rightarrow> nat \<Rightarrow> compiled_instruction \<Rightarrow> (unit, sanitize_error) result" where
  "sanitize_instruction program_bound account_bound ci =
     bindE (guardE (ci_program_id_index ci < program_bound) SanE_IndexOutOfBounds) (\<lambda>_.
     bindE (guardE (ci_program_id_index ci \<noteq> 0) SanE_IndexOutOfBounds) (\<lambda>_.
     foldE (\<lambda>ai _. guardE (ai < account_bound) SanE_IndexOutOfBounds) (ci_accounts ci) ()))"

definition legacy_sanitize :: "legacy_message \<Rightarrow> (unit, sanitize_error) result" where
  "legacy_sanitize m =
     (let h = lm_header m; n = length (lm_account_keys m) in
      if num_required_signatures h + num_readonly_unsigned_accounts h > n then Err SanE_IndexOutOfBounds
      else if num_readonly_signed_accounts h \<ge> num_required_signatures h then Err SanE_IndexOutOfBounds
      else foldE (\<lambda>ci _. sanitize_instruction n n ci) (lm_instructions m) ())"

definition instruction_calls :: "compiled_instruction list \<Rightarrow> nat \<Rightarrow> bool" where
  "instruction_calls ixs key_index =
     (key_index < 256 \<and> (\<exists>ix \<in> set ixs. ci_program_id_index ix = key_index))"

definition instruction_passes :: "compiled_instruction list \<Rightarrow> nat \<Rightarrow> bool" where
  "instruction_passes ixs key_index = (key_index < 256 \<and> (\<exists>ix \<in> set ixs. key_index \<in> set (ci_accounts ix)))"

definition lm_is_upgradeable_loader_present :: "legacy_message \<Rightarrow> bool" where
  "lm_is_upgradeable_loader_present m = (bpf_loader_upgradeable_id \<in> set (lm_account_keys m))"

definition lm_is_writable :: "legacy_message \<Rightarrow> nat \<Rightarrow> bool" where
  "lm_is_writable m i =
     (let h = lm_header m;
          demote_program_id = (instruction_calls (lm_instructions m) i \<and> \<not> lm_is_upgradeable_loader_present m)
      in (i < (num_required_signatures h + 256 - num_readonly_signed_accounts h) mod 256 \<or>
          (i \<ge> num_required_signatures h \<and>
           i < wrapping_sub64 (length (lm_account_keys m)) (num_readonly_unsigned_accounts h))) \<and>
         (case slice_get (lm_account_keys m) i of
            Some key \<Rightarrow> \<not> (is_sysvar_id key \<or> key \<in> set BUILTIN_PROGRAMS_KEYS)
          | None \<Rightarrow> False) \<and>
         \<not> demote_program_id)"

definition lm_is_signer :: "legacy_message \<Rightarrow> nat \<Rightarrow> bool" where
  "lm_is_signer m i = (i < num_required_signatures (lm_header m))"

definition signer_keys :: "legacy_message \<Rightarrow> pubkey list" where
  "signer_keys m =
     take (min (length (lm_account_keys m)) (num_required_signatures (lm_header m))) (lm_account_keys m)"

text \<open>The quadratic search for a duplicate: is a key in the rest of the list?\<close>

fun lm_has_duplicates_from :: "pubkey list \<Rightarrow> bool" where
  "lm_has_duplicates_from [] = False"
| "lm_has_duplicates_from (k # ks) = (k \<in> set ks \<or> lm_has_duplicates_from ks)"

definition lm_has_duplicates :: "legacy_message \<Rightarrow> bool" where
  "lm_has_duplicates m = lm_has_duplicates_from (lm_account_keys m)"

section \<open>Messages with address table lookups\<close>

record message_address_table_lookup =
  atl_account_key :: pubkey
  atl_writable_indexes :: "nat list"
  atl_readonly_indexes :: "nat list"

record v0_message =
  vm_header :: message_header
  vm_account_keys :: "pubkey list"
  vm_recent_blockhash :: hash
  vm_instructions :: "compiled_instruction list"
  vm_address_table_lookups :: "message_address_table_lookup list"

definition lookup_keys_total :: "message_address_table_lookup list \<Rightarrow> (nat, sanitize_error) result" where
  "lookup_keys_total lookups =
     foldE (\<lambda>lookup total.
       let n = length (atl_writable_indexes lookup) + length (atl_readonly_indexes lookup)
       in if n = 0 then Err SanE_InvalidValue else Ok (saturating_add64 total n)) lookups 0"

definition v0_sanitize :: "bool \<Rightarrow> v0_message \<Rightarrow> (unit, sanitize_error) result" where
  "v0_sanitize reject_dynamic_program_ids m =
     (let h = vm_header m; num_static_account_keys = length (vm_account_keys m) in
      if saturating_add64 (num_required_signatures h) (num_readonly_unsigned_accounts h) > num_static_account_keys
      then Err SanE_IndexOutOfBounds
      else if num_readonly_signed_accounts h \<ge> num_required_signatures h then Err SanE_InvalidValue
      else
        bindE (lookup_keys_total (vm_address_table_lookups m)) (\<lambda>num_dynamic_account_keys.
        if num_static_account_keys = 0 then Err SanE_InvalidValue
        else
          let total_account_keys = saturating_add64 num_static_account_keys num_dynamic_account_keys in
          if total_account_keys > 256 then Err SanE_IndexOutOfBounds
          else
            let max_account_ix = total_account_keys - 1;
                max_program_id_ix =
                  (if reject_dynamic_program_ids then num_static_account_keys - 1 else max_account_ix)
            in foldE (\<lambda>ci _. sanitize_instruction (max_program_id_ix + 1) (max_account_ix + 1) ci)
                 (vm_instructions m) ()))"

definition vm_is_writable_index :: "v0_message \<Rightarrow> nat \<Rightarrow> nat \<Rightarrow> bool" where
  "vm_is_writable_index m num_writable_dynamic key_index =
     (let h = vm_header m; num_account_keys = length (vm_account_keys m);
          num_signed_accounts = num_required_signatures h
      in if key_index \<ge> num_account_keys then key_index - num_account_keys < num_writable_dynamic
         else if key_index \<ge> num_signed_accounts then
           key_index - num_signed_accounts <
             num_account_keys - num_signed_accounts - num_readonly_unsigned_accounts h
         else key_index < num_signed_accounts - num_readonly_signed_accounts h)"

definition vm_is_maybe_writable :: "v0_message \<Rightarrow> nat \<Rightarrow> bool" where
  "vm_is_maybe_writable m key_index =
     (vm_is_writable_index m
        (sum_list (map (\<lambda>lookup. length (atl_writable_indexes lookup)) (vm_address_table_lookups m))) key_index \<and>
      \<not> (case slice_get (vm_account_keys m) key_index of
           Some key \<Rightarrow> is_sysvar_id key \<or> key \<in> set BUILTIN_PROGRAMS_KEYS | None \<Rightarrow> False) \<and>
      \<not> (instruction_calls (vm_instructions m) key_index \<and>
         bpf_loader_upgradeable_id \<notin> set (vm_account_keys m)))"

datatype versioned_message = VM_Legacy legacy_message | VM_V0 v0_message

fun vmsg_sanitize :: "versioned_message \<Rightarrow> bool \<Rightarrow> (unit, sanitize_error) result" where
  "vmsg_sanitize (VM_Legacy m) require_static_program_ids = legacy_sanitize m"
| "vmsg_sanitize (VM_V0 m) require_static_program_ids = v0_sanitize require_static_program_ids m"

fun vmsg_is_maybe_writable :: "versioned_message \<Rightarrow> nat \<Rightarrow> bool" where
  "vmsg_is_maybe_writable (VM_Legacy m) i = lm_is_writable m i"
| "vmsg_is_maybe_writable (VM_V0 m) i = vm_is_maybe_writable m i"

section \<open>The keys of a loaded message\<close>

record loaded_addresses =
  la_writable :: "pubkey list"
  la_readonly :: "pubkey list"

definition la_from_iter :: "loaded_addresses list \<Rightarrow> loaded_addresses" where
  "la_from_iter xs =
     \<lparr>la_writable = concat (map la_writable xs), la_readonly = concat (map la_readonly xs)\<rparr>"

definition la_len :: "loaded_addresses \<Rightarrow> nat" where
  "la_len a = saturating_add64 (length (la_writable a)) (length (la_readonly a))"

record account_keys =
  ak_static_keys :: "pubkey list"
  ak_dynamic_keys :: "loaded_addresses option"

definition key_segment_iter :: "account_keys \<Rightarrow> pubkey list list" where
  "key_segment_iter a =
     (case ak_dynamic_keys a of
        Some d \<Rightarrow> [ak_static_keys a, la_writable d, la_readonly d]
      | None \<Rightarrow> [ak_static_keys a, [], []])"

fun segments_get :: "'a list list \<Rightarrow> nat \<Rightarrow> 'a option" where
  "segments_get [] index = None"
| "segments_get (key_segment # segments) index =
     (if index < length key_segment then Some (key_segment ! index)
      else segments_get segments (index - length key_segment))"

definition ak_get :: "account_keys \<Rightarrow> nat \<Rightarrow> pubkey option" where
  "ak_get a index = segments_get (key_segment_iter a) index"

definition ak_len :: "account_keys \<Rightarrow> nat" where
  "ak_len a = fold (\<lambda>seg len. saturating_add64 len (length seg)) (key_segment_iter a) 0"

definition ak_iter :: "account_keys \<Rightarrow> pubkey list" where
  "ak_iter a = concat (key_segment_iter a)"

definition account_index_map :: "pubkey list \<Rightarrow> (pubkey, nat) btree_map" where
  "account_index_map keys = fold (\<lambda>(i, k) m. bt_insert k (i mod 256) m) (List.enumerate 0 keys) []"

definition ak_compile_instructions ::
  "account_keys \<Rightarrow> instruction list \<Rightarrow> (compiled_instruction list, 'e) result" where
  "ak_compile_instructions a instructions =
     (let m = account_index_map (ak_iter a) in
      mapE (\<lambda>ix.
        bindE (mapE (\<lambda>account_meta. unwrap (bt_get m (am_pubkey account_meta))) (ix_accounts ix)) (\<lambda>accounts.
        bindE (unwrap (bt_get m (ix_program_id ix))) (\<lambda>program_id_index.
        Ok \<lparr>ci_program_id_index = program_id_index, ci_accounts = accounts, ci_data = ix_data ix\<rparr>)))
      instructions)"

record loaded_message =
  ldm_message :: v0_message
  ldm_loaded_addresses :: loaded_addresses

definition ldm_account_keys :: "loaded_message \<Rightarrow> account_keys" where
  "ldm_account_keys m =
     \<lparr>ak_static_keys = vm_account_keys (ldm_message m), ak_dynamic_keys = Some (ldm_loaded_addresses m)\<rparr>"

fun ldm_has_duplicates_from :: "pubkey set \<Rightarrow> pubkey list \<Rightarrow> bool" where
  "ldm_has_duplicates_from uniq [] = False"
| "ldm_has_duplicates_from uniq (k # ks) = (k \<in> uniq \<or> ldm_has_duplicates_from (insert k uniq) ks)"

definition ldm_has_duplicates :: "loaded_message \<Rightarrow> bool" where
  "ldm_has_duplicates m = ldm_has_duplicates_from {} (ak_iter (ldm_account_keys m))"

definition ldm_is_upgradeable_loader_present :: "loaded_message \<Rightarrow> bool" where
  "ldm_is_upgradeable_loader_present m = (bpf_loader_upgradeable_id \<in> set (ak_iter (ldm_account_keys m)))"

definition ldm_is_writable :: "loaded_message \<Rightarrow> nat \<Rightarrow> bool" where
  "ldm_is_writable m key_index =
     (vm_is_writable_index (ldm_message m) (length (la_writable (ldm_loaded_addresses m))) key_index \<and>
      (case ak_get (ldm_account_keys m) key_index of
         Some key \<Rightarrow>
           let demote_program_id = (instruction_calls (vm_instructions (ldm_message m)) key_index \<and>
                 \<not> ldm_is_upgradeable_loader_present m)
           in \<not> (is_sysvar_id key \<or> key \<in> set BUILTIN_PROGRAMS_KEYS \<or> demote_program_id)
       | None \<Rightarrow> False))"

section \<open>Sanitized messages\<close>

datatype sanitized_message = SM_Legacy legacy_message | SM_V0 loaded_message

definition sm_try_from_legacy :: "legacy_message \<Rightarrow> (sanitized_message, sanitize_error) result" where
  "sm_try_from_legacy m = bindE (legacy_sanitize m) (\<lambda>_. Ok (SM_Legacy m))"

fun sm_has_duplicates :: "sanitized_message \<Rightarrow> bool" where
  "sm_has_duplicates (SM_Legacy m) = lm_has_duplicates m"
| "sm_has_duplicates (SM_V0 m) = ldm_has_duplicates m"

fun sm_header :: "sanitized_message \<Rightarrow> message_header" where
  "sm_header (SM_Legacy m) = lm_header m"
| "sm_header (SM_V0 m) = vm_header (ldm_message m)"

fun sm_recent_blockhash :: "sanitized_message \<Rightarrow> hash" where
  "sm_recent_blockhash (SM_Legacy m) = lm_recent_blockhash m"
| "sm_recent_blockhash (SM_V0 m) = vm_recent_blockhash (ldm_message m)"

fun sm_instructions :: "sanitized_message \<Rightarrow> compiled_instruction list" where
  "sm_instructions (SM_Legacy m) = lm_instructions m"
| "sm_instructions (SM_V0 m) = vm_instructions (ldm_message m)"

fun sm_account_keys :: "sanitized_message \<Rightarrow> account_keys" where
  "sm_account_keys (SM_Legacy m) = \<lparr>ak_static_keys = lm_account_keys m, ak_dynamic_keys = None\<rparr>"
| "sm_account_keys (SM_V0 m) = ldm_account_keys m"

definition sm_fee_payer :: "sanitized_message \<Rightarrow> (pubkey, 'e) result" where
  "sm_fee_payer m = unwrap (ak_get (sm_account_keys m) 0)"

definition program_instructions_iter ::
  "sanitized_message \<Rightarrow> ((pubkey \<times> compiled_instruction) list, 'e) result" where
  "program_instructions_iter m =
     mapE (\<lambda>ix. bindE (unwrap (ak_get (sm_account_keys m) (ci_program_id_index ix))) (\<lambda>k. Ok (k, ix)))
       (sm_instructions m)"

definition sm_is_invoked :: "sanitized_message \<Rightarrow> nat \<Rightarrow> bool" where
  "sm_is_invoked m key_index = instruction_calls (sm_instructions m) key_index"

definition sm_is_non_loader_key :: "sanitized_message \<Rightarrow> nat \<Rightarrow> bool" where
  "sm_is_non_loader_key m key_index =
     (\<not> sm_is_invoked m key_index \<or> instruction_passes (sm_instructions m) key_index)"

fun sm_is_writable :: "sanitized_message \<Rightarrow> nat \<Rightarrow> bool" where
  "sm_is_writable (SM_Legacy m) index = lm_is_writable m index"
| "sm_is_writable (SM_V0 m) index = ldm_is_writable m index"

definition sm_is_signer :: "sanitized_message \<Rightarrow> nat \<Rightarrow> bool" where
  "sm_is_signer m index = (index < num_required_signatures (sm_header m))"

definition sm_num_readonly_accounts :: "sanitized_message \<Rightarrow> nat" where
  "sm_num_readonly_accounts m =
     (let loaded = (case m of SM_V0 lm \<Rightarrow> length (la_readonly (ldm_loaded_addresses lm)) | SM_Legacy _ \<Rightarrow> 0)
      in saturating_add64 (saturating_add64 loaded (num_readonly_signed_accounts (sm_header m)))
           (num_readonly_unsigned_accounts (sm_header m)))"

definition decompile_instructions :: "sanitized_message \<Rightarrow> (instruction list, 'e) result" where
  "decompile_instructions m =
     bindE (program_instructions_iter m) (\<lambda>ixs.
     mapE (\<lambda>(program_id, ix).
       bindE
         (mapE (\<lambda>account_index.
            bindE (unwrap (ak_get (sm_account_keys m) account_index)) (\<lambda>k.
            Ok \<lparr>am_pubkey = k, am_is_signer = sm_is_signer m account_index,
                am_is_writable = sm_is_writable m account_index\<rparr>)) (ci_accounts ix))
         (\<lambda>accounts. Ok \<lparr>ix_program_id = program_id, ix_accounts = accounts, ix_data = ci_data ix\<rparr>)) ixs)"

definition get_ix_signers :: "sanitized_message \<Rightarrow> nat \<Rightarrow> pubkey list" where
  "get_ix_signers m ix_index =
     (case slice_get (sm_instructions m) ix_index of
        None \<Rightarrow> []
      | Some ix \<Rightarrow> List.map_filter (ak_get (sm_account_keys m)) (filter (sm_is_signer m) (ci_accounts ix)))"

text \<open>The decoder of instruction data is a parameter, as in the system program.\<close>

definition sm_get_durable_nonce ::
  "(bytes \<Rightarrow> system_instruction option) \<Rightarrow> sanitized_message \<Rightarrow> bool \<Rightarrow> pubkey option" where
  "sm_get_durable_nonce decode m must_be_writable =
     (case slice_get (sm_instructions m) 0 of
        None \<Rightarrow> None
      | Some ix \<Rightarrow>
          if ak_get (sm_account_keys m) (ci_program_id_index ix) = Some system_program_id \<and>
             decode (ci_data ix) = Some AdvanceNonceAccount
          then
            (case slice_get (ci_accounts ix) 0 of
               None \<Rightarrow> None
             | Some idx \<Rightarrow>
                 if must_be_writable \<and> \<not> sm_is_writable m idx then None
                 else ak_get (sm_account_keys m) idx)
          else None)"

end
