(* ===== verification/Account_Locks.thy ===== *)
theory Account_Locks
  imports Messages
begin

text \<open>
  Account locks (\<^verbatim>\<open>runtime/src/accounts.rs\<close>): before a batch of transactions runs, each of them
  locks the accounts it writes and reads, and the accounts that the MEV extension watches
  (\<^verbatim>\<open>sdk/src/transaction/sanitized.rs\<close>). The lock table counts readers and keeps the set of
  written keys; the specification is the list of the requests that hold locks.

  A \<^verbatim>\<open>HashSet\<close> of keys is a list without repetitions. Its iteration order is not specified; the
  specification lemmas are in terms of the sets, so it does not matter.
\<close>

section \<open>Transactions\<close>

datatype (plugins only: code size) transaction_error =
    AccountInUse | AccountLoadedTwice | AccountNotFound | ProgramAccountNotFound
  | InsufficientFundsForFee | InvalidAccountForFee | AlreadyProcessed | BlockhashNotFound
  | TE_InstructionError nat instruction_error | CallChainTooDeep | MissingSignatureForFee
  | InvalidAccountIndex | SignatureFailure | InvalidProgramForExecution | SanitizeFailure
  | ClusterMaintenance | TE_AccountBorrowOutstanding | WouldExceedMaxBlockCostLimit
  | UnsupportedVersion | InvalidWritableAccount | WouldExceedMaxAccountCostLimit
  | WouldExceedAccountDataBlockLimit | TooManyAccountLocks | AddressLookupTableNotFound
  | InvalidAddressLookupTableOwner | InvalidAddressLookupTableData
  | InvalidAddressLookupTableIndex | InvalidRentPayingAccount | WouldExceedMaxVoteCostLimit
  | WouldExceedAccountDataTotalLimit | DuplicateInstruction nat | InsufficientFundsForRent nat

record mev_pool_keys =
  mpk_pool :: pubkey
  mpk_source :: "pubkey option"
  mpk_destination :: "pubkey option"
  mpk_token_a :: pubkey
  mpk_token_b :: pubkey
  mpk_pool_mint :: pubkey
  mpk_pool_fee :: pubkey
  mpk_pool_authority :: pubkey

record mev_keys =
  mk_pool_keys :: "mev_pool_keys list"
  mk_token_program :: pubkey
  mk_user_authority :: "pubkey option"

text \<open>The signatures and the hash of the message play no role for the locks.\<close>

record sanitized_transaction =
  stx_message :: sanitized_message
  stx_message_hash :: hash
  stx_is_simple_vote_tx :: bool
  stx_signatures :: "bytes list"
  stx_mev_keys :: "mev_keys option"

record transaction_account_locks =
  tal_readonly :: "pubkey list"
  tal_writable :: "pubkey list"
  tal_readonly_mev :: "mev_keys option"

definition MAX_TX_ACCOUNT_LOCKS :: usize where "MAX_TX_ACCOUNT_LOCKS = 128"

fun readonly_of_pool :: "mev_pool_keys \<Rightarrow> pubkey list \<Rightarrow> pubkey list" where
  "readonly_of_pool p acc =
     (let acc = List.insert (mpk_pool_authority p) (List.insert (mpk_pool p) acc) in
      if mpk_source p \<noteq> None \<and> mpk_destination p \<noteq> None then acc
      else List.insert (mpk_pool_fee p) (List.insert (mpk_pool_mint p)
             (List.insert (mpk_token_b p) (List.insert (mpk_token_a p) acc))))"

definition get_readonly_accounts :: "mev_keys \<Rightarrow> pubkey list \<Rightarrow> pubkey list" where
  "get_readonly_accounts mk readonly_accounts =
     (let acc = fold readonly_of_pool (mk_pool_keys mk) readonly_accounts;
          acc = (case mk_user_authority mk of Some a \<Rightarrow> List.insert a acc | None \<Rightarrow> acc)
      in List.insert (mk_token_program mk) acc)"

fun written_of_pool :: "mev_pool_keys \<Rightarrow> pubkey list \<Rightarrow> pubkey list" where
  "written_of_pool p acc =
     (case (mpk_source p, mpk_destination p) of
        (Some source, Some destination) \<Rightarrow>
          List.insert (mpk_pool_fee p) (List.insert (mpk_pool_mint p) (List.insert (mpk_token_b p)
            (List.insert (mpk_token_a p) (List.insert destination (List.insert source acc)))))
      | _ \<Rightarrow> acc)"

definition get_write_accounts :: "mev_keys \<Rightarrow> pubkey list \<Rightarrow> pubkey list" where
  "get_write_accounts mk write_accounts = fold written_of_pool (mk_pool_keys mk) write_accounts"

definition get_account_locks_unchecked :: "sanitized_transaction \<Rightarrow> transaction_account_locks" where
  "get_account_locks_unchecked tx =
     (let message = stx_message tx;
          keys = List.enumerate 0 (ak_iter (sm_account_keys message))
      in \<lparr>tal_readonly = map snd (filter (\<lambda>(i, _). \<not> sm_is_writable message i) keys),
          tal_writable = map snd (filter (\<lambda>(i, _). sm_is_writable message i) keys),
          tal_readonly_mev = stx_mev_keys tx\<rparr>)"

definition get_account_locks ::
  "sanitized_transaction \<Rightarrow> usize \<Rightarrow> (transaction_account_locks, transaction_error) result" where
  "get_account_locks tx tx_account_lock_limit =
     (if sm_has_duplicates (stx_message tx) then Err AccountLoadedTwice
      else if ak_len (sm_account_keys (stx_message tx)) > tx_account_lock_limit then Err TooManyAccountLocks
      else Ok (get_account_locks_unchecked tx))"

section \<open>The lock table\<close>

record account_locks =
  write_locks :: "pubkey set"
  readonly_locks :: "pubkey \<rightharpoonup> u64"

definition default_account_locks :: account_locks where
  "default_account_locks = \<lparr>write_locks = {}, readonly_locks = Map.empty\<rparr>"

definition is_locked_readonly :: "account_locks \<Rightarrow> pubkey \<Rightarrow> bool" where
  "is_locked_readonly L key = (case readonly_locks L key of None \<Rightarrow> False | Some count \<Rightarrow> count > 0)"

definition is_locked_write :: "account_locks \<Rightarrow> pubkey \<Rightarrow> bool" where
  "is_locked_write L key = (key \<in> write_locks L)"

definition insert_new_readonly :: "pubkey \<Rightarrow> account_locks \<Rightarrow> (account_locks, 'e) result" where
  "insert_new_readonly key L =
     bindE (assertE (readonly_locks L key = None)) (\<lambda>_.
     Ok (L\<lparr>readonly_locks := (readonly_locks L)(key \<mapsto> 1)\<rparr>))"

definition lock_readonly :: "pubkey \<Rightarrow> account_locks \<Rightarrow> bool \<times> account_locks" where
  "lock_readonly key L =
     (case readonly_locks L key of
        None \<Rightarrow> (False, L)
      | Some count \<Rightarrow> (True, L\<lparr>readonly_locks := (readonly_locks L)(key \<mapsto> wrap64 (count + 1))\<rparr>))"

definition unlock_readonly :: "pubkey \<Rightarrow> account_locks \<Rightarrow> account_locks" where
  "unlock_readonly key L =
     (case readonly_locks L key of
        None \<Rightarrow> L
      | Some count \<Rightarrow>
          let count = wrapping_sub64 count 1 in
          L\<lparr>readonly_locks := (readonly_locks L)(key := if count = 0 then None else Some count)\<rparr>)"

definition unlock_write :: "pubkey \<Rightarrow> account_locks \<Rightarrow> account_locks" where
  "unlock_write key L = L\<lparr>write_locks := write_locks L - {key}\<rparr>"

definition get_readable_and_writable_locks_vec ::
  "pubkey list \<Rightarrow> pubkey list \<Rightarrow> mev_keys option \<Rightarrow> pubkey list \<times> pubkey list" where
  "get_readable_and_writable_locks_vec writable_keys readonly_keys mev =
     (case mev of
        Some mk \<Rightarrow>
          let readable_set = get_readonly_accounts mk (fold List.insert readonly_keys []);
              writable_set = get_write_accounts mk (fold List.insert writable_keys [])
          in (filter (\<lambda>k. k \<notin> set writable_set) readable_set, writable_set)
      | None \<Rightarrow> (readonly_keys, writable_keys))"

definition lock_account ::
  "pubkey list \<Rightarrow> pubkey list \<Rightarrow> mev_keys option \<Rightarrow> account_locks \<Rightarrow>
   (account_locks, transaction_error) result" where
  "lock_account writable_keys readonly_keys mev L =
     (let (all_read_only_keys, all_writable_keys) =
            get_readable_and_writable_locks_vec writable_keys readonly_keys mev
      in bindE (foldE (\<lambda>k _. guardE (\<not> (is_locked_write L k \<or> is_locked_readonly L k)) AccountInUse)
                  all_writable_keys ()) (\<lambda>_.
         bindE (foldE (\<lambda>k _. guardE (\<not> is_locked_write L k) AccountInUse) all_read_only_keys ()) (\<lambda>_.
         foldE (\<lambda>k L. case lock_readonly k L of (True, L') \<Rightarrow> Ok L' | (False, L') \<Rightarrow> insert_new_readonly k L')
           all_read_only_keys
           (fold (\<lambda>k L. L\<lparr>write_locks := insert k (write_locks L)\<rparr>) all_writable_keys L))))"

definition unlock_account ::
  "pubkey list \<Rightarrow> pubkey list \<Rightarrow> mev_keys option \<Rightarrow> account_locks \<Rightarrow> account_locks" where
  "unlock_account writable_keys readonly_keys mev L =
     (let (all_read_only_keys, all_writable_keys) =
            get_readable_and_writable_locks_vec writable_keys readonly_keys mev
      in fold unlock_readonly all_read_only_keys (fold unlock_write all_writable_keys L))"

text \<open>
  A batch: each request is tried in turn, and a refused one leaves the table as it was. The result
  is the list of outcomes and the table.
\<close>

fun lock_accounts_inner ::
  "(transaction_account_locks, transaction_error) result list \<Rightarrow> account_locks \<Rightarrow>
   (unit, transaction_error) result list \<times> account_locks" where
  "lock_accounts_inner [] L = ([], L)"
| "lock_accounts_inner (r # rs) L =
     (let (res, L1) =
            (case r of
               Inr tal \<Rightarrow>
                 (case lock_account (tal_writable tal) (tal_readonly tal) (tal_readonly_mev tal) L of
                    Inr L' \<Rightarrow> (Ok (), L')
                  | Inl e \<Rightarrow> (Inl e, L))
             | Inl e \<Rightarrow> (Inl e, L));
          (results, L2) = lock_accounts_inner rs L1
      in (res # results, L2))"

definition lock_accounts ::
  "sanitized_transaction list \<Rightarrow> usize \<Rightarrow> account_locks \<Rightarrow>
   (unit, transaction_error) result list \<times> account_locks" where
  "lock_accounts txs limit L = lock_accounts_inner (map (\<lambda>tx. get_account_locks tx limit) txs) L"

definition lock_accounts_with_results ::
  "sanitized_transaction list \<Rightarrow> (unit, transaction_error) result list \<Rightarrow> usize \<Rightarrow> account_locks \<Rightarrow>
   (unit, transaction_error) result list \<times> account_locks" where
  "lock_accounts_with_results txs results limit L =
     lock_accounts_inner
       (map (\<lambda>(tx, result). case result of Inr _ \<Rightarrow> get_account_locks tx limit | Inl e \<Rightarrow> Inl e) (zip txs results)) L"

text \<open>The outcomes with which a transaction never got its locks.\<close>

fun not_locked :: "(unit, transaction_error) result \<Rightarrow> bool" where
  "not_locked (Inl (Raise e)) =
     (e = AccountLoadedTwice \<or> e = AccountInUse \<or> e = SanitizeFailure \<or> e = TooManyAccountLocks \<or>
      e = WouldExceedMaxBlockCostLimit \<or> e = WouldExceedMaxVoteCostLimit \<or>
      e = WouldExceedMaxAccountCostLimit \<or> e = WouldExceedAccountDataBlockLimit \<or>
      e = WouldExceedAccountDataTotalLimit)"
| "not_locked _ = False"

definition unlock_accounts ::
  "sanitized_transaction list \<Rightarrow> (unit, transaction_error) result list \<Rightarrow> account_locks \<Rightarrow> account_locks" where
  "unlock_accounts txs results L =
     (let keys = map (\<lambda>(tx, _). get_account_locks_unchecked tx)
            (filter (\<lambda>(_, res). \<not> not_locked res) (zip txs results))
      in fold (\<lambda>k. unlock_account (tal_writable k) (tal_readonly k) (tal_readonly_mev k)) keys L)"

section \<open>The abstract table\<close>

text \<open>A request: the keys to write and to read, after the MEV accounts were added.\<close>

type_synonym lock_request = "pubkey list \<times> pubkey list"

definition request_of :: "sanitized_transaction \<Rightarrow> lock_request" where
  "request_of tx =
     (let k = get_account_locks_unchecked tx;
          (r, w) = get_readable_and_writable_locks_vec (tal_writable k) (tal_readonly k) (tal_readonly_mev k)
      in (w, r))"

definition conflict :: "lock_request \<Rightarrow> lock_request \<Rightarrow> bool" where
  "conflict a b \<longleftrightarrow>
     set (fst a) \<inter> (set (fst b) \<union> set (snd b)) \<noteq> {} \<or> set (snd a) \<inter> set (fst b) \<noteq> {}"

definition reads :: "lock_request list \<Rightarrow> pubkey \<Rightarrow> nat" where
  "reads held k = sum_list (map (\<lambda>r. count_list (snd r) k) held)"

definition represents :: "account_locks \<Rightarrow> lock_request list \<Rightarrow> bool" where
  "represents L held \<longleftrightarrow>
     write_locks L = (\<Union>r \<in> set held. set (fst r)) \<and>
     readonly_locks L = (\<lambda>k. if reads held k = 0 then None else Some (reads held k))"

fun exclusive :: "lock_request list \<Rightarrow> bool" where
  "exclusive [] = True"
| "exclusive (r # held) = ((\<forall>h \<in> set held. \<not> conflict r h) \<and> exclusive held)"

text \<open>No counter reaches the end of \<^verbatim>\<open>u64\<close>.\<close>

definition reads_fit :: "lock_request list \<Rightarrow> bool" where
  "reads_fit held \<longleftrightarrow> sum_list (map (\<lambda>r. length (snd r)) held) < 2 ^ 64"

lemma conflict_sym: "conflict a b \<longleftrightarrow> conflict b a"
  by (auto simp: conflict_def)

lemma reads_Cons [simp]: "reads (r # held) k = count_list (snd r) k + reads held k"
  by (simp add: reads_def)

lemma reads_fit_bound: "reads_fit held \<Longrightarrow> reads held k < 2 ^ 64"
proof -
  have "reads held k \<le> sum_list (map (\<lambda>r. length (snd r)) held)"
    unfolding reads_def by (intro sum_list_mono) (simp add: count_le_length)
  then show "reads_fit held \<Longrightarrow> reads held k < 2 ^ 64" by (simp add: reads_fit_def)
qed

lemma represents_unique: "represents L held \<Longrightarrow> represents L' held \<Longrightarrow> L = L'"
  by (simp add: represents_def)

lemma reads_pos: "0 < reads held k \<longleftrightarrow> (\<exists>r \<in> set held. k \<in> set (snd r))"
  by (induction held) (auto simp: reads_def count_list_0_iff)

lemma represents_locked:
  assumes "represents L held"
  shows "is_locked_write L k \<longleftrightarrow> (\<exists>r \<in> set held. k \<in> set (fst r))"
    "is_locked_readonly L k \<longleftrightarrow> (\<exists>r \<in> set held. k \<in> set (snd r))"
  using assms reads_pos [of held k]
  by (auto simp: represents_def is_locked_write_def is_locked_readonly_def)

end
