(* ===== verification/Message_Properties.thy ===== *)
theory Message_Properties
  imports Messages
begin

text \<open>
  Properties of messages: compiling instructions of at most 256 keys and decompiling the message gives the
  instructions back with the privileges that the message grants, when compilation succeeds, when a compiled
  message passes the checks of the runtime, and that the indices of a sanitized message resolve.
\<close>

section \<open>What the instructions ask for\<close>

definition asks_signer :: "account_meta list \<Rightarrow> pubkey \<Rightarrow> bool" where
  "asks_signer ams k \<longleftrightarrow> (\<exists>am \<in> set ams. am_pubkey am = k \<and> am_is_signer am)"

definition asks_writable :: "account_meta list \<Rightarrow> pubkey \<Rightarrow> bool" where
  "asks_writable ams k \<longleftrightarrow> (\<exists>am \<in> set ams. am_pubkey am = k \<and> am_is_writable am)"

definition all_metas :: "instruction list \<Rightarrow> account_meta list" where
  "all_metas ixs = concat (map ix_accounts ixs)"

definition mentioned :: "instruction list \<Rightarrow> pubkey set" where
  "mentioned ixs = ix_program_id ` set ixs \<union> am_pubkey ` set (all_metas ixs)"

definition asked_meta :: "account_meta list \<Rightarrow> pubkey \<Rightarrow> compiled_key_meta \<Rightarrow> compiled_key_meta" where
  "asked_meta ams k meta =
     \<lparr>ckm_is_signer = (ckm_is_signer meta \<or> asks_signer ams k),
      ckm_is_writable = (ckm_is_writable meta \<or> asks_writable ams k)\<rparr>"

section \<open>The map of keys\<close>

lemma asked_meta_Nil [simp]: "asked_meta [] k meta = meta"
  by (simp add: asked_meta_def asks_signer_def asks_writable_def)

lemma asked_meta_append: "asked_meta (xs @ ys) k meta = asked_meta ys k (asked_meta xs k meta)"
  by (auto simp: asked_meta_def asks_signer_def asks_writable_def)

lemma meta_of_insert: "bt_wf m \<Longrightarrow> meta_of (bt_insert k v m) k' = (if k' = k then v else meta_of m k')"
  by (simp add: meta_of_def bt_get_insert)

lemma add_program_id_spec:
  assumes "bt_wf m"
  shows "bt_wf (add_program_id p m)" "meta_of (add_program_id p m) k = meta_of m k"
    "dom (bt_get (add_program_id p m)) = insert p (dom (bt_get m))"
  using assms by (simp_all add: add_program_id_def bt_wf_insert meta_of_insert bt_get_insert)

lemma add_account_meta_spec:
  assumes "bt_wf m"
  shows "bt_wf (add_account_meta am m)" "meta_of (add_account_meta am m) k = asked_meta [am] k (meta_of m k)"
    "dom (bt_get (add_account_meta am m)) = insert (am_pubkey am) (dom (bt_get m))"
  using assms
  by (auto simp: add_account_meta_def bt_wf_insert meta_of_insert bt_get_insert Let_def asked_meta_def
      asks_signer_def asks_writable_def)

lemma fold_add_account_meta_spec:
  assumes "bt_wf m"
  shows "bt_wf (fold add_account_meta ams m) \<and>
    (\<forall>k. meta_of (fold add_account_meta ams m) k = asked_meta ams k (meta_of m k)) \<and>
    dom (bt_get (fold add_account_meta ams m)) = am_pubkey ` set ams \<union> dom (bt_get m)"
  using assms
proof (induction ams arbitrary: m)
  case Nil
  then show ?case by simp
next
  case (Cons am ams)
  note spec = add_account_meta_spec [OF Cons.prems, of am]
  with Cons.IH [OF spec(1)] show ?case
    using asked_meta_append [of "[am]" ams] by auto
qed

lemma fold_instructions_spec:
  fixes ixs :: "instruction list"
  defines "step \<equiv> \<lambda>ix m. fold add_account_meta (ix_accounts ix) (add_program_id (ix_program_id ix) m)"
  assumes "bt_wf m"
  shows "bt_wf (fold step ixs m) \<and>
    (\<forall>k. meta_of (fold step ixs m) k = asked_meta (all_metas ixs) k (meta_of m k)) \<and>
    dom (bt_get (fold step ixs m)) = mentioned ixs \<union> dom (bt_get m)"
  using assms(2)
proof (induction ixs arbitrary: m)
  case Nil
  then show ?case by (simp add: all_metas_def mentioned_def)
next
  case (Cons ix ixs)
  note p = add_program_id_spec [OF Cons.prems, of "ix_program_id ix"]
  note a = fold_add_account_meta_spec [OF p(1), of "ix_accounts ix"]
  have step: "bt_wf (step ix m)" "\<And>k. meta_of (step ix m) k = asked_meta (ix_accounts ix) k (meta_of m k)"
    "dom (bt_get (step ix m)) = am_pubkey ` set (ix_accounts ix) \<union> insert (ix_program_id ix) (dom (bt_get m))"
    using a p by (auto simp: step_def)
  with Cons.IH [OF step(1)] show ?case
    by (auto simp: all_metas_def mentioned_def asked_meta_append)
qed

lemma key_meta_map_spec:
  shows "bt_wf (key_meta_map_of ixs)"
    and "bt_get (key_meta_map_of ixs) k = Some meta \<longleftrightarrow> k \<in> mentioned ixs \<and>
      meta = \<lparr>ckm_is_signer = asks_signer (all_metas ixs) k, ckm_is_writable = asks_writable (all_metas ixs) k\<rparr>"
proof -
  have wf: "bt_wf ([] :: key_meta_map)" by (simp add: bt_wf_def)
  note spec = fold_instructions_spec [OF wf, of ixs, folded key_meta_map_of_def]
  then show "bt_wf (key_meta_map_of ixs)" by blast
  have dom: "k \<in> dom (bt_get (key_meta_map_of ixs)) \<longleftrightarrow> k \<in> mentioned ixs"
    using spec by (simp add: dom_def bt_get_def)
  have meta: "meta_of (key_meta_map_of ixs) k =
      \<lparr>ckm_is_signer = asks_signer (all_metas ixs) k, ckm_is_writable = asks_writable (all_metas ixs) k\<rparr>"
    using spec by (simp add: asked_meta_def meta_of_def bt_get_def)
  show "bt_get (key_meta_map_of ixs) k = Some meta \<longleftrightarrow> k \<in> mentioned ixs \<and>
      meta = \<lparr>ckm_is_signer = asks_signer (all_metas ixs) k, ckm_is_writable = asks_writable (all_metas ixs) k\<rparr>"
    using dom meta by (auto simp: meta_of_def dom_def split: option.splits)
qed

section \<open>The order of the keys\<close>

definition paid_map :: "instruction list \<Rightarrow> pubkey option \<Rightarrow> key_meta_map" where
  "paid_map ixs payer =
     (case payer of Some p \<Rightarrow> bt_remove p (key_meta_map_of ixs) | None \<Rightarrow> key_meta_map_of ixs)"

lemma paid_map_spec:
  shows "bt_wf (paid_map ixs payer)"
    and "bt_get (paid_map ixs payer) k = Some meta \<longleftrightarrow> k \<in> mentioned ixs \<and> payer \<noteq> Some k \<and>
      meta = \<lparr>ckm_is_signer = asks_signer (all_metas ixs) k, ckm_is_writable = asks_writable (all_metas ixs) k\<rparr>"
  using key_meta_map_spec [of ixs]
  by (auto simp: paid_map_def bt_remove_def bt_wf_filter bt_get_remove [unfolded bt_remove_def]
      split: option.splits if_splits)

lemma set_keys_where:
  "bt_wf m \<Longrightarrow> k \<in> set (keys_where P m) \<longleftrightarrow> (\<exists>meta. bt_get m k = Some meta \<and> P meta)"
  by (force simp: keys_where_def bt_get_iff)

lemma distinct_keys_where: "bt_wf m \<Longrightarrow> distinct (keys_where P m)"
  using bt_wf_distinct [of m] by (simp add: keys_where_def distinct_map_filter)

text \<open>The four groups of keys, with the privileges that membership stands for.\<close>

definition granted_signer :: "instruction list \<Rightarrow> pubkey option \<Rightarrow> pubkey \<Rightarrow> bool" where
  "granted_signer ixs payer k \<longleftrightarrow> payer = Some k \<or> asks_signer (all_metas ixs) k"

definition granted_writable :: "instruction list \<Rightarrow> pubkey option \<Rightarrow> pubkey \<Rightarrow> bool" where
  "granted_writable ixs payer k \<longleftrightarrow> payer = Some k \<or> asks_writable (all_metas ixs) k"

definition message_keys :: "instruction list \<Rightarrow> pubkey option \<Rightarrow> pubkey set" where
  "message_keys ixs payer = mentioned ixs \<union> set_option payer"

lemma compile_keys_sets:
  fixes ixs payer
  defines "ck \<equiv> compile_keys ixs payer"
  shows "k \<in> set (writable_signer_keys ck) \<longleftrightarrow>
      k \<in> message_keys ixs payer \<and> granted_signer ixs payer k \<and> granted_writable ixs payer k"
    "k \<in> set (readonly_signer_keys ck) \<longleftrightarrow>
      k \<in> message_keys ixs payer \<and> granted_signer ixs payer k \<and> \<not> granted_writable ixs payer k"
    "k \<in> set (writable_non_signer_keys ck) \<longleftrightarrow>
      k \<in> message_keys ixs payer \<and> \<not> granted_signer ixs payer k \<and> granted_writable ixs payer k"
    "k \<in> set (readonly_non_signer_keys ck) \<longleftrightarrow>
      k \<in> message_keys ixs payer \<and> \<not> granted_signer ixs payer k \<and> \<not> granted_writable ixs payer k"
  using paid_map_spec [of ixs payer] unfolding ck_def compile_keys_def Let_def paid_map_def [symmetric]
  by (auto simp: set_keys_where message_keys_def granted_signer_def granted_writable_def split: option.splits)

lemma compile_keys_distinct:
  fixes ixs payer
  defines "ck \<equiv> compile_keys ixs payer"
  shows "distinct (writable_signer_keys ck @ readonly_signer_keys ck @ writable_non_signer_keys ck @
    readonly_non_signer_keys ck)"
proof -
  note spec = paid_map_spec [of ixs payer]
  have "distinct (writable_signer_keys ck)"
    using spec unfolding ck_def compile_keys_def Let_def paid_map_def [symmetric]
    by (auto simp: distinct_keys_where set_keys_where split: option.splits)
  moreover have "distinct (readonly_signer_keys ck)" "distinct (writable_non_signer_keys ck)"
    "distinct (readonly_non_signer_keys ck)"
    using spec unfolding ck_def compile_keys_def Let_def paid_map_def [symmetric]
    by (simp_all add: distinct_keys_where)
  ultimately show ?thesis
    using compile_keys_sets [of _ ixs payer] unfolding ck_def by auto
qed

section \<open>Indices\<close>

lemma position_distinct:
  "distinct xs \<Longrightarrow> position xs x = Some i \<longleftrightarrow> i < length xs \<and> xs ! i = x"
proof (induction xs arbitrary: i)
  case (Cons y ys)
  have "j < length ys \<Longrightarrow> ys ! j \<noteq> y" for j using Cons.prems nth_mem [of j ys] by auto
  then show ?case using Cons by (cases i) auto
qed simp

lemma position_mem: "x \<in> set xs \<Longrightarrow> \<exists>i. position xs x = Some i"
  by (induction xs) auto

lemma nth_in_prefix:
  assumes "distinct (as @ bs)" "i < length (as @ bs)"
  shows "i < length as \<longleftrightarrow> (as @ bs) ! i \<in> set as" "i < length as \<longleftrightarrow> (as @ bs) ! i \<notin> set bs"
  using assms by (auto simp: nth_append dest: nth_mem)

text \<open>
  A compiled message in terms of the four groups: a key of a group has an index in the group's
  range, which is what the header counts.
\<close>

lemma new_with_blockhash_Ok:
  assumes "(new_with_blockhash ixs payer bh :: (_, 'e) result) = Ok msg"
  defines "ck \<equiv> compile_keys ixs payer"
  shows "lm_account_keys msg = writable_signer_keys ck @ readonly_signer_keys ck @
      writable_non_signer_keys ck @ readonly_non_signer_keys ck"
    and "num_required_signatures (lm_header msg) =
      length (writable_signer_keys ck) + length (readonly_signer_keys ck)"
    and "num_readonly_signed_accounts (lm_header msg) = length (readonly_signer_keys ck)"
    and "num_readonly_unsigned_accounts (lm_header msg) = length (readonly_non_signer_keys ck)"
    and "(compile_instructions ixs (lm_account_keys msg) :: (_, 'e) result) = Ok (lm_instructions msg)"
    and "num_required_signatures (lm_header msg) < 256" "num_readonly_unsigned_accounts (lm_header msg) < 256"
  using assms
  by (auto simp: new_with_blockhash_def try_into_message_components_def u8_try_from_def result_simps
      new_with_compiled_instructions_def bind_eq_Some_conv split: if_splits prod.splits)

lemma compiled_keys_facts:
  assumes "new_with_blockhash ixs payer bh = Ok msg"
  shows "distinct (lm_account_keys msg)" "set (lm_account_keys msg) = message_keys ixs payer"
  using new_with_blockhash_Ok(1) [OF assms] compile_keys_distinct [of ixs payer]
    compile_keys_sets [of _ ixs payer] by auto

lemma compiled_signer:
  assumes "new_with_blockhash ixs payer bh = Ok msg" "i < length (lm_account_keys msg)"
  shows "lm_is_signer msg i \<longleftrightarrow> granted_signer ixs payer (lm_account_keys msg ! i)"
proof -
  let ?ck = "compile_keys ixs payer"
  note eq = new_with_blockhash_Ok [OF assms(1)]
  have d: "distinct ((writable_signer_keys ?ck @ readonly_signer_keys ?ck) @
      (writable_non_signer_keys ?ck @ readonly_non_signer_keys ?ck))"
    using compile_keys_distinct [of ixs payer] by simp
  have "lm_is_signer msg i \<longleftrightarrow> lm_account_keys msg ! i \<in>
      set (writable_signer_keys ?ck @ readonly_signer_keys ?ck)"
    using nth_in_prefix(1) [OF d] assms(2) eq(1,2) by (simp add: lm_is_signer_def)
  also have "\<dots> \<longleftrightarrow> granted_signer ixs payer (lm_account_keys msg ! i)"
    using compile_keys_sets [of _ ixs payer] compiled_keys_facts(2) [OF assms(1)] nth_mem [OF assms(2)]
    by auto
  finally show ?thesis .
qed

text \<open>The writable ranges of the header, before the reserved keys are demoted.\<close>

lemma compiled_writable:
  assumes "new_with_blockhash ixs payer bh = Ok msg" "i < length (lm_account_keys msg)"
    "length (lm_account_keys msg) \<le> 256"
  defines "h \<equiv> lm_header msg"
  shows "(i < (num_required_signatures h + 256 - num_readonly_signed_accounts h) mod 256 \<or>
      (i \<ge> num_required_signatures h \<and>
       i < wrapping_sub64 (length (lm_account_keys msg)) (num_readonly_unsigned_accounts h))) \<longleftrightarrow>
    granted_writable ixs payer (lm_account_keys msg ! i)"
proof -
  let ?ck = "compile_keys ixs payer" and ?k = "lm_account_keys msg ! i"
  let ?a = "length (writable_signer_keys ?ck)" and ?b = "length (readonly_signer_keys ?ck)"
    and ?c = "length (writable_non_signer_keys ?ck)" and ?d = "length (readonly_non_signer_keys ?ck)"
  note eq = new_with_blockhash_Ok [OF assms(1), folded h_def]
  note sets = compile_keys_sets [of _ ixs payer]
  have len: "length (lm_account_keys msg) = ?a + ?b + ?c + ?d" using eq(1) by simp
  have d1: "distinct (writable_signer_keys ?ck @ (readonly_signer_keys ?ck @
      writable_non_signer_keys ?ck @ readonly_non_signer_keys ?ck))"
    and d2: "distinct ((writable_signer_keys ?ck @ readonly_signer_keys ?ck @
      writable_non_signer_keys ?ck) @ readonly_non_signer_keys ?ck)"
    using compile_keys_distinct [of ixs payer] by simp_all
  have m: "(num_required_signatures h + 256 - num_readonly_signed_accounts h) mod 256 = ?a"
    using eq(2,3,6) by simp
  have w: "wrapping_sub64 (length (lm_account_keys msg)) (num_readonly_unsigned_accounts h) = ?a + ?b + ?c"
    using eq(4) assms(3) len by simp
  have "i < ?a \<longleftrightarrow> ?k \<in> set (writable_signer_keys ?ck)"
    using nth_in_prefix(1) [OF d1] assms(2) eq(1) by simp
  moreover have "i < ?a + ?b + ?c \<longleftrightarrow> ?k \<notin> set (readonly_non_signer_keys ?ck)"
    using nth_in_prefix(2) [OF d2, of i] assms(2) eq(1) by (simp add: add.assoc)
  moreover have "i < num_required_signatures h \<longleftrightarrow> granted_signer ixs payer ?k"
    using compiled_signer [OF assms(1,2)] by (simp add: lm_is_signer_def h_def)
  moreover have "?k \<in> message_keys ixs payer"
    using compiled_keys_facts(2) [OF assms(1)] nth_mem [OF assms(2)] by simp
  ultimately show ?thesis
    unfolding m w using sets by (auto simp: not_less [symmetric])
qed

section \<open>Compile and decompile\<close>

lemma mapE_list_all2:
  assumes "list_all2 Q xs ys" "\<And>x y. Q x y \<Longrightarrow> g y = Ok (h x)"
  shows "mapE g ys = Ok (map h xs)"
  using assms by (induction xs ys rule: list_all2_induct) auto

lemma ak_get_static [simp]: "ak_get \<lparr>ak_static_keys = ks, ak_dynamic_keys = None\<rparr> i = slice_get ks i"
  by (simp add: ak_get_def key_segment_iter_def slice_get_def)

lemma key_position_Ok:
  assumes "distinct keys" "length keys \<le> 256"
  shows "key_position keys k = Ok i \<longleftrightarrow> i < length keys \<and> keys ! i = k"
  using assms by (auto simp: key_position_def result_simps position_distinct)

text \<open>
  The account of the message that an instruction gets: the key it names, with the privileges that
  all instructions together and the fee payer ask for; a write privilege is withdrawn from
  reserved keys, and from called programs unless the upgradeable loader is among the keys.
\<close>

definition demoted :: "instruction list \<Rightarrow> pubkey option \<Rightarrow> pubkey \<Rightarrow> bool" where
  "demoted ixs payer k \<longleftrightarrow>
     is_sysvar_id k \<or> k \<in> set BUILTIN_PROGRAMS_KEYS \<or>
     (k \<in> ix_program_id ` set ixs \<and> bpf_loader_upgradeable_id \<notin> message_keys ixs payer)"

definition granted_meta :: "instruction list \<Rightarrow> pubkey option \<Rightarrow> account_meta \<Rightarrow> account_meta" where
  "granted_meta ixs payer am =
     (let k = am_pubkey am in
      \<lparr>am_pubkey = k, am_is_signer = granted_signer ixs payer k,
       am_is_writable = (granted_writable ixs payer k \<and> \<not> demoted ixs payer k)\<rparr>)"

definition granted_instruction :: "instruction list \<Rightarrow> pubkey option \<Rightarrow> instruction \<Rightarrow> instruction" where
  "granted_instruction ixs payer ix =
     \<lparr>ix_program_id = ix_program_id ix, ix_accounts = map (granted_meta ixs payer) (ix_accounts ix),
      ix_data = ix_data ix\<rparr>"

lemma compile_instruction_Ok:
  assumes "distinct keys" "length keys \<le> 256" "compile_instruction ix keys = Ok ci"
  shows "ci_program_id_index ci < length keys" "keys ! ci_program_id_index ci = ix_program_id ix"
    "ci_data ci = ix_data ix"
    "list_all2 (\<lambda>am i. i < length keys \<and> keys ! i = am_pubkey am) (ix_accounts ix) (ci_accounts ci)"
  using assms(3)
  by (auto simp: compile_instruction_def result_simps key_position_Ok [OF assms(1,2)] mapE_Ok)

lemma list_all2_bex:
  "list_all2 R xs ys \<Longrightarrow> (\<And>x y. R x y \<Longrightarrow> P x \<longleftrightarrow> Q y) \<Longrightarrow> (\<exists>x \<in> set xs. P x) \<longleftrightarrow> (\<exists>y \<in> set ys. Q y)"
  by (induction xs ys rule: list_all2_induct) auto

lemma compiled_calls:
  assumes "new_with_blockhash ixs payer bh = Ok msg" "length (lm_account_keys msg) \<le> 256"
    "i < length (lm_account_keys msg)"
  shows "instruction_calls (lm_instructions msg) i \<longleftrightarrow> lm_account_keys msg ! i \<in> ix_program_id ` set ixs"
proof -
  let ?keys = "lm_account_keys msg"
  note d = compiled_keys_facts(1) [OF assms(1)]
  have all2: "list_all2 (\<lambda>ix ci. compile_instruction ix ?keys = (Ok ci :: (_, 'a) result)) ixs (lm_instructions msg)"
    using new_with_blockhash_Ok(5) [OF assms(1)] by (simp add: compile_instructions_def mapE_Ok)
  have at: "ci_program_id_index ci = i \<longleftrightarrow> ix_program_id ix = ?keys ! i"
    if "compile_instruction ix ?keys = (Ok ci :: (_, 'a) result)" for ix ci
    using compile_instruction_Ok(1,2) [OF d assms(2) that] assms(3) d by (auto simp: nth_eq_iff_index_eq)
  have "(\<exists>ix \<in> set ixs. ix_program_id ix = ?keys ! i) \<longleftrightarrow>
      (\<exists>ci \<in> set (lm_instructions msg). ci_program_id_index ci = i)"
    by (rule list_all2_bex [OF all2]) (simp add: at)
  then show ?thesis using assms(2,3) by (auto simp: instruction_calls_def intro: rev_image_eqI)
qed

lemma compiled_meta:
  assumes "new_with_blockhash ixs payer bh = Ok msg" "length (lm_account_keys msg) \<le> 256"
    "i < length (lm_account_keys msg)" "lm_account_keys msg ! i = am_pubkey am"
  shows "sm_is_signer (SM_Legacy msg) i = am_is_signer (granted_meta ixs payer am)"
    "sm_is_writable (SM_Legacy msg) i = am_is_writable (granted_meta ixs payer am)"
proof -
  show "sm_is_signer (SM_Legacy msg) i = am_is_signer (granted_meta ixs payer am)"
    using compiled_signer [OF assms(1,3)] assms(4)
    by (simp add: sm_is_signer_def lm_is_signer_def granted_meta_def Let_def)
  show "sm_is_writable (SM_Legacy msg) i = am_is_writable (granted_meta ixs payer am)"
    using compiled_writable [OF assms(1,3,2)] compiled_calls [OF assms(1-3)] assms(3,4)
      compiled_keys_facts(2) [OF assms(1)]
    by (auto simp: lm_is_writable_def Let_def slice_get_def granted_meta_def demoted_def
        lm_is_upgradeable_loader_present_def)
qed

lemma decompile_compiled:
  assumes "new_with_blockhash ixs payer bh = Ok msg" "length (lm_account_keys msg) \<le> 256"
    and "compile_instruction ix (lm_account_keys msg) = Ok ci"
  shows "mapE (\<lambda>account_index.
        bindE (unwrap (ak_get (sm_account_keys (SM_Legacy msg)) account_index)) (\<lambda>k.
        Ok \<lparr>am_pubkey = k, am_is_signer = sm_is_signer (SM_Legacy msg) account_index,
            am_is_writable = sm_is_writable (SM_Legacy msg) account_index\<rparr>)) (ci_accounts ci) =
      Ok (map (granted_meta ixs payer) (ix_accounts ix))"
    (is "mapE ?f _ = _")
proof -
  note ci = compile_instruction_Ok [OF compiled_keys_facts(1) [OF assms(1)] assms(2,3)]
  show ?thesis
  proof (rule mapE_list_all2 [OF ci(4)])
    fix am :: account_meta and i
    assume i: "i < length (lm_account_keys msg) \<and> lm_account_keys msg ! i = am_pubkey am"
    then show "?f i = Ok (granted_meta ixs payer am)"
      using compiled_meta [OF assms(1,2), of i am]
      by (simp add: slice_get_def granted_meta_def Let_def)
  qed
qed

section \<open>Sanitized messages\<close>

lemma foldE_unit: "foldE (\<lambda>x _. f x) xs () = Ok () \<longleftrightarrow> (\<forall>x \<in> set xs. f x = Ok ())"
  by (induction xs) (auto simp: result_simps)

lemma sanitize_instruction_Ok:
  "sanitize_instruction p a ci = Ok () \<longleftrightarrow>
     0 < ci_program_id_index ci \<and> ci_program_id_index ci < p \<and> (\<forall>i \<in> set (ci_accounts ci). i < a)"
  by (auto simp: sanitize_instruction_def result_simps foldE_unit)

lemma legacy_sanitize_Ok:
  "legacy_sanitize m = Ok () \<longleftrightarrow>
     num_required_signatures (lm_header m) + num_readonly_unsigned_accounts (lm_header m)
       \<le> length (lm_account_keys m) \<and>
     num_readonly_signed_accounts (lm_header m) < num_required_signatures (lm_header m) \<and>
     (\<forall>ci \<in> set (lm_instructions m). 0 < ci_program_id_index ci \<and>
        ci_program_id_index ci < length (lm_account_keys m) \<and>
        (\<forall>i \<in> set (ci_accounts ci). i < length (lm_account_keys m)))"
  by (auto simp: legacy_sanitize_def Let_def foldE_unit sanitize_instruction_Ok)

text \<open>Both searches for a duplicate key decide the same thing.\<close>

lemma lm_has_duplicates_iff: "lm_has_duplicates_from ks \<longleftrightarrow> \<not> distinct ks"
  by (induction ks) auto

lemma ldm_has_duplicates_iff:
  "ldm_has_duplicates_from uniq ks \<longleftrightarrow> \<not> distinct ks \<or> set ks \<inter> uniq \<noteq> {}"
  by (induction ks arbitrary: uniq) auto

lemma sm_has_duplicates_iff: "sm_has_duplicates m \<longleftrightarrow> \<not> distinct (ak_iter (sm_account_keys m))"
  by (cases m) (simp_all add: lm_has_duplicates_def lm_has_duplicates_iff ldm_has_duplicates_def
      ldm_has_duplicates_iff ak_iter_def key_segment_iter_def)

lemma segments_get_concat: "segments_get segs i = slice_get (concat segs) i"
  by (induction segs arbitrary: i) (auto simp: slice_get_def nth_append)

lemma ak_get_iter: "ak_get a i = slice_get (ak_iter a) i"
  by (simp add: ak_get_def ak_iter_def segments_get_concat)

text \<open>The number of keys that the lookups of a message load.\<close>

definition lookups_loaded :: "message_address_table_lookup list \<Rightarrow> loaded_addresses \<Rightarrow> bool" where
  "lookups_loaded lookups la \<longleftrightarrow>
     length (la_writable la) = sum_list (map (\<lambda>l. length (atl_writable_indexes l)) lookups) \<and>
     length (la_readonly la) = sum_list (map (\<lambda>l. length (atl_readonly_indexes l)) lookups)"

lemma lookup_keys_total_Ok:
  assumes "lookup_keys_total lookups = Ok n" "n \<le> 256"
  shows "n = sum_list (map (\<lambda>l. length (atl_writable_indexes l) + length (atl_readonly_indexes l)) lookups)"
proof -
  let ?size = "\<lambda>l. length (atl_writable_indexes l) + length (atl_readonly_indexes l)"
  let ?step = "\<lambda>l total. if ?size l = 0 then Err SanE_InvalidValue else Ok (saturating_add64 total (?size l))"
  have ge: "foldE ?step ls a = Ok b \<Longrightarrow> a \<le> u64_max \<Longrightarrow> a \<le> b" for ls a b
    by (induction ls arbitrary: a) (force simp: result_simps saturating_add64_def split: if_splits)+
  have "foldE ?step ls a = Ok b \<Longrightarrow> a \<le> 256 \<Longrightarrow> b \<le> 256 \<Longrightarrow> b = a + sum_list (map ?size ls)" for ls a b
  proof (induction ls arbitrary: a)
    case (Cons l ls)
    define c where "c = saturating_add64 a (?size l)"
    have c: "foldE ?step ls c = Ok b" "c \<le> u64_max"
      using Cons.prems(1) by (auto simp: c_def saturating_add64_def split: if_splits)
    have "c \<le> 256" using ge [OF c] Cons.prems(3) by simp
    then have "c = a + ?size l" by (simp add: c_def saturating_add64_def min_def split: if_splits)
    with Cons.IH [OF c(1) \<open>c \<le> 256\<close> Cons.prems(3)] show ?case by simp
  qed simp
  from this [of lookups 0 n] assms show ?thesis by (simp add: lookup_keys_total_def Let_def)
qed

lemma v0_sanitize_Ok:
  assumes "v0_sanitize b m = Ok ()" "lookups_loaded (vm_address_table_lookups m) la"
  defines "n \<equiv> length (vm_account_keys m) + length (la_writable la) + length (la_readonly la)"
  shows "0 < length (vm_account_keys m)" "n \<le> 256"
    "\<forall>ci \<in> set (vm_instructions m). ci_program_id_index ci < n \<and> (\<forall>i \<in> set (ci_accounts ci). i < n)"
proof -
  obtain d where d: "lookup_keys_total (vm_address_table_lookups m) = Ok d"
    and pos: "0 < length (vm_account_keys m)"
    and le: "saturating_add64 (length (vm_account_keys m)) d \<le> 256"
    using assms(1) by (auto simp: v0_sanitize_def Let_def result_simps split: if_splits)
  have le': "length (vm_account_keys m) + d \<le> 256"
    using le by (simp add: saturating_add64_def min_def split: if_splits)
  have "d = sum_list (map (\<lambda>l. length (atl_writable_indexes l) + length (atl_readonly_indexes l))
      (vm_address_table_lookups m))"
    using lookup_keys_total_Ok [OF d] le' by simp
  then have n: "n = length (vm_account_keys m) + d"
    using assms(2) by (simp add: n_def lookups_loaded_def sum_list_addf)
  show "0 < length (vm_account_keys m)" by (rule pos)
  show "n \<le> 256" using n le' by simp
  have sat: "saturating_add64 (length (vm_account_keys m)) d = n" using n le' by (simp add: saturating_add64_def)
  show "\<forall>ci \<in> set (vm_instructions m). ci_program_id_index ci < n \<and> (\<forall>i \<in> set (ci_accounts ci). i < n)"
    using assms(1) d pos n unfolding v0_sanitize_def Let_def
    by (auto simp: foldE_unit sanitize_instruction_Ok sat split: if_splits)
qed

lemma decompile_in_range:
  assumes "\<forall>ci \<in> set (sm_instructions m). ci_program_id_index ci < length (ak_iter (sm_account_keys m)) \<and>
      (\<forall>i \<in> set (ci_accounts ci). i < length (ak_iter (sm_account_keys m)))"
  shows "\<exists>ixs. (decompile_instructions m :: (_, 'e) result) = Ok ixs"
proof -
  let ?keys = "ak_iter (sm_account_keys m)"
  have pit: "(program_instructions_iter m :: (_, 'e) result) =
      Ok (map (\<lambda>ci. (?keys ! ci_program_id_index ci, ci)) (sm_instructions m))"
    unfolding program_instructions_iter_def using assms
    by (intro mapE_Ok_map) (simp add: ak_get_iter slice_get_def)
  have acc: "mapE (\<lambda>account_index.
      bindE (unwrap (ak_get (sm_account_keys m) account_index)) (\<lambda>k.
      Ok \<lparr>am_pubkey = k, am_is_signer = sm_is_signer m account_index,
          am_is_writable = sm_is_writable m account_index\<rparr>)) (ci_accounts ci) =
    (Ok (map (\<lambda>i. \<lparr>am_pubkey = ?keys ! i, am_is_signer = sm_is_signer m i,
      am_is_writable = sm_is_writable m i\<rparr>) (ci_accounts ci)) :: (_, 'e) result)" if "ci \<in> set (sm_instructions m)" for ci
    using assms that by (intro mapE_Ok_map) (simp add: ak_get_iter slice_get_def)
  have "(decompile_instructions m :: (_, 'e) result) = Ok (map (\<lambda>(k, ci). \<lparr>ix_program_id = k,
      ix_accounts = map (\<lambda>i. \<lparr>am_pubkey = ?keys ! i, am_is_signer = sm_is_signer m i,
        am_is_writable = sm_is_writable m i\<rparr>) (ci_accounts ci), ix_data = ci_data ci\<rparr>)
      (map (\<lambda>ci. (?keys ! ci_program_id_index ci, ci)) (sm_instructions m)))"
    unfolding decompile_instructions_def pit bindE_simps by (rule mapE_Ok_map) (auto simp: acc)
  then show ?thesis by blast
qed

lemma decompile_new_with_blockhash:
  assumes "new_with_blockhash ixs payer bh = Ok msg" "length (lm_account_keys msg) \<le> 256"
  shows "decompile_instructions (SM_Legacy msg) = Ok (map (granted_instruction ixs payer) ixs)"
proof -
  let ?keys = "lm_account_keys msg" and ?m = "SM_Legacy msg"
  note d = compiled_keys_facts(1) [OF assms(1)]
  have all2: "list_all2 (\<lambda>ix ci. compile_instruction ix ?keys = (Ok ci :: (_, 'a) result)) ixs (lm_instructions msg)"
    using new_with_blockhash_Ok(5) [OF assms(1)] by (simp add: compile_instructions_def mapE_Ok)
  define pairs where "pairs = map (\<lambda>ci. (?keys ! ci_program_id_index ci, ci)) (lm_instructions msg)"
  have "program_instructions_iter ?m = (Ok pairs :: (_, 'b) result)"
    unfolding program_instructions_iter_def pairs_def sm_instructions.simps
  proof (rule mapE_Ok_map)
    fix ci assume "ci \<in> set (lm_instructions msg)"
    then obtain ix where "compile_instruction ix ?keys = (Ok ci :: (_, 'a) result)"
      using all2 by (auto simp: list_all2_conv_all_nth in_set_conv_nth)
    then show "bindE (unwrap (ak_get (sm_account_keys ?m) (ci_program_id_index ci))) (\<lambda>k. Ok (k, ci)) =
        Ok (?keys ! ci_program_id_index ci, ci)"
      using compile_instruction_Ok(1) [OF d assms(2)] by (simp add: slice_get_def)
  qed
  moreover have pairs: "list_all2 (\<lambda>ix (k, ci). compile_instruction ix ?keys = (Ok ci :: (_, 'a) result) \<and>
      k = ix_program_id ix) ixs pairs"
    unfolding pairs_def list_all2_map2
    by (rule list_all2_mono [OF all2]) (simp add: compile_instruction_Ok(2) [OF d assms(2)])
  ultimately show ?thesis
    unfolding decompile_instructions_def
    by (simp only: bindE_simps, intro mapE_list_all2 [OF pairs])
      (auto simp del: sm_account_keys.simps sm_is_writable.simps
        simp: decompile_compiled [OF assms] granted_instruction_def compile_instruction_Ok(3) [OF d assms(2)])
qed

text \<open>
  When compilation succeeds: the numbers of signers and of read-only accounts that do not sign fit a byte. The keys of
  the message are counted by the header.
\<close>

lemma compile_keys_counts:
  fixes ixs payer
  defines "ck \<equiv> compile_keys ixs payer"
  shows "length (writable_signer_keys ck) + length (readonly_signer_keys ck) =
      card {k \<in> message_keys ixs payer. granted_signer ixs payer k}"
    and "length (readonly_non_signer_keys ck) =
      card {k \<in> message_keys ixs payer. \<not> granted_signer ixs payer k \<and> \<not> granted_writable ixs payer k}"
proof -
  have d: "distinct (writable_signer_keys ck @ readonly_signer_keys ck)" "distinct (readonly_non_signer_keys ck)"
    using compile_keys_distinct [of ixs payer] by (auto simp: ck_def)
  have "set (writable_signer_keys ck @ readonly_signer_keys ck) = {k \<in> message_keys ixs payer. granted_signer ixs payer k}"
    "set (readonly_non_signer_keys ck) = {k \<in> message_keys ixs payer. \<not> granted_signer ixs payer k \<and> \<not> granted_writable ixs payer k}"
    using compile_keys_sets [of _ ixs payer] by (auto simp: ck_def)
  with d [THEN distinct_card] show "length (writable_signer_keys ck) + length (readonly_signer_keys ck) =
      card {k \<in> message_keys ixs payer. granted_signer ixs payer k}"
    "length (readonly_non_signer_keys ck) =
      card {k \<in> message_keys ixs payer. \<not> granted_signer ixs payer k \<and> \<not> granted_writable ixs payer k}"
    by simp_all
qed

lemma compile_instructions_total:
  assumes "mentioned ixs \<subseteq> set keys"
  shows "\<exists>cis. (compile_instructions ixs keys :: (_, 'e) result) = Ok cis"
proof -
  have pos: "\<exists>i. (key_position keys k :: (_, 'e) result) = Ok i" if "k \<in> mentioned ixs" for k
    using subsetD [OF assms that] position_mem [of k keys] by (auto simp: key_position_def)
  have "\<exists>ci. (compile_instruction ix keys :: (_, 'e) result) = Ok ci" if ix: "ix \<in> set ixs" for ix
  proof -
    have "\<exists>is. (mapE (\<lambda>am. key_position keys (am_pubkey am)) (ix_accounts ix) :: (_, 'e) result) = Ok is"
      by (rule mapE_total, rule pos) (use ix in \<open>auto simp: mentioned_def all_metas_def\<close>)
    moreover have "\<exists>i. (key_position keys (ix_program_id ix) :: (_, 'e) result) = Ok i"
      by (rule pos) (use ix in \<open>auto simp: mentioned_def\<close>)
    ultimately show ?thesis by (auto simp: compile_instruction_def)
  qed
  then show ?thesis unfolding compile_instructions_def by (intro mapE_total)
qed

lemma new_with_blockhash_Ok_iff:
  "(\<exists>msg. (new_with_blockhash ixs payer bh :: (_, 'e) result) = Ok msg) \<longleftrightarrow>
     card {k \<in> message_keys ixs payer. granted_signer ixs payer k} < 256 \<and>
     card {k \<in> message_keys ixs payer. \<not> granted_signer ixs payer k \<and> \<not> granted_writable ixs payer k} < 256"
proof -
  let ?ck = "compile_keys ixs payer"
  let ?keys = "writable_signer_keys ?ck @ readonly_signer_keys ?ck @ writable_non_signer_keys ?ck @ readonly_non_signer_keys ?ck"
  have "mentioned ixs \<subseteq> set ?keys" using compile_keys_sets [of _ ixs payer] by (auto simp: message_keys_def)
  then obtain cis where "(compile_instructions ixs ?keys :: (_, 'e) result) = Ok cis"
    using compile_instructions_total by blast
  then show ?thesis
    unfolding compile_keys_counts [symmetric]
    by (auto simp: new_with_blockhash_def try_into_message_components_def u8_try_from_def)
qed

lemma compiled_keys_card:
  "new_with_blockhash ixs payer bh = Ok msg \<Longrightarrow> length (lm_account_keys msg) = card (message_keys ixs payer)"
  using compiled_keys_facts [of ixs payer bh msg] by (metis distinct_card)

lemma compiled_message_checked:
  assumes "new_with_blockhash ixs (Some payer) bh = Ok msg" "length (lm_account_keys msg) \<le> 256"
  shows "(legacy_sanitize msg = Ok () \<longleftrightarrow> payer \<notin> ix_program_id ` set ixs) \<and>
    \<not> lm_has_duplicates msg \<and> sm_fee_payer (SM_Legacy msg) = Ok payer"
proof -
  let ?keys = "lm_account_keys msg" and ?ck = "compile_keys ixs (Some payer)"
  note eq = new_with_blockhash_Ok [OF assms(1)] and d = compiled_keys_facts(1) [OF assms(1)]
  have hd: "writable_signer_keys ?ck \<noteq> []" "?keys ! 0 = payer" "?keys \<noteq> []"
    unfolding eq(1) by (simp_all add: compile_keys_def Let_def)
  have all2: "list_all2 (\<lambda>ix ci. compile_instruction ix ?keys = (Ok ci :: (_, 'a) result)) ixs (lm_instructions msg)"
    using eq(5) by (simp add: compile_instructions_def mapE_Ok)
  have range: "ci_program_id_index ci < length ?keys \<and> (\<forall>i \<in> set (ci_accounts ci). i < length ?keys)"
    if ci: "ci \<in> set (lm_instructions msg)" for ci
  proof -
    obtain n where "n < length (lm_instructions msg)" "lm_instructions msg ! n = ci"
      using ci by (auto simp: in_set_conv_nth)
    then have "compile_instruction (ixs ! n) ?keys = (Ok ci :: (_, 'a) result)"
      using list_all2_nthD2 [OF all2] by blast
    from compile_instruction_Ok [OF d assms(2) this] show ?thesis by (auto simp: list_all2_conv_all_nth in_set_conv_nth)
  qed
  have "instruction_calls (lm_instructions msg) 0 \<longleftrightarrow> payer \<in> ix_program_id ` set ixs"
    using compiled_calls [OF assms, of 0] hd(2,3) by simp
  then have "(\<forall>ci \<in> set (lm_instructions msg). 0 < ci_program_id_index ci) \<longleftrightarrow> payer \<notin> ix_program_id ` set ixs"
    by (auto simp: instruction_calls_def)
  moreover have "num_required_signatures (lm_header msg) + num_readonly_unsigned_accounts (lm_header msg) \<le> length ?keys"
    "num_readonly_signed_accounts (lm_header msg) < num_required_signatures (lm_header msg)"
    using eq(1-4) hd(1) by simp_all
  ultimately have "legacy_sanitize msg = Ok () \<longleftrightarrow> payer \<notin> ix_program_id ` set ixs"
    unfolding legacy_sanitize_Ok using range by blast
  with d hd show ?thesis
    by (simp add: lm_has_duplicates_def lm_has_duplicates_iff sm_fee_payer_def slice_get_def)
qed

text \<open>The cast of a position to \<^verbatim>\<open>u8\<close>: from the 257th key on, an instruction refers to another account.\<close>

lemma key_position_wraps:
  assumes "distinct keys" "position keys k = Some i" "256 \<le> i"
  shows "\<exists>j. (key_position keys k :: (_, 'e) result) = Ok j \<and> keys ! j \<noteq> k"
proof -
  have i: "i < length keys" "keys ! i = k" using assms(2) position_distinct [OF assms(1)] by auto
  have "i mod 256 < i" using assms(3) mod_less_divisor [of 256 i] by linarith
  then have "keys ! (i mod 256) \<noteq> k" using i assms(1) nth_eq_iff_index_eq [of keys "i mod 256" i] by auto
  then show ?thesis using assms(2) by (simp add: key_position_def)
qed

section \<open>Properties\<close>

text \<open>
  C19. Compiling instructions that name at most 256 keys, with the fee payer, and decompiling the message gives back
  the instructions with their programs, data and account keys. The privileges of an account are not always those of its
  instruction: it signs iff some instruction of the message wants it to or it pays the fee, and it is writable iff
  some instruction wants it to be or it pays the fee, and its key is neither a sysvar nor a builtin program nor,
  unless the upgradeable loader is among the keys, called as a program.
\<close>

theorem compile_decompile:
  assumes "new_with_blockhash ixs payer bh = Ok msg" "card (message_keys ixs payer) \<le> 256"
  shows "decompile_instructions (SM_Legacy msg) = Ok (map (granted_instruction ixs payer) ixs)"
  using decompile_new_with_blockhash [OF assms(1)] assms(2) compiled_keys_card [OF assms(1)] by simp

text \<open>
  C28. For a fee payer, compilation succeeds iff at most 255 keys sign and at most 255 neither sign nor are written.
  When there are no more than 256 keys, the message then has no duplicate keys, has the fee payer first, and passes
  the sanitize checks iff the fee payer is not itself called as a program.
\<close>

theorem compiled_message_sanitizes:
  shows "((\<exists>msg. (new_with_blockhash ixs (Some payer) bh :: (_, 'e) result) = Ok msg) \<longleftrightarrow>
      card {k \<in> message_keys ixs (Some payer). granted_signer ixs (Some payer) k} \<le> 255 \<and>
      card {k \<in> message_keys ixs (Some payer). \<not> granted_signer ixs (Some payer) k \<and> \<not> granted_writable ixs (Some payer) k} \<le> 255) \<and>
    (\<forall>msg. (new_with_blockhash ixs (Some payer) bh :: (_, 'e) result) = Ok msg \<and> card (message_keys ixs (Some payer)) \<le> 256 \<longrightarrow>
      \<not> lm_has_duplicates msg \<and> (sm_fee_payer (SM_Legacy msg) :: (_, 'e) result) = Ok payer \<and>
      (legacy_sanitize msg = Ok () \<longleftrightarrow> payer \<notin> ix_program_id ` set ixs))"
proof (intro conjI allI impI; (elim conjE)?)
  show "(\<exists>msg. (new_with_blockhash ixs (Some payer) bh :: (_, 'e) result) = Ok msg) \<longleftrightarrow>
      card {k \<in> message_keys ixs (Some payer). granted_signer ixs (Some payer) k} \<le> 255 \<and>
      card {k \<in> message_keys ixs (Some payer). \<not> granted_signer ixs (Some payer) k \<and> \<not> granted_writable ixs (Some payer) k} \<le> 255"
    unfolding new_with_blockhash_Ok_iff by linarith
  fix msg
  assume msg: "(new_with_blockhash ixs (Some payer) bh :: (_, 'e) result) = Ok msg" "card (message_keys ixs (Some payer)) \<le> 256"
  then have "length (lm_account_keys msg) \<le> 256" using compiled_keys_card [OF msg(1)] by simp
  from compiled_message_checked [OF msg(1) this, where 'b = 'e]
  show "\<not> lm_has_duplicates msg" "(sm_fee_payer (SM_Legacy msg) :: (_, 'e) result) = Ok payer"
    "legacy_sanitize msg = Ok () \<longleftrightarrow> payer \<notin> ix_program_id ` set ixs"
    by auto
qed

text \<open>
  C29. A message that passes the sanitize checks, with as many addresses loaded as its lookups name,
  has a fee payer, and each of its instructions resolves to keys: decompiling does not panic.
\<close>

theorem sanitized_message_resolves:
  shows "(legacy_sanitize lm = Ok () \<longrightarrow>
      (\<exists>ixs. (decompile_instructions (SM_Legacy lm) :: (_, 'e) result) = Ok ixs) \<and>
      (\<exists>k. (sm_fee_payer (SM_Legacy lm) :: (_, 'e) result) = Ok k)) \<and>
    (v0_sanitize b vm = Ok () \<and> lookups_loaded (vm_address_table_lookups vm) la \<longrightarrow>
      (\<exists>ixs. (decompile_instructions (SM_V0 \<lparr>ldm_message = vm, ldm_loaded_addresses = la\<rparr>) :: (_, 'e) result) = Ok ixs) \<and>
      (\<exists>k. (sm_fee_payer (SM_V0 \<lparr>ldm_message = vm, ldm_loaded_addresses = la\<rparr>) :: (_, 'e) result) = Ok k))"
proof (intro conjI impI; (elim conjE)?)
  assume s: "legacy_sanitize lm = Ok ()"
  then show "\<exists>ixs. (decompile_instructions (SM_Legacy lm) :: (_, 'e) result) = Ok ixs"
    by (intro decompile_in_range) (auto simp: legacy_sanitize_Ok ak_iter_def key_segment_iter_def)
  show "\<exists>k. (sm_fee_payer (SM_Legacy lm) :: (_, 'e) result) = Ok k"
    using s by (auto simp: legacy_sanitize_Ok sm_fee_payer_def slice_get_def)
next
  assume s: "v0_sanitize b vm = Ok ()" "lookups_loaded (vm_address_table_lookups vm) la"
  note ok = v0_sanitize_Ok [OF s]
  let ?m = "SM_V0 \<lparr>ldm_message = vm, ldm_loaded_addresses = la\<rparr>"
  have keys: "ak_iter (sm_account_keys ?m) = vm_account_keys vm @ la_writable la @ la_readonly la"
    by (simp add: ak_iter_def key_segment_iter_def ldm_account_keys_def)
  show "\<exists>ixs. (decompile_instructions ?m :: (_, 'e) result) = Ok ixs"
    using ok(3) by (intro decompile_in_range) (auto simp: keys add.assoc simp del: sm_account_keys.simps)
  show "\<exists>k. (sm_fee_payer ?m :: (_, 'e) result) = Ok k"
    using ok(1) by (simp add: sm_fee_payer_def ak_get_iter keys slice_get_def del: sm_account_keys.simps)
qed

subsection \<open>Witnesses\<close>

definition example_ixs :: "instruction list" where
  "example_ixs =
     [\<lparr>ix_program_id = 100,
       ix_accounts = [\<lparr>am_pubkey = 8, am_is_signer = False, am_is_writable = True\<rparr>,
                      \<lparr>am_pubkey = 9, am_is_signer = False, am_is_writable = False\<rparr>],
       ix_data = [1, 2]\<rparr>]"

definition example_message :: legacy_message where
  "example_message =
     \<lparr>lm_header = \<lparr>num_required_signatures = 1, num_readonly_signed_accounts = 0,
        num_readonly_unsigned_accounts = 2\<rparr>,
      lm_account_keys = [7, 8, 9, 100], lm_recent_blockhash = 0,
      lm_instructions = [\<lparr>ci_program_id_index = 3, ci_accounts = [1, 2], ci_data = [1, 2]\<rparr>]\<rparr>"

lemma example_message_compiled: "new_with_blockhash example_ixs (Some 7) 0 = Ok example_message"
  by (simp add: example_ixs_def example_message_def new_with_blockhash_def compile_keys_def key_meta_map_of_def
      add_program_id_def add_account_meta_def meta_of_def bt_get_def bt_remove_def keys_where_def Let_def
      try_into_message_components_def u8_try_from_def compile_instructions_def compile_instruction_def
      key_position_def new_with_compiled_instructions_def)

definition example_v0 :: v0_message where
  "example_v0 =
     \<lparr>vm_header = \<lparr>num_required_signatures = 1, num_readonly_signed_accounts = 0,
        num_readonly_unsigned_accounts = 1\<rparr>,
      vm_account_keys = [7, 100], vm_recent_blockhash = 0,
      vm_instructions = [\<lparr>ci_program_id_index = 1, ci_accounts = [2], ci_data = []\<rparr>],
      vm_address_table_lookups =
        [\<lparr>atl_account_key = 50, atl_writable_indexes = [3], atl_readonly_indexes = []\<rparr>]\<rparr>"

lemma example_message_keys: "card (message_keys example_ixs (Some 7)) \<le> 256"
  using compiled_keys_card [OF example_message_compiled] by (simp add: example_message_def)

theorem compile_decompile_witness:
  "new_with_blockhash example_ixs (Some 7) 0 = (Ok example_message :: (_, unit) result) \<and>
   (decompile_instructions (SM_Legacy example_message) :: (_, unit) result) =
     Ok (map (granted_instruction example_ixs (Some 7)) example_ixs)"
  using compile_decompile [OF example_message_compiled example_message_keys] by (simp add: example_message_compiled)

theorem compiled_message_sanitizes_witness:
  "new_with_blockhash example_ixs (Some 7) 0 = (Ok example_message :: (_, unit) result) \<and>
   legacy_sanitize example_message = Ok () \<and>
   sm_fee_payer (SM_Legacy example_message) = (Ok 7 :: (_, unit) result)"
proof -
  have "7 \<notin> ix_program_id ` set example_ixs" by (simp add: example_ixs_def)
  with compiled_message_sanitizes [of example_ixs 7 0, where 'e = unit] example_message_compiled [where 'a = unit] example_message_keys
  show ?thesis by blast
qed

theorem sanitized_message_resolves_witness:
  "v0_sanitize True example_v0 = Ok () \<and>
   (\<exists>ixs. (decompile_instructions
      (SM_V0 \<lparr>ldm_message = example_v0, ldm_loaded_addresses = \<lparr>la_writable = [51], la_readonly = []\<rparr>\<rparr>)
        :: (_, unit) result) = Ok ixs) \<and>
   legacy_sanitize example_message = Ok () \<and>
   (\<exists>k. (sm_fee_payer (SM_Legacy example_message) :: (_, unit) result) = Ok k)"
proof -
  have v: "v0_sanitize True example_v0 = Ok ()"
    by (simp add: v0_sanitize_def example_v0_def lookup_keys_total_def saturating_add64_def
        sanitize_instruction_def Let_def)
  have l: "legacy_sanitize example_message = Ok ()"
    by (simp add: legacy_sanitize_Ok example_message_def)
  have "lookups_loaded (vm_address_table_lookups example_v0) \<lparr>la_writable = [51], la_readonly = []\<rparr>"
    by (simp add: lookups_loaded_def example_v0_def)
  with sanitized_message_resolves
    [where 'e = unit and lm = example_message and b = True and vm = example_v0 and
      la = "\<lparr>la_writable = [51], la_readonly = []\<rparr>"] v l
  show ?thesis by blast
qed

end
