(* ===== verification/Lock_Properties.thy ===== *)
theory Lock_Properties
  imports Account_Locks Message_Properties "HOL-Library.Multiset"
begin

text \<open>
  The lock table refines the list of the requests that hold locks: a request is granted iff it
  conflicts with none of them. From this follow the exclusion of writers over every interleaving
  of lock and unlock, and that a batch gives back what it took.
\<close>

section \<open>Locking refines the abstract table\<close>

lemma guard_all:
  "foldE (\<lambda>k _. guardE (P k) e) ks () = (if \<forall>k \<in> set ks. P k then Ok () else Err e)"
  by (induction ks) (auto simp: guardE_def)

lemma write_all:
  "fold (\<lambda>k L. L\<lparr>write_locks := insert k (write_locks L)\<rparr>) ks L = L\<lparr>write_locks := set ks \<union> write_locks L\<rparr>"
  by (induction ks arbitrary: L) simp_all

text \<open>Adding readers one by one.\<close>

definition count_readers :: "(pubkey \<rightharpoonup> u64) \<Rightarrow> (pubkey \<Rightarrow> nat) \<Rightarrow> bool" where
  "count_readers m n \<longleftrightarrow> m = (\<lambda>k. if n k = 0 then None else Some (n k))"

lemma lock_readonly_step:
  assumes "count_readers (readonly_locks L) n" "n k + 1 < 2 ^ 64"
  shows "\<exists>L'. (case lock_readonly k L of (True, L') \<Rightarrow> Ok L' | (False, L') \<Rightarrow> insert_new_readonly k L') =
      (Ok L' :: (_, 'e) result) \<and>
    write_locks L' = write_locks L \<and> count_readers (readonly_locks L') (n(k := n k + 1))"
  using assms
  by (auto simp: lock_readonly_def insert_new_readonly_def count_readers_def fun_eq_iff)

lemma lock_readonly_all:
  assumes "count_readers (readonly_locks L) n" "\<And>k. n k + count_list ks k < 2 ^ 64"
  shows "\<exists>L'. foldE (\<lambda>k L. case lock_readonly k L of (True, L') \<Rightarrow> Ok L' | (False, L') \<Rightarrow> insert_new_readonly k L') ks L =
      (Ok L' :: (_, 'e) result) \<and>
    write_locks L' = write_locks L \<and> count_readers (readonly_locks L') (\<lambda>k. n k + count_list ks k)"
  using assms
proof (induction ks arbitrary: L n)
  case Nil
  then show ?case by simp
next
  case (Cons k ks)
  have "n k + 1 < 2 ^ 64" using Cons.prems(2) [of k] by simp
  from lock_readonly_step [OF Cons.prems(1) this, where 'e = 'e] obtain L1 where
    L1: "(case lock_readonly k L of (True, L') \<Rightarrow> Ok L' | (False, L') \<Rightarrow> insert_new_readonly k L') =
      (Ok L1 :: (_, 'e) result)" "write_locks L1 = write_locks L"
      "count_readers (readonly_locks L1) (n(k := n k + 1))" by blast
  have fit: "(n(k := n k + 1)) k' + count_list ks k' < 2 ^ 64" for k'
    using Cons.prems(2) [of k'] by (auto split: if_splits)
  have "(\<lambda>k'. (n(k := n k + 1)) k' + count_list ks k') = (\<lambda>k'. n k' + count_list (k # ks) k')"
    by (auto simp: fun_eq_iff)
  with Cons.IH [OF L1(3) fit] L1(1,2) show ?case by auto
qed

lemma represents_readers: "represents L held \<Longrightarrow> count_readers (readonly_locks L) (reads held)"
  by (simp add: represents_def count_readers_def)

text \<open>
  A request is granted exactly when it conflicts with no request that holds locks, and then it
  holds its locks; it never panics.
\<close>

lemma lock_account_refines:
  assumes "represents L held" "reads_fit ((w, r) # held)"
    and "get_readable_and_writable_locks_vec writable readonly mev = (r, w)"
  shows "if \<exists>h \<in> set held. conflict (w, r) h
    then lock_account writable readonly mev L = Err AccountInUse
    else \<exists>L'. lock_account writable readonly mev L = Ok L' \<and> represents L' ((w, r) # held)"
proof -
  note locked = represents_locked [OF assms(1)]
  define L1 where "L1 = fold (\<lambda>k L. L\<lparr>write_locks := insert k (write_locks L)\<rparr>) w L"
  have L1: "write_locks L1 = set w \<union> write_locks L" "readonly_locks L1 = readonly_locks L"
    by (simp_all add: L1_def write_all)
  have "reads held k + count_list r k < 2 ^ 64" for k
    using reads_fit_bound [OF assms(2), of k] by simp
  with lock_readonly_all [of L1 "reads held" r, where 'e = transaction_error]
    represents_readers [OF assms(1)] L1(2)
  obtain L' where L': "foldE (\<lambda>k L. case lock_readonly k L of (True, L') \<Rightarrow> Ok L' | (False, L') \<Rightarrow> insert_new_readonly k L') r L1 =
      (Ok L' :: (_, transaction_error) result)" "write_locks L' = write_locks L1"
      "count_readers (readonly_locks L') (\<lambda>k. reads held k + count_list r k)" by auto
  have "represents L' ((w, r) # held)"
    using L'(2,3) L1(1) assms(1) by (auto simp: represents_def count_readers_def add.commute)
  moreover have "lock_account writable readonly mev L =
      (if \<exists>h \<in> set held. conflict (w, r) h then Err AccountInUse else Ok L')"
    unfolding lock_account_def assms(3) Let_def prod.case L1_def [symmetric] L'(1) guard_all locked
    by (auto simp: conflict_def)
  ultimately show ?thesis by simp
qed

section \<open>Unlocking\<close>

lemma unlock_write_all: "fold unlock_write ks L = L\<lparr>write_locks := write_locks L - set ks\<rparr>"
proof (induction ks arbitrary: L)
  case (Cons k ks)
  have "write_locks L - {k} - set ks = write_locks L - set (k # ks)" by auto
  then show ?case using Cons.IH [of "unlock_write k L"] by (simp add: unlock_write_def [of k])
qed simp

lemma unlock_readonly_step:
  assumes "count_readers (readonly_locks L) n" "n k < 2 ^ 64" "0 < n k"
  shows "count_readers (readonly_locks (unlock_readonly k L)) (n(k := n k - 1))"
    "write_locks (unlock_readonly k L) = write_locks L"
  using assms by (auto simp: unlock_readonly_def count_readers_def fun_eq_iff Let_def)

lemma unlock_readonly_all:
  assumes "count_readers (readonly_locks L) (\<lambda>k. n k + count_list ks k)" "\<And>k. n k + count_list ks k < 2 ^ 64"
  shows "count_readers (readonly_locks (fold unlock_readonly ks L)) n \<and>
    write_locks (fold unlock_readonly ks L) = write_locks L"
  using assms
proof (induction ks arbitrary: L)
  case Nil
  then show ?case by simp
next
  case (Cons k ks)
  let ?n = "\<lambda>k'. n k' + count_list (k # ks) k'" and ?m = "\<lambda>k'. n k' + count_list ks k'"
  have le: "?m k' \<le> ?n k'" for k' by simp
  have bound: "?m k' < 2 ^ 64" for k' using le Cons.prems(2) by (rule le_less_trans)
  have "?n(k := ?n k - 1) = ?m" by (auto simp: fun_eq_iff)
  then have "count_readers (readonly_locks (unlock_readonly k L)) ?m"
    "write_locks (unlock_readonly k L) = write_locks L"
    using unlock_readonly_step [OF Cons.prems(1) Cons.prems(2), of k] by simp_all
  with Cons.IH [OF _ bound] show ?case by simp
qed

lemma exclusive_remove1: "exclusive held \<Longrightarrow> exclusive (remove1 r held)"
  using set_remove1_subset by (induction held) fastforce+

lemma exclusive_disjoint:
  assumes "exclusive held" "r \<in> set held" "h \<in> set (remove1 r held)"
  shows "\<not> conflict r h"
  using assms
proof (induction held)
  case (Cons a held)
  show ?case
  proof (cases "a = r")
    case True
    with Cons.prems show ?thesis by simp
  next
    case False
    with Cons.prems have "h = a \<or> h \<in> set (remove1 r held)" "r \<in> set held" by auto
    with Cons show ?thesis using conflict_sym [of a r] by auto
  qed
qed simp

lemma reads_remove1:
  "r \<in> set held \<Longrightarrow> reads held k = reads (remove1 r held) k + count_list (snd r) k"
  unfolding reads_def by (subst sum_list_map_remove1 [of r]) simp_all

lemma writes_remove1:
  "r \<in> set held \<Longrightarrow> (\<Union>h \<in> set held. set (fst h)) = set (fst r) \<union> (\<Union>h \<in> set (remove1 r held). set (fst h))"
  by (induction held) auto

text \<open>A request gives its locks back.\<close>

lemma unlock_account_refines:
  assumes "represents L held" "exclusive held" "reads_fit held" "(w, r) \<in> set held"
    and "get_readable_and_writable_locks_vec writable readonly mev = (r, w)"
  shows "represents (unlock_account writable readonly mev L) (remove1 (w, r) held)"
proof -
  let ?rest = "remove1 (w, r) held"
  define L1 where "L1 = fold unlock_write w L"
  have "count_readers (readonly_locks L) (\<lambda>k. reads ?rest k + count_list r k)"
    using represents_readers [OF assms(1)] reads_remove1 [OF assms(4)] by (simp add: count_readers_def fun_eq_iff)
  moreover have "reads ?rest k + count_list r k < 2 ^ 64" for k
    using reads_fit_bound [OF assms(3), of k] reads_remove1 [OF assms(4), of k] by simp
  ultimately have u: "count_readers (readonly_locks (fold unlock_readonly r L1)) (reads ?rest)"
    "write_locks (fold unlock_readonly r L1) = write_locks L1"
    using unlock_readonly_all [of L1 "reads ?rest" r] by (simp_all add: L1_def unlock_write_all)
  have "set w \<inter> set (fst h) = {}" if "h \<in> set ?rest" for h
    using exclusive_disjoint [OF assms(2,4) that] by (auto simp: conflict_def)
  then have "write_locks L - set w = (\<Union>h \<in> set ?rest. set (fst h))"
    using assms(1) writes_remove1 [OF assms(4)] by (auto simp: represents_def)
  then show ?thesis
    using u unfolding unlock_account_def assms(5) Let_def prod.case L1_def [symmetric]
    by (auto simp: represents_def count_readers_def L1_def unlock_write_all)
qed

section \<open>Batches\<close>

lemma sum_list_map_mset: "sum_list (map f xs) = sum_mset (image_mset f (mset xs))"
  by (simp add: sum_mset_sum_list flip: mset_map)

lemma represents_mset:
  assumes "mset held = mset held'" "represents L held"
  shows "represents L held'"
proof -
  have "reads held = reads held'"
    using assms(1) unfolding reads_def sum_list_map_mset by simp
  moreover have "set held = set held'" using assms(1) by (rule mset_eq_setD)
  ultimately show ?thesis using assms(2) by (auto simp: represents_def fun_eq_iff)
qed

lemma reads_fit_mset: "mset held = mset held' \<Longrightarrow> reads_fit held = reads_fit held'"
  unfolding reads_fit_def sum_list_map_mset by simp

lemma reads_fit_subset: "mset held \<subseteq># mset held' \<Longrightarrow> reads_fit held' \<Longrightarrow> reads_fit held"
proof -
  assume "mset held \<subseteq># mset held'" "reads_fit held'"
  then obtain M where "mset held' = mset held + M" by (auto simp: subset_mset.le_iff_add)
  then have "sum_list (map (\<lambda>r. length (snd r)) held') =
      sum_list (map (\<lambda>r. length (snd r)) held) + sum_mset (image_mset (\<lambda>r. length (snd r)) M)"
    unfolding sum_list_map_mset by simp
  with \<open>reads_fit held'\<close> show "reads_fit held" by (simp add: reads_fit_def)
qed

abbreviation locks_of :: "sanitized_transaction \<Rightarrow> account_locks \<Rightarrow> (account_locks, transaction_error) result" where
  "locks_of tx \<equiv> lock_account (tal_writable (get_account_locks_unchecked tx))
     (tal_readonly (get_account_locks_unchecked tx)) (tal_readonly_mev (get_account_locks_unchecked tx))"

abbreviation unlocks_of :: "sanitized_transaction \<Rightarrow> account_locks \<Rightarrow> account_locks" where
  "unlocks_of tx \<equiv> unlock_account (tal_writable (get_account_locks_unchecked tx))
     (tal_readonly (get_account_locks_unchecked tx)) (tal_readonly_mev (get_account_locks_unchecked tx))"

lemma request_of_locks:
  "get_readable_and_writable_locks_vec (tal_writable (get_account_locks_unchecked tx))
     (tal_readonly (get_account_locks_unchecked tx)) (tal_readonly_mev (get_account_locks_unchecked tx)) =
   (snd (request_of tx), fst (request_of tx))"
  by (simp add: request_of_def Let_def split: prod.splits)

lemma locks_of_refines:
  assumes "represents L held" "reads_fit (request_of tx # held)"
  shows "if \<exists>h \<in> set held. conflict (request_of tx) h then locks_of tx L = Err AccountInUse
    else \<exists>L'. locks_of tx L = Ok L' \<and> represents L' (request_of tx # held)"
  by (rule lock_account_refines [OF assms(1) _ request_of_locks [of tx], unfolded prod.collapse, OF assms(2)])

lemma unlocks_of_refines:
  assumes "represents L held" "exclusive held" "reads_fit held" "request_of tx \<in> set held"
  shows "represents (unlocks_of tx L) (remove1 (request_of tx) held)"
  using unlock_account_refines [OF assms(1-3) _ request_of_locks] assms(4) by simp

text \<open>A request as a batch sees it: the transaction's locks, or an error that means it has none.\<close>

definition batch_item :: "sanitized_transaction \<Rightarrow> (transaction_account_locks, transaction_error) result \<Rightarrow> bool" where
  "batch_item tx r \<longleftrightarrow> r = Ok (get_account_locks_unchecked tx) \<or> (\<exists>e. r = Inl e \<and> not_locked (Inl e))"

definition granted :: "sanitized_transaction list \<Rightarrow> (unit, transaction_error) result list \<Rightarrow>
    sanitized_transaction list" where
  "granted txs results = map fst (filter (\<lambda>(_, res). \<not> not_locked res) (zip txs results))"

lemma lock_batch:
  assumes "represents L held" "exclusive held" "reads_fit (map request_of txs @ held)"
    and "list_all2 batch_item txs rs" "lock_accounts_inner rs L = (results, L1)"
  shows "\<exists>held1. represents L1 held1 \<and> exclusive held1 \<and> reads_fit held1 \<and>
    mset held1 = mset (map request_of (granted txs results)) + mset held"
  using assms
proof (induction rs arbitrary: txs L held results L1)
  case Nil
  then show ?case by (intro exI [of _ held]) (auto simp: granted_def)
next
  case (Cons r rs)
  obtain tx txs' where txs: "txs = tx # txs'" "batch_item tx r" "list_all2 batch_item txs' rs"
    using Cons.prems(4) by (auto simp: list_all2_Cons2)
  have fit: "reads_fit (request_of tx # held)" "reads_fit (map request_of txs' @ request_of tx # held)"
    "reads_fit (map request_of txs' @ held)"
    using Cons.prems(3) unfolding txs(1) by (auto elim!: reads_fit_subset [rotated] simp: reads_fit_def)
  show ?case
  proof (cases "\<exists>L'. r = Ok (get_account_locks_unchecked tx) \<and> locks_of tx L = Ok L'")
    case True
    then obtain L' where r: "r = Ok (get_account_locks_unchecked tx)" and L': "locks_of tx L = Ok L'" by blast
    from locks_of_refines [OF Cons.prems(1) fit(1)] L'
    have ref: "represents L' (request_of tx # held)" "\<not> (\<exists>h \<in> set held. conflict (request_of tx) h)"
      by (auto split: if_splits)
    then have ex: "exclusive (request_of tx # held)" using Cons.prems(2) by auto
    obtain results' where inner: "lock_accounts_inner rs L' = (results', L1)" "results = Ok () # results'"
      using Cons.prems(5) r L' by (auto split: prod.splits)
    from Cons.IH [OF ref(1) ex fit(2) txs(3) inner(1)] show ?thesis
      by (auto simp: txs(1) inner(2) granted_def)
  next
    case False
    obtain e where e: "not_locked (Inl e)" and
      step: "(case r of Inr tal \<Rightarrow> (case lock_account (tal_writable tal) (tal_readonly tal) (tal_readonly_mev tal) L of
          Inr L' \<Rightarrow> (Ok (), L') | Inl e \<Rightarrow> (Inl e, L)) | Inl e \<Rightarrow> (Inl e, L)) = (Inl e, L)"
    proof (cases "r = Ok (get_account_locks_unchecked tx)")
      case True
      then have "locks_of tx L = Err AccountInUse"
        using False locks_of_refines [OF Cons.prems(1) fit(1)] by (auto split: if_splits)
      with True show thesis by (intro that [of "Raise AccountInUse"]) simp_all
    next
      case False
      then show thesis using txs(2) that by (auto simp: batch_item_def)
    qed
    obtain results' where inner: "lock_accounts_inner rs L = (results', L1)" "results = Inl e # results'"
      using Cons.prems(5) step by (auto split: prod.splits)
    from Cons.IH [OF Cons.prems(1,2) fit(3) txs(3) inner(1)] e show ?thesis
      by (auto simp: txs(1) inner(2) granted_def)
  qed
qed

lemma unlock_batch:
  assumes "represents L held" "exclusive held" "reads_fit held" "mset (map request_of txs) \<subseteq># mset held"
  shows "\<exists>held1. represents (fold unlocks_of txs L) held1 \<and> exclusive held1 \<and>
    mset held1 = mset held - mset (map request_of txs)"
  using assms
proof (induction txs arbitrary: L held)
  case Nil
  then show ?case by auto
next
  case (Cons tx txs)
  have mem: "request_of tx \<in> set held" using Cons.prems(4) by (auto dest!: mset_subset_eqD simp: insert_subset_eq_iff)
  have sub: "mset (map request_of txs) \<subseteq># mset (remove1 (request_of tx) held)"
    using Cons.prems(4) by (auto simp: insert_subset_eq_iff)
  have fit: "reads_fit (remove1 (request_of tx) held)"
    using Cons.prems(3) by (rule reads_fit_subset [rotated]) (simp add: mem)
  from Cons.IH [OF unlocks_of_refines [OF Cons.prems(1-3) mem] exclusive_remove1 [OF Cons.prems(2)] fit sub]
  show ?case using mem by auto
qed

lemma unlock_accounts_granted: "unlock_accounts txs results L = fold unlocks_of (granted txs results) L"
proof -
  have "fold (\<lambda>k. unlock_account (tal_writable k) (tal_readonly k) (tal_readonly_mev k))
      (map (\<lambda>(tx, _). get_account_locks_unchecked tx) xs) L = fold unlocks_of (map fst xs) L"
    for xs :: "(sanitized_transaction \<times> (unit, transaction_error) result) list"
    by (induction xs arbitrary: L) auto
  then show ?thesis by (simp add: unlock_accounts_def granted_def)
qed

lemma get_account_locks_item: "batch_item tx (get_account_locks tx limit)"
  by (simp add: batch_item_def get_account_locks_def)

lemma lock_accounts_with_results_items:
  assumes "\<forall>r \<in> set results. is_ok r \<or> not_locked r" "length results = length txs"
  shows "list_all2 batch_item txs
    (map (\<lambda>(tx, result). case result of Inr _ \<Rightarrow> get_account_locks tx limit | Inl e \<Rightarrow> Inl e) (zip txs results))"
  unfolding list_all2_conv_all_nth
proof (intro conjI allI impI)
  fix i assume i: "i < length txs"
  then have "is_ok (results ! i) \<or> not_locked (results ! i)" using assms by simp
  then show "batch_item (txs ! i) (map (\<lambda>(tx, result). case result of
      Inr _ \<Rightarrow> get_account_locks tx limit | Inl e \<Rightarrow> Inl e) (zip txs results) ! i)"
    using i assms(2) get_account_locks_item [of "txs ! i" limit]
    by (cases "results ! i") (auto simp: batch_item_def)
qed (simp add: assms(2))

section \<open>Interleavings\<close>

text \<open>
  The table under any interleaving of the threads: a transaction takes its locks or is refused, and
  a transaction that holds locks gives them back. The state is the table and the requests that
  hold locks. A grant keeps the reader counters within \<^verbatim>\<open>u64\<close>.
\<close>

inductive lock_step :: "usize \<Rightarrow> account_locks \<times> lock_request list \<Rightarrow> account_locks \<times> lock_request list \<Rightarrow> bool"
  for limit where
  grant: "get_account_locks tx limit = Ok k \<Longrightarrow>
    lock_account (tal_writable k) (tal_readonly k) (tal_readonly_mev k) L = Ok L' \<Longrightarrow>
    reads_fit (request_of tx # held) \<Longrightarrow> lock_step limit (L, held) (L', request_of tx # held)"
| refuse: "get_account_locks tx limit = Ok k \<Longrightarrow>
    lock_account (tal_writable k) (tal_readonly k) (tal_readonly_mev k) L = Inl e \<Longrightarrow>
    lock_step limit (L, held) (L, held)"
| release: "request_of tx \<in> set held \<Longrightarrow>
    lock_step limit (L, held) (unlocks_of tx L, remove1 (request_of tx) held)"

inductive_cases lock_stepE: "lock_step limit s s'"

definition lock_inv :: "account_locks \<times> lock_request list \<Rightarrow> bool" where
  "lock_inv s \<longleftrightarrow> represents (fst s) (snd s) \<and> exclusive (snd s) \<and> reads_fit (snd s)"

lemma get_account_locks_Ok: "get_account_locks tx limit = Ok k \<Longrightarrow> k = get_account_locks_unchecked tx"
  by (simp add: get_account_locks_def split: if_splits)

lemma lock_step_inv:
  assumes "lock_step limit s s'" "lock_inv s"
  shows "lock_inv s'"
  using assms
proof (induction rule: lock_step.induct)
  case (grant tx k L L' held)
  then have k: "k = get_account_locks_unchecked tx" by (simp add: get_account_locks_Ok)
  have inv: "represents L held" "exclusive held" using grant.prems by (simp_all add: lock_inv_def)
  from locks_of_refines [OF inv(1) grant.hyps(3)] grant.hyps(2) inv(2) grant.hyps(3) show ?case
    by (auto simp: k lock_inv_def split: if_splits)
next
  case (refuse tx k L e held)
  then show ?case by simp
next
  case (release tx held L)
  have inv: "represents L held" "exclusive held" "reads_fit held"
    using release.prems by (simp_all add: lock_inv_def)
  have "reads_fit (remove1 (request_of tx) held)"
    by (rule reads_fit_subset [OF _ inv(3)]) simp
  with unlocks_of_refines [OF inv release.hyps] exclusive_remove1 [OF inv(2)] show ?case
    by (simp add: lock_inv_def)
qed

lemma lock_inv_reachable:
  assumes "(lock_step limit)\<^sup>*\<^sup>* (default_account_locks, []) s"
  shows "lock_inv s"
  using assms
proof (induction rule: rtranclp_induct)
  case base
  then show ?case
    by (simp add: lock_inv_def represents_def default_account_locks_def reads_def reads_fit_def)
next
  case (step s s')
  then show ?case using lock_step_inv by blast
qed

lemma exclusive_nth: "exclusive held \<Longrightarrow> i < j \<Longrightarrow> j < length held \<Longrightarrow> \<not> conflict (held ! i) (held ! j)"
proof (induction held arbitrary: i j)
  case (Cons r held)
  then show ?case by (cases i; cases j) auto
qed simp

section \<open>Properties\<close>

text \<open>
  C30. Mutual exclusion. Under every interleaving of lock and unlock, no two transactions that hold
  locks conflict: a key that one of them writes is neither written nor read by another. The
  table is at every moment the exact union of the requests that hold locks.
\<close>

theorem locks_exclude:
  assumes "(lock_step limit)\<^sup>*\<^sup>* (default_account_locks, []) (L, held)"
  shows "represents L held \<and>
    (\<forall>i j. i < j \<and> j < length held \<longrightarrow> \<not> conflict (held ! i) (held ! j))"
  using lock_inv_reachable [OF assms] exclusive_nth by (auto simp: lock_inv_def)

text \<open>
  C7. The lock table refines the list of holders: in every reachable state a transaction is
  refused with \<^verbatim>\<open>AccountInUse\<close> iff its request conflicts with one that holds locks, and otherwise it
  is granted and becomes a holder. It never panics.
\<close>

theorem lock_table_refines:
  assumes "(lock_step limit)\<^sup>*\<^sup>* (default_account_locks, []) (L, held)"
    and "reads_fit (request_of tx # held)"
  shows "if \<exists>h \<in> set held. conflict (request_of tx) h then locks_of tx L = Err AccountInUse
    else \<exists>L'. locks_of tx L = Ok L' \<and> represents L' (request_of tx # held)"
  using locks_of_refines [OF _ assms(2)] lock_inv_reachable [OF assms(1)] by (simp add: lock_inv_def)

text \<open>
  C31. A batch gives back exactly what it took: locking a batch of transactions and unlocking it
  with the outcomes restores the table, also where some transactions of the batch were refused,
  and where transactions that failed an earlier check were passed over.
\<close>

theorem lock_unlock_batch:
  assumes "represents L held" "exclusive held" "reads_fit (map request_of txs @ held)"
    and "\<forall>r \<in> set checked. is_ok r \<or> not_locked r" "length checked = length txs"
    and "lock_accounts_with_results txs checked limit L = (results, L1)"
  shows "unlock_accounts txs results L1 = L"
proof -
  from lock_batch [OF assms(1-3) lock_accounts_with_results_items [OF assms(4,5)]] assms(6)
  obtain held1 where h: "represents L1 held1" "exclusive held1" "reads_fit held1"
    "mset held1 = mset (map request_of (granted txs results)) + mset held"
    unfolding lock_accounts_with_results_def by blast
  have "mset (map request_of (granted txs results)) \<subseteq># mset held1" using h(4) by simp
  from unlock_batch [OF h(1-3) this] obtain held2 where
    "represents (unlock_accounts txs results L1) held2" "mset held2 = mset held"
    unfolding unlock_accounts_granted using h(4) by auto
  then have "represents (unlock_accounts txs results L1) held" using represents_mset by metis
  then show ?thesis using assms(1) by (rule represents_unique)
qed

subsection \<open>Witnesses\<close>

definition example_tx :: sanitized_transaction where
  "example_tx =
     \<lparr>stx_message = SM_Legacy example_message, stx_message_hash = 0, stx_is_simple_vote_tx = False,
      stx_signatures = [[]], stx_mev_keys = None\<rparr>"

lemma example_reads: "length (snd (request_of example_tx)) \<le> 4"
proof -
  have "snd (request_of example_tx) = tal_readonly (get_account_locks_unchecked example_tx)"
    by (simp add: request_of_def get_readable_and_writable_locks_vec_def get_account_locks_unchecked_def
        example_tx_def Let_def)
  also have "length \<dots> \<le> 4"
    by (simp add: get_account_locks_unchecked_def example_tx_def example_message_def Let_def ak_iter_def
        key_segment_iter_def)
  finally show ?thesis .
qed

lemma example_reads_fit: "reads_fit [request_of example_tx]" "reads_fit [request_of example_tx, request_of example_tx]"
  using example_reads by (simp_all add: reads_fit_def)

lemma example_empty: "represents default_account_locks []" "exclusive []" "reads_fit []"
  by (simp_all add: represents_def default_account_locks_def reads_def reads_fit_def)

lemma example_locks: "get_account_locks example_tx 128 = Ok (get_account_locks_unchecked example_tx)"
  by (simp add: get_account_locks_def example_tx_def lm_has_duplicates_def example_message_def ak_len_def
      key_segment_iter_def saturating_add64_def)

lemma example_granted:
  obtains L where "locks_of example_tx default_account_locks = Ok L"
    "(lock_step 128)\<^sup>*\<^sup>* (default_account_locks, []) (L, [request_of example_tx])"
proof -
  obtain L where L: "locks_of example_tx default_account_locks = Ok L"
    using locks_of_refines [OF example_empty(1) example_reads_fit(1)] by auto
  then have "lock_step 128 (default_account_locks, []) (L, [request_of example_tx])"
    using example_locks example_reads_fit(1) by (intro lock_step.grant)
  with L show thesis by (intro that) auto
qed

theorem locks_exclude_witness:
  "\<exists>L. (lock_step 128)\<^sup>*\<^sup>* (default_account_locks, []) (L, [request_of example_tx]) \<and>
     represents L [request_of example_tx]"
proof -
  obtain L where "(lock_step 128)\<^sup>*\<^sup>* (default_account_locks, []) (L, [request_of example_tx])"
    by (rule example_granted)
  with locks_exclude [OF this] show ?thesis by blast
qed

theorem lock_table_refines_witness:
  "\<exists>L. locks_of example_tx default_account_locks = Ok L \<and> represents L [request_of example_tx]"
  using lock_table_refines [OF rtranclp.rtrancl_refl example_reads_fit(1)] by simp

theorem lock_unlock_batch_witness:
  "(let (results, L) = lock_accounts_with_results [example_tx, example_tx]
       [Ok (), Err WouldExceedMaxBlockCostLimit] 128 default_account_locks
    in unlock_accounts [example_tx, example_tx] results L) = default_account_locks"
proof -
  obtain results L where r: "lock_accounts_with_results [example_tx, example_tx]
      [Ok (), Err WouldExceedMaxBlockCostLimit] 128 default_account_locks = (results, L)" by fastforce
  have "reads_fit (map request_of [example_tx, example_tx] @ [])"
    using example_reads_fit(2) by simp
  with lock_unlock_batch [OF example_empty(1,2) _ _ _ r] r show ?thesis by simp
qed

end
