(* ===== verification/Epoch_Schedule.thy ===== *)
theory Epoch_Schedule
  imports Sysvars
begin

text \<open>
  The epoch schedule (\<^verbatim>\<open>sdk/program/src/epoch_schedule.rs\<close>): how slots are grouped into epochs. With warmup
  the epochs start at 32 slots and double until they reach the normal length. The lemmas show that
  the closed forms of the code describe one partition of the slots into consecutive epochs.
\<close>

section \<open>Operations\<close>

definition MINIMUM_SLOTS_PER_EPOCH :: u64 where "MINIMUM_SLOTS_PER_EPOCH = 32"

definition DEFAULT_LEADER_SCHEDULE_SLOT_OFFSET :: u64 where
  "DEFAULT_LEADER_SCHEDULE_SLOT_OFFSET = DEFAULT_SLOTS_PER_EPOCH"

text \<open>\<^verbatim>\<open>u64::next_power_of_two\<close>, 0 when the power does not fit, and \<^verbatim>\<open>u64::trailing_zeros\<close>.\<close>

definition next_power_of_two :: "u64 \<Rightarrow> u64" where
  "next_power_of_two n = wrap64 (if n \<le> 1 then 1 else 2 ^ bitlen (n - 1))"

fun trailing_zeros :: "u64 \<Rightarrow> nat" where
  "trailing_zeros n = (if n = 0 then 64 else if odd n then 0 else Suc (trailing_zeros (n div 2)))"

declare trailing_zeros.simps [simp del]

definition saturating_pow2 :: "nat \<Rightarrow> u64" where
  "saturating_pow2 k = min (2 ^ k) u64_max"

definition checked_div_or_0 :: "u64 \<Rightarrow> u64 \<Rightarrow> u64" where
  "checked_div_or_0 a b = (if b = 0 then 0 else a div b)"

definition checked_rem_or_0 :: "u64 \<Rightarrow> u64 \<Rightarrow> u64" where
  "checked_rem_or_0 a b = (if b = 0 then 0 else a mod b)"

definition epoch_schedule_custom :: "u64 \<Rightarrow> u64 \<Rightarrow> bool \<Rightarrow> (epoch_schedule, 'e) result" where
  "epoch_schedule_custom spe offset warm =
     bindE (assertE (spe \<ge> MINIMUM_SLOTS_PER_EPOCH)) (\<lambda>_.
     let (fne, fns) =
           (if warm then
              (let npot = next_power_of_two spe;
                   log2_slots_per_epoch = trailing_zeros npot - trailing_zeros MINIMUM_SLOTS_PER_EPOCH
               in (log2_slots_per_epoch, saturating_sub64 npot MINIMUM_SLOTS_PER_EPOCH))
            else (0, 0))
     in Ok \<lparr>slots_per_epoch = spe, leader_schedule_slot_offset = offset, warmup = warm,
            first_normal_epoch = fne, first_normal_slot = fns\<rparr>)"

definition epoch_schedule_new :: "u64 \<Rightarrow> (epoch_schedule, 'e) result" where
  "epoch_schedule_new spe = epoch_schedule_custom spe spe True"

definition without_warmup :: "(epoch_schedule, 'e) result" where
  "without_warmup =
     epoch_schedule_custom DEFAULT_SLOTS_PER_EPOCH DEFAULT_LEADER_SCHEDULE_SLOT_OFFSET False"

definition default_epoch_schedule :: "(epoch_schedule, 'e) result" where
  "default_epoch_schedule =
     epoch_schedule_custom DEFAULT_SLOTS_PER_EPOCH DEFAULT_LEADER_SCHEDULE_SLOT_OFFSET True"

text \<open>\<^verbatim>\<open>epoch as u32\<close> truncates, and the exponent is computed in 32 bits.\<close>

definition get_slots_in_epoch :: "epoch_schedule \<Rightarrow> epoch \<Rightarrow> u64" where
  "get_slots_in_epoch es epoch =
     (if epoch < first_normal_epoch es then
        saturating_pow2 (min (epoch mod 2 ^ 32 + trailing_zeros MINIMUM_SLOTS_PER_EPOCH) (2 ^ 32 - 1))
      else slots_per_epoch es)"

definition get_epoch_and_slot_index :: "epoch_schedule \<Rightarrow> slot \<Rightarrow> epoch \<times> u64" where
  "get_epoch_and_slot_index es slot =
     (if slot < first_normal_slot es then
        (let epoch = trailing_zeros (next_power_of_two
                       (saturating_add64 (saturating_add64 slot MINIMUM_SLOTS_PER_EPOCH) 1))
                     - trailing_zeros MINIMUM_SLOTS_PER_EPOCH - 1;
             epoch_len = saturating_pow2 (epoch + trailing_zeros MINIMUM_SLOTS_PER_EPOCH)
         in (epoch, saturating_sub64 slot (saturating_sub64 epoch_len MINIMUM_SLOTS_PER_EPOCH)))
      else
        (let normal_slot_index = saturating_sub64 slot (first_normal_slot es);
             normal_epoch_index = checked_div_or_0 normal_slot_index (slots_per_epoch es)
         in (saturating_add64 (first_normal_epoch es) normal_epoch_index,
             checked_rem_or_0 normal_slot_index (slots_per_epoch es))))"

definition get_epoch :: "epoch_schedule \<Rightarrow> slot \<Rightarrow> epoch" where
  "get_epoch es slot = fst (get_epoch_and_slot_index es slot)"

definition get_leader_schedule_epoch :: "epoch_schedule \<Rightarrow> slot \<Rightarrow> epoch" where
  "get_leader_schedule_epoch es slot =
     (if slot < first_normal_slot es then
        saturating_add64 (fst (get_epoch_and_slot_index es slot)) 1
      else
        (let since = saturating_sub64 slot (first_normal_slot es);
             leader_schedule_slot = saturating_add64 since (leader_schedule_slot_offset es)
         in saturating_add64 (first_normal_epoch es)
              (checked_div_or_0 leader_schedule_slot (slots_per_epoch es))))"

definition get_first_slot_in_epoch :: "epoch_schedule \<Rightarrow> epoch \<Rightarrow> slot" where
  "get_first_slot_in_epoch es epoch =
     (if epoch \<le> first_normal_epoch es then
        saturating_mul64 (saturating_sub64 (saturating_pow2 (epoch mod 2 ^ 32)) 1) MINIMUM_SLOTS_PER_EPOCH
      else
        saturating_add64
          (saturating_mul64 (saturating_sub64 epoch (first_normal_epoch es)) (slots_per_epoch es))
          (first_normal_slot es))"

definition get_last_slot_in_epoch :: "epoch_schedule \<Rightarrow> epoch \<Rightarrow> slot" where
  "get_last_slot_in_epoch es epoch =
     saturating_sub64 (saturating_add64 (get_first_slot_in_epoch es epoch) (get_slots_in_epoch es epoch)) 1"

section \<open>Powers of two\<close>

lemma trailing_zeros_pow2 [simp]: "trailing_zeros (2 ^ k) = k"
  by (induction k) (subst trailing_zeros.simps, simp)+

lemma trailing_zeros_32 [simp]: "trailing_zeros MINIMUM_SLOTS_PER_EPOCH = 5"
  using trailing_zeros_pow2 [of 5] by (simp add: MINIMUM_SLOTS_PER_EPOCH_def)

lemma trailing_zeros_numeral_32 [simp]: "trailing_zeros 32 = 5"
  using trailing_zeros_32 by (simp add: MINIMUM_SLOTS_PER_EPOCH_def)

lemma next_power_of_two_eq:
  assumes "2 ^ k < n" "n \<le> 2 ^ Suc k" "k < 63"
  shows "next_power_of_two n = 2 ^ Suc k"
proof -
  have n: "1 \<le> n - 1" using assms(1) one_le_power [of "2::nat" k] by linarith
  have "bitlen (n - 1) = Suc k"
  proof -
    have b: "2 ^ (bitlen (n - 1) - 1) \<le> n - 1" "n - 1 < 2 ^ bitlen (n - 1)" "0 < bitlen (n - 1)"
      using bitlen_bounds [of "n - 1"] n by auto
    have "(2::nat) ^ (bitlen (n - 1) - 1) < 2 ^ Suc k" "(2::nat) ^ k < 2 ^ bitlen (n - 1)"
      using b assms n by linarith+
    then have "bitlen (n - 1) - 1 < Suc k" "k < bitlen (n - 1)"
      by (simp_all only: power_strict_increasing_iff one_less_numeral_iff semiring_norm)
    then show ?thesis by simp
  qed
  moreover have "(2::nat) ^ Suc k < 2 ^ 64" by (rule power_strict_increasing) (use assms(3) in auto)
  ultimately show ?thesis using n by (simp add: next_power_of_two_def wrap64_def)
qed

lemma log2_range: "1 \<le> (n::nat) \<Longrightarrow> \<exists>k. 2 ^ k \<le> n \<and> n < 2 ^ Suc k"
  using bitlen_bounds [of n] by (intro exI [of _ "bitlen n - 1"]) auto

section \<open>The schedule as a partition of the slots\<close>

text \<open>What every schedule that the code builds satisfies, and the schedule as a function on all epochs.\<close>

definition schedule_wf :: "epoch_schedule \<Rightarrow> bool" where
  "schedule_wf es \<longleftrightarrow>
     32 \<le> slots_per_epoch es \<and> slots_per_epoch es \<le> 2 ^ 63 \<and> first_normal_epoch es \<le> 58 \<and>
     first_normal_slot es = 2 ^ (first_normal_epoch es + 5) - 32"

definition epoch_len :: "epoch_schedule \<Rightarrow> epoch \<Rightarrow> nat" where
  "epoch_len es e = (if e < first_normal_epoch es then 2 ^ (e + 5) else slots_per_epoch es)"

definition epoch_start :: "epoch_schedule \<Rightarrow> epoch \<Rightarrow> nat" where
  "epoch_start es e = (\<Sum>e' < e. epoch_len es e')"

lemma custom_wf:
  assumes "epoch_schedule_custom spe offset warm = Ok es" "spe \<le> 2 ^ 63"
  shows "schedule_wf es" "slots_per_epoch es = spe" "leader_schedule_slot_offset es = offset"
proof -
  have spe: "32 \<le> spe" and eqs: "slots_per_epoch es = spe" "leader_schedule_slot_offset es = offset"
    and normal: "(if warm then first_normal_epoch es = trailing_zeros (next_power_of_two spe) - 5 \<and>
       first_normal_slot es = next_power_of_two spe - 32
     else first_normal_epoch es = 0 \<and> first_normal_slot es = 0)"
    using assms(1)
    by (auto simp: epoch_schedule_custom_def result_simps MINIMUM_SLOTS_PER_EPOCH_def Let_def
        saturating_sub64_def split: if_splits)
  obtain k where k: "2 ^ k \<le> spe - 1" "spe - 1 < 2 ^ Suc k" using log2_range [of "spe - 1"] spe by fastforce
  have "(2::nat) ^ k < 2 ^ 63" "(2::nat) ^ 4 < 2 ^ Suc k" using k assms(2) spe by auto
  then have k63: "k < 63" "4 < Suc k"
    by (simp_all only: power_strict_increasing_iff one_less_numeral_iff semiring_norm)
  have np: "next_power_of_two spe = 2 ^ Suc k" "trailing_zeros (2 ^ Suc k) = Suc k"
    using next_power_of_two_eq [of k spe] k spe k63 trailing_zeros_pow2 [of "Suc k"] by auto
  show "schedule_wf es"
    using spe assms(2) normal k63 by (simp add: schedule_wf_def eqs np del: power_Suc split: if_splits)
  show "slots_per_epoch es = spe" "leader_schedule_slot_offset es = offset" by (fact eqs)+
qed

lemma epoch_start_closed:
  assumes "schedule_wf es"
  shows "epoch_start es e = (if e \<le> first_normal_epoch es then 2 ^ (e + 5) - 32
    else first_normal_slot es + (e - first_normal_epoch es) * slots_per_epoch es)"
proof (induction e)
  case 0
  then show ?case by (simp add: epoch_start_def)
next
  case (Suc e)
  have "epoch_start es (Suc e) = epoch_start es e + epoch_len es e" by (simp add: epoch_start_def)
  moreover have "(32::nat) \<le> 2 ^ (e + 5)" by (simp add: power_add)
  moreover have "(2::nat) ^ (Suc e + 5) = 2 ^ (e + 5) + 2 ^ (e + 5)" by (simp add: power_add)
  ultimately show ?case
    using Suc assms by (cases e "first_normal_epoch es" rule: linorder_cases)
      (simp_all add: epoch_len_def schedule_wf_def Suc_diff_le)
qed

lemma schedule_wf_bounds:
  assumes "schedule_wf es" "e \<le> first_normal_epoch es"
  shows "e \<le> 58" "(2::nat) ^ (e + 5) \<le> 2 ^ 63" "(2::nat) ^ e < 2 ^ 63" "e mod 2 ^ 32 = e"
proof -
  show e: "e \<le> 58" using assms by (simp add: schedule_wf_def)
  then show "(2::nat) ^ (e + 5) \<le> 2 ^ 63" by (intro power_increasing) auto
  show "(2::nat) ^ e < 2 ^ 63" using e by (intro power_strict_increasing) auto
  show "e mod 2 ^ 32 = e" using e by simp
qed

lemma get_slots_in_epoch_eq:
  assumes "schedule_wf es"
  shows "get_slots_in_epoch es e = epoch_len es e"
proof (cases "e < first_normal_epoch es")
  case True
  then have le: "e \<le> first_normal_epoch es" by simp
  note b = schedule_wf_bounds [OF assms le]
  have "(2::nat) ^ (e + 5) \<le> u64_max" using b(2) by simp
  then show ?thesis using True b(1,4) by (simp add: get_slots_in_epoch_def epoch_len_def saturating_pow2_def)
qed (simp add: get_slots_in_epoch_def epoch_len_def)

lemma get_first_slot_in_epoch_eq:
  assumes "schedule_wf es"
  shows "get_first_slot_in_epoch es e = min (epoch_start es e) u64_max"
proof (cases "e \<le> first_normal_epoch es")
  case True
  note b = schedule_wf_bounds [OF assms this]
  have "(2 ^ e - 1) * 32 = 2 ^ (e + 5) - (32::nat)" by (simp add: power_add algebra_simps)
  then show ?thesis
    using True b
    by (simp add: get_first_slot_in_epoch_def epoch_start_closed [OF assms] saturating_pow2_def
        saturating_sub64_def saturating_mul64_def MINIMUM_SLOTS_PER_EPOCH_def)
next
  case False
  then show ?thesis
    by (simp add: get_first_slot_in_epoch_def epoch_start_closed [OF assms] int_ops min_def)
qed

lemma epoch_start_strict_mono: "schedule_wf es \<Longrightarrow> e < e' \<Longrightarrow> epoch_start es e + epoch_len es e \<le> epoch_start es e'"
  using sum_mono2 [of "{..<e'}" "{..<Suc e}" "epoch_len es"] by (simp add: epoch_start_def)

text \<open>The epoch and the index of a slot in the schedule.\<close>

lemma slot_index_warmup:
  assumes "schedule_wf es" "slot < first_normal_slot es" "get_epoch_and_slot_index es slot = (e, i)"
  shows "epoch_start es e + i = slot \<and> i < epoch_len es e \<and> e < first_normal_epoch es"
proof -
  have fns: "first_normal_slot es = 2 ^ (first_normal_epoch es + 5) - 32"
    using assms(1) by (simp add: schedule_wf_def)
  have up: "slot + 32 < 2 ^ (first_normal_epoch es + 5)" using assms(2) fns by simp
  also have "\<dots> \<le> 2 ^ 63" by (rule schedule_wf_bounds(2) [OF assms(1) order_refl])
  finally have small: "slot + 32 < 2 ^ 63" .
  obtain k where k: "2 ^ k \<le> slot + 32" "slot + 32 < 2 ^ Suc k" using log2_range [of "slot + 32"] by auto
  have "(2::nat) ^ k < 2 ^ (first_normal_epoch es + 5)" "(2::nat) ^ k < 2 ^ 63" "(2::nat) ^ 5 < 2 ^ Suc k"
    using k up small by (linarith, linarith, simp)
  then have k5: "k < first_normal_epoch es + 5" "k < 63" "5 < Suc k"
    by (simp_all only: power_strict_increasing_iff one_less_numeral_iff semiring_norm)
  have np: "next_power_of_two (33 + slot) = 2 ^ Suc k" using k k5 by (intro next_power_of_two_eq) auto
  have k6: "k - 5 < first_normal_epoch es" "k - 5 + 5 = k" using k5 by arith+
  have pk: "(2::nat) ^ k \<le> u64_max" using k small by simp
  have tz: "trailing_zeros (2 ^ Suc k) = Suc k" by (rule trailing_zeros_pow2)
  have n: "saturating_add64 (saturating_add64 slot 32) (Suc 0) = 33 + slot"
    using small by (simp add: saturating_add64_def)
  have "trailing_zeros (next_power_of_two (33 + slot)) - 5 - 1 = k - 5" unfolding np tz by simp
  moreover have "saturating_pow2 (k - 5 + 5) = 2 ^ k" unfolding k6(2) saturating_pow2_def using pk by simp
  ultimately have ei: "e = k - 5" "i = slot - (2 ^ k - 32)"
    using assms(2,3) by (simp_all add: get_epoch_and_slot_index_def n Let_def saturating_sub64_def MINIMUM_SLOTS_PER_EPOCH_def)
  have "epoch_start es e = 2 ^ k - 32" "epoch_len es e = 2 ^ k"
    using k6 by (simp_all add: ei(1) epoch_start_closed [OF assms(1)] epoch_len_def)
  moreover have "(32::nat) \<le> 2 ^ k" using k5(3) power_increasing [of 5 k "2::nat"] by simp
  ultimately show ?thesis using ei k k6 by simp
qed

lemma slot_index_normal:
  assumes "schedule_wf es" "first_normal_slot es \<le> slot" "slot \<le> u64_max"
  defines "n \<equiv> slot - first_normal_slot es"
  shows "get_epoch_and_slot_index es slot =
      (first_normal_epoch es + n div slots_per_epoch es, n mod slots_per_epoch es)"
    and "first_normal_epoch es + n div slots_per_epoch es \<le> slot"
proof -
  have l: "32 \<le> slots_per_epoch es" "first_normal_slot es = 32 * 2 ^ first_normal_epoch es - 32"
    using assms(1) by (auto simp: schedule_wf_def power_add)
  moreover have "first_normal_epoch es < 2 ^ first_normal_epoch es" by (rule less_exp)
  ultimately show "first_normal_epoch es + n div slots_per_epoch es \<le> slot"
    using assms(2) div_le_dividend [of n "slots_per_epoch es"] unfolding n_def by linarith
  then show "get_epoch_and_slot_index es slot =
      (first_normal_epoch es + n div slots_per_epoch es, n mod slots_per_epoch es)"
    using l assms(2,3)
    by (simp add: get_epoch_and_slot_index_def saturating_add64_def saturating_sub64_def
        checked_div_or_0_def checked_rem_or_0_def n_def Let_def)
qed

lemma slot_index:
  assumes "schedule_wf es" "slot \<le> u64_max" "get_epoch_and_slot_index es slot = (e, i)"
  shows "epoch_start es e + i = slot" "i < epoch_len es e" "e \<le> slot"
proof -
  have "epoch_start es e + i = slot \<and> i < epoch_len es e"
  proof (cases "slot < first_normal_slot es")
    case True
    then show ?thesis using slot_index_warmup [OF assms(1) _ assms(3)] by simp
  next
    case False
    then have ge: "first_normal_slot es \<le> slot" by simp
    let ?n = "slot - first_normal_slot es" and ?l = "slots_per_epoch es"
    have e: "e = first_normal_epoch es + ?n div ?l" "i = ?n mod ?l"
      using slot_index_normal(1) [OF assms(1) ge assms(2)] assms(3) by auto
    have "epoch_start es e = first_normal_slot es + ?n div ?l * ?l" "0 < ?l"
      using assms(1) by (auto simp: e(1) epoch_start_closed schedule_wf_def)
    then show ?thesis using ge e by (simp add: epoch_len_def)
  qed
  then show s: "epoch_start es e + i = slot" and "i < epoch_len es e" by simp_all
  have "e \<le> epoch_start es e"
    using sum_mono [of "{..<e}" "\<lambda>_. 1" "epoch_len es"] assms(1)
    by (simp add: epoch_start_def epoch_len_def schedule_wf_def)
  with s show "e \<le> slot" by simp
qed

lemma epoch_start_le_iff:
  assumes "schedule_wf es" "epoch_start es e + i = slot" "i < epoch_len es e"
  shows "epoch_start es e' \<le> slot \<longleftrightarrow> e' \<le> e"
proof (cases "e' \<le> e")
  case True
  then have "epoch_start es e' \<le> epoch_start es e"
    unfolding epoch_start_def by (intro sum_mono2) auto
  with True assms(2) show ?thesis by simp
qed (use epoch_start_strict_mono [OF assms(1), of e e'] assms(2,3) in simp)

section \<open>Properties\<close>

text \<open>
  C20. The epochs of a schedule partition the slots: every slot lies in the epoch that the code
  computes for it, at the computed index; that epoch is the last one whose first slot is not after
  the slot; and each epoch starts right after the last slot of the one before it.
\<close>

theorem epoch_schedule_partition:
  assumes "epoch_schedule_custom spe offset warm = Ok es" "spe \<le> 2 ^ 63"
    and "slot < u64_max" "get_epoch_and_slot_index es slot = (e, i)"
  shows "get_first_slot_in_epoch es e + i = slot \<and> i < get_slots_in_epoch es e \<and>
    (get_first_slot_in_epoch es e' \<le> slot \<longleftrightarrow> e' \<le> get_epoch es slot) \<and>
    (get_first_slot_in_epoch es (e' + 1) < u64_max \<longrightarrow>
      get_last_slot_in_epoch es e' + 1 = get_first_slot_in_epoch es (e' + 1))"
proof -
  note wf = custom_wf(1) [OF assms(1,2)]
  note si = slot_index [OF wf _ assms(4)]
  have "epoch_start es e + i = slot" "i < epoch_len es e" using si assms(3) by auto
  moreover have "epoch_start es e' \<le> slot \<longleftrightarrow> e' \<le> e" by (rule epoch_start_le_iff [OF wf calculation])
  moreover have "epoch_start es (e' + 1) = epoch_start es e' + epoch_len es e'" "0 < epoch_len es e'"
    using wf by (simp_all add: epoch_start_def epoch_len_def schedule_wf_def)
  ultimately show ?thesis
    using assms(3,4)
    by (auto simp: get_first_slot_in_epoch_eq [OF wf] get_slots_in_epoch_eq [OF wf] get_epoch_def
        get_last_slot_in_epoch_def int_ops min_def split: if_splits)
qed

text \<open>
  When the leader schedule is computed a whole epoch ahead, as in the schedules that
  \<^verbatim>\<open>EpochSchedule::new\<close> builds, the stakes of a slot are saved for the epoch after the slot's own.
\<close>

theorem leader_schedule_epoch_next:
  assumes "epoch_schedule_new spe = Ok es" "spe \<le> 2 ^ 63" "slot + spe \<le> u64_max"
  shows "get_leader_schedule_epoch es slot = get_epoch es slot + 1"
proof -
  obtain e i where ei: "get_epoch_and_slot_index es slot = (e, i)" by (cases "get_epoch_and_slot_index es slot")
  note wf = custom_wf [OF assms(1) [unfolded epoch_schedule_new_def] assms(2)]
  have l: "32 \<le> spe" using wf by (simp add: schedule_wf_def)
  have e: "e \<le> slot" using slot_index(3) [OF wf(1) _ ei] assms(3) by simp
  show ?thesis
  proof (cases "slot < first_normal_slot es")
    case True
    then show ?thesis
      using e ei assms(3) l by (simp add: get_leader_schedule_epoch_def get_epoch_def int_ops)
  next
    case False
    let ?n = "slot - first_normal_slot es"
    have "(?n + spe) div spe = ?n div spe + 1" using l by (simp add: div_add_self2)
    then show ?thesis
      using slot_index_normal [OF wf(1), of slot] False assms(3) l wf(2,3)
      by (simp add: get_leader_schedule_epoch_def get_epoch_def saturating_add64_def saturating_sub64_def
          checked_div_or_0_def)
  qed
qed

definition example_schedule :: epoch_schedule where
  "example_schedule = \<lparr>slots_per_epoch = 100, leader_schedule_slot_offset = 100, warmup = True,
     first_normal_epoch = 2, first_normal_slot = 96\<rparr>"

theorem epoch_schedule_partition_witness:
  "(epoch_schedule_custom 100 100 True :: (_, unit) result) = Ok example_schedule \<and>
   get_epoch_and_slot_index example_schedule 250 = (3, 54) \<and>
   get_first_slot_in_epoch example_schedule 3 + 54 = 250 \<and> 54 < get_slots_in_epoch example_schedule 3"
proof -
  have "(epoch_schedule_custom 100 100 True :: (_, unit) result) = Ok example_schedule"
    using next_power_of_two_eq [of 6 100] trailing_zeros_pow2 [of 7]
    by (simp add: epoch_schedule_custom_def MINIMUM_SLOTS_PER_EPOCH_def saturating_sub64_def example_schedule_def)
  moreover have "get_epoch_and_slot_index example_schedule 250 = (3, 54)"
    by (simp add: get_epoch_and_slot_index_def int_ops checked_div_or_0_def checked_rem_or_0_def example_schedule_def)
  ultimately show ?thesis
    using epoch_schedule_partition [of 100 100 True example_schedule 250 3 54, where 'a = unit] by simp
qed

theorem leader_schedule_epoch_next_witness:
  "\<exists>es. (epoch_schedule_new 100 :: (_, unit) result) = Ok es \<and> get_leader_schedule_epoch es 250 = get_epoch es 250 + 1"
proof -
  obtain es where "(epoch_schedule_new 100 :: (_, unit) result) = Ok es"
    by (simp add: epoch_schedule_new_def epoch_schedule_custom_def MINIMUM_SLOTS_PER_EPOCH_def Let_def)
  with leader_schedule_epoch_next [OF this, of 250] show ?thesis by auto
qed

end
