(* ===== verification/Rent_Collector.thy ===== *)
theory Rent_Collector
  imports Epoch_Schedule Account_Locks
begin

text \<open>
  Rent (\<^verbatim>\<open>runtime/src/rent_collector.rs\<close>, \<^verbatim>\<open>runtime/src/account_rent_state.rs\<close>, \<^verbatim>\<open>RentDebits\<close> of
  \<^verbatim>\<open>runtime/src/bank.rs\<close>): what is collected from an account that is not exempt, and which changes of
  the rent state of an account a transaction may make.
\<close>

section \<open>Collection\<close>

record rent_collector =
  rc_epoch :: epoch
  rc_epoch_schedule :: epoch_schedule
  rc_slots_per_year :: f64
  rc_rent :: rent

record collected_info =
  rent_amount :: u64
  account_data_len_reclaimed :: u64

definition default_collected_info :: collected_info where
  "default_collected_info = \<lparr>rent_amount = 0, account_data_len_reclaimed = 0\<rparr>"

definition add_collected_info :: "collected_info \<Rightarrow> collected_info \<Rightarrow> collected_info" where
  "add_collected_info a b =
     \<lparr>rent_amount = wrap64 (rent_amount a + rent_amount b),
      account_data_len_reclaimed = wrap64 (account_data_len_reclaimed a + account_data_len_reclaimed b)\<rparr>"

datatype rent_result = LeaveAloneNoRent | CollectRent epoch u64

definition clone_with_epoch :: "epoch \<Rightarrow> rent_collector \<Rightarrow> rent_collector" where
  "clone_with_epoch epoch rc = rc\<lparr>rc_epoch := epoch\<rparr>"

definition incinerator_id :: pubkey where
  "incinerator_id = 91106140082008105212422571994992178116422996362626429044886782625177403392"

definition default_account :: account_shared_data where
  "default_account = \<lparr>acc_lamports = 0, acc_data = [], acc_owner = 0, acc_executable = False, acc_rent_epoch = 0\<rparr>"

definition should_collect_rent :: "pubkey \<Rightarrow> account_shared_data \<Rightarrow> bool" where
  "should_collect_rent address account = (\<not> (acc_executable account \<or> address = incinerator_id))"

text \<open>The filler accounts of load tests share the bytes of their keys after the first 12.\<close>

definition is_filler_account_helper :: "pubkey \<Rightarrow> pubkey option \<Rightarrow> bool" where
  "is_filler_account_helper pubkey filler_account_suffix =
     (case filler_account_suffix of
        Some filler \<Rightarrow> drop 12 (to_bytes pubkey) = drop 12 (to_bytes filler)
      | None \<Rightarrow> False)"

fun f64_is_zero :: "f64 \<Rightarrow> bool" where
  "f64_is_zero (F64 _ m _) = (m = 0)"
| "f64_is_zero _ = False"

definition get_rent_due :: "rent_collector \<Rightarrow> account_shared_data \<Rightarrow> rent_due" where
  "get_rent_due rc account =
     (if is_exempt (rc_rent rc) (acc_lamports account) (length (acc_data account)) then Exempt
      else
        (let slots_elapsed = wrap64 (sum_list (map (\<lambda>epoch. get_slots_in_epoch (rc_epoch_schedule rc) (wrap64 (epoch + 1)))
               [acc_rent_epoch account..<rc_epoch rc + 1]));
             years_elapsed =
               (if \<not> f64_is_zero (rc_slots_per_year rc) then f64_div (f64_of_nat slots_elapsed) (rc_slots_per_year rc)
                else f64_of_nat 0)
         in Paying (due_amount (rc_rent rc) (length (acc_data account)) years_elapsed)))"

definition can_skip_rent_collection ::
  "rent_collector \<Rightarrow> pubkey \<Rightarrow> account_shared_data \<Rightarrow> pubkey option \<Rightarrow> bool" where
  "can_skip_rent_collection rc address account filler_account_suffix =
     (\<not> should_collect_rent address account \<or> acc_rent_epoch account > rc_epoch rc \<or>
      is_filler_account_helper address filler_account_suffix)"

definition calculate_rent_result ::
  "rent_collector \<Rightarrow> pubkey \<Rightarrow> account_shared_data \<Rightarrow> pubkey option \<Rightarrow> bool \<Rightarrow> rent_result" where
  "calculate_rent_result rc address account filler_account_suffix preserve =
     (if can_skip_rent_collection rc address account filler_account_suffix then LeaveAloneNoRent
      else
        (case get_rent_due rc account of
           Exempt \<Rightarrow> if preserve then LeaveAloneNoRent else CollectRent (rc_epoch rc) 0
         | Paying rent_due \<Rightarrow>
             if rent_due = 0 then LeaveAloneNoRent else CollectRent (wrap64 (rc_epoch rc + 1)) rent_due))"

definition collect_from_existing_account ::
  "rent_collector \<Rightarrow> pubkey \<Rightarrow> account_shared_data \<Rightarrow> pubkey option \<Rightarrow> bool \<Rightarrow>
     account_shared_data \<times> collected_info" where
  "collect_from_existing_account rc address account filler_account_suffix preserve =
     (case calculate_rent_result rc address account filler_account_suffix preserve of
        LeaveAloneNoRent \<Rightarrow> (account, default_collected_info)
      | CollectRent new_rent_epoch rent_due \<Rightarrow>
          (case checked_sub64 (acc_lamports account) rent_due of
             None \<Rightarrow> (default_account,
               \<lparr>rent_amount = acc_lamports account, account_data_len_reclaimed = length (acc_data account)\<rparr>)
           | Some lamports \<Rightarrow>
               if lamports = 0 then (default_account,
                 \<lparr>rent_amount = acc_lamports account, account_data_len_reclaimed = length (acc_data account)\<rparr>)
               else (set_rent_epoch new_rent_epoch (set_lamports lamports account),
                 \<lparr>rent_amount = rent_due, account_data_len_reclaimed = 0\<rparr>)))"

definition collect_from_created_account ::
  "rent_collector \<Rightarrow> pubkey \<Rightarrow> account_shared_data \<Rightarrow> bool \<Rightarrow> account_shared_data \<times> collected_info" where
  "collect_from_created_account rc address account preserve =
     collect_from_existing_account rc address (set_rent_epoch (rc_epoch rc) account) None preserve"

record rent_debit =
  rent_collected :: u64
  post_balance :: u64

type_synonym rent_debits = "pubkey \<rightharpoonup> rent_debit"

definition get_account_rent_debit :: "rent_debits \<Rightarrow> pubkey \<Rightarrow> u64" where
  "get_account_rent_debit debits address =
     (case debits address of Some r \<Rightarrow> rent_collected r | None \<Rightarrow> 0)"

definition insert_rent_debit :: "pubkey \<Rightarrow> u64 \<Rightarrow> u64 \<Rightarrow> rent_debits \<Rightarrow> rent_debits" where
  "insert_rent_debit address collected balance debits =
     (if collected \<noteq> 0
      then debits(address \<mapsto> \<lparr>rent_collected = collected, post_balance = balance\<rparr>) else debits)"

section \<open>Rent states\<close>

datatype rent_state = RS_Uninitialized | RS_RentPaying u64 usize | RS_RentExempt

definition rent_state_from_account :: "account_shared_data \<Rightarrow> rent \<Rightarrow> rent_state" where
  "rent_state_from_account account rent =
     (if acc_lamports account = 0 then RS_Uninitialized
      else if is_exempt rent (acc_lamports account) (length (acc_data account)) then RS_RentExempt
      else RS_RentPaying (acc_lamports account) (length (acc_data account)))"

fun transition_allowed_from :: "rent_state \<Rightarrow> rent_state \<Rightarrow> bool \<Rightarrow> bool \<Rightarrow> bool" where
  "transition_allowed_from (RS_RentPaying post_lamports post_data_size) pre support_realloc prevent_crediting =
     (case pre of
        RS_RentPaying pre_lamports pre_data_size \<Rightarrow>
          if support_realloc \<and> post_data_size \<noteq> pre_data_size then False
          else if prevent_crediting then post_lamports \<le> pre_lamports
          else True
      | _ \<Rightarrow> False)"
| "transition_allowed_from _ _ _ _ = True"

text \<open>The metrics are left out; \<^verbatim>\<open>account_index as u8\<close> truncates.\<close>

definition check_rent_state_with_account ::
  "rent_state \<Rightarrow> rent_state \<Rightarrow> pubkey \<Rightarrow> bool \<Rightarrow> nat option \<Rightarrow> bool \<Rightarrow> (unit, transaction_error) result" where
  "check_rent_state_with_account pre post address support_realloc account_index prevent_crediting =
     (if address \<noteq> incinerator_id \<and> \<not> transition_allowed_from post pre support_realloc prevent_crediting
      then (case account_index of
              Some account_index \<Rightarrow> Err (InsufficientFundsForRent (account_index mod 256))
            | None \<Rightarrow> Err InvalidRentPayingAccount)
      else Ok ())"

section \<open>Lemmas\<close>

lemmas rent_collection = collect_from_existing_account_def calculate_rent_result_def
  can_skip_rent_collection_def should_collect_rent_def

lemma collect_conserves:
  assumes "collect_from_existing_account rc address account filler preserve = (account', info)"
  shows "acc_lamports account' + rent_amount info = acc_lamports account"
  using assms
  by (auto simp: collect_from_existing_account_def default_collected_info_def default_account_def
      set_lamports_def set_rent_epoch_def checked_sub64_def split: rent_result.splits if_splits)

text \<open>The three outcomes: the account is left as it is but for its rent epoch, pays, or is reclaimed.\<close>

lemma collect_cases:
  assumes "collect_from_existing_account rc address account filler preserve = (account', info)"
  obtains (untouched) "account' = account" "rent_amount info = 0" "account_data_len_reclaimed info = 0"
    | (exempt) "account' = set_rent_epoch (rc_epoch rc) account" "rent_amount info = 0"
        "is_exempt (rc_rent rc) (acc_lamports account) (length (acc_data account))"
        "account_data_len_reclaimed info = 0" "should_collect_rent address account"
    | (paid) r where "get_rent_due rc account = Paying r" "0 < r" "rent_amount info = r" "r < acc_lamports account"
        "account' = set_rent_epoch (wrap64 (rc_epoch rc + 1)) (set_lamports (acc_lamports account - r) account)"
        "account_data_len_reclaimed info = 0" "should_collect_rent address account"
    | (reclaimed) "account' = default_account" "rent_amount info = acc_lamports account"
        "rent_due_lamports (get_rent_due rc account) \<ge> acc_lamports account"
        "account_data_len_reclaimed info = length (acc_data account)" "should_collect_rent address account"
proof -
  have exempt_iff: "get_rent_due rc account = Exempt \<longleftrightarrow>
      is_exempt (rc_rent rc) (acc_lamports account) (length (acc_data account))"
    by (simp add: get_rent_due_def Let_def)
  show ?thesis
  proof (cases "calculate_rent_result rc address account filler preserve")
    case LeaveAloneNoRent
    then show ?thesis
      using assms untouched by (auto simp: collect_from_existing_account_def default_collected_info_def)
  next
    case (CollectRent e r)
    then have sc: "should_collect_rent address account"
      and due: "get_rent_due rc account = Exempt \<and> e = rc_epoch rc \<and> r = 0 \<or>
        get_rent_due rc account = Paying r \<and> e = wrap64 (rc_epoch rc + 1) \<and> 0 < r"
      by (auto simp: calculate_rent_result_def can_skip_rent_collection_def split: if_splits rent_due.splits)
    show ?thesis
    proof (cases "acc_lamports account \<le> r")
      case True
      then show ?thesis
        using assms CollectRent due sc reclaimed
        by (auto simp: collect_from_existing_account_def checked_sub64_def split: if_splits)
    next
      case False
      then show ?thesis
        using assms CollectRent due sc paid exempt
        by (auto simp: collect_from_existing_account_def checked_sub64_def exempt_iff set_lamports_def
            split: if_splits)
    qed
  qed
qed

section \<open>Properties\<close>

text \<open>
  Who owes rent, and how much: an account below the exempt balance of its size, which is neither executable nor the
  incinerator nor a filler account and whose rent epoch has come, owes the yearly rent of its size for the slots of the
  epochs since its rent epoch, the next one counted for each.
\<close>

definition owes_rent :: "rent_collector \<Rightarrow> pubkey \<Rightarrow> pubkey option \<Rightarrow> account_shared_data \<Rightarrow> bool" where
  "owes_rent rc address filler account \<longleftrightarrow>
     \<not> acc_executable account \<and> address \<noteq> incinerator_id \<and> \<not> is_filler_account_helper address filler \<and>
     acc_rent_epoch account \<le> rc_epoch rc \<and>
     acc_lamports account < minimum_balance (rc_rent rc) (length (acc_data account))"

definition rent_owed :: "rent_collector \<Rightarrow> account_shared_data \<Rightarrow> u64" where
  "rent_owed rc account =
     due_amount (rc_rent rc) (length (acc_data account))
       (if f64_is_zero (rc_slots_per_year rc) then f64_of_nat 0
        else f64_div
          (f64_of_nat (wrap64 (\<Sum>e \<in> {acc_rent_epoch account..rc_epoch rc}. get_slots_in_epoch (rc_epoch_schedule rc) (wrap64 (e + 1)))))
          (rc_slots_per_year rc))"

lemma get_rent_due_owed:
  "get_rent_due rc account =
     (if acc_lamports account < minimum_balance (rc_rent rc) (length (acc_data account)) then Paying (rent_owed rc account)
      else Exempt)"
proof -
  have "sum_list (map f [a..<b + 1]) = sum f {a..b}" for f :: "nat \<Rightarrow> nat" and a b
    by (simp only: interv_sum_list_conv_sum_set_nat set_upt Suc_eq_plus1 [symmetric] atLeastLessThanSuc_atLeastAtMost)
  then show ?thesis by (simp add: get_rent_due_def rent_owed_def is_exempt_def Let_def not_le)
qed

text \<open>What is collected, case by case.\<close>

lemma collect_owed:
  "owes_rent rc address filler account \<Longrightarrow> collect_from_existing_account rc address account filler preserve =
     (if rent_owed rc account = 0 then (account, default_collected_info)
      else if acc_lamports account \<le> rent_owed rc account then
        (default_account, \<lparr>rent_amount = acc_lamports account, account_data_len_reclaimed = length (acc_data account)\<rparr>)
      else (set_rent_epoch (wrap64 (rc_epoch rc + 1)) (set_lamports (acc_lamports account - rent_owed rc account) account),
        \<lparr>rent_amount = rent_owed rc account, account_data_len_reclaimed = 0\<rparr>))"
  by (auto simp: owes_rent_def rent_collection get_rent_due_owed checked_sub64_def)

lemma collect_not_owed:
  "\<not> owes_rent rc address filler account \<Longrightarrow> 0 < acc_lamports account \<Longrightarrow>
   collect_from_existing_account rc address account filler preserve \<in>
     {(account, default_collected_info), (set_rent_epoch (rc_epoch rc) account, default_collected_info)}"
  by (auto simp: owes_rent_def rent_collection get_rent_due_owed checked_sub64_def default_collected_info_def set_lamports_def
      split: if_splits)

lemma collect_again:
  assumes "collect_from_existing_account rc address account filler preserve = (account', info)" "rc_epoch rc < u64_max"
    and "collect_from_existing_account rc address account' filler preserve = (account'', info')"
  shows "rent_amount info' = 0"
  using assms(1)
proof (cases rule: collect_cases)
  case untouched
  then show ?thesis using assms(1,3) by simp
next
  case exempt
  then have "get_rent_due rc account' = Exempt" by (simp add: get_rent_due_def set_rent_epoch_def)
  with assms(3) show ?thesis by (cases rule: collect_cases) auto
next
  case (paid r)
  then have "rc_epoch rc < acc_rent_epoch account'" using assms(2) by (simp add: set_rent_epoch_def wrap64_def)
  then show ?thesis using assms(3) by (auto simp: rent_collection default_collected_info_def)
next
  case reclaimed
  then show ?thesis using collect_conserves [OF assms(3)] by (simp add: default_account_def)
qed

text \<open>
  C13. Collecting rent from an account that holds lamports takes exactly what the account owes, or all it has: an
  account that owes no rent keeps its lamports and changes at most its rent epoch; one that owes at least what it has
  is reclaimed, its lamports collected and its data counted; every other one pays what it owes and its rent epoch
  becomes the next epoch. Collecting a second time in the epoch takes nothing.
\<close>

theorem rent_collected_once:
  assumes "collect_from_existing_account rc address account filler preserve = (account', info)"
    and "0 < acc_lamports account" "rc_epoch rc < u64_max"
    and "collect_from_existing_account rc address account' filler preserve = (account'', info')"
  defines "owed \<equiv> if owes_rent rc address filler account then rent_owed rc account else 0"
  shows "rent_amount info = min (acc_lamports account) owed \<and>
    acc_lamports account' = acc_lamports account - rent_amount info \<and>
    (owed = 0 \<longrightarrow> account_data_len_reclaimed info = 0 \<and> account' \<in> {account, set_rent_epoch (rc_epoch rc) account}) \<and>
    (acc_lamports account \<le> owed \<longrightarrow> account_data_len_reclaimed info = length (acc_data account) \<and> account' = default_account) \<and>
    (0 < owed \<and> owed < acc_lamports account \<longrightarrow> account_data_len_reclaimed info = 0 \<and>
       account' = account\<lparr>acc_lamports := acc_lamports account - owed, acc_rent_epoch := rc_epoch rc + 1\<rparr>) \<and>
    rent_amount info' = 0 \<and> acc_lamports account'' = acc_lamports account'"
proof -
  note conserve = collect_conserves [OF assms(1)] collect_conserves [OF assms(4)]
  have again: "rent_amount info' = 0" by (rule collect_again [OF assms(1,3,4)])
  show ?thesis
  proof (cases "owes_rent rc address filler account")
    case True
    then show ?thesis
      using collect_owed [OF True, of preserve] assms(1-3) conserve again unfolding owed_def
      by (auto simp: default_collected_info_def set_lamports_def set_rent_epoch_def wrap64_def split: if_splits)
  next
    case False
    then show ?thesis
      using collect_not_owed [OF False assms(2), of preserve] assms(1,2) conserve again unfolding owed_def
      by (auto simp: default_collected_info_def)
  qed
qed

text \<open>
  C32. With the rent rules in force an account never becomes rent-paying: if the states of an account
  along a sequence of allowed transitions end in a rent-paying one, it was rent-paying from the
  start, with data of the same size and no fewer lamports.
\<close>

theorem never_becomes_rent_paying:
  assumes "successively (\<lambda>pre post. is_ok (check_rent_state_with_account pre post address True index True)) states"
    and "address \<noteq> incinerator_id" "states \<noteq> []" "last states = RS_RentPaying lamports n"
  shows "\<exists>l. hd states = RS_RentPaying l n \<and> lamports \<le> l"
  using assms
proof (induction states)
  case (Cons s states)
  show ?case
  proof (cases states)
    case (Cons s' rest)
    then obtain l where l: "s' = RS_RentPaying l n" "lamports \<le> l"
      using Cons.IH Cons.prems by auto
    have "transition_allowed_from s' s True True"
      using Cons Cons.prems(1,2) by (auto simp: check_rent_state_with_account_def is_ok_def split: if_splits option.splits)
    with l show ?thesis by (cases s) (auto split: if_splits)
  qed (use Cons.prems in simp)
qed simp

section \<open>Witnesses\<close>

definition example_rent_collector :: rent_collector where
  "example_rent_collector = \<lparr>rc_epoch = 3, rc_epoch_schedule = example_schedule, rc_slots_per_year = f64_of_nat 100,
     rc_rent = \<lparr>lamports_per_byte_year = 10, exemption_threshold = f64_of_nat 2, burn_percent = 50\<rparr>\<rparr>"

definition example_rent_payer :: account_shared_data where
  "example_rent_payer = \<lparr>acc_lamports = 2000, acc_data = [1, 2], acc_owner = 5, acc_executable = False, acc_rent_epoch = 3\<rparr>"

lemma example_rent_due: "get_rent_due example_rent_collector example_rent_payer = Paying 1300"
proof -
  have "get_slots_in_epoch example_schedule 4 = 100" by (simp add: get_slots_in_epoch_def example_schedule_def)
  moreover have "[3..<4] = [3::nat]" by simp
  ultimately show ?thesis
    by (simp add: example_rent_collector_def example_rent_payer_def get_rent_due_def is_exempt_def
        minimum_balance_def due_amount_def wrap64_def ACCOUNT_STORAGE_OVERHEAD_def f64_eval)
qed

lemma example_collection:
  "collect_from_existing_account example_rent_collector 9 example_rent_payer None True =
     (example_rent_payer\<lparr>acc_lamports := 700, acc_rent_epoch := 4\<rparr>, \<lparr>rent_amount = 1300, account_data_len_reclaimed = 0\<rparr>)"
  using example_rent_due
  by (simp add: rent_collection incinerator_id_def is_filler_account_helper_def checked_sub64_def set_rent_epoch_def
      set_lamports_def wrap64_def) (simp add: example_rent_collector_def example_rent_payer_def)

theorem rent_collected_once_witness:
  "\<exists>account'' info'. collect_from_existing_account example_rent_collector 9
       (example_rent_payer\<lparr>acc_lamports := 700, acc_rent_epoch := 4\<rparr>) None True = (account'', info') \<and>
     rent_owed example_rent_collector example_rent_payer = 1300 \<and> rent_amount info' = 0 \<and> acc_lamports account'' = 700"
proof -
  let ?paid = "example_rent_payer\<lparr>acc_lamports := 700, acc_rent_epoch := 4\<rparr>"
  obtain account'' info' where again:
    "collect_from_existing_account example_rent_collector 9 ?paid None True = (account'', info')"
    by (cases "collect_from_existing_account example_rent_collector 9 ?paid None True")
  have "0 < acc_lamports example_rent_payer" "rc_epoch example_rent_collector < u64_max"
    by (simp_all add: example_rent_collector_def example_rent_payer_def)
  moreover have "rent_owed example_rent_collector example_rent_payer = 1300"
    using example_rent_due by (simp add: get_rent_due_owed split: if_splits)
  ultimately show ?thesis using rent_collected_once [OF example_collection _ _ again] again by simp
qed

theorem never_becomes_rent_paying_witness:
  "successively (\<lambda>pre post. is_ok (check_rent_state_with_account pre post 9 True None True))
     [RS_RentPaying 8 2, RS_RentPaying 5 2] \<and>
   (\<exists>l. RS_RentPaying 8 2 = RS_RentPaying l 2 \<and> 5 \<le> l)"
proof -
  have "successively (\<lambda>pre post. is_ok (check_rent_state_with_account pre post 9 True None True))
     [RS_RentPaying 8 2, RS_RentPaying 5 2]"
    by (simp add: check_rent_state_with_account_def)
  with never_becomes_rent_paying [OF this] show ?thesis by (simp add: incinerator_id_def)
qed

end
