(* ===== verification/Instructions_Sysvar.thy ===== *)
theory Instructions_Sysvar
  imports Messages
begin

text \<open>
  The instructions sysvar (\<^verbatim>\<open>sdk/program/src/sysvar/instructions.rs\<close> with \<^verbatim>\<open>sdk/program/src/serialize_utils.rs\<close>):
  the account that shows a program the instructions of its transaction. They are serialised with a
  table of 16 bit offsets, and the last two bytes hold the index of the current instruction.
\<close>

unbundle bit_operations_syntax

section \<open>Buffers\<close>

definition u16_to_le_bytes :: "nat \<Rightarrow> bytes" where
  "u16_to_le_bytes n = [of_nat (n mod 256), of_nat (n div 256 mod 256)]"

definition u16_from_le_bytes :: "8 word \<Rightarrow> 8 word \<Rightarrow> nat" where
  "u16_from_le_bytes lo hi = unat lo + 256 * unat hi"

definition append_u16 :: "nat \<Rightarrow> bytes \<Rightarrow> bytes" where
  "append_u16 data buf = buf @ u16_to_le_bytes data"

definition append_u8 :: "8 word \<Rightarrow> bytes \<Rightarrow> bytes" where
  "append_u8 data buf = buf @ [data]"

definition append_slice :: "bytes \<Rightarrow> bytes \<Rightarrow> bytes" where
  "append_slice data buf = buf @ data"

text \<open>\<^verbatim>\<open>data[start..start + 2].copy_from_slice(..)\<close> on a range inside the buffer.\<close>

definition put_u16 :: "nat \<Rightarrow> nat \<Rightarrow> bytes \<Rightarrow> bytes" where
  "put_u16 start v data = take start data @ u16_to_le_bytes v @ drop (start + 2) data"

definition pubkey_from_bytes :: "bytes \<Rightarrow> pubkey" where
  "pubkey_from_bytes bs = fold (\<lambda>b w. push_bit 8 w OR ucast b) bs 0"

text \<open>The readers return the value and the new position.\<close>

definition read_u8 :: "nat \<Rightarrow> bytes \<Rightarrow> (8 word \<times> nat, sanitize_error) result" where
  "read_u8 current data =
     (if length data < current + 1 then Err SanE_IndexOutOfBounds
      else Ok (data ! current, current + 1))"

definition read_pubkey :: "nat \<Rightarrow> bytes \<Rightarrow> (pubkey \<times> nat, sanitize_error) result" where
  "read_pubkey current data =
     (if length data < current + 32 then Err SanE_IndexOutOfBounds
      else Ok (pubkey_from_bytes (take 32 (drop current data)), current + 32))"

definition read_u16 :: "nat \<Rightarrow> bytes \<Rightarrow> (nat \<times> nat, sanitize_error) result" where
  "read_u16 current data =
     (if length data < current + 2 then Err SanE_IndexOutOfBounds
      else Ok (u16_from_le_bytes (data ! current) (data ! (current + 1)), current + 2))"

definition read_slice :: "nat \<Rightarrow> bytes \<Rightarrow> nat \<Rightarrow> (bytes \<times> nat, sanitize_error) result" where
  "read_slice current data data_len =
     (if length data < current + data_len then Err SanE_IndexOutOfBounds
      else Ok (take data_len (drop current data), current + data_len))"

section \<open>The sysvar\<close>

definition account_meta_flags :: "account_meta \<Rightarrow> 8 word" where
  "account_meta_flags am =
     (let flags = (0 :: 8 word);
          flags = (if am_is_signer am then flags OR 1 else flags)
      in if am_is_writable am then flags OR 2 else flags)"

definition serialize_account_meta :: "account_meta \<Rightarrow> bytes \<Rightarrow> bytes" where
  "serialize_account_meta am data = append_slice (to_bytes (am_pubkey am)) (append_u8 (account_meta_flags am) data)"

definition serialize_instruction :: "nat \<times> instruction \<Rightarrow> bytes \<Rightarrow> bytes" where
  "serialize_instruction = (\<lambda>(i, ix) data.
     (let start_instruction_offset = length data mod 2 ^ 16;
          data = put_u16 (2 + 2 * i) start_instruction_offset data;
          data = append_u16 (length (ix_accounts ix) mod 2 ^ 16) data;
          data = fold serialize_account_meta (ix_accounts ix) data;
          data = append_slice (to_bytes (ix_program_id ix)) data;
          data = append_u16 (length (ix_data ix) mod 2 ^ 16) data
      in append_slice (ix_data ix) data))"

definition serialize_instructions :: "instruction list \<Rightarrow> bytes" where
  "serialize_instructions ixs =
     fold serialize_instruction (List.enumerate 0 ixs)
       (fold (\<lambda>_. append_u16 0) [0..<length ixs] (append_u16 (length ixs mod 2 ^ 16) []))"

definition construct_instructions_data :: "instruction list \<Rightarrow> bytes" where
  "construct_instructions_data ixs = serialize_instructions ixs @ [0, 0]"

text \<open>The two bytes at the end; a shorter account panics.\<close>

definition load_current_index :: "bytes \<Rightarrow> (nat, 'e) result" where
  "load_current_index data =
     (if length data < 2 then panic
      else Ok (u16_from_le_bytes (data ! (length data - 2)) (data ! (length data - 1))))"

definition store_current_index :: "nat \<Rightarrow> bytes \<Rightarrow> (bytes, 'e) result" where
  "store_current_index instruction_index data =
     (if length data < 2 then panic else Ok (put_u16 (length data - 2) instruction_index data))"

fun read_account_metas ::
  "nat \<Rightarrow> nat \<Rightarrow> bytes \<Rightarrow> (account_meta list \<times> nat, sanitize_error) result" where
  "read_account_metas 0 current data = Ok ([], current)"
| "read_account_metas (Suc n) current data =
     bindE (read_u8 current data) (\<lambda>(meta_byte, current).
     bindE (read_pubkey current data) (\<lambda>(pubkey, current).
     bindE (read_account_metas n current data) (\<lambda>(accounts, current).
     Ok (\<lparr>am_pubkey = pubkey, am_is_signer = bit meta_byte 0, am_is_writable = bit meta_byte 1\<rparr> # accounts,
         current))))"

definition deserialize_instruction :: "nat \<Rightarrow> bytes \<Rightarrow> (instruction, sanitize_error) result" where
  "deserialize_instruction index data =
     bindE (read_u16 0 data) (\<lambda>(num_instructions, current).
     if index \<ge> num_instructions then Err SanE_IndexOutOfBounds
     else
       bindE (read_u16 (current + index * 2) data) (\<lambda>(start, _).
       bindE (read_u16 start data) (\<lambda>(num_accounts, current).
       bindE (read_account_metas num_accounts current data) (\<lambda>(accounts, current).
       bindE (read_pubkey current data) (\<lambda>(program_id, current).
       bindE (read_u16 current data) (\<lambda>(data_len, current).
       bindE (read_slice current data data_len) (\<lambda>(data, _).
       Ok \<lparr>ix_program_id = program_id, ix_accounts = accounts, ix_data = data\<rparr>)))))))"

text \<open>The checked accessors get the key and the data of the account.\<close>

definition load_current_index_checked :: "pubkey \<Rightarrow> bytes \<Rightarrow> (nat, program_error) result" where
  "load_current_index_checked key data =
     (if key \<noteq> instructions_id then Err PE_UnsupportedSysvar else load_current_index data)"

definition sysvar_error :: "sanitize_error \<Rightarrow> program_error" where
  "sysvar_error e = (if e = SanE_IndexOutOfBounds then PE_InvalidArgument else PE_InvalidInstructionData)"

definition load_instruction_at_checked :: "nat \<Rightarrow> pubkey \<Rightarrow> bytes \<Rightarrow> (instruction, program_error) result" where
  "load_instruction_at_checked index key data =
     (if key \<noteq> instructions_id then Err PE_UnsupportedSysvar
      else map_err sysvar_error (deserialize_instruction index data))"

definition get_instruction_relative :: "int \<Rightarrow> pubkey \<Rightarrow> bytes \<Rightarrow> (instruction, program_error) result" where
  "get_instruction_relative index_relative_to_current key data =
     (if key \<noteq> instructions_id then Err PE_UnsupportedSysvar
      else
        bindE (load_current_index data) (\<lambda>current_index.
        let index = max (- (2 ^ 63)) (min (2 ^ 63 - 1) (int current_index + index_relative_to_current)) in
        if index < 0 then Err PE_InvalidArgument
        else map_err sysvar_error (deserialize_instruction (nat index) data)))"

section \<open>Reading back what was written\<close>

lemma length_u16_to_le_bytes [simp]: "length (u16_to_le_bytes n) = 2"
  by (simp add: u16_to_le_bytes_def)

lemma u16_bytes_roundtrip: "n < 2 ^ 16 \<Longrightarrow> u16_from_le_bytes (u16_to_le_bytes n ! 0) (u16_to_le_bytes n ! 1) = n"
  by (simp add: u16_from_le_bytes_def u16_to_le_bytes_def unat_of_nat)

lemma byte_step: "push_bit 8 (drop_bit (n + 8) w) OR ucast (ucast (drop_bit n w) :: 8 word) = drop_bit n (w :: 256 word)"
proof (rule bit_word_eqI)
  fix i assume "i < LENGTH(256)"
  then show "bit (push_bit 8 (drop_bit (n + 8) w) OR ucast (ucast (drop_bit n w) :: 8 word)) i = bit (drop_bit n w) i"
    by (cases "i < 8") (auto simp: bit_simps ac_simps dest: bit_imp_le_length)
qed

lemma pubkey_prefix:
  "k \<le> 32 \<Longrightarrow> fold (\<lambda>b w. push_bit 8 w OR ucast b) (take k (to_bytes w)) 0 = drop_bit (8 * (32 - k)) w"
proof (induction k)
  case 0
  show ?case by (rule bit_word_eqI) (auto simp: bit_simps dest: bit_imp_le_length)
next
  case (Suc k)
  have "to_bytes w ! k = ucast (drop_bit (8 * (31 - k)) w)"
    using Suc.prems by (simp add: to_bytes_def rev_nth)
  moreover have "8 * (32 - k) = 8 * (31 - k) + 8" using Suc.prems by simp
  ultimately show ?case
    using Suc byte_step [of "8 * (31 - k)" w] by (simp add: take_Suc_conv_app_nth)
qed

lemma pubkey_from_to_bytes [simp]: "pubkey_from_bytes (to_bytes w) = w"
  using pubkey_prefix [of 32 w] by (simp add: pubkey_from_bytes_def)

lemma read_u8_at [simp]: "read_u8 (length pre) (pre @ b # post) = Ok (b, length pre + 1)"
  by (simp add: read_u8_def nth_append)

lemma read_u16_at:
  "n < 2 ^ 16 \<Longrightarrow> read_u16 (length pre) (pre @ u16_to_le_bytes n @ post) = Ok (n, length pre + 2)"
  using u16_bytes_roundtrip [of n] by (simp add: read_u16_def nth_append u16_to_le_bytes_def)

lemma read_pubkey_at [simp]: "read_pubkey (length pre) (pre @ to_bytes k @ post) = Ok (k, length pre + 32)"
  by (simp add: read_pubkey_def)

lemma read_slice_at [simp]: "read_slice (length pre) (pre @ bs @ post) (length bs) = Ok (bs, length pre + length bs)"
  by (simp add: read_slice_def)

lemma account_meta_flags_bits [simp]:
  "bit (account_meta_flags am) 0 = am_is_signer am" "bit (account_meta_flags am) (Suc 0) = am_is_writable am"
  by (simp_all add: account_meta_flags_def bit_simps)

text \<open>The bytes of an account and of an instruction.\<close>

definition meta_bytes :: "account_meta \<Rightarrow> bytes" where
  "meta_bytes am = account_meta_flags am # to_bytes (am_pubkey am)"

definition instruction_bytes :: "instruction \<Rightarrow> bytes" where
  "instruction_bytes ix =
     u16_to_le_bytes (length (ix_accounts ix)) @ concat (map meta_bytes (ix_accounts ix)) @
     to_bytes (ix_program_id ix) @ u16_to_le_bytes (length (ix_data ix)) @ ix_data ix"

lemma fold_serialize_account_meta: "fold serialize_account_meta ams data = data @ concat (map meta_bytes ams)"
  by (induction ams arbitrary: data)
    (simp_all add: serialize_account_meta_def append_slice_def append_u8_def meta_bytes_def)

lemma read_account_metas_at:
  "read_account_metas (length ams) (length pre) (pre @ concat (map meta_bytes ams) @ post) =
     Ok (ams, length pre + length (concat (map meta_bytes ams)))"
proof (induction ams arbitrary: pre)
  case (Cons am ams)
  have "read_pubkey (Suc (length pre)) (pre @ account_meta_flags am # to_bytes (am_pubkey am) @ rest) =
      Ok (am_pubkey am, length pre + 33)" for rest
    using read_pubkey_at [of "pre @ [account_meta_flags am]" "am_pubkey am" rest] by simp
  moreover have "read_account_metas (length ams) (length pre + 33)
      (pre @ account_meta_flags am # to_bytes (am_pubkey am) @ concat (map meta_bytes ams) @ post) =
      Ok (ams, length pre + 33 + length (concat (map meta_bytes ams)))"
    using Cons.IH [of "pre @ meta_bytes am"] by (simp add: meta_bytes_def [of am] ac_simps)
  ultimately show ?case by (simp add: meta_bytes_def [of am])
qed simp


text \<open>
  The serialised form: the count, the table of offsets, and the instructions. After \<open>i\<close> rounds of the
  loop the first \<open>i\<close> entries of the table are filled in.
\<close>

definition offset_of :: "instruction list \<Rightarrow> nat \<Rightarrow> nat" where
  "offset_of ixs i = 2 + 2 * length ixs + length (concat (map instruction_bytes (take i ixs)))"

definition sizes_fit :: "instruction list \<Rightarrow> bool" where
  "sizes_fit ixs \<longleftrightarrow> length ixs < 2 ^ 16 \<and>
     2 + 2 * length ixs + length (concat (map instruction_bytes ixs)) \<le> 2 ^ 16 \<and>
     (\<forall>ix \<in> set ixs. length (ix_accounts ix) < 2 ^ 16 \<and> length (ix_data ix) < 2 ^ 16)"

definition filled :: "instruction list \<Rightarrow> nat \<Rightarrow> bytes" where
  "filled ixs i = u16_to_le_bytes (length ixs) @ concat (map (\<lambda>j. u16_to_le_bytes (offset_of ixs j mod 2 ^ 16)) [0..<i]) @
     replicate (2 * (length ixs - i)) 0 @ concat (map instruction_bytes (take i ixs))"

lemma length_table [simp]: "length (concat (map (\<lambda>j. u16_to_le_bytes (f j)) js)) = 2 * length js"
  by (induction js) auto

lemma length_filled: "i \<le> length ixs \<Longrightarrow> length (filled ixs i) = offset_of ixs i"
  by (simp add: filled_def offset_of_def)

lemma filled_step:
  assumes "i < length ixs" "sizes_fit ixs"
  shows "serialize_instruction (i, ixs ! i) (filled ixs i) = filled ixs (Suc i)"
proof -
  let ?ix = "ixs ! i" and ?pre = "u16_to_le_bytes (length ixs) @
    concat (map (\<lambda>j. u16_to_le_bytes (offset_of ixs j mod 2 ^ 16)) [0..<i])"
  have "2 * (length ixs - i) = Suc (Suc (2 * (length ixs - Suc i)))" using assms(1) by simp
  then have f: "filled ixs i = ?pre @ [0, 0] @ replicate (2 * (length ixs - Suc i)) 0 @
      concat (map instruction_bytes (take i ixs))"
    by (simp add: filled_def)
  have "put_u16 (2 + 2 * i) v (filled ixs i) = ?pre @ u16_to_le_bytes v @ replicate (2 * (length ixs - Suc i)) 0 @
      concat (map instruction_bytes (take i ixs))" for v
    unfolding f put_u16_def by simp
  moreover have "length (ix_accounts ?ix) mod 2 ^ 16 = length (ix_accounts ?ix)" "length (ix_data ?ix) mod 2 ^ 16 = length (ix_data ?ix)"
    using assms by (auto simp: sizes_fit_def)
  ultimately show ?thesis
    using assms(1) length_filled [of i ixs]
    by (simp add: serialize_instruction_def Let_def append_u16_def append_slice_def fold_serialize_account_meta
        filled_def [of ixs "Suc i"] take_Suc_conv_app_nth instruction_bytes_def [of ?ix])
qed

lemma serialize_instructions_eq:
  assumes "sizes_fit ixs"
  shows "serialize_instructions ixs = filled ixs (length ixs)"
proof -
  have "fold serialize_instruction (take k (List.enumerate 0 ixs)) (filled ixs 0) = filled ixs k" if "k \<le> length ixs" for k
    using that
  proof (induction k)
    case (Suc k)
    then have "List.enumerate 0 ixs ! k = (k, ixs ! k)" by (simp add: nth_enumerate_eq)
    then show ?case using Suc assms by (simp add: take_Suc_conv_app_nth filled_step)
  qed simp
  from this [of "length ixs"] have "fold serialize_instruction (List.enumerate 0 ixs) (filled ixs 0) = filled ixs (length ixs)"
    by simp
  moreover have "fold (\<lambda>_. append_u16 0) js buf = buf @ replicate (2 * length js) 0" for js :: "nat list" and buf
    by (induction js arbitrary: buf) (simp_all add: append_u16_def u16_to_le_bytes_def)
  moreover have "length ixs mod 2 ^ 16 = length ixs" using assms by (simp add: sizes_fit_def)
  ultimately show ?thesis
    by (simp add: serialize_instructions_def filled_def [of ixs 0] append_u16_def)
qed

text \<open>Reading an instruction at its offset.\<close>

lemma read_instruction_at:
  fixes pre post :: bytes
  assumes "length (ix_accounts ix) < 2 ^ 16" "length (ix_data ix) < 2 ^ 16"
  defines "data \<equiv> pre @ instruction_bytes ix @ post"
  shows "bindE (read_u16 (length pre) data) (\<lambda>(num_accounts, current).
       bindE (read_account_metas num_accounts current data) (\<lambda>(accounts, current).
       bindE (read_pubkey current data) (\<lambda>(program_id, current).
       bindE (read_u16 current data) (\<lambda>(data_len, current).
       bindE (read_slice current data data_len) (\<lambda>(d, _).
       Ok \<lparr>ix_program_id = program_id, ix_accounts = accounts, ix_data = d\<rparr>))))) = Ok ix"
proof -
  let ?n = "u16_to_le_bytes (length (ix_accounts ix))" and ?m = "concat (map meta_bytes (ix_accounts ix))"
    and ?p = "to_bytes (ix_program_id ix)" and ?l = "u16_to_le_bytes (length (ix_data ix))"
  have d: "data = pre @ ?n @ ?m @ ?p @ ?l @ ix_data ix @ post" by (simp add: data_def instruction_bytes_def)
  have "read_u16 (length pre) data = Ok (length (ix_accounts ix), length (pre @ ?n))"
    unfolding d using read_u16_at [OF assms(1)] by simp
  moreover have "read_account_metas (length (ix_accounts ix)) (length (pre @ ?n)) data =
      Ok (ix_accounts ix, length (pre @ ?n @ ?m))"
    unfolding d using read_account_metas_at [of "ix_accounts ix" "pre @ ?n"] by simp
  moreover have "read_pubkey (length (pre @ ?n @ ?m)) data = Ok (ix_program_id ix, length (pre @ ?n @ ?m @ ?p))"
    unfolding d using read_pubkey_at [of "pre @ ?n @ ?m"] by simp
  moreover have "read_u16 (length (pre @ ?n @ ?m @ ?p)) data = Ok (length (ix_data ix), length (pre @ ?n @ ?m @ ?p @ ?l))"
    unfolding d using read_u16_at [OF assms(2), of "pre @ ?n @ ?m @ ?p"] by simp
  moreover have "read_slice (length (pre @ ?n @ ?m @ ?p @ ?l)) data (length (ix_data ix)) =
      Ok (ix_data ix, length (pre @ ?n @ ?m @ ?p @ ?l @ ix_data ix))"
    unfolding d using read_slice_at [of "pre @ ?n @ ?m @ ?p @ ?l" "ix_data ix" post] by simp
  ultimately show ?thesis by simp
qed

lemma deserialize_filled:
  assumes "sizes_fit ixs"
  shows "deserialize_instruction i (filled ixs (length ixs) @ tail) =
    (if i < length ixs then Ok (ixs ! i) else Err SanE_IndexOutOfBounds)"
proof -
  let ?data = "filled ixs (length ixs) @ tail"
  let ?table = "\<lambda>js. concat (map (\<lambda>j. u16_to_le_bytes (offset_of ixs j mod 2 ^ 16)) js)"
  have data: "?data = u16_to_le_bytes (length ixs) @ ?table [0..<length ixs] @ concat (map instruction_bytes ixs) @ tail"
    by (simp add: filled_def)
  have n: "read_u16 0 ?data = Ok (length ixs, 2)"
    using read_u16_at [of "length ixs" "[]"] assms by (simp add: data sizes_fit_def)
  show ?thesis
  proof (cases "i < length ixs")
    case True
    let ?ix = "ixs ! i"
    have split: "ixs = take i ixs @ ?ix # drop (Suc i) ixs" by (rule id_take_nth_drop [OF True])
    have "length (concat (map instruction_bytes ixs)) =
        length (concat (map instruction_bytes (take i ixs))) + length (instruction_bytes ?ix) +
        length (concat (map instruction_bytes (drop (Suc i) ixs)))"
      by (subst split) simp
    moreover have "2 \<le> length (instruction_bytes ?ix)" by (simp add: instruction_bytes_def)
    ultimately have small: "offset_of ixs i < 2 ^ 16" using assms by (simp add: sizes_fit_def offset_of_def)
    have "[0..<length ixs] = [0..<i] @ i # [Suc i..<length ixs]" using True upt_conv_Cons upt_add_eq_append
      by (metis le_add_diff_inverse less_imp_le zero_le)
    then have start: "read_u16 (Suc (Suc (i * 2))) ?data = Ok (offset_of ixs i, Suc (Suc (i * 2)) + 2)"
      unfolding data
      using read_u16_at [OF small, of "u16_to_le_bytes (length ixs) @ ?table [0..<i]"] small by (simp add: mult.commute)
    let ?pre = "u16_to_le_bytes (length ixs) @ ?table [0..<length ixs] @ concat (map instruction_bytes (take i ixs))"
      and ?post = "concat (map instruction_bytes (drop (Suc i) ixs)) @ tail"
    have "concat (map instruction_bytes ixs) = concat (map instruction_bytes (take i ixs)) @ instruction_bytes ?ix @
        concat (map instruction_bytes (drop (Suc i) ixs))"
      by (subst split) simp
    then have body: "?data = ?pre @ instruction_bytes ?ix @ ?post" unfolding data by simp
    have pre: "length ?pre = offset_of ixs i" by (simp add: offset_of_def)
    have "?ix \<in> set ixs" using True by simp
    then have lens: "length (ix_accounts ?ix) < 2 ^ 16" "length (ix_data ?ix) < 2 ^ 16"
      using assms by (auto simp: sizes_fit_def)
    from read_instruction_at [OF lens, of ?pre ?post, unfolded pre, folded body] show ?thesis
      using True by (simp add: deserialize_instruction_def n start)
  next
    case False
    then show ?thesis by (simp add: deserialize_instruction_def n)
  qed
qed

section \<open>Properties\<close>

text \<open>
  C34. The instructions sysvar shows a program exactly the instructions of its transaction, whatever
  index is stored as the current one: an index in range gives that instruction, any other index is
  refused as out of bounds; and the stored index is read back.
\<close>

theorem instructions_sysvar_roundtrip:
  assumes "sizes_fit ixs" "current < 2 ^ 16"
  shows "\<exists>data. (store_current_index current (construct_instructions_data ixs) :: (_, 'e) result) = Ok data \<and>
    (load_current_index data :: (_, 'e) result) = Ok current \<and>
    load_instruction_at_checked i instructions_id data =
      (if i < length ixs then Ok (ixs ! i) else Err PE_InvalidArgument)"
proof -
  let ?data = "serialize_instructions ixs @ u16_to_le_bytes current"
  have "(store_current_index current (construct_instructions_data ixs) :: (_, 'e) result) = Ok ?data"
    by (simp add: store_current_index_def construct_instructions_data_def put_u16_def)
  moreover have "(load_current_index ?data :: (_, 'e) result) = Ok current"
    using u16_bytes_roundtrip [OF assms(2)] by (simp add: load_current_index_def nth_append)
  moreover have "load_instruction_at_checked i instructions_id ?data =
      (if i < length ixs then Ok (ixs ! i) else Err PE_InvalidArgument)"
    by (simp add: load_instruction_at_checked_def serialize_instructions_eq [OF assms(1)]
        deserialize_filled [OF assms(1)] sysvar_error_def)
  ultimately show ?thesis by blast
qed

theorem instructions_sysvar_roundtrip_witness:
  "\<exists>data. (store_current_index 1 (construct_instructions_data
       [\<lparr>ix_program_id = 5, ix_accounts = [\<lparr>am_pubkey = 6, am_is_signer = True, am_is_writable = False\<rparr>], ix_data = [1, 2]\<rparr>,
        \<lparr>ix_program_id = 7, ix_accounts = [], ix_data = []\<rparr>]) :: (_, unit) result) = Ok data \<and>
     load_instruction_at_checked 1 instructions_id data = Ok \<lparr>ix_program_id = 7, ix_accounts = [], ix_data = []\<rparr>"
proof -
  let ?ixs = "[\<lparr>ix_program_id = 5, ix_accounts = [\<lparr>am_pubkey = 6, am_is_signer = True, am_is_writable = False\<rparr>], ix_data = [1, 2]\<rparr>,
        \<lparr>ix_program_id = 7, ix_accounts = [], ix_data = []\<rparr>]"
  have "sizes_fit ?ixs" by (simp add: sizes_fit_def instruction_bytes_def meta_bytes_def)
  from instructions_sysvar_roundtrip [OF this, of 1 1, where 'e = unit] show ?thesis by auto
qed

end
