(* ===== verification/Transactions.thy ===== *)
theory Transactions
  imports Account_Locks Message_Properties
begin

text \<open>
  Transactions (\<^verbatim>\<open>sdk/src/transaction/mod.rs\<close>): a legacy message with its signatures, how it is signed, and
  the step to a sanitized transaction (\<^verbatim>\<open>sdk/src/transaction/sanitized.rs\<close>).

  Ed25519 is a parameter: a keypair is its public key and the function that signs a message. The
  hash of a message is a parameter too.
\<close>

section \<open>Signing\<close>

type_synonym signature = bytes

definition default_signature :: signature where "default_signature = replicate 64 0"

record keypair =
  kp_pubkey :: pubkey
  kp_sign :: "legacy_message \<Rightarrow> signature"

record transaction =
  tx_signatures :: "signature list"
  tx_message :: legacy_message

text \<open>The errors of signers that hold the key; those of remote signers do not arise here.\<close>

datatype signer_error =
    KeypairPubkeyMismatch | NotEnoughSigners | SgnE_TransactionError transaction_error

definition transaction_sanitize :: "transaction \<Rightarrow> (unit, sanitize_error) result" where
  "transaction_sanitize tx =
     (if num_required_signatures (lm_header (tx_message tx)) > length (tx_signatures tx)
      then Err SanE_IndexOutOfBounds
      else if length (tx_signatures tx) > length (lm_account_keys (tx_message tx))
      then Err SanE_IndexOutOfBounds
      else legacy_sanitize (tx_message tx))"

definition new_unsigned :: "legacy_message \<Rightarrow> transaction" where
  "new_unsigned message =
     \<lparr>tx_signatures = replicate (num_required_signatures (lm_header message)) default_signature,
      tx_message = message\<rparr>"

definition is_signed :: "transaction \<Rightarrow> bool" where
  "is_signed tx = list_all (\<lambda>s. s \<noteq> default_signature) (tx_signatures tx)"

definition get_signing_keypair_positions ::
  "transaction \<Rightarrow> pubkey list \<Rightarrow> (nat option list, transaction_error) result" where
  "get_signing_keypair_positions tx pubkeys =
     (let keys = lm_account_keys (tx_message tx); n = num_required_signatures (lm_header (tx_message tx)) in
      if length keys < n then Err InvalidAccountIndex
      else Ok (map (position (take n keys)) pubkeys))"

text \<open>\<^verbatim>\<open>self.signatures[pos] = signature\<close>, with its bounds check.\<close>

definition put_signature :: "nat \<times> signature \<Rightarrow> transaction \<Rightarrow> (transaction, 'e) result" where
  "put_signature = (\<lambda>(pos, s) tx.
     bindE (assertE (pos < length (tx_signatures tx))) (\<lambda>_.
     Ok (tx\<lparr>tx_signatures := (tx_signatures tx)[pos := s]\<rparr>)))"

definition try_partial_sign_unchecked ::
  "keypair list \<Rightarrow> nat list \<Rightarrow> hash \<Rightarrow> transaction \<Rightarrow> (transaction, signer_error) result" where
  "try_partial_sign_unchecked keypairs positions recent_blockhash tx =
     (let tx = (if recent_blockhash \<noteq> lm_recent_blockhash (tx_message tx) then
                  \<lparr>tx_signatures = map (\<lambda>_. default_signature) (tx_signatures tx),
                   tx_message = (tx_message tx)\<lparr>lm_recent_blockhash := recent_blockhash\<rparr>\<rparr>
                else tx);
          signatures = map (\<lambda>kp. kp_sign kp (tx_message tx)) keypairs
      in foldE put_signature (zip positions signatures) tx)"

definition try_partial_sign ::
  "keypair list \<Rightarrow> hash \<Rightarrow> transaction \<Rightarrow> (transaction, signer_error) result" where
  "try_partial_sign keypairs recent_blockhash tx =
     bindE (map_err SgnE_TransactionError (get_signing_keypair_positions tx (map kp_pubkey keypairs))) (\<lambda>positions.
     if list_ex (\<lambda>pos. pos = None) positions then Err KeypairPubkeyMismatch
     else try_partial_sign_unchecked keypairs (map the positions) recent_blockhash tx)"

definition try_sign :: "keypair list \<Rightarrow> hash \<Rightarrow> transaction \<Rightarrow> (transaction, signer_error) result" where
  "try_sign keypairs recent_blockhash tx =
     bindE (try_partial_sign keypairs recent_blockhash tx) (\<lambda>tx.
     if \<not> is_signed tx then Err NotEnoughSigners else Ok tx)"

definition tx_sign :: "keypair list \<Rightarrow> hash \<Rightarrow> transaction \<Rightarrow> (transaction, 'e) result" where
  "tx_sign keypairs recent_blockhash tx =
     (case try_sign keypairs recent_blockhash tx of Inl _ \<Rightarrow> panic | Inr tx \<Rightarrow> Ok tx)"

definition transaction_new :: "keypair list \<Rightarrow> legacy_message \<Rightarrow> hash \<Rightarrow> (transaction, 'e) result" where
  "transaction_new from_keypairs message recent_blockhash =
     tx_sign from_keypairs recent_blockhash (new_unsigned message)"

definition new_signed_with_payer ::
  "instruction list \<Rightarrow> pubkey option \<Rightarrow> keypair list \<Rightarrow> hash \<Rightarrow> (transaction, 'e) result" where
  "new_signed_with_payer instructions payer signing_keypairs recent_blockhash =
     bindE (message_new instructions payer) (\<lambda>message.
     transaction_new signing_keypairs message recent_blockhash)"

text \<open>A \<^verbatim>\<open>SanitizeError\<close> becomes \<^verbatim>\<open>TransactionError::SanitizeFailure\<close>.\<close>

definition try_from_legacy_transaction ::
  "(legacy_message \<Rightarrow> hash) \<Rightarrow> transaction \<Rightarrow> (sanitized_transaction, transaction_error) result" where
  "try_from_legacy_transaction message_hash tx =
     bindE (map_err (\<lambda>_. SanitizeFailure) (transaction_sanitize tx)) (\<lambda>_.
     Ok \<lparr>stx_message = SM_Legacy (tx_message tx), stx_message_hash = message_hash (tx_message tx),
         stx_is_simple_vote_tx = False, stx_signatures = tx_signatures tx, stx_mev_keys = None\<rparr>)"

section \<open>Keys of instructions\<close>

definition key_index :: "transaction \<Rightarrow> usize \<Rightarrow> usize \<Rightarrow> usize option" where
  "key_index tx instruction_index accounts_index =
     Option.bind (slice_get (lm_instructions (tx_message tx)) instruction_index) (\<lambda>instruction.
     slice_get (ci_accounts instruction) accounts_index)"

definition tx_key :: "transaction \<Rightarrow> usize \<Rightarrow> usize \<Rightarrow> pubkey option" where
  "tx_key tx instruction_index accounts_index =
     Option.bind (key_index tx instruction_index accounts_index) (slice_get (lm_account_keys (tx_message tx)))"

definition tx_signer_key :: "transaction \<Rightarrow> usize \<Rightarrow> usize \<Rightarrow> pubkey option" where
  "tx_signer_key tx instruction_index accounts_index =
     (case key_index tx instruction_index accounts_index of
        None \<Rightarrow> None
      | Some signature_index \<Rightarrow>
          if signature_index \<ge> length (tx_signatures tx) then None
          else slice_get (lm_account_keys (tx_message tx)) signature_index)"

definition uses_durable_nonce ::
  "(bytes \<Rightarrow> system_instruction option) \<Rightarrow> transaction \<Rightarrow> compiled_instruction option" where
  "uses_durable_nonce decode tx =
     (let message = tx_message tx in
      case slice_get (lm_instructions message) 0 of
        None \<Rightarrow> None
      | Some instruction \<Rightarrow>
          if slice_get (lm_account_keys message) (ci_program_id_index instruction) = Some system_program_id \<and>
             decode (ci_data instruction) = Some AdvanceNonceAccount \<and>
             (case slice_get (ci_accounts instruction) 0 of
                Some index \<Rightarrow> lm_is_writable message index | None \<Rightarrow> False)
          then Some instruction else None)"

definition get_nonce_pubkey_from_instruction :: "compiled_instruction \<Rightarrow> transaction \<Rightarrow> pubkey option" where
  "get_nonce_pubkey_from_instruction ix tx =
     Option.bind (slice_get (ci_accounts ix) 0) (slice_get (lm_account_keys (tx_message tx)))"

section \<open>A transaction signed by its fee payer\<close>

lemma transaction_sanitize_Ok:
  "transaction_sanitize tx = Ok () \<longleftrightarrow>
     num_required_signatures (lm_header (tx_message tx)) \<le> length (tx_signatures tx) \<and>
     length (tx_signatures tx) \<le> length (lm_account_keys (tx_message tx)) \<and>
     legacy_sanitize (tx_message tx) = Ok ()"
  by (auto simp: transaction_sanitize_def)

lemma compile_instructions_blockhash:
  "(new_with_blockhash ixs payer bh :: (_, 'e) result) = Ok m \<Longrightarrow>
   (new_with_blockhash ixs payer bh' :: (_, 'e) result) = Ok (m\<lparr>lm_recent_blockhash := bh'\<rparr>)"
  by (auto simp: new_with_blockhash_def result_simps new_with_compiled_instructions_def split: prod.splits)

text \<open>Compilation succeeds when the instructions and the payer name at most 255 keys.\<close>

lemma new_with_blockhash_total:
  assumes "card (message_keys ixs payer) < 256"
  shows "\<exists>msg. (new_with_blockhash ixs payer bh :: (_, 'e) result) = Ok msg \<and>
    length (lm_account_keys msg) = card (message_keys ixs payer)"
proof -
  have "finite (message_keys ixs payer)" by (simp add: message_keys_def mentioned_def)
  then have small: "card {k \<in> message_keys ixs payer. P k} < 256" for P
    using card_mono [of "message_keys ixs payer" "{k \<in> message_keys ixs payer. P k}"] assms by auto
  obtain msg where "(new_with_blockhash ixs payer bh :: (_, 'e) result) = Ok msg"
    using new_with_blockhash_Ok_iff [of ixs payer bh, where 'e = 'e] small by (simp only:) blast
  then show ?thesis using compiled_keys_card by blast
qed

text \<open>When only the payer signs, one signature is required.\<close>

lemma one_required_signature:
  assumes "new_with_blockhash ixs (Some payer) bh = Ok msg" "\<And>k. asks_signer (all_metas ixs) k \<Longrightarrow> k = payer"
  shows "num_required_signatures (lm_header msg) = 1" "lm_account_keys msg \<noteq> []" "hd (lm_account_keys msg) = payer"
proof -
  let ?ck = "compile_keys ixs (Some payer)"
  have "set (writable_signer_keys ?ck @ readonly_signer_keys ?ck) = {payer}"
    using compile_keys_sets(1,2) [of _ ixs "Some payer"] assms(2)
    by (auto simp: granted_signer_def granted_writable_def message_keys_def)
  moreover have "distinct (writable_signer_keys ?ck @ readonly_signer_keys ?ck)"
    using compile_keys_distinct [of ixs "Some payer"] by auto
  ultimately have "length (writable_signer_keys ?ck @ readonly_signer_keys ?ck) = 1"
    by (metis distinct_card card.empty card_insert_disjoint empty_iff finite.emptyI One_nat_def)
  then show "num_required_signatures (lm_header msg) = 1"
    using new_with_blockhash_Ok(2) [OF assms(1)] by simp
  show "lm_account_keys msg \<noteq> []" "hd (lm_account_keys msg) = payer"
    unfolding new_with_blockhash_Ok(1) [OF assms(1)] by (simp_all add: compile_keys_def Let_def)
qed

lemma sign_by_payer:
  assumes "(new_with_blockhash ixs (Some (kp_pubkey kp)) bh :: (_, 'e) result) = Ok msg"
    and "\<And>k. asks_signer (all_metas ixs) k \<Longrightarrow> k = kp_pubkey kp"
    and "kp_sign kp msg \<noteq> default_signature"
  shows "(new_signed_with_payer ixs (Some (kp_pubkey kp)) [kp] bh :: (_, 'e) result) =
    Ok \<lparr>tx_signatures = [kp_sign kp msg], tx_message = msg\<rparr>"
proof -
  let ?m0 = "msg\<lparr>lm_recent_blockhash := 0\<rparr>"
  have m0: "(message_new ixs (Some (kp_pubkey kp)) :: (_, 'e) result) = Ok ?m0"
    unfolding message_new_def by (rule compile_instructions_blockhash [OF assms(1)])
  note one = one_required_signature [OF assms(1,2)]
  obtain ks where ks: "lm_account_keys msg = kp_pubkey kp # ks" using one(2,3) by (cases "lm_account_keys msg") auto
  have bh: "lm_recent_blockhash msg = bh"
    using assms(1) by (auto simp: new_with_blockhash_def new_with_compiled_instructions_def result_simps split: prod.splits)
  then have msg: "?m0\<lparr>lm_recent_blockhash := bh\<rparr> = msg" by simp
  have "try_partial_sign [kp] bh (new_unsigned ?m0) = Ok \<lparr>tx_signatures = [kp_sign kp msg], tx_message = msg\<rparr>"
    using one(1) ks msg
    by (cases "bh = 0")
      (auto simp: try_partial_sign_def get_signing_keypair_positions_def new_unsigned_def
        try_partial_sign_unchecked_def put_signature_def)
  then show ?thesis
    using assms(3) by (simp add: new_signed_with_payer_def m0 transaction_new_def tx_sign_def try_sign_def is_signed_def)
qed

lemma payer_signed_sanitizes:
  assumes "card (message_keys ixs (Some (kp_pubkey kp))) < 256"
    and "\<forall>k. asks_signer (all_metas ixs) k \<longrightarrow> k = kp_pubkey kp"
    and "kp_pubkey kp \<notin> ix_program_id ` set ixs"
    and "\<forall>m. kp_sign kp m \<noteq> default_signature"
  shows "\<exists>tx stx. (new_signed_with_payer ixs (Some (kp_pubkey kp)) [kp] bh :: (_, 'e) result) = Ok tx \<and>
    try_from_legacy_transaction hash tx = Ok stx \<and> stx_signatures stx = [kp_sign kp (tx_message tx)] \<and>
    lm_recent_blockhash (tx_message tx) = bh \<and> (sm_fee_payer (stx_message stx) :: (_, 'e) result) = Ok (kp_pubkey kp) \<and>
    (decompile_instructions (stx_message stx) :: (_, 'e) result) =
      Ok (map (granted_instruction ixs (Some (kp_pubkey kp))) ixs)"
proof -
  obtain msg where msg: "(new_with_blockhash ixs (Some (kp_pubkey kp)) bh :: (_, 'e) result) = Ok msg"
    and len: "length (lm_account_keys msg) \<le> 256"
    using new_with_blockhash_total [OF assms(1), of bh, where 'e = 'e] assms(1) by auto
  note one = one_required_signature [OF msg assms(2) [rule_format]]
  note san = compiled_message_checked [OF msg len, where 'b = 'e]
  let ?tx = "\<lparr>tx_signatures = [kp_sign kp msg], tx_message = msg\<rparr>"
  have "(new_signed_with_payer ixs (Some (kp_pubkey kp)) [kp] bh :: (_, 'e) result) = Ok ?tx"
    by (rule sign_by_payer [OF msg]) (use assms(2,4) in auto)
  moreover have "transaction_sanitize ?tx = Ok ()"
    using one(1,2) san assms(3) by (simp add: transaction_sanitize_Ok Suc_le_eq)
  moreover have "lm_recent_blockhash msg = bh"
    using msg by (auto simp: new_with_blockhash_def new_with_compiled_instructions_def result_simps split: prod.splits)
  ultimately show ?thesis
    using san decompile_new_with_blockhash [OF msg len, where 'b = 'e]
    by (auto intro!: exI [of _ ?tx] simp: try_from_legacy_transaction_def)
qed

section \<open>Properties\<close>

text \<open>
  A transaction built from instructions in which only the fee payer signs, naming at most 255
  keys in all and calling no program with the key of the payer, is signed by the payer's keypair
  without a panic and passes the sanitize checks; its message holds exactly the instructions given.
\<close>

theorem signed_transaction_sanitizes:
  assumes "card (message_keys ixs (Some (kp_pubkey kp))) < 256"
    and "\<forall>k. asks_signer (all_metas ixs) k \<longrightarrow> k = kp_pubkey kp"
    and "kp_pubkey kp \<notin> ix_program_id ` set ixs"
    and "\<forall>m. kp_sign kp m \<noteq> default_signature"
  shows "\<exists>tx stx. (new_signed_with_payer ixs (Some (kp_pubkey kp)) [kp] bh :: (_, 'e) result) = Ok tx \<and>
    try_from_legacy_transaction hash tx = Ok stx \<and> stx_signatures stx = [kp_sign kp (tx_message tx)] \<and>
    lm_recent_blockhash (tx_message tx) = bh \<and> (sm_fee_payer (stx_message stx) :: (_, 'e) result) = Ok (kp_pubkey kp) \<and>
    (decompile_instructions (stx_message stx) :: (_, 'e) result) =
      Ok (map (granted_instruction ixs (Some (kp_pubkey kp))) ixs)"
  by (rule payer_signed_sanitizes [OF assms])

text \<open>
  On a legacy transaction the check that looks for a durable nonce in the raw transaction agrees
  with the one on the sanitized message.
\<close>

theorem durable_nonce_checks_agree:
  "Option.bind (uses_durable_nonce decode tx) (\<lambda>ix. get_nonce_pubkey_from_instruction ix tx) =
     sm_get_durable_nonce decode (SM_Legacy (tx_message tx)) True"
  by (auto simp: uses_durable_nonce_def get_nonce_pubkey_from_instruction_def sm_get_durable_nonce_def
      bind_eq_Some_conv split: option.splits)

section \<open>Witnesses\<close>

definition example_keypair :: keypair where
  "example_keypair = \<lparr>kp_pubkey = 7, kp_sign = (\<lambda>_. replicate 64 1)\<rparr>"

theorem signed_transaction_sanitizes_witness:
  "\<exists>tx stx. (new_signed_with_payer example_ixs (Some 7) [example_keypair] 5 :: (_, unit) result) = Ok tx \<and>
    try_from_legacy_transaction (\<lambda>_. 9) tx = Ok stx \<and> stx_signatures stx = [replicate 64 1]"
proof -
  have "card (message_keys example_ixs (Some 7)) < 256" 
    by (simp add: message_keys_def mentioned_def all_metas_def example_ixs_def)
  moreover have "\<forall>k. asks_signer (all_metas example_ixs) k \<longrightarrow> k = 7" "7 \<notin> ix_program_id ` set example_ixs"
    by (auto simp: asks_signer_def all_metas_def example_ixs_def)
  ultimately show ?thesis
    using signed_transaction_sanitizes [of example_ixs example_keypair 5 "\<lambda>_. 9", where 'e = unit]
    by (auto simp: example_keypair_def default_signature_def)
qed

end
