(* ===== verification/Account_Loading.thy ===== *)
theory Account_Loading
  imports Rent_Collector Instructions_Sysvar Transactions
begin

text \<open>
  Loading the accounts of a transaction (\<^verbatim>\<open>load_transaction\<close>, \<^verbatim>\<open>validate_fee_payer\<close> and
  \<^verbatim>\<open>load_executable_accounts\<close> of \<^verbatim>\<open>runtime/src/accounts.rs\<close>): the fee is taken from the payer, rent from the
  writable accounts, the programs are resolved to their chain of loaders, and the accounts that the
  MEV search reads are collected (\<^verbatim>\<open>MevAccounts::get_accounts_data\<close>).

  The accounts database is behind one function, \<^verbatim>\<open>AccountsDb::load_with_fixed_root\<close>; it is a parameter,
  from the treatment of accounts without lamports and a key to the account. The error counters,
  which are metrics, are left out.
\<close>

section \<open>Loaded transactions\<close>

datatype load_zero_lamports = LZ_None | LZ_SomeWithZeroLamportAccount

type_synonym accounts_db = "load_zero_lamports \<Rightarrow> pubkey \<Rightarrow> account_shared_data option"

type_synonym transaction_account = "pubkey \<times> account_shared_data"

datatype mev_account_or_idx = Idx nat | ReadAccount transaction_account

record mev_accounts =
  ma_pool_accounts :: "mev_pool_keys list"
  ma_token_program :: pubkey
  ma_user_authority :: "pubkey option"
  ma_pubkey_account_map :: "pubkey \<rightharpoonup> mev_account_or_idx"

record loaded_transaction =
  lt_accounts :: "transaction_account list"
  lt_mev_accounts :: "mev_accounts option"
  lt_program_indices :: "nat list list"
  lt_rent :: u64
  lt_rent_debits :: rent_debits

datatype upgradeable_loader_state =
    ULS_Uninitialized
  | ULS_Buffer "pubkey option"
  | ULS_Program pubkey
  | ULS_ProgramData u64 "pubkey option"

definition native_loader_id :: pubkey where
  "native_loader_id = 2501004778692694513383192626365552564445537874725049955997982167012726538240"

definition sysvar_program_id :: pubkey where
  "sysvar_program_id = 3010411245944251432122278937989630152839788565688054045150511135798998335488"

text \<open>The overrides of a simulated transaction: only the slot history can be overridden.\<close>

record account_overrides =
  ao_slot_history :: "account_shared_data option"

definition ao_get :: "account_overrides \<Rightarrow> pubkey \<Rightarrow> account_shared_data option" where
  "ao_get overrides key = (if key = slot_history_id then ao_slot_history overrides else None)"

section \<open>The accounts of the MEV search\<close>

definition insert_account_in_map ::
  "(pubkey \<rightharpoonup> nat) \<Rightarrow> (pubkey \<Rightarrow> account_shared_data option) \<Rightarrow> pubkey \<Rightarrow>
     (pubkey \<rightharpoonup> mev_account_or_idx) \<Rightarrow> (pubkey \<rightharpoonup> mev_account_or_idx)" where
  "insert_account_in_map writable_accounts_map load pubkey m =
     (let acc = (case writable_accounts_map pubkey of
                   Some idx \<Rightarrow> Idx idx
                 | None \<Rightarrow> ReadAccount (pubkey, case load pubkey of Some account \<Rightarrow> account | None \<Rightarrow> default_account))
      in m(pubkey \<mapsto> acc))"

definition pool_keys_read :: "mev_pool_keys \<Rightarrow> pubkey list" where
  "pool_keys_read p =
     [mpk_pool p, mpk_token_a p, mpk_token_b p, mpk_pool_mint p, mpk_pool_fee p, mpk_pool_authority p] @
     (case mpk_source p of Some k \<Rightarrow> [k] | None \<Rightarrow> []) @ (case mpk_destination p of Some k \<Rightarrow> [k] | None \<Rightarrow> [])"

definition get_accounts_data ::
  "mev_keys \<Rightarrow> (pubkey \<rightharpoonup> nat) \<Rightarrow> (pubkey \<Rightarrow> account_shared_data option) \<Rightarrow> mev_accounts" where
  "get_accounts_data mk writable_accounts_map load =
     (let insert = insert_account_in_map writable_accounts_map load;
          m = fold (\<lambda>p. fold insert (pool_keys_read p)) (mk_pool_keys mk) Map.empty;
          m = insert (mk_token_program mk) m;
          m = (case mk_user_authority mk of Some k \<Rightarrow> insert k m | None \<Rightarrow> m)
      in \<lparr>ma_pool_accounts = mk_pool_keys mk, ma_token_program = mk_token_program mk,
          ma_user_authority = mk_user_authority mk, ma_pubkey_account_map = m\<rparr>)"

section \<open>Fee payer\<close>

definition validate_fee_payer ::
  "nonce_codec \<Rightarrow> rent_collector \<Rightarrow> feature_set \<Rightarrow> u64 \<Rightarrow> pubkey \<Rightarrow> nat \<Rightarrow> account_shared_data \<Rightarrow>
     (account_shared_data, transaction_error) result" where
  "validate_fee_payer c rc features fee payer_address payer_index payer_account =
     bindE (guardE (acc_lamports payer_account \<noteq> 0) AccountNotFound) (\<lambda>_.
     bindE (ok_or (get_system_account_kind c payer_account) InvalidAccountForFee) (\<lambda>kind.
     let min_balance = (case kind of SAK_System \<Rightarrow> 0 | SAK_Nonce \<Rightarrow> minimum_balance (rc_rent rc) (nonce_state_size c)) in
     bindE (guardE (\<not> acc_lamports payer_account < wrap64 (fee + min_balance)) InsufficientFundsForFee) (\<lambda>_.
     let pre_rent_state = rent_state_from_account payer_account (rc_rent rc) in
     bindE (map_err (\<lambda>_. InsufficientFundsForFee) (checked_sub_lamports fee payer_account)) (\<lambda>payer_account.
     let post_rent_state = rent_state_from_account payer_account (rc_rent rc);
         rent_state_result = check_rent_state_with_account pre_rent_state post_rent_state payer_address
           (is_active features do_support_realloc)
           (if is_active features include_account_index_in_rent_error then Some payer_index else None)
           (is_active features prevent_crediting_accounts_that_end_rent_paying)
     in
     bindE (if is_active features require_rent_exempt_accounts then rent_state_result else Ok ()) (\<lambda>_.
     Ok payer_account)))))"

section \<open>Programs\<close>

text \<open>
  The chain of loaders of a program, at most five long; \<open>n\<close> is what is left of the five. The accounts
  of the chain are appended to the accounts of the transaction, and the indices are those of the
  chain, outermost loader first.
\<close>

fun load_program_chain ::
  "(bytes \<Rightarrow> upgradeable_loader_state option) \<Rightarrow> (pubkey \<Rightarrow> account_shared_data option) \<Rightarrow> nat \<Rightarrow> pubkey \<Rightarrow>
     transaction_account list \<Rightarrow> nat list \<Rightarrow> (transaction_account list \<times> nat list, transaction_error) result" where
  "load_program_chain decode load n program_id accounts account_indices =
     (if program_id = native_loader_id then Ok (accounts, account_indices)
      else
        (case n of
           0 \<Rightarrow> Err CallChainTooDeep
         | Suc n \<Rightarrow>
             bindE (ok_or (load program_id) ProgramAccountNotFound) (\<lambda>program.
             let account_indices = length accounts # account_indices;
                 accounts = accounts @ [(program_id, program)] in
             bindE (guardE (acc_executable program) InvalidProgramForExecution) (\<lambda>_.
             bindE (if acc_owner program = bpf_loader_upgradeable_id then
                      (case decode (acc_data program) of
                         Some (ULS_Program programdata_address) \<Rightarrow>
                           bindE (ok_or (load programdata_address) ProgramAccountNotFound) (\<lambda>programdata_account.
                           Ok (accounts @ [(programdata_address, programdata_account)],
                               length accounts # account_indices))
                       | _ \<Rightarrow> Err InvalidProgramForExecution)
                    else Ok (accounts, account_indices)) (\<lambda>(accounts, account_indices).
             load_program_chain decode load n (acc_owner program) accounts account_indices)))))"

declare load_program_chain.simps [simp del]

definition load_executable_accounts ::
  "(bytes \<Rightarrow> upgradeable_loader_state option) \<Rightarrow> (pubkey \<Rightarrow> account_shared_data option) \<Rightarrow> nat \<Rightarrow>
     transaction_account list \<Rightarrow> (transaction_account list \<times> nat list, transaction_error) result" where
  "load_executable_accounts decode load program_account_index accounts =
     bindE (unwrap (slice_get accounts program_account_index)) (\<lambda>(program_id, _).
     load_program_chain decode load 5 program_id accounts [])"

text \<open>\<^verbatim>\<open>instructions.iter().map(..).collect()\<close>, with the accounts threaded through.\<close>

definition load_programs ::
  "(bytes \<Rightarrow> upgradeable_loader_state option) \<Rightarrow> (pubkey \<Rightarrow> account_shared_data option) \<Rightarrow>
     compiled_instruction list \<Rightarrow> transaction_account list \<Rightarrow>
     (transaction_account list \<times> nat list list, transaction_error) result" where
  "load_programs decode load instructions accounts =
     foldE (\<lambda>ix (accounts, program_indices).
       bindE (load_executable_accounts decode load (ci_program_id_index ix) accounts) (\<lambda>(accounts, indices).
       Ok (accounts, program_indices @ [indices]))) instructions (accounts, [])"

section \<open>Loading a transaction\<close>

text \<open>What a transaction is loaded with: the fee, the collectors and the decoders of account data.\<close>

record load_env =
  le_db :: accounts_db
  le_nonce_codec :: nonce_codec
  le_loader_state :: "bytes \<Rightarrow> upgradeable_loader_state option"
  le_rent_collector :: rent_collector
  le_features :: feature_set
  le_fee :: u64
  le_overrides :: "account_overrides option"
  le_filler_suffix :: "pubkey option"

definition le_load :: "load_env \<Rightarrow> pubkey \<Rightarrow> account_shared_data option" where
  "le_load env =
     le_db env (if is_active (le_features env) return_none_for_zero_lamport_accounts then LZ_None
                else LZ_SomeWithZeroLamportAccount)"

record load_state =
  ls_validated_fee_payer :: bool
  ls_tx_rent :: u64
  ls_accounts :: "transaction_account list"
  ls_mev_writable :: "pubkey \<rightharpoonup> nat"
  ls_account_deps :: "transaction_account list"
  ls_rent_debits :: rent_debits

definition construct_instructions_account ::
  "sanitized_message \<Rightarrow> bool \<Rightarrow> (account_shared_data, 'e) result" where
  "construct_instructions_account message is_owned_by_sysvar =
     bindE (decompile_instructions message) (\<lambda>ixs.
     Ok (default_account\<lparr>acc_data := construct_instructions_data ixs,
           acc_owner := (if is_owned_by_sysvar then sysvar_program_id else system_program_id)\<rparr>))"

text \<open>The account of a key with the rent it paid, and whether its index is kept for the MEV search.\<close>

definition load_account ::
  "load_env \<Rightarrow> sanitized_message \<Rightarrow> nat \<Rightarrow> pubkey \<Rightarrow> account_shared_data \<times> u64 \<times> bool" where
  "load_account env message i key =
     (case Option.bind (le_overrides env) (\<lambda>overrides. ao_get overrides key) of
        Some account_override \<Rightarrow> (account_override, 0, False)
      | None \<Rightarrow>
          (case le_load env key of
             None \<Rightarrow> (default_account, 0, False)
           | Some account \<Rightarrow>
               if sm_is_writable message i then
                 (let (account, info) = collect_from_existing_account (le_rent_collector env) key account
                        (le_filler_suffix env)
                        (is_active (le_features env) preserve_rent_epoch_for_rent_exempt_accounts)
                  in (account, rent_amount info, True))
               else (account, 0, False)))"

definition sm_is_upgradeable_loader_present :: "sanitized_message \<Rightarrow> bool" where
  "sm_is_upgradeable_loader_present m =
     (case m of SM_Legacy m \<Rightarrow> lm_is_upgradeable_loader_present m | SM_V0 m \<Rightarrow> ldm_is_upgradeable_loader_present m)"

text \<open>The checks on an executable account, with the program data account it depends on.\<close>

definition check_executable ::
  "load_env \<Rightarrow> sanitized_message \<Rightarrow> nat \<Rightarrow> account_shared_data \<Rightarrow> (transaction_account list, transaction_error) result" where
  "check_executable env message i account =
     (if acc_owner account = bpf_loader_upgradeable_id then
        (if sm_is_writable message i \<and> \<not> sm_is_upgradeable_loader_present message then Err InvalidWritableAccount
         else if acc_executable account then
           (case le_loader_state env (acc_data account) of
              Some (ULS_Program programdata_address) \<Rightarrow>
                bindE (ok_or (le_load env programdata_address) ProgramAccountNotFound) (\<lambda>programdata_account.
                Ok [(programdata_address, programdata_account)])
            | _ \<Rightarrow> Err InvalidProgramForExecution)
         else Ok [])
      else if acc_executable account \<and> sm_is_writable message i then Err InvalidWritableAccount
      else Ok [])"

definition load_key ::
  "load_env \<Rightarrow> sanitized_message \<Rightarrow> nat \<times> pubkey \<Rightarrow> load_state \<Rightarrow> (load_state, transaction_error) result" where
  "load_key env message = (\<lambda>(i, key) st.
     if \<not> sm_is_non_loader_key message i then
       Ok (st\<lparr>ls_accounts := ls_accounts st @ [(key, default_account)]\<rparr>)
     else if key = instructions_id then
       bindE (construct_instructions_account message
         (is_active (le_features env) instructions_sysvar_owned_by_sysvar)) (\<lambda>account.
       Ok (st\<lparr>ls_accounts := ls_accounts st @ [(key, account)]\<rparr>))
     else
       (let (account, rent, keep) = load_account env message i key;
            st = (if keep then st\<lparr>ls_mev_writable := (ls_mev_writable st)(key \<mapsto> i)\<rparr> else st) in
        bindE (if \<not> ls_validated_fee_payer st
               then validate_fee_payer (le_nonce_codec env) (le_rent_collector env) (le_features env) (le_fee env)
                      key i account
               else Ok account) (\<lambda>account.
        bindE (check_executable env message i account) (\<lambda>deps.
        Ok (st\<lparr>ls_validated_fee_payer := True,
               ls_account_deps := ls_account_deps st @ deps,
               ls_tx_rent := wrap64 (ls_tx_rent st + rent),
               ls_rent_debits := insert_rent_debit key rent (acc_lamports account) (ls_rent_debits st),
               ls_accounts := ls_accounts st @ [(key, account)]\<rparr>)))))"

definition load_transaction ::
  "load_env \<Rightarrow> sanitized_transaction \<Rightarrow> (loaded_transaction, transaction_error) result" where
  "load_transaction env tx =
     (let message = stx_message tx in
      if stx_signatures tx = [] \<and> le_fee env \<noteq> 0 then Err MissingSignatureForFee
      else
        bindE (foldE (load_key env message) (List.enumerate 0 (ak_iter (sm_account_keys message)))
          \<lparr>ls_validated_fee_payer = False, ls_tx_rent = 0, ls_accounts = [], ls_mev_writable = Map.empty,
           ls_account_deps = [], ls_rent_debits = Map.empty\<rparr>) (\<lambda>st.
        let mev = map_option (\<lambda>mk. get_accounts_data mk (ls_mev_writable st) (le_load env)) (stx_mev_keys tx);
            accounts = ls_accounts st @ ls_account_deps st in
        if ls_validated_fee_payer st then
          bindE (load_programs (le_loader_state env) (le_load env) (sm_instructions message) accounts)
            (\<lambda>(accounts, program_indices).
          Ok \<lparr>lt_accounts = accounts, lt_mev_accounts = mev, lt_program_indices = program_indices,
              lt_rent = ls_tx_rent st, lt_rent_debits = ls_rent_debits st\<rparr>)
        else Err AccountNotFound))"

end
