(* ===== verification/Loading_Properties.thy ===== *)
theory Loading_Properties
  imports Account_Loading
begin

text \<open>
  What a loaded transaction satisfies: its accounts are those of its keys, the fee and the rent are
  what is missing from them, its programs resolve to accounts it holds, and so do the accounts of
  the MEV search.
\<close>

section \<open>Loops over an enumeration\<close>

section \<open>The fee payer\<close>

definition fee_payer_minimum :: "nonce_codec \<Rightarrow> rent_collector \<Rightarrow> system_account_kind \<Rightarrow> u64" where
  "fee_payer_minimum c rc kind =
     (case kind of SAK_System \<Rightarrow> 0 | SAK_Nonce \<Rightarrow> minimum_balance (rc_rent rc) (nonce_state_size c))"

lemma validate_fee_payer_Ok:
  assumes "validate_fee_payer c rc features fee key i account = Ok account'"
  shows "fee \<le> acc_lamports account" "account' = set_lamports (acc_lamports account - fee) account"
    "\<exists>kind. get_system_account_kind c account = Some kind"
  using assms
  by (auto simp: validate_fee_payer_def Let_def result_simps checked_sub_lamports_def)

section \<open>Programs\<close>

definition extends :: "'a list \<Rightarrow> 'a list \<Rightarrow> bool" where
  "extends xs ys \<longleftrightarrow> (\<exists>zs. ys = xs @ zs)"

lemma extends_refl [simp]: "extends xs xs"
  and extends_append [simp]: "extends xs (xs @ zs)"
  and extends_trans: "extends xs ys \<Longrightarrow> extends ys zs \<Longrightarrow> extends xs zs"
  by (auto simp: extends_def)

lemma extends_nth: "extends xs ys \<Longrightarrow> i < length xs \<Longrightarrow> ys ! i = xs ! i"
  and extends_length: "extends xs ys \<Longrightarrow> length xs \<le> length ys"
  and extends_take: "extends xs ys \<Longrightarrow> take (length xs) ys = xs"
  by (auto simp: extends_def nth_append)

text \<open>Whether the indices are those of accounts whose innermost is the program, executable.\<close>

definition chain_in :: "transaction_account list \<Rightarrow> pubkey \<Rightarrow> nat list \<Rightarrow> bool" where
  "chain_in accounts program_id indices \<longleftrightarrow>
     (\<forall>i \<in> set indices. i < length accounts) \<and> length indices \<le> 10 \<and>
     (program_id \<noteq> native_loader_id \<longrightarrow>
        indices \<noteq> [] \<and> fst (accounts ! last indices) = program_id \<and> acc_executable (snd (accounts ! last indices)))"

lemma load_program_chain_extends:
  assumes "load_program_chain decode load n program_id accounts indices = Ok (accounts', indices')"
  shows "extends accounts accounts' \<and> (\<exists>new. indices' = new @ indices \<and> length new \<le> 2 * n \<and> (\<forall>i \<in> set new. i < length accounts') \<and>
    (program_id \<noteq> native_loader_id \<longrightarrow> new \<noteq> [] \<and> fst (accounts' ! last new) = program_id \<and>
       acc_executable (snd (accounts' ! last new))))"
  using assms
proof (induction n arbitrary: program_id accounts indices)
  case 0
  then show ?case by (auto simp: load_program_chain.simps [of decode load 0] split: if_splits)
next
  case (Suc n)
  show ?case
  proof (cases "program_id = native_loader_id")
    case True
    then show ?thesis using Suc.prems by (auto simp: load_program_chain.simps [of decode load "Suc n"])
  next
    case False
    obtain program accounts1 pre1 where program: "load program_id = Some program" "acc_executable program"
      and step: "accounts1 = (accounts @ [(program_id, program)]) @ pre1" "length pre1 \<le> 1"
      and rest: "load_program_chain decode load n (acc_owner program) accounts1
        (map (\<lambda>i. i + length accounts + 1) [0..<length pre1] @ length accounts # indices) = Ok (accounts', indices')"
    proof (cases "load program_id")
      case (Some program)
      note unfold = Suc.prems [unfolded load_program_chain.simps [of decode load "Suc n"]]
      show ?thesis
      proof (cases "acc_owner program = bpf_loader_upgradeable_id")
        case True
        then obtain pd pa where "load pd = Some pa" "acc_executable program"
          "load_program_chain decode load n (acc_owner program) (accounts @ [(program_id, program), (pd, pa)])
            (Suc (length accounts) # length accounts # indices) = Ok (accounts', indices')"
          using unfold False Some
          by (auto simp: result_simps Let_def split: option.splits upgradeable_loader_state.splits)
        then show ?thesis using that [of program _ "[(pd, pa)]"] Some by simp
      next
        case other: False
        then show ?thesis using unfold False Some that [of program _ "[]"] by (simp add: result_simps)
      qed
    qed (use Suc.prems False in \<open>simp add: load_program_chain.simps [of decode load "Suc n"]\<close>)
    from Suc.IH [OF rest] obtain new where new: "extends accounts1 accounts'"
      "indices' = new @ map (\<lambda>i. i + length accounts + 1) [0..<length pre1] @ length accounts # indices"
      "length new \<le> 2 * n" "\<forall>i \<in> set new. i < length accounts'" by blast
    have "extends accounts accounts'"
      using new(1) step(1) by (auto simp: extends_def)
    moreover have "accounts' ! length accounts = (program_id, program)"
      using extends_nth [OF new(1), of "length accounts"] step(1) by (simp add: nth_append)
    moreover have "length accounts + 1 + length pre1 \<le> length accounts'"
      using extends_length [OF new(1)] step(1) by simp
    ultimately show ?thesis
      using new(2-4) program(2) step(2)
      by (auto intro!: exI [of _ "new @ map (\<lambda>i. i + length accounts + 1) [0..<length pre1] @ [length accounts]"])
  qed
qed


lemma chain_in_extends:
  "chain_in accounts k is \<Longrightarrow> extends accounts accounts' \<Longrightarrow> chain_in accounts' k is"
  using extends_length [of accounts accounts'] extends_nth [of accounts accounts']
  by (auto simp: chain_in_def)

lemma load_programs_chains:
  assumes "load_programs decode load ixs accounts = Ok (accounts', indices)"
    and "\<forall>ix \<in> set ixs. ci_program_id_index ix < length accounts"
  shows "extends accounts accounts' \<and>
    list_all2 (\<lambda>ix is. chain_in accounts' (fst (accounts ! ci_program_id_index ix)) is) ixs indices"
proof -
  let ?step = "\<lambda>ix (accounts, program_indices).
       bindE (load_executable_accounts decode load (ci_program_id_index ix) accounts) (\<lambda>(accounts, indices).
       Ok (accounts, program_indices @ [indices]))"
  have "extends accounts accs' \<and>
      list_all2 (\<lambda>ix is. chain_in accs' (fst (accounts ! ci_program_id_index ix)) is) (done @ todo) is'"
    if "foldE ?step todo (accs, is) = Ok (accs', is')" "extends accounts accs"
      "list_all2 (\<lambda>ix is. chain_in accs (fst (accounts ! ci_program_id_index ix)) is) done is"
      "\<forall>ix \<in> set todo. ci_program_id_index ix < length accounts" for todo "done" accs "is" accs' is'
    using that
  proof (induction todo arbitrary: "done" accs "is")
    case (Cons ix todo)
    let ?k = "fst (accounts ! ci_program_id_index ix)"
    obtain accs1 is1 where l: "load_program_chain decode load 5 ?k accs [] = Ok (accs1, is1)"
      and rest: "foldE ?step todo (accs1, is @ [is1]) = Ok (accs', is')"
      using Cons.prems(1,2,4) extends_nth [OF Cons.prems(2)]
      by (auto simp: load_executable_accounts_def result_simps slice_get_Some split: prod.splits)
    note ex = load_program_chain_extends [OF l]
    then have "chain_in accs1 ?k is1" by (auto simp: chain_in_def)
    moreover have "list_all2 (\<lambda>ix is. chain_in accs1 (fst (accounts ! ci_program_id_index ix)) is) done is"
      by (rule list_all2_mono [OF Cons.prems(3)]) (use ex chain_in_extends in blast)
    ultimately have "list_all2 (\<lambda>ix is. chain_in accs1 (fst (accounts ! ci_program_id_index ix)) is) (done @ [ix]) (is @ [is1])"
      by (simp add: list_all2_appendI)
    from Cons.IH [OF rest _ this] show ?case
      using Cons.prems(2,4) ex extends_trans by auto
  qed simp
  from this [of ixs accounts "[]" accounts' indices "[]"] assms show ?thesis by (simp add: load_programs_def)
qed

section \<open>The loop over the keys\<close>

text \<open>What the database holds for a key that is loaded from it.\<close>

definition loaded_balance :: "load_env \<Rightarrow> sanitized_message \<Rightarrow> nat \<times> pubkey \<Rightarrow> u64" where
  "loaded_balance env message = (\<lambda>(i, key).
     if \<not> sm_is_non_loader_key message i \<or> key = instructions_id then 0
     else (case le_load env key of Some account \<Rightarrow> acc_lamports account | None \<Rightarrow> 0))"

lemma load_account_balance:
  assumes "load_account env message i key = (account, rent, keep)" "le_overrides env = None"
  shows "acc_lamports account + rent = (case le_load env key of Some account \<Rightarrow> acc_lamports account | None \<Rightarrow> 0)"
  using assms
  by (auto simp: load_account_def default_account_def split: option.splits if_splits prod.splits
      dest: collect_conserves)

text \<open>The transaction may write the account of a key, and the account was in the database.\<close>

definition may_write :: "load_env \<Rightarrow> sanitized_message \<Rightarrow> nat \<times> pubkey \<Rightarrow> bool" where
  "may_write env message = (\<lambda>(i, key).
     sm_is_non_loader_key message i \<and> key \<noteq> instructions_id \<and> le_load env key \<noteq> None \<and> sm_is_writable message i)"

lemma load_key_Ok:
  assumes "load_key env message (i, key) st = Ok st'" "le_overrides env = None"
  obtains account rent where "ls_accounts st' = ls_accounts st @ [(key, account)]"
    "ls_tx_rent st' = wrap64 (ls_tx_rent st + rent) \<or> rent = 0 \<and> ls_tx_rent st' = ls_tx_rent st"
    "acc_lamports account + rent + (if ls_validated_fee_payer st' \<and> \<not> ls_validated_fee_payer st then le_fee env else 0) =
       loaded_balance env message (i, key)"
    "ls_validated_fee_payer st \<longrightarrow> ls_validated_fee_payer st'"
    "ls_mev_writable st' = (if may_write env message (i, key) then (ls_mev_writable st)(key \<mapsto> i) else ls_mev_writable st)"
proof (cases "\<not> sm_is_non_loader_key message i \<or> key = instructions_id")
  case True
  then obtain account where "ls_accounts st' = ls_accounts st @ [(key, account)]" "acc_lamports account = 0"
    "ls_tx_rent st' = ls_tx_rent st" "ls_validated_fee_payer st' = ls_validated_fee_payer st"
    "ls_mev_writable st' = ls_mev_writable st"
    using assms(1)
    by (auto simp: load_key_def result_simps construct_instructions_account_def default_account_def split: if_splits)
  then show ?thesis using that [of account 0] True by (auto simp: loaded_balance_def may_write_def)
next
  case False
  obtain account rent keep where acc: "load_account env message i key = (account, rent, keep)"
    by (cases "load_account env message i key") auto
  obtain account' where a': "if ls_validated_fee_payer st then account' = account else
      validate_fee_payer (le_nonce_codec env) (le_rent_collector env) (le_features env) (le_fee env) key i account = Ok account'"
    and st': "ls_accounts st' = ls_accounts st @ [(key, account')]" "ls_validated_fee_payer st'"
      "ls_tx_rent st' = wrap64 (ls_tx_rent st + rent)"
      "ls_mev_writable st' = (if keep then (ls_mev_writable st)(key \<mapsto> i) else ls_mev_writable st)"
    using assms(1) False acc by (auto simp: load_key_def result_simps Let_def split: if_splits)
  have "keep \<longleftrightarrow> may_write env message (i, key)"
    using acc assms(2) False by (auto simp: load_account_def may_write_def Let_def split: option.splits if_splits prod.splits)
  moreover have "acc_lamports account' + (if ls_validated_fee_payer st then 0 else le_fee env) = acc_lamports account"
  proof (cases "ls_validated_fee_payer st")
    case False
    with a' have "validate_fee_payer (le_nonce_codec env) (le_rent_collector env) (le_features env) (le_fee env) key i account =
        Ok account'" by simp
    from validate_fee_payer_Ok(1,2) [OF this] False show ?thesis by (simp add: set_lamports_def)
  qed (use a' in simp)
  ultimately show ?thesis
    using that [of account' rent] st' load_account_balance [OF acc assms(2)] False
    by (auto simp: loaded_balance_def split: if_splits)
qed

text \<open>The state after the first \<open>n\<close> keys.\<close>

definition keys_loaded :: "load_env \<Rightarrow> sanitized_message \<Rightarrow> pubkey list \<Rightarrow> nat \<Rightarrow> load_state \<Rightarrow> bool" where
  "keys_loaded env message keys n st \<longleftrightarrow>
     map fst (ls_accounts st) = take n keys \<and>
     (\<forall>k i. ls_mev_writable st k = Some i \<longrightarrow> i < n \<and> keys ! i = k) \<and>
     (\<forall>i < n. may_write env message (i, keys ! i) \<longrightarrow> ls_mev_writable st (keys ! i) \<noteq> None)"

definition balances_loaded :: "load_env \<Rightarrow> sanitized_message \<Rightarrow> pubkey list \<Rightarrow> nat \<Rightarrow> load_state \<Rightarrow> bool" where
  "balances_loaded env message keys n st \<longleftrightarrow>
     sum_list (map (acc_lamports \<circ> snd) (ls_accounts st)) + (if ls_validated_fee_payer st then le_fee env else 0) +
       ls_tx_rent st = sum_list (map (loaded_balance env message) (take n (List.enumerate 0 keys)))"

abbreviation load_start :: load_state where
  "load_start \<equiv> \<lparr>ls_validated_fee_payer = False, ls_tx_rent = 0, ls_accounts = [], ls_mev_writable = Map.empty,
     ls_account_deps = [], ls_rent_debits = Map.empty\<rparr>"

lemma load_keys_loaded:
  assumes "foldE (load_key env message) (List.enumerate 0 keys) load_start = Ok st" "le_overrides env = None"
  shows "keys_loaded env message keys (length keys) st"
proof -
  have "keys_loaded env message keys (0 + length keys) st"
  proof (rule foldE_enumerate [OF assms(1)])
    fix i u v
    assume i: "i < length keys" and u: "keys_loaded env message keys (0 + i) u"
      and step: "load_key env message (0 + i, keys ! i) u = Ok v"
    obtain account where "ls_accounts v = ls_accounts u @ [(keys ! i, account)]"
      "ls_mev_writable v = (if may_write env message (i, keys ! i) then (ls_mev_writable u)(keys ! i \<mapsto> i) else ls_mev_writable u)"
      using load_key_Ok [OF step [unfolded add_0] assms(2)] by metis
    then show "keys_loaded env message keys (Suc (0 + i)) v"
      using u i by (auto simp: keys_loaded_def take_Suc_conv_app_nth less_Suc_eq split: if_splits)
  qed (simp add: keys_loaded_def)
  then show ?thesis by simp
qed

lemma load_keys_balances:
  assumes "foldE (load_key env message) (List.enumerate 0 keys) load_start = Ok st" "le_overrides env = None"
    and fit: "sum_list (map (loaded_balance env message) (List.enumerate 0 keys)) \<le> u64_max"
  shows "balances_loaded env message keys (length keys) st"
proof -
  let ?P = "balances_loaded env message keys"
  have "?P (0 + length keys) st"
  proof (rule foldE_enumerate [OF assms(1)])
    fix i u v
    assume i: "i < length keys" and u: "?P (0 + i) u" and step: "load_key env message (0 + i, keys ! i) u = Ok v"
    obtain account rent where v: "ls_accounts v = ls_accounts u @ [(keys ! i, account)]"
      "ls_tx_rent v = wrap64 (ls_tx_rent u + rent) \<or> rent = 0 \<and> ls_tx_rent v = ls_tx_rent u"
      "acc_lamports account + rent + (if ls_validated_fee_payer v \<and> \<not> ls_validated_fee_payer u then le_fee env else 0) =
         loaded_balance env message (i, keys ! i)"
      "ls_validated_fee_payer u \<longrightarrow> ls_validated_fee_payer v"
      using load_key_Ok [OF step [unfolded add_0] assms(2)] by metis
    have enum: "take (Suc i) (List.enumerate 0 keys) = take i (List.enumerate 0 keys) @ [(i, keys ! i)]"
      using i by (simp add: take_Suc_conv_app_nth nth_enumerate_eq)
    have "sum_list (map (loaded_balance env message) (take (Suc i) (List.enumerate 0 keys))) \<le> u64_max"
      using fit sum_list_append [of "map (loaded_balance env message) (take (Suc i) (List.enumerate 0 keys))"
          "map (loaded_balance env message) (drop (Suc i) (List.enumerate 0 keys))"]
      by (simp add: map_append [symmetric] del: map_append take_Suc)
    then have "ls_tx_rent v = ls_tx_rent u + rent"
      using v(2,3) u by (auto simp: balances_loaded_def enum wrap64_def split: if_splits)
    then show "?P (Suc (0 + i)) v"
      using u v i unfolding balances_loaded_def add_0 enum by (auto split: if_splits)
  qed (simp add: balances_loaded_def)
  then show ?thesis by simp
qed

section \<open>Loaded transactions\<close>

lemma load_transaction_Ok:
  assumes "load_transaction env tx = Ok lt"
  obtains st where
    "foldE (load_key env (stx_message tx)) (List.enumerate 0 (ak_iter (sm_account_keys (stx_message tx))))
       load_start = Ok st"
    "ls_validated_fee_payer st" "lt_rent lt = ls_tx_rent st"
    "load_programs (le_loader_state env) (le_load env) (sm_instructions (stx_message tx))
       (ls_accounts st @ ls_account_deps st) = Ok (lt_accounts lt, lt_program_indices lt)"
    "lt_mev_accounts lt = map_option (\<lambda>mk. get_accounts_data mk (ls_mev_writable st) (le_load env)) (stx_mev_keys tx)"
  using assms by (auto simp: load_transaction_def Let_def result_simps split: if_splits)

lemma load_programs_extends:
  assumes "load_programs decode load ixs accounts = Ok (accounts', indices)"
  shows "extends accounts accounts'"
proof -
  have "extends accounts (fst (accounts', indices))"
    using assms unfolding load_programs_def
  proof (rule foldE_invariant)
    fix ix u v
    assume u: "extends accounts (fst u)"
      and step: "(case u of (accounts, program_indices) \<Rightarrow>
        bindE (load_executable_accounts decode load (ci_program_id_index ix) accounts)
          (\<lambda>(accounts, indices). Ok (accounts, program_indices @ [indices]))) = Ok v"
    then have "extends (fst u) (fst v)"
      using load_program_chain_extends
      by (fastforce simp: load_executable_accounts_def result_simps split: prod.splits)
    with u show "extends accounts (fst v)" by (rule extends_trans)
  qed simp
  then show ?thesis by simp
qed

text \<open>
  What the map of the MEV search says of a key: an account of the transaction with this key, or, when the
  transaction cannot write it, the account that the database has.
\<close>

definition resolves ::
  "load_env \<Rightarrow> sanitized_message \<Rightarrow> (pubkey \<rightharpoonup> mev_account_or_idx) \<Rightarrow> pubkey \<Rightarrow> bool" where
  "resolves env message m k \<longleftrightarrow>
     (let keys = ak_iter (sm_account_keys message) in
      case m k of
        Some (Idx i) \<Rightarrow> i < length keys \<and> keys ! i = k
      | Some (ReadAccount acc) \<Rightarrow>
          acc = (k, case le_load env k of Some account \<Rightarrow> account | None \<Rightarrow> default_account) \<and>
          (\<forall>i < length keys. may_write env message (i, keys ! i) \<longrightarrow> keys ! i \<noteq> k)
      | None \<Rightarrow> False)"

definition entry_of :: "(pubkey \<rightharpoonup> nat) \<Rightarrow> (pubkey \<Rightarrow> account_shared_data option) \<Rightarrow> pubkey \<Rightarrow> mev_account_or_idx" where
  "entry_of w load k =
     (case w k of Some i \<Rightarrow> Idx i
      | None \<Rightarrow> ReadAccount (k, case load k of Some account \<Rightarrow> account | None \<Rightarrow> default_account))"

lemma fold_insert_entry:
  "fold (insert_account_in_map w load) ks m k = (if k \<in> set ks then Some (entry_of w load k) else m k)"
  by (induction ks arbitrary: m) (auto simp: insert_account_in_map_def entry_of_def Let_def)

lemma fold_pools_entry:
  "fold (\<lambda>p. fold (insert_account_in_map w load) (pool_keys_read p)) ps m k =
     (if \<exists>p \<in> set ps. k \<in> set (pool_keys_read p) then Some (entry_of w load k) else m k)"
  by (induction ps arbitrary: m) (auto simp: fold_insert_entry)

lemma get_accounts_data_entry:
  assumes "p \<in> set (mk_pool_keys mk)" "k \<in> set (pool_keys_read p)"
  shows "ma_pubkey_account_map (get_accounts_data mk w load) k = Some (entry_of w load k)"
  using assms
  by (auto simp: get_accounts_data_def Let_def fold_pools_entry insert_account_in_map_def entry_of_def split: option.splits)

section \<open>Properties\<close>

text \<open>
  C14. Loading a transaction gives one account per key, in order; the lamports missing from these
  accounts are exactly the fee, taken once, and the rent; and every instruction gets the indices of
  a chain of loaded accounts that starts at its program, which is executable, and has at most ten
  members.
\<close>

theorem load_transaction_charges:
  assumes "load_transaction env tx = Ok lt" "le_overrides env = None"
  defines "keys \<equiv> ak_iter (sm_account_keys (stx_message tx))"
  assumes "sum_list (map (loaded_balance env (stx_message tx)) (List.enumerate 0 keys)) \<le> u64_max"
    and "\<forall>ix \<in> set (sm_instructions (stx_message tx)). ci_program_id_index ix < length keys"
  shows "map fst (take (length keys) (lt_accounts lt)) = keys \<and>
    sum_list (map (acc_lamports \<circ> snd) (take (length keys) (lt_accounts lt))) + le_fee env + lt_rent lt =
      sum_list (map (loaded_balance env (stx_message tx)) (List.enumerate 0 keys)) \<and>
    list_all2 (\<lambda>ix is. chain_in (lt_accounts lt) (keys ! ci_program_id_index ix) is)
      (sm_instructions (stx_message tx)) (lt_program_indices lt)"
proof -
  obtain st where st: "foldE (load_key env (stx_message tx)) (List.enumerate 0 keys)
       load_start = Ok st"
    "ls_validated_fee_payer st" "lt_rent lt = ls_tx_rent st"
    "load_programs (le_loader_state env) (le_load env) (sm_instructions (stx_message tx))
       (ls_accounts st @ ls_account_deps st) = Ok (lt_accounts lt, lt_program_indices lt)"
    using load_transaction_Ok [OF assms(1)] unfolding keys_def by metis
  note inv = load_keys_loaded [OF st(1) assms(2), unfolded keys_loaded_def]
    load_keys_balances [OF st(1) assms(2,4), unfolded balances_loaded_def]
  have keys: "map fst (ls_accounts st) = keys" using inv by simp
  then have len: "length (ls_accounts st) = length keys" by (metis length_map)
  have chains: "extends (ls_accounts st @ ls_account_deps st) (lt_accounts lt) \<and>
    list_all2 (\<lambda>ix is. chain_in (lt_accounts lt)
      (fst ((ls_accounts st @ ls_account_deps st) ! ci_program_id_index ix)) is)
      (sm_instructions (stx_message tx)) (lt_program_indices lt)"
    by (rule load_programs_chains [OF st(4)]) (use assms(5) len in auto)
  then have "take (length keys) (lt_accounts lt) = ls_accounts st"
    using len by (auto simp: extends_def)
  moreover have "fst ((ls_accounts st @ ls_account_deps st) ! i) = keys ! i" if "i < length keys" for i
    using that keys len by (metis nth_append nth_map)
  then have "list_all2 (\<lambda>ix is. chain_in (lt_accounts lt) (keys ! ci_program_id_index ix) is)
      (sm_instructions (stx_message tx)) (lt_program_indices lt)"
    using chains assms(5) by (auto simp: list_all2_conv_all_nth)
  ultimately show ?thesis using inv keys st(2,3) len by simp
qed

lemma load_transaction_resolves:
  assumes "load_transaction env tx = Ok lt" "stx_mev_keys tx = Some mk" "le_overrides env = None"
    and "p \<in> set (mk_pool_keys mk)" "k \<in> set (pool_keys_read p)"
  shows "\<exists>ma. lt_mev_accounts lt = Some ma \<and> ma_pool_accounts ma = mk_pool_keys mk \<and>
    resolves env (stx_message tx) (ma_pubkey_account_map ma) k"
proof -
  let ?keys = "ak_iter (sm_account_keys (stx_message tx))"
  obtain st where st: "foldE (load_key env (stx_message tx)) (List.enumerate 0 ?keys) load_start = Ok st"
    "lt_mev_accounts lt = map_option (\<lambda>mk. get_accounts_data mk (ls_mev_writable st) (le_load env)) (stx_mev_keys tx)"
    by (rule load_transaction_Ok [OF assms(1)])
  have "\<And>k i. ls_mev_writable st k = Some i \<Longrightarrow> i < length ?keys \<and> ?keys ! i = k"
    "\<forall>i < length ?keys. may_write env (stx_message tx) (i, ?keys ! i) \<longrightarrow> ls_mev_writable st (?keys ! i) \<noteq> None"
    using load_keys_loaded [OF st(1) assms(3)] by (auto simp: keys_loaded_def)
  then have "resolves env (stx_message tx) (ma_pubkey_account_map (get_accounts_data mk (ls_mev_writable st) (le_load env))) k"
    unfolding resolves_def get_accounts_data_entry [OF assms(4,5)]
    by (auto simp: entry_of_def Let_def split: option.splits)
  then show ?thesis using st(2) assms(2) by (simp add: get_accounts_data_def Let_def)
qed

lemma loaded_keys:
  assumes "load_transaction env tx = Ok lt" "le_overrides env = None"
  defines "keys \<equiv> ak_iter (sm_account_keys (stx_message tx))"
  shows "map fst (take (length keys) (lt_accounts lt)) = keys" "length keys \<le> length (lt_accounts lt)"
proof -
  obtain st where st: "foldE (load_key env (stx_message tx)) (List.enumerate 0 keys) load_start = Ok st"
    "load_programs (le_loader_state env) (le_load env) (sm_instructions (stx_message tx))
       (ls_accounts st @ ls_account_deps st) = Ok (lt_accounts lt, lt_program_indices lt)"
    unfolding keys_def by (rule load_transaction_Ok [OF assms(1)])
  have keys: "map fst (ls_accounts st) = keys"
    using load_keys_loaded [OF st(1) assms(2)] by (auto simp: keys_loaded_def)
  have "extends (ls_accounts st) (lt_accounts lt)" "length (ls_accounts st) = length keys"
    using load_programs_extends [OF st(2)] keys by (auto simp: extends_def)
  then show "map fst (take (length keys) (lt_accounts lt)) = keys" "length keys \<le> length (lt_accounts lt)"
    using keys extends_take extends_length by metis+
qed

text \<open>
  Who may pay a fee and what is left: exactly a system account or an initialised nonce account
  that holds the fee on top of its minimum, and whose rent state after paying is allowed once
  accounts must be rent exempt; the fee and nothing else is taken.
\<close>

theorem validate_fee_payer_accepts:
  assumes "fee + minimum_balance (rc_rent rc) (nonce_state_size c) \<le> u64_max"
  shows "validate_fee_payer c rc features fee key i account = Ok account' \<longleftrightarrow>
    acc_lamports account \<noteq> 0 \<and>
    (\<exists>kind. get_system_account_kind c account = Some kind \<and> fee + fee_payer_minimum c rc kind \<le> acc_lamports account) \<and>
    account' = set_lamports (acc_lamports account - fee) account \<and>
    (is_active features require_rent_exempt_accounts \<longrightarrow> key = incinerator_id \<or>
       transition_allowed_from (rent_state_from_account account' (rc_rent rc)) (rent_state_from_account account (rc_rent rc))
         (is_active features do_support_realloc) (is_active features prevent_crediting_accounts_that_end_rent_paying))"
proof -
  have "wrap64 (fee + fee_payer_minimum c rc kind) = fee + fee_payer_minimum c rc kind" for kind
    using assms by (cases kind) (simp_all add: fee_payer_minimum_def wrap64_def)
  then show ?thesis
    unfolding validate_fee_payer_def Let_def fee_payer_minimum_def [symmetric]
    by (auto simp: result_simps checked_sub_lamports_def check_rent_state_with_account_def not_less
        split: if_splits option.splits)
qed

section \<open>Witnesses\<close>

definition example_account :: "u64 \<Rightarrow> account_shared_data" where
  "example_account n = \<lparr>acc_lamports = n, acc_data = [], acc_owner = 0, acc_executable = False, acc_rent_epoch = 4\<rparr>"

definition example_program :: account_shared_data where
  "example_program = \<lparr>acc_lamports = 1, acc_data = [], acc_owner = native_loader_id, acc_executable = True, acc_rent_epoch = 4\<rparr>"

definition example_data :: "bytes \<Rightarrow> account_shared_data" where
  "example_data d = \<lparr>acc_lamports = 1, acc_data = d, acc_owner = 30, acc_executable = False, acc_rent_epoch = 4\<rparr>"

definition example_db :: "pubkey \<rightharpoonup> account_shared_data" where
  "example_db = [7 \<mapsto> example_account 100, 8 \<mapsto> example_account 30, 100 \<mapsto> example_program,
     40 \<mapsto> example_data [], 41 \<mapsto> example_data [16, 3], 42 \<mapsto> example_data [64, 4],
     43 \<mapsto> example_data [40, 3], 44 \<mapsto> example_data [40, 4],
     50 \<mapsto> example_data [], 51 \<mapsto> example_data [64, 3], 52 \<mapsto> example_data [64, 4],
     53 \<mapsto> example_data [40, 3], 54 \<mapsto> example_data [40, 4]]"

definition example_env :: load_env where
  "example_env = \<lparr>le_db = (\<lambda>_. example_db),
     le_nonce_codec = example_nonce_codec, le_loader_state = (\<lambda>_. None), le_rent_collector = example_rent_collector,
     le_features = [], le_fee = 5, le_overrides = None, le_filler_suffix = None\<rparr>"

definition example_mev_keys :: mev_keys where
  "example_mev_keys = \<lparr>mk_pool_keys = [\<lparr>mpk_pool = 8, mpk_source = None, mpk_destination = None, mpk_token_a = 21,
     mpk_token_b = 22, mpk_pool_mint = 23, mpk_pool_fee = 24, mpk_pool_authority = 25\<rparr>],
     mk_token_program = 26, mk_user_authority = None\<rparr>"

definition example_watched_tx :: sanitized_transaction where
  "example_watched_tx = \<lparr>stx_message = SM_Legacy example_message, stx_message_hash = 0, stx_is_simple_vote_tx = False,
     stx_signatures = [replicate 64 1], stx_mev_keys = Some example_mev_keys\<rparr>"

lemma example_load_account:
  "\<exists>keep. load_account example_env m i 7 = (example_account 100, 0, keep)"
  "\<exists>keep. load_account example_env m i 8 = (example_account 30, 0, keep)"
  "\<exists>keep. load_account example_env m i 9 = (default_account, 0, keep)"
  by (auto simp: load_account_def example_env_def example_db_def le_load_def rent_collection example_account_def
      example_rent_collector_def default_collected_info_def)

lemma example_fee: "\<exists>a. validate_fee_payer example_nonce_codec example_rent_collector [] 5 7 0 (example_account 100) = Ok a \<and>
    acc_owner a = 0 \<and> \<not> acc_executable a"
  by (simp add: validate_fee_payer_def example_account_def get_system_account_kind_def system_program_id_def
      is_active_def checked_sub_lamports_def checked_sub64_def set_lamports_def wrap64_def)

lemma example_load_key:
  assumes "\<exists>keep. load_account example_env m i k = (a, 0, keep)" "k \<noteq> instructions_id" "sm_is_non_loader_key m i"
    and "ls_validated_fee_payer st \<and> acc_owner a = 0 \<and> \<not> acc_executable a \<or> a = example_account 100 \<and> k = 7 \<and> i = 0"
  shows "\<exists>st'. load_key example_env m (i, k) st = Ok st' \<and> ls_validated_fee_payer st'"
proof -
  obtain keep where keep: "load_account example_env m i k = (a, 0, keep)" using assms(1) by blast
  have "bpf_loader_upgradeable_id \<noteq> 0" by (simp add: bpf_loader_upgradeable_id_def)
  then have "check_executable example_env m i b = Ok []" if "acc_owner b = 0" "\<not> acc_executable b" for b
    using that by (simp add: check_executable_def)
  moreover obtain b where "if ls_validated_fee_payer st then b = a else
      validate_fee_payer example_nonce_codec example_rent_collector [] 5 k i a = Ok b" "acc_owner b = 0" "\<not> acc_executable b"
    using assms(4) example_fee by (cases "ls_validated_fee_payer st") (auto simp: example_account_def)
  ultimately show ?thesis
    using keep assms(2,3)
    by (cases "ls_validated_fee_payer st"; cases keep) (auto simp: load_key_def example_env_def)
qed

lemma example_loaded: "\<exists>lt. load_transaction example_env (example_watched_tx\<lparr>stx_mev_keys := mk\<rparr>) = Ok lt"
proof -
  let ?m = "SM_Legacy example_message"
  have nl: "sm_is_non_loader_key ?m 0" "sm_is_non_loader_key ?m 1" "sm_is_non_loader_key ?m 2" "\<not> sm_is_non_loader_key ?m 3"
    by (simp_all add: sm_is_non_loader_key_def sm_is_invoked_def instruction_calls_def instruction_passes_def example_message_def)
  have ne: "7 \<noteq> instructions_id" "8 \<noteq> instructions_id" "9 \<noteq> instructions_id" "100 \<noteq> native_loader_id"
    by (simp_all add: instructions_id_def native_loader_id_def)
  obtain s1 where s1: "load_key example_env ?m (0, 7) load_start = Ok s1" "ls_validated_fee_payer s1"
    using example_load_key [OF example_load_account(1) ne(1) nl(1)] by auto
  obtain s2 where s2: "load_key example_env ?m (1, 8) s1 = Ok s2" "ls_validated_fee_payer s2"
    using example_load_key [OF example_load_account(2) ne(2) nl(2)] s1(2) by (auto simp: example_account_def)
  obtain s3 where s3: "load_key example_env ?m (2, 9) s2 = Ok s3" "ls_validated_fee_payer s3"
    using example_load_key [OF example_load_account(3) ne(3) nl(3)] s2(2) by (auto simp: default_account_def)
  let ?s4 = "s3\<lparr>ls_accounts := ls_accounts s3 @ [(100, default_account)]\<rparr>"
  have s4: "load_key example_env ?m (3, 100) s3 = Ok ?s4" using nl(4) by (simp add: load_key_def)
  have keys: "ak_iter (sm_account_keys ?m) = [7, 8, 9, 100]"
    by (simp add: example_message_def ak_iter_def key_segment_iter_def)
  have loop: "foldE (load_key example_env ?m) (List.enumerate 0 (ak_iter (sm_account_keys ?m))) load_start = Ok ?s4"
    unfolding keys using s1 s2 s3 s4 by (simp add: eval_nat_numeral)
  have "map fst (ls_accounts ?s4) = [7, 8, 9, 100]"
    using load_keys_loaded [OF loop] unfolding keys keys_loaded_def by (simp add: example_env_def)
  then obtain a where "slice_get (ls_accounts ?s4 @ ls_account_deps ?s4) 3 = Some (100, a)"
    by (auto simp: slice_get_Some nth_append map_eq_Cons_conv)
  moreover have "le_load example_env 100 = Some example_program" by (simp add: example_env_def example_db_def le_load_def)
  moreover have "bpf_loader_upgradeable_id \<noteq> native_loader_id"
    by (simp add: bpf_loader_upgradeable_id_def native_loader_id_def)
  ultimately have "\<exists>r. load_programs (le_loader_state example_env) (le_load example_env) (sm_instructions ?m)
      (ls_accounts ?s4 @ ls_account_deps ?s4) = Ok r"
    using ne(4)
    by (simp add: load_programs_def example_message_def load_executable_accounts_def load_program_chain.simps
        example_program_def numeral_eq_Suc)
  then show ?thesis
    using loop s3(2) by (auto simp: load_transaction_def example_watched_tx_def)
qed

theorem load_transaction_charges_witness:
  "\<exists>lt. load_transaction example_env example_watched_tx = Ok lt \<and> map fst (take 4 (lt_accounts lt)) = [7, 8, 9, 100] \<and>
     sum_list (map (acc_lamports \<circ> snd) (take 4 (lt_accounts lt))) + 5 + lt_rent lt = 130"
proof -
  obtain lt where lt: "load_transaction example_env example_watched_tx = Ok lt"
    using example_loaded [of "Some example_mev_keys"] by (auto simp: example_watched_tx_def)
  have keys: "ak_iter (sm_account_keys (stx_message example_watched_tx)) = [7, 8, 9, 100]"
    by (simp add: example_watched_tx_def example_message_def ak_iter_def key_segment_iter_def)
  have "7 \<noteq> instructions_id" "8 \<noteq> instructions_id" by (simp_all add: instructions_id_def)
  then have bal: "sum_list (map (loaded_balance example_env (stx_message example_watched_tx)) (List.enumerate 0 [7, 8, 9, 100])) = 130"
    by (simp add: loaded_balance_def example_watched_tx_def example_message_def sm_is_non_loader_key_def sm_is_invoked_def
        instruction_calls_def instruction_passes_def example_env_def example_db_def le_load_def example_account_def)
  have "\<forall>ix \<in> set (sm_instructions (stx_message example_watched_tx)). ci_program_id_index ix < 4"
    "le_overrides example_env = None" "le_fee example_env = 5"
    by (simp_all add: example_watched_tx_def example_message_def example_env_def)
  moreover have len: "length [7, 8, 9, 100 :: pubkey] = 4" by simp
  ultimately show ?thesis
    using load_transaction_charges [OF lt, unfolded keys len bal] lt by simp
qed

theorem validate_fee_payer_accepts_witness:
  "validate_fee_payer example_nonce_codec example_rent_collector [] 5 7 0 (example_account 100) = Ok (example_account 95)"
proof -
  have k: "get_system_account_kind example_nonce_codec (example_account 100) = Some SAK_System"
    by (simp add: get_system_account_kind_def example_account_def system_program_id_def)
  have "5 + minimum_balance (rc_rent example_rent_collector) (nonce_state_size example_nonce_codec) \<le> u64_max"
  proof -
    have "nonce_state_size example_nonce_codec = 1"
      by (simp add: nonce_state_size_def example_nonce_codec_def two_state_codec_def)
    then show ?thesis
      using minimum_balance_exact [of "rc_rent example_rent_collector" 1] by (simp add: example_rent_collector_def)
  qed
  from validate_fee_payer_accepts [OF this] show ?thesis
    by (simp add: k fee_payer_minimum_def is_active_def) (simp add: example_account_def set_lamports_def)
qed

end
