(* ===== verification/Program_Address.thy ===== *)
theory Program_Address
  imports Accounts
begin

text \<open>
  Program derived addresses (\<^verbatim>\<open>sdk/program/src/pubkey.rs\<close>): an address that a program can sign for is a
  hash of seeds that is not a point of the ed25519 curve, and is found by trying bump seeds downwards
  from 255. SHA-256 (\<open>hashv\<close>) and the curve test are parameters.
\<close>

definition MAX_SEEDS :: usize where "MAX_SEEDS = 16"

definition create_program_address ::
  "(bytes list \<Rightarrow> hash) \<Rightarrow> (hash \<Rightarrow> bool) \<Rightarrow> bytes list \<Rightarrow> pubkey \<Rightarrow> (pubkey, pubkey_error) result" where
  "create_program_address hashv bytes_are_curve_point seeds program_id =
     (if length seeds > MAX_SEEDS then Err PKE_MaxSeedLengthExceeded
      else if list_ex (\<lambda>seed. length seed > MAX_SEED_LEN) seeds then Err PKE_MaxSeedLengthExceeded
      else
        (let hash = hashv (seeds @ [to_bytes program_id, PDA_MARKER]) in
         if bytes_are_curve_point hash then Err PKE_InvalidSeeds else Ok hash))"

text \<open>The loop tries the bumps 255 to 1; \<open>n\<close> is the current bump.\<close>

fun try_bumps ::
  "(bytes list \<Rightarrow> hash) \<Rightarrow> (hash \<Rightarrow> bool) \<Rightarrow> bytes list \<Rightarrow> pubkey \<Rightarrow> nat \<Rightarrow> (pubkey \<times> nat) option" where
  "try_bumps hashv bytes_are_curve_point seeds program_id 0 = None"
| "try_bumps hashv bytes_are_curve_point seeds program_id (Suc n) =
     (case create_program_address hashv bytes_are_curve_point (seeds @ [[of_nat (Suc n)]]) program_id of
        Inr address \<Rightarrow> Some (address, Suc n)
      | Inl (Raise PKE_InvalidSeeds) \<Rightarrow> try_bumps hashv bytes_are_curve_point seeds program_id n
      | Inl _ \<Rightarrow> None)"

definition try_find_program_address ::
  "(bytes list \<Rightarrow> hash) \<Rightarrow> (hash \<Rightarrow> bool) \<Rightarrow> bytes list \<Rightarrow> pubkey \<Rightarrow> (pubkey \<times> nat) option" where
  "try_find_program_address hashv bytes_are_curve_point seeds program_id =
     try_bumps hashv bytes_are_curve_point seeds program_id 255"

definition find_program_address ::
  "(bytes list \<Rightarrow> hash) \<Rightarrow> (hash \<Rightarrow> bool) \<Rightarrow> bytes list \<Rightarrow> pubkey \<Rightarrow> (pubkey \<times> nat, 'e) result" where
  "find_program_address hashv bytes_are_curve_point seeds program_id =
     unwrap (try_find_program_address hashv bytes_are_curve_point seeds program_id)"

section \<open>Lemmas\<close>

definition seeds_fit :: "bytes list \<Rightarrow> bool" where
  "seeds_fit seeds \<longleftrightarrow> length seeds \<le> MAX_SEEDS \<and> (\<forall>s \<in> set seeds. length s \<le> MAX_SEED_LEN)"

lemma create_program_address_eq:
  "create_program_address hashv curve seeds program_id =
     (if \<not> seeds_fit seeds then Err PKE_MaxSeedLengthExceeded
      else if curve (hashv (seeds @ [to_bytes program_id, PDA_MARKER])) then Err PKE_InvalidSeeds
      else Ok (hashv (seeds @ [to_bytes program_id, PDA_MARKER])))"
  by (auto simp: create_program_address_def seeds_fit_def Let_def list_ex_iff not_less not_le)

lemma seeds_fit_bump: "seeds_fit (seeds @ [[b]]) \<longleftrightarrow> length seeds < MAX_SEEDS \<and> (\<forall>s \<in> set seeds. length s \<le> MAX_SEED_LEN)"
  by (auto simp: seeds_fit_def MAX_SEED_LEN_def)

text \<open>The search returns the largest bump whose hash is off the curve.\<close>

lemma try_bumps_Some:
  "try_bumps hashv curve seeds program_id n = Some (address, b) \<longleftrightarrow>
     0 < b \<and> b \<le> n \<and> create_program_address hashv curve (seeds @ [[of_nat b]]) program_id = Ok address \<and>
     (\<forall>b' > b. b' \<le> n \<longrightarrow> create_program_address hashv curve (seeds @ [[of_nat b']]) program_id = Err PKE_InvalidSeeds)"
proof (induction n)
  case (Suc n)
  let ?C = "\<lambda>b. create_program_address hashv curve (seeds @ [[of_nat b]]) program_id"
  show ?case
  proof (cases "?C (Suc n) = Err PKE_InvalidSeeds")
    case True
    then have "try_bumps hashv curve seeds program_id (Suc n) = try_bumps hashv curve seeds program_id n"
      by simp
    then show ?thesis
      using Suc True by (simp only: le_Suc_eq) (auto simp del: of_nat_Suc)
  next
    case False
    then have "try_bumps hashv curve seeds program_id (Suc n) = (case ?C (Suc n) of Inr a \<Rightarrow> Some (a, Suc n) | Inl _ \<Rightarrow> None)"
      by (auto split: sum.splits fault.splits pubkey_error.splits)
    moreover have "(\<forall>b' > b. b' \<le> Suc n \<longrightarrow> ?C b' = Err PKE_InvalidSeeds) \<longleftrightarrow> Suc n \<le> b"
      using False by (cases "Suc n \<le> b") (auto simp del: of_nat_Suc intro!: exI [of _ "Suc n"])
    ultimately show ?thesis
      by (cases "b = Suc n"; cases "?C (Suc n)") (simp_all add: eq_commute [of _ b] del: of_nat_Suc)
  qed
qed auto

lemma try_bumps_None:
  "try_bumps hashv curve seeds program_id n = None \<longleftrightarrow> n = 0 \<or> \<not> seeds_fit (seeds @ [[0]]) \<or>
     (\<forall>b \<in> {1..n}. curve (hashv ((seeds @ [[of_nat b]]) @ [to_bytes program_id, PDA_MARKER])))"
proof (induction n)
  case (Suc n)
  have "{1..Suc n} = insert (Suc n) {1..n}" by auto
  with Suc show ?case by (auto simp: create_program_address_eq seeds_fit_bump simp del: of_nat_Suc)
qed simp

section \<open>Properties\<close>

text \<open>
  C33. The search for a program address returns an address that is off the curve, so that no
  private key signs for it; creating the address from the seeds and the bump found gives the same
  address; no larger bump works; and it panics exactly when no bump works or the seeds are too many
  or too long.
\<close>

theorem find_program_address_canonical:
  "((find_program_address hashv curve seeds program_id :: (_, 'e) result) = Ok (address, b) \<longleftrightarrow>
      1 \<le> b \<and> b \<le> 255 \<and> \<not> curve address \<and>
      create_program_address hashv curve (seeds @ [[of_nat b]]) program_id = Ok address \<and>
      (\<forall>b' \<in> {b<..255}. curve (hashv (seeds @ [[of_nat b'], to_bytes program_id, PDA_MARKER])))) \<and>
   ((find_program_address hashv curve seeds program_id :: (_, 'e) result) = panic \<longleftrightarrow>
      MAX_SEEDS \<le> length seeds \<or> (\<exists>s \<in> set seeds. MAX_SEED_LEN < length s) \<or>
      (\<forall>b \<in> {1..255}. curve (hashv (seeds @ [[of_nat b], to_bytes program_id, PDA_MARKER]))))"
  (is "?found \<and> ?none")
proof -
  have h: "hashv ((seeds @ [[b]]) @ [to_bytes program_id, PDA_MARKER]) =
      hashv (seeds @ [[b], to_bytes program_id, PDA_MARKER])" for b by simp
  have "?found"
    unfolding find_program_address_def try_find_program_address_def
    by (simp add: result_simps try_bumps_Some create_program_address_eq seeds_fit_bump h split: if_splits)
      fastforce
  moreover have "?none"
    unfolding find_program_address_def try_find_program_address_def
    by (simp add: unwrap_panic_iff try_bumps_None seeds_fit_bump h not_less) force
  ultimately show ?thesis ..
qed

theorem find_program_address_canonical_witness:
  "find_program_address (\<lambda>seeds. if [255] \<in> set (take 2 seeds) then 3 else 8) (\<lambda>h. h = 3) [[1, 2]] 77 =
     (Ok (8, 254) :: (_, unit) result)"
proof -
  let ?h = "\<lambda>seeds. if [255::8 word] \<in> set (take 2 seeds) then 3 else 8 :: hash"
  have "{254<..255} = {255::nat}" by auto
  then show ?thesis
    using find_program_address_canonical [of ?h "\<lambda>h. h = 3" "[[1, 2]]" 77 8 254, where 'e = unit]
    by (simp add: create_program_address_eq seeds_fit_def MAX_SEEDS_def MAX_SEED_LEN_def)
qed

end
