(* ===== verification/Mev.thy ===== *)
theory Mev
  imports Loading_Properties Program_Address
begin

text \<open>
  The MEV extension (\<^verbatim>\<open>runtime/src/mev.rs\<close>, \<^verbatim>\<open>runtime/src/mev/arbitrage.rs\<close>, \<^verbatim>\<open>runtime/src/mev/utils.rs\<close>, and its hook
  in \<^verbatim>\<open>load_and_execute_transactions\<close> of \<^verbatim>\<open>runtime/src/bank.rs\<close>): after a transaction that touches a watched
  program, the states of the configured pools are read, each configured path of swaps is tried for
  an arbitrage, and a transaction with its swaps is built and signed.

  The crates \<^verbatim>\<open>spl_token_swap\<close> and \<^verbatim>\<open>spl_token\<close> are a parameter: their fee functions, the curve of a pool, the
  decoders of their accounts and the encoder of the swap instruction. Files, threads and the log
  channel are left out but for the messages that are sent.
\<close>

section \<open>Data\<close>

datatype trade_direction = AtoB | BtoA

record pair_info =
  pi_pool :: pubkey
  pi_direction :: trade_direction

record mev_path =
  mp_name :: string
  mp_path :: "pair_info list"

record input_output_pairs =
  token_in :: u64
  token_out :: u64

record mev_tx_output =
  mto_sanitized_tx :: "sanitized_transaction option"
  mto_path_idx :: nat
  mto_input_output_pairs :: "input_output_pairs list"
  mto_profit :: u64
  mto_marginal_price :: f64

record path_calculation_output =
  pco_optimal_input :: f64
  pco_marginal_price :: f64
  pco_source_token_balance :: "u64 option"

record swap_arguments =
  sa_program_id :: pubkey
  sa_swap_pubkey :: pubkey
  sa_authority_pubkey :: pubkey
  sa_source_pubkey :: pubkey
  sa_swap_source_pubkey :: pubkey
  sa_swap_destination_pubkey :: pubkey
  sa_destination_pubkey :: pubkey
  sa_pool_mint_pubkey :: pubkey
  sa_pool_fee_pubkey :: pubkey
  sa_token_program :: pubkey
  sa_amount_in :: u64
  sa_minimum_amount_out :: u64

text \<open>From \<^verbatim>\<open>spl_token_swap\<close> and \<^verbatim>\<open>spl_token\<close>: the fees of a pool, and what of a token account is read.\<close>

record spl_fees =
  trade_fee_numerator :: u64
  trade_fee_denominator :: u64
  owner_trade_fee_numerator :: u64
  owner_trade_fee_denominator :: u64
  host_fee_numerator :: u64
  host_fee_denominator :: u64

record spl_account =
  spl_mint :: pubkey
  spl_amount :: u64

text \<open>A curve takes the source amount, the two balances and the direction to the two amounts swapped.\<close>

type_synonym swap_curve = "u128 \<Rightarrow> u128 \<Rightarrow> u128 \<Rightarrow> trade_direction \<Rightarrow> (u128 \<times> u128) option"

record spl_library =
  spl_trading_fee :: "spl_fees \<Rightarrow> u128 \<Rightarrow> u128 option"
  spl_owner_trading_fee :: "spl_fees \<Rightarrow> u128 \<Rightarrow> u128 option"
  spl_unpack_pool :: "bytes \<Rightarrow> (spl_fees \<times> swap_curve, program_error) result"
  spl_unpack_account :: "bytes \<Rightarrow> (spl_account, program_error) result"
  spl_pack_swap :: "u64 \<Rightarrow> u64 \<Rightarrow> bytes"

record orca_pool_addresses =
  opa_program_id :: pubkey
  opa_address :: pubkey
  opa_pool_a_account :: pubkey
  opa_pool_b_account :: pubkey
  opa_source :: "pubkey option"
  opa_destination :: "pubkey option"
  opa_pool_mint :: pubkey
  opa_pool_fee :: pubkey
  opa_pool_authority :: pubkey
  opa_pool_a_mint :: pubkey
  opa_pool_b_mint :: pubkey

record orca_pool_with_balance =
  opb_pool :: orca_pool_addresses
  opb_pool_a_balance :: u64
  opb_pool_b_balance :: u64
  opb_source_balance :: "u64 option"
  opb_destination_balance :: "u64 option"
  opb_fees :: spl_fees
  opb_curve_calculator :: swap_curve

type_synonym pool_states = "pubkey \<rightharpoonup> orca_pool_with_balance"

record mev =
  mev_watched_programs :: "pubkey list"
  mev_orca_monitored_accounts :: "orca_pool_addresses list"
  mev_mev_paths :: "mev_path list"
  mev_user_authority :: "keypair option"
  mev_minimum_profit :: "pubkey \<rightharpoonup> u64"

record pre_post_pool_states =
  pps_transaction_hash :: hash
  pps_transaction_signature :: signature
  pps_slot :: slot
  pps_orca_pre_tx_pool :: pool_states
  pps_orca_post_tx_pool :: pool_states

record executed_transaction_output =
  eto_transaction_hash :: hash
  eto_transaction_signature :: signature
  eto_is_successful :: bool
  eto_possible_profit :: u64

datatype mev_msg =
    MM_Log pre_post_pool_states
  | MM_Opportunities "mev_tx_output list"
  | MM_ExecutedTransaction executed_transaction_output
  | MM_Exit

definition spl_token_id :: pubkey where
  "spl_token_id = 3106054211088883198575105191760876350940303353676611666299516346430146937001"

section \<open>Configuration\<close>

text \<open>
  \<^verbatim>\<open>Mev::new\<close>: the configuration has been read from its file, and so has the keypair of the user
  authority. A path is refused with a panic when it is empty or starts and ends alike.
\<close>

record mev_config =
  mc_watched_programs :: "pubkey list"
  mc_orca_accounts :: "orca_pool_addresses list"
  mc_mev_paths :: "mev_path list"
  mc_user_authority :: "keypair option"
  mc_minimum_profit :: "(pubkey \<times> u64) list"

definition check_path :: "mev_path \<Rightarrow> (mev_path, 'e) result" where
  "check_path path =
     (if mp_path path = [] then panic
      else if hd (mp_path path) = last (mp_path path) then panic
      else Ok path)"

definition mev_new :: "mev_config \<Rightarrow> (mev, 'e) result" where
  "mev_new config =
     bindE (mapE check_path (mc_mev_paths config)) (\<lambda>mev_paths.
     Ok \<lparr>mev_watched_programs = mc_watched_programs config,
         mev_orca_monitored_accounts = mc_orca_accounts config,
         mev_mev_paths = mev_paths,
         mev_user_authority = mc_user_authority config,
         mev_minimum_profit = map_of (rev (mc_minimum_profit config))\<rparr>)"

definition is_monitored_account :: "mev \<Rightarrow> sanitized_transaction \<Rightarrow> bool" where
  "is_monitored_account mev tx =
     list_ex (\<lambda>account_key. account_key \<in> set (mev_watched_programs mev)) (ak_iter (sm_account_keys (stx_message tx)))"

definition mev_pool_keys_of :: "orca_pool_addresses \<Rightarrow> mev_pool_keys" where
  "mev_pool_keys_of p =
     \<lparr>mpk_pool = opa_address p, mpk_source = opa_source p, mpk_destination = opa_destination p,
      mpk_token_a = opa_pool_a_account p, mpk_token_b = opa_pool_b_account p, mpk_pool_mint = opa_pool_mint p,
      mpk_pool_fee = opa_pool_fee p, mpk_pool_authority = opa_pool_authority p\<rparr>"

definition fill_tx_mev_accounts :: "mev \<Rightarrow> sanitized_transaction \<Rightarrow> sanitized_transaction" where
  "fill_tx_mev_accounts mev tx =
     (if is_monitored_account mev tx then
        tx\<lparr>stx_mev_keys := Some \<lparr>mk_pool_keys = map mev_pool_keys_of (mev_orca_monitored_accounts mev),
             mk_token_program = spl_token_id,
             mk_user_authority = map_option kp_pubkey (mev_user_authority mev)\<rparr>\<rparr>
      else tx)"

section \<open>Pool states\<close>

text \<open>\<^verbatim>\<open>pubkey_account_map[pubkey]\<close> and \<^verbatim>\<open>accounts[idx]\<close> panic when there is no such entry.\<close>

definition get_account :: "mev_accounts \<Rightarrow> loaded_transaction \<Rightarrow> pubkey \<Rightarrow> (transaction_account, 'e) result" where
  "get_account ma lt pubkey =
     bindE (unwrap (ma_pubkey_account_map ma pubkey)) (\<lambda>entry.
     case entry of
       Idx idx \<Rightarrow> unwrap (slice_get (lt_accounts lt) idx)
     | ReadAccount acc \<Rightarrow> Ok acc)"

text \<open>The key of a token account of ours with its amount, when it is configured.\<close>

definition token_amount ::
  "spl_library \<Rightarrow> mev_accounts \<Rightarrow> loaded_transaction \<Rightarrow> pubkey option \<Rightarrow> ((pubkey \<times> u64) option, program_error) result" where
  "token_amount spl ma lt key =
     (case key of
        None \<Rightarrow> Ok None
      | Some key \<Rightarrow>
          bindE (get_account ma lt key) (\<lambda>(pubkey, account).
          bindE (spl_unpack_account spl (acc_data account)) (\<lambda>spl_acc.
          Ok (Some (pubkey, spl_amount spl_acc)))))"

definition read_pool ::
  "spl_library \<Rightarrow> hash_function \<Rightarrow> (hash \<Rightarrow> bool) \<Rightarrow> mev_accounts \<Rightarrow> loaded_transaction \<Rightarrow> mev_pool_keys \<Rightarrow>
     (pubkey \<times> orca_pool_with_balance, program_error) result" where
  "read_pool spl hashv curve ma lt p =
     bindE (get_account ma lt (mpk_pool p)) (\<lambda>pool_acc.
     let program_id = acc_owner (snd pool_acc) in
     bindE (find_program_address hashv curve [to_bytes (mpk_pool p)] program_id) (\<lambda>(pool_authority, _).
     bindE (spl_unpack_pool spl (acc_data (snd pool_acc))) (\<lambda>(fees, calculator).
     bindE (get_account ma lt (mpk_token_a p)) (\<lambda>pool_a_acc.
     bindE (spl_unpack_account spl (acc_data (snd pool_a_acc))) (\<lambda>pool_a_account.
     bindE (get_account ma lt (mpk_token_b p)) (\<lambda>pool_b_acc.
     bindE (spl_unpack_account spl (acc_data (snd pool_b_acc))) (\<lambda>pool_b_account.
     bindE (token_amount spl ma lt (mpk_source p)) (\<lambda>source.
     bindE (token_amount spl ma lt (mpk_destination p)) (\<lambda>destination.
     bindE (get_account ma lt (mpk_pool_mint p)) (\<lambda>pool_mint.
     bindE (get_account ma lt (mpk_pool_fee p)) (\<lambda>pool_fee.
     Ok (fst pool_acc,
         \<lparr>opb_pool = \<lparr>opa_program_id = program_id, opa_address = fst pool_acc, opa_pool_a_account = fst pool_a_acc,
            opa_pool_b_account = fst pool_b_acc, opa_source = map_option fst source,
            opa_destination = map_option fst destination, opa_pool_mint = fst pool_mint,
            opa_pool_fee = fst pool_fee, opa_pool_authority = pool_authority,
            opa_pool_a_mint = spl_mint pool_a_account, opa_pool_b_mint = spl_mint pool_b_account\<rparr>,
          opb_pool_a_balance = spl_amount pool_a_account, opb_pool_b_balance = spl_amount pool_b_account,
          opb_source_balance = map_option snd source, opb_destination_balance = map_option snd destination,
          opb_fees = fees, opb_curve_calculator = calculator\<rparr>))))))))))))"

text \<open>\<^verbatim>\<open>collect\<close> into a map keeps the last pool of a key.\<close>

definition get_all_orca_monitored_accounts ::
  "spl_library \<Rightarrow> hash_function \<Rightarrow> (hash \<Rightarrow> bool) \<Rightarrow> loaded_transaction \<Rightarrow> (pool_states, program_error) result option" where
  "get_all_orca_monitored_accounts spl hashv curve lt =
     map_option (\<lambda>ma.
       bindE (mapE (read_pool spl hashv curve ma lt) (ma_pool_accounts ma)) (\<lambda>pools. Ok (map_of (rev pools))))
       (lt_mev_accounts lt)"

section \<open>Path calculation\<close>

definition fee_ratio :: "u64 \<Rightarrow> u64 \<Rightarrow> f64" where
  "fee_ratio numerator denominator =
     (if numerator = 0 then f64_of_nat 0 else f64_div (f64_of_nat numerator) (f64_of_nat denominator))"

text \<open>The accumulators of the loop: marginal price, denominator, ratio so far, fees so far.\<close>

definition path_step ::
  "pool_states \<Rightarrow> pair_info \<Rightarrow> f64 \<times> f64 \<times> f64 \<times> f64 \<Rightarrow> (f64 \<times> f64 \<times> f64 \<times> f64) option" where
  "path_step pool_states pair_info = (\<lambda>(marginal_prices_acc, optimal_input_denominator, previous_ratio, total_fee_acc).
     Option.bind (pool_states (pi_pool pair_info)) (\<lambda>tokens_state.
     let (token_balance_from, token_balance_to) =
           (case pi_direction pair_info of
              AtoB \<Rightarrow> (f64_of_nat (opb_pool_a_balance tokens_state), f64_of_nat (opb_pool_b_balance tokens_state))
            | BtoA \<Rightarrow> (f64_of_nat (opb_pool_b_balance tokens_state), f64_of_nat (opb_pool_a_balance tokens_state)));
         fees = opb_fees tokens_state;
         host_fee = fee_ratio (host_fee_numerator fees) (host_fee_denominator fees);
         owner_fee = fee_ratio (owner_trade_fee_numerator fees) (owner_trade_fee_denominator fees);
         trade_fee = fee_ratio (trade_fee_numerator fees) (trade_fee_denominator fees);
         total_fee = f64_sub (f64_of_nat 1) (f64_add (f64_add host_fee owner_fee) trade_fee);
         ratio = f64_div token_balance_to token_balance_from;
         marginal_prices_acc = f64_mul (f64_mul marginal_prices_acc ratio) total_fee;
         total_fee_acc = f64_mul total_fee_acc total_fee;
         optimal_input_denominator =
           f64_add optimal_input_denominator (f64_mul total_fee_acc (f64_div previous_ratio token_balance_from));
         previous_ratio = f64_mul previous_ratio ratio
     in Some (marginal_prices_acc, optimal_input_denominator, previous_ratio, total_fee_acc)))"

definition get_path_calculation_output :: "mev_path \<Rightarrow> pool_states \<Rightarrow> path_calculation_output option" where
  "get_path_calculation_output path pool_states =
     Option.bind (slice_get (mp_path path) 0) (\<lambda>first.
     Option.bind (pool_states (pi_pool first)) (\<lambda>first_state.
     Option.bind (foldO (path_step pool_states) (mp_path path)
       (f64_of_nat 1, f64_of_nat 0, f64_of_nat 1, f64_of_nat 1)) (\<lambda>(marginal_prices_acc, optimal_input_denominator, _, _).
     if f64_less (f64_of_nat 1) marginal_prices_acc then
       Some \<lparr>pco_optimal_input = f64_div (f64_sub (f64_sqrt marginal_prices_acc) (f64_of_nat 1)) optimal_input_denominator,
             pco_marginal_price = marginal_prices_acc, pco_source_token_balance = opb_source_balance first_state\<rparr>
     else None)))"

section \<open>Swaps\<close>

definition account_meta_new :: "pubkey \<Rightarrow> bool \<Rightarrow> account_meta" where
  "account_meta_new pubkey signer = \<lparr>am_pubkey = pubkey, am_is_signer = signer, am_is_writable = True\<rparr>"

definition account_meta_new_readonly :: "pubkey \<Rightarrow> bool \<Rightarrow> account_meta" where
  "account_meta_new_readonly pubkey signer = \<lparr>am_pubkey = pubkey, am_is_signer = signer, am_is_writable = False\<rparr>"

definition swap_instruction :: "spl_library \<Rightarrow> keypair \<Rightarrow> swap_arguments \<Rightarrow> instruction" where
  "swap_instruction spl user sa =
     \<lparr>ix_program_id = sa_program_id sa,
      ix_accounts =
        [account_meta_new_readonly (sa_swap_pubkey sa) False,
         account_meta_new_readonly (sa_authority_pubkey sa) False,
         account_meta_new_readonly (kp_pubkey user) True,
         account_meta_new (sa_source_pubkey sa) False,
         account_meta_new (sa_swap_source_pubkey sa) False,
         account_meta_new (sa_swap_destination_pubkey sa) False,
         account_meta_new (sa_destination_pubkey sa) False,
         account_meta_new (sa_pool_mint_pubkey sa) False,
         account_meta_new (sa_pool_fee_pubkey sa) False,
         account_meta_new_readonly (sa_token_program sa) False],
      ix_data = spl_pack_swap spl (sa_amount_in sa) (sa_minimum_amount_out sa)\<rparr>"

definition create_swap_tx ::
  "spl_library \<Rightarrow> (legacy_message \<Rightarrow> hash) \<Rightarrow> swap_arguments list \<Rightarrow> hash \<Rightarrow> keypair \<Rightarrow> (sanitized_transaction, 'e) result" where
  "create_swap_tx spl message_hash swap_args blockhash user =
     bindE (new_signed_with_payer (map (swap_instruction spl user) swap_args) (Some (kp_pubkey user)) [user] blockhash)
       (\<lambda>signed_tx.
     case try_from_legacy_transaction message_hash signed_tx of Inl _ \<Rightarrow> panic | Inr stx \<Rightarrow> Ok stx)"

text \<open>\<^verbatim>\<open>x as u64\<close> of a \<^verbatim>\<open>u128\<close> is \<^const>\<open>wrap64\<close>.\<close>

definition set_last_minimum :: "u64 \<Rightarrow> swap_arguments list \<Rightarrow> swap_arguments list" where
  "set_last_minimum v args =
     (case rev args of [] \<Rightarrow> [] | a # rest \<Rightarrow> rev (a\<lparr>sa_minimum_amount_out := v\<rparr> # rest))"

text \<open>One hop of a path, on the amount that goes in, the pairs and the swaps so far.\<close>

definition swap_step ::
  "spl_library \<Rightarrow> pool_states \<Rightarrow> pair_info \<Rightarrow> u128 \<times> input_output_pairs list \<times> swap_arguments list \<Rightarrow>
     (u128 \<times> input_output_pairs list \<times> swap_arguments list) option" where
  "swap_step spl pool_states pair_info = (\<lambda>(amount_in, pairs, args).
     Option.bind (pool_states (pi_pool pair_info)) (\<lambda>pool_state.
     Option.bind (spl_trading_fee spl (opb_fees pool_state) amount_in) (\<lambda>trade_fee.
     Option.bind (spl_owner_trading_fee spl (opb_fees pool_state) amount_in) (\<lambda>owner_fee.
     Option.bind (checked_add128 trade_fee owner_fee) (\<lambda>total_fees.
     Option.bind (checked_sub128 amount_in total_fees) (\<lambda>source_amount_less_fees.
     let pool = opb_pool pool_state;
         (source_pubkey, swap_source_pubkey, destination_pubkey, swap_destination_pubkey,
          swap_source_amount, swap_destination_amount) =
           (case pi_direction pair_info of
              AtoB \<Rightarrow> (opa_source pool, opa_pool_a_account pool, opa_destination pool, opa_pool_b_account pool,
                       opb_pool_a_balance pool_state, opb_pool_b_balance pool_state)
            | BtoA \<Rightarrow> (opa_destination pool, opa_pool_b_account pool, opa_source pool, opa_pool_a_account pool,
                       opb_pool_b_balance pool_state, opb_pool_a_balance pool_state)) in
     Option.bind (opb_curve_calculator pool_state source_amount_less_fees swap_source_amount swap_destination_amount
       (pi_direction pair_info)) (\<lambda>(_, destination_amount_swapped).
     let pairs = pairs @ [\<lparr>token_in = wrap64 amount_in, token_out = wrap64 destination_amount_swapped\<rparr>];
         args =
           (case (source_pubkey, destination_pubkey) of
              (Some source, Some destination) \<Rightarrow>
                set_last_minimum (wrap64 amount_in) args @
                [\<lparr>sa_program_id = opa_program_id pool, sa_swap_pubkey = pi_pool pair_info,
                  sa_authority_pubkey = opa_pool_authority pool, sa_source_pubkey = source,
                  sa_swap_source_pubkey = swap_source_pubkey,
                  sa_swap_destination_pubkey = swap_destination_pubkey, sa_destination_pubkey = destination,
                  sa_pool_mint_pubkey = opa_pool_mint pool, sa_pool_fee_pubkey = opa_pool_fee pool,
                  sa_token_program = spl_token_id, sa_amount_in = wrap64 amount_in, sa_minimum_amount_out = 0\<rparr>]
            | _ \<Rightarrow> args)
     in Some (destination_amount_swapped, pairs, args))))))))"

text \<open>The amount that enters a path: the optimum, but no more than we have of the first token.\<close>

definition initial_amount_of :: "path_calculation_output \<Rightarrow> pair_info \<Rightarrow> orca_pool_with_balance \<Rightarrow> u128" where
  "initial_amount_of path_output first_pair_info first_state =
     (let initial_amount = f64_to_u128 (f64_floor (pco_optimal_input path_output));
          initial_source_amount_opt =
            (case pi_direction first_pair_info of
               AtoB \<Rightarrow> opb_source_balance first_state | BtoA \<Rightarrow> opb_destination_balance first_state)
      in case initial_source_amount_opt of
           Some source_token_balance \<Rightarrow> min initial_amount source_token_balance
         | None \<Rightarrow> initial_amount)"

definition first_mint :: "pair_info \<Rightarrow> orca_pool_with_balance \<Rightarrow> pubkey" where
  "first_mint first_pair_info first_state =
     (case pi_direction first_pair_info of
        AtoB \<Rightarrow> opa_pool_a_mint (opb_pool first_state) | BtoA \<Rightarrow> opa_pool_b_mint (opb_pool first_state))"

text \<open>The closure of \<^verbatim>\<open>get_arbitrage_tx_outputs\<close>: a panic can only come from the creation of the transaction.\<close>

definition arbitrage_output ::
  "spl_library \<Rightarrow> (legacy_message \<Rightarrow> hash) \<Rightarrow> mev \<Rightarrow> pool_states \<Rightarrow> hash \<Rightarrow> nat \<times> mev_path \<Rightarrow>
     (mev_tx_output option, 'e) result" where
  "arbitrage_output spl message_hash mev pool_states blockhash = (\<lambda>(path_idx, mev_path).
     (case get_path_calculation_output mev_path pool_states of
        None \<Rightarrow> Ok None
      | Some path_output \<Rightarrow>
          (case slice_get (mp_path mev_path) 0 of
             None \<Rightarrow> Ok None
           | Some first_pair_info \<Rightarrow>
               (case pool_states (pi_pool first_pair_info) of
                  None \<Rightarrow> Ok None
                | Some first_state \<Rightarrow>
                    let initial_amount = initial_amount_of path_output first_pair_info first_state in
                    (case foldO (swap_step spl pool_states) (mp_path mev_path) (initial_amount, [], []) of
                       None \<Rightarrow> Ok None
                     | Some (amount_in, pairs, args) \<Rightarrow>
                         let args = set_last_minimum (wrap64 initial_amount) args;
                             profit = wrap64 (amount_in - initial_amount);
                             minimum_profit = (case mev_minimum_profit mev (first_mint first_pair_info first_state) of
                               Some min_profit \<Rightarrow> min_profit | None \<Rightarrow> 0);
                             output = (\<lambda>tx. \<lparr>mto_sanitized_tx = tx, mto_path_idx = path_idx, mto_input_output_pairs = pairs,
                               mto_profit = profit, mto_marginal_price = pco_marginal_price path_output\<rparr>) in
                         if profit < minimum_profit then Ok None
                         else if amount_in < initial_amount then Ok None
                         else if length args = length (mp_path mev_path) then
                           (case mev_user_authority mev of
                              None \<Rightarrow> Ok None
                            | Some user \<Rightarrow>
                                bindE (create_swap_tx spl message_hash args blockhash user) (\<lambda>stx.
                                Ok (Some (output (Some stx)))))
                         else Ok (Some (output None)))))))"

definition get_arbitrage_tx_outputs ::
  "spl_library \<Rightarrow> (legacy_message \<Rightarrow> hash) \<Rightarrow> mev \<Rightarrow> pool_states \<Rightarrow> hash \<Rightarrow> (mev_tx_output list, 'e) result" where
  "get_arbitrage_tx_outputs spl message_hash mev pool_states blockhash =
     bindE (mapE (arbitrage_output spl message_hash mev pool_states blockhash) (List.enumerate 0 (mev_mev_paths mev)))
       (\<lambda>outputs. Ok (List.map_filter id outputs))"

section \<open>Choosing a transaction\<close>

text \<open>\<^verbatim>\<open>max_by\<close> on the profit: the last of the largest.\<close>

definition max_profit :: "mev_tx_output list \<Rightarrow> mev_tx_output option" where
  "max_profit outputs =
     fold (\<lambda>b acc. case acc of
         None \<Rightarrow> Some b
       | Some a \<Rightarrow> if mto_profit a > mto_profit b then Some a else Some b) outputs None"

text \<open>
  The result is the messages sent to the log, in order, and the transaction with its profit. The
  transaction is taken out of the output that is logged.
\<close>

definition log_mev_opportunities_get_max_profit_tx ::
  "spl_library \<Rightarrow> hash_function \<Rightarrow> (hash \<Rightarrow> bool) \<Rightarrow> (legacy_message \<Rightarrow> hash) \<Rightarrow> mev \<Rightarrow> sanitized_transaction \<Rightarrow> slot \<Rightarrow>
     pool_states \<Rightarrow> loaded_transaction \<Rightarrow> hash \<Rightarrow> (mev_msg list \<times> (sanitized_transaction \<times> u64) option, 'e) result" where
  "log_mev_opportunities_get_max_profit_tx spl hashv curve message_hash mev tx slot pre_tx_pool_state loaded_tx blockhash =
     (case get_all_orca_monitored_accounts spl hashv curve loaded_tx of
        None \<Rightarrow> Ok ([], None)
      | Some (Inl Panic) \<Rightarrow> panic
      | Some (Inl (Raise _)) \<Rightarrow> Ok ([], None)
      | Some (Inr post_tx_pool_state) \<Rightarrow>
          bindE (get_arbitrage_tx_outputs spl message_hash mev post_tx_pool_state blockhash) (\<lambda>outputs.
          bindE (unwrap (slice_get (stx_signatures tx) 0)) (\<lambda>signature.
          let log = MM_Log \<lparr>pps_transaction_hash = stx_message_hash tx, pps_transaction_signature = signature,
                pps_slot = slot, pps_orca_pre_tx_pool = pre_tx_pool_state, pps_orca_post_tx_pool = post_tx_pool_state\<rparr> in
          case max_profit outputs of
            None \<Rightarrow> Ok ([log], None)
          | Some best \<Rightarrow>
              let logged = map (\<lambda>out. if mto_path_idx out = mto_path_idx best then out\<lparr>mto_sanitized_tx := None\<rparr> else out) outputs
              in Ok ([log, MM_Opportunities logged],
                     map_option (\<lambda>stx. (stx, mto_profit best)) (mto_sanitized_tx best)))))"

text \<open>
  The hook in the bank, after a transaction of a batch was executed: \<open>pre\<close> are the pool states read before,
  and \<open>best\<close> is the most profitable transaction of the batch so far.
\<close>

definition mev_after_transaction ::
  "spl_library \<Rightarrow> hash_function \<Rightarrow> (hash \<Rightarrow> bool) \<Rightarrow> (legacy_message \<Rightarrow> hash) \<Rightarrow> mev \<Rightarrow> sanitized_transaction \<Rightarrow> slot \<Rightarrow>
     (pool_states, program_error) result option \<Rightarrow> bool \<Rightarrow> loaded_transaction \<Rightarrow>
     (sanitized_transaction \<times> u64) option \<Rightarrow> (mev_msg list \<times> (sanitized_transaction \<times> u64) option, 'e) result" where
  "mev_after_transaction spl hashv curve message_hash mev tx slot pre executed loaded_tx best =
     (case (pre, executed) of
        (Some (Inr pre_pool_state), True) \<Rightarrow>
          bindE (log_mev_opportunities_get_max_profit_tx spl hashv curve message_hash mev tx slot pre_pool_state loaded_tx
            (sm_recent_blockhash (stx_message tx))) (\<lambda>(msgs, found).
          Ok (msgs,
              case found of
                None \<Rightarrow> best
              | Some (stx, profit) \<Rightarrow>
                  if (case best of Some (_, p) \<Rightarrow> p \<ge> profit | None \<Rightarrow> False) then best else Some (stx, profit)))
      | _ \<Rightarrow> Ok ([], best))"

text \<open>The loop of the bank over a batch, as far as the search is concerned.\<close>

type_synonym batch_item = "sanitized_transaction \<times> (pool_states, program_error) result option \<times> bool \<times> loaded_transaction"

definition mev_batch ::
  "spl_library \<Rightarrow> hash_function \<Rightarrow> (hash \<Rightarrow> bool) \<Rightarrow> (legacy_message \<Rightarrow> hash) \<Rightarrow> mev \<Rightarrow> slot \<Rightarrow> batch_item list \<Rightarrow>
     mev_msg list \<times> (sanitized_transaction \<times> u64) option \<Rightarrow> (mev_msg list \<times> (sanitized_transaction \<times> u64) option, 'e) result" where
  "mev_batch spl hashv curve message_hash mev slot =
     foldE (\<lambda>(tx, pre, executed, loaded_tx) (msgs, best).
       bindE (mev_after_transaction spl hashv curve message_hash mev tx slot pre executed loaded_tx best) (\<lambda>(new, best).
       Ok (msgs @ new, best)))"

text \<open>The log thread: what it writes for a message, as the paths and the pairs it looks up.\<close>

definition log_opportunities ::
  "mev_path list \<Rightarrow> mev_tx_output list \<Rightarrow> ((mev_path \<times> input_output_pairs list) list, 'e) result" where
  "log_opportunities mev_paths outputs =
     mapE (\<lambda>out. bindE (unwrap (slice_get mev_paths (mto_path_idx out))) (\<lambda>opportunity.
       Ok (opportunity, mto_input_output_pairs out))) outputs"

end
