(* ===== verification/Mev_Properties.thy ===== *)
theory Mev_Properties
  imports Mev Lock_Properties
begin

text \<open>
  Properties of the MEV extension: the swaps of a transaction it builds for a closed path cannot lose a token, the
  profit it reports is that of the quotes of the pools, which transaction it keeps, that the accounts it looks up
  are there, that it does not panic on what the runtime hands it, and that the accounts it reads are locked.
\<close>

section \<open>Swaps of a path\<close>

lemma set_last_minimum_simps [simp]:
  "set_last_minimum v [] = []" "set_last_minimum v (xs @ [a]) = xs @ [a\<lparr>sa_minimum_amount_out := v\<rparr>]"
  by (simp_all add: set_last_minimum_def)

lemma length_set_last_minimum [simp]: "length (set_last_minimum v args) = length args"
  by (cases args rule: rev_cases) simp_all

text \<open>
  The state of the loop after some hops: the pairs chain, and when every hop so far has its swap, the
  swaps have the amounts of the pairs and each but the last asks for the input of the next.
\<close>

definition pairs_chain :: "u128 \<Rightarrow> u128 \<Rightarrow> input_output_pairs list \<Rightarrow> bool" where
  "pairs_chain first_in last_out pairs \<longleftrightarrow>
     (\<forall>i. Suc i < length pairs \<longrightarrow> token_in (pairs ! Suc i) = token_out (pairs ! i)) \<and>
     (pairs = [] \<longrightarrow> last_out = first_in) \<and>
     (pairs \<noteq> [] \<longrightarrow> token_in (hd pairs) = wrap64 first_in \<and> token_out (last pairs) = wrap64 last_out)"

definition swaps_chain :: "input_output_pairs list \<Rightarrow> swap_arguments list \<Rightarrow> bool" where
  "swaps_chain pairs args \<longleftrightarrow> length args = length pairs \<and>
     (\<forall>i < length pairs. sa_amount_in (args ! i) = token_in (pairs ! i)) \<and>
     (\<forall>i. Suc i < length pairs \<longrightarrow> sa_minimum_amount_out (args ! i) = token_in (pairs ! Suc i))"

text \<open>
  What a hop pays for an amount, in \<^verbatim>\<open>u128\<close>: the amount less the trading fee and the owner's fee goes through the
  curve of the pool, from the side that the direction names to the other. Along a path, the amounts before, between
  and after its hops.
\<close>

definition hop_quote :: "spl_library \<Rightarrow> pool_states \<Rightarrow> pair_info \<Rightarrow> u128 \<Rightarrow> u128 option" where
  "hop_quote spl ps p amount =
     (case ps (pi_pool p) of
        None \<Rightarrow> None
      | Some pool \<Rightarrow>
          (case (spl_trading_fee spl (opb_fees pool) amount, spl_owner_trading_fee spl (opb_fees pool) amount) of
             (Some trade_fee, Some owner_fee) \<Rightarrow>
               if u128_max < trade_fee + owner_fee \<or> amount < trade_fee + owner_fee then None
               else map_option snd
                 (case pi_direction p of
                    AtoB \<Rightarrow> opb_curve_calculator pool (amount - (trade_fee + owner_fee)) (opb_pool_a_balance pool) (opb_pool_b_balance pool) AtoB
                  | BtoA \<Rightarrow> opb_curve_calculator pool (amount - (trade_fee + owner_fee)) (opb_pool_b_balance pool) (opb_pool_a_balance pool) BtoA)
           | _ \<Rightarrow> None))"

primrec quote_path :: "spl_library \<Rightarrow> pool_states \<Rightarrow> pair_info list \<Rightarrow> u128 \<Rightarrow> u128 list option" where
  "quote_path spl ps [] amount = Some [amount]"
| "quote_path spl ps (p # path) amount =
     (case hop_quote spl ps p amount of
        None \<Rightarrow> None
      | Some amount' \<Rightarrow> map_option ((#) amount) (quote_path spl ps path amount'))"

definition quoted_pairs :: "u128 list \<Rightarrow> input_output_pairs list" where
  "quoted_pairs amounts = map (\<lambda>(x, y). \<lparr>token_in = wrap64 x, token_out = wrap64 y\<rparr>) (zip amounts (tl amounts))"

text \<open>
  The swap of a hop: its accounts are those of the pool of the hop, and by the direction it goes from our token
  account of one side to our token account of the other.
\<close>

definition swap_of :: "pool_states \<Rightarrow> pair_info \<Rightarrow> swap_arguments \<Rightarrow> bool" where
  "swap_of ps p a \<longleftrightarrow>
     (case ps (pi_pool p) of
        None \<Rightarrow> False
      | Some state \<Rightarrow>
          let pool = opb_pool state in
          sa_swap_pubkey a = pi_pool p \<and> sa_program_id a = opa_program_id pool \<and> sa_authority_pubkey a = opa_pool_authority pool \<and>
          sa_pool_mint_pubkey a = opa_pool_mint pool \<and> sa_pool_fee_pubkey a = opa_pool_fee pool \<and> sa_token_program a = spl_token_id \<and>
          (case pi_direction p of
             AtoB \<Rightarrow> opa_source pool = Some (sa_source_pubkey a) \<and> sa_swap_source_pubkey a = opa_pool_a_account pool \<and>
                     sa_swap_destination_pubkey a = opa_pool_b_account pool \<and> opa_destination pool = Some (sa_destination_pubkey a)
           | BtoA \<Rightarrow> opa_destination pool = Some (sa_source_pubkey a) \<and> sa_swap_source_pubkey a = opa_pool_b_account pool \<and>
                     sa_swap_destination_pubkey a = opa_pool_a_account pool \<and> opa_source pool = Some (sa_destination_pubkey a)))"

lemma swap_step_Some:
  assumes "swap_step spl ps p (amount, pairs, args) = Some (amount', pairs', args')"
  shows "hop_quote spl ps p amount = Some amount'"
    "pairs' = pairs @ [\<lparr>token_in = wrap64 amount, token_out = wrap64 amount'\<rparr>]"
    "args' = args \<or> (\<exists>a. args' = set_last_minimum (wrap64 amount) args @ [a] \<and> sa_amount_in a = wrap64 amount \<and> swap_of ps p a)"
proof -
  obtain pool where pool: "ps (pi_pool p) = Some pool" using assms by (auto simp: swap_step_def bind_eq_Some_conv)
  from assms pool show "hop_quote spl ps p amount = Some amount'"
    by (cases "pi_direction p")
      (auto simp: swap_step_def hop_quote_def Let_def bind_eq_Some_conv checked_add128_def checked_sub128_def not_less split: if_splits)
  from assms pool show "pairs' = pairs @ [\<lparr>token_in = wrap64 amount, token_out = wrap64 amount'\<rparr>]"
    by (cases "pi_direction p") (auto simp: swap_step_def Let_def bind_eq_Some_conv)
  from assms pool show "args' = args \<or> (\<exists>a. args' = set_last_minimum (wrap64 amount) args @ [a] \<and> sa_amount_in a = wrap64 amount \<and> swap_of ps p a)"
    by (cases "pi_direction p"; cases "opa_source (opb_pool pool)"; cases "opa_destination (opb_pool pool)")
      (auto simp: swap_step_def swap_of_def Let_def bind_eq_Some_conv)
qed

text \<open>What holds of the state of the loop.\<close>

definition hops_inv :: "pool_states \<Rightarrow> u128 \<Rightarrow> pair_info list \<Rightarrow> u128 \<times> input_output_pairs list \<times> swap_arguments list \<Rightarrow> bool" where
  "hops_inv ps first_in hops = (\<lambda>(amount, pairs, args).
     pairs_chain first_in amount pairs \<and> length pairs = length hops \<and> length args \<le> length pairs \<and>
     (length args = length pairs \<longrightarrow> swaps_chain pairs args \<and> list_all2 (swap_of ps) hops args) \<and>
     (\<forall>a \<in> set args. \<exists>p. swap_of ps p a))"

lemma pairs_chain_snoc:
  "pairs_chain a b pairs \<Longrightarrow> pairs_chain a c (pairs @ [\<lparr>token_in = wrap64 b, token_out = wrap64 c\<rparr>])"
proof -
  have "Suc i = length pairs \<Longrightarrow> last pairs = pairs ! i" for i
    by (metis diff_Suc_1 last_conv_nth length_0_conv nat.distinct(1))
  then show "pairs_chain a b pairs \<Longrightarrow> pairs_chain a c (pairs @ [\<lparr>token_in = wrap64 b, token_out = wrap64 c\<rparr>])"
    by (auto simp: pairs_chain_def nth_append hd_append not_less dest: Suc_lessI)
qed

lemma set_set_last_minimum: "x \<in> set (set_last_minimum v args) \<Longrightarrow> \<exists>a \<in> set args. x = a \<or> x = a\<lparr>sa_minimum_amount_out := v\<rparr>"
  by (cases args rule: rev_cases) auto

lemma nth_set_last_minimum:
  "i < length args \<Longrightarrow> set_last_minimum v args ! i =
     (if Suc i = length args then (args ! i)\<lparr>sa_minimum_amount_out := v\<rparr> else args ! i)"
  by (cases args rule: rev_cases) (auto simp: nth_append)

lemma swaps_chain_snoc:
  assumes "swaps_chain pairs args" "pairs_chain a b pairs" "sa_amount_in x = wrap64 b"
  shows "swaps_chain (pairs @ [\<lparr>token_in = wrap64 b, token_out = c\<rparr>]) (set_last_minimum (wrap64 b) args @ [x])"
  using assms by (auto simp: swaps_chain_def nth_append nth_set_last_minimum less_Suc_eq)

lemma swap_of_minimum [simp]: "swap_of ps p (a\<lparr>sa_minimum_amount_out := v\<rparr>) = swap_of ps p a"
  by (cases "ps (pi_pool p)"; cases "pi_direction p") (simp_all add: swap_of_def Let_def)

lemma swaps_of_set_last_minimum [simp]: "list_all2 (swap_of ps) path (set_last_minimum v args) = list_all2 (swap_of ps) path args"
  unfolding list_all2_conv_all_nth length_set_last_minimum
  by (intro conj_cong refl all_cong1 imp_cong) (simp_all add: nth_set_last_minimum)

lemma hops_inv_step:
  assumes "swap_step spl ps p st = Some st'" "hops_inv ps a hops st"
  shows "hops_inv ps a (hops @ [p]) st'"
proof -
  obtain amount pairs args amount' pairs' args' where st: "st = (amount, pairs, args)" "st' = (amount', pairs', args')"
    by (cases st, cases st') auto
  note step = swap_step_Some [OF assms(1) [unfolded st]]
  have inv: "pairs_chain a amount pairs" "length pairs = length hops" "length args \<le> length pairs"
    "length args = length pairs \<Longrightarrow> swaps_chain pairs args" "length args = length pairs \<Longrightarrow> list_all2 (swap_of ps) hops args"
    "\<forall>x \<in> set args. \<exists>p. swap_of ps p x"
    using assms(2) by (auto simp: hops_inv_def st)
  from step(3) show ?thesis
  proof
    assume "args' = args"
    with inv step(2) show ?thesis by (auto simp: hops_inv_def st pairs_chain_snoc)
  next
    assume "\<exists>x. args' = set_last_minimum (wrap64 amount) args @ [x] \<and> sa_amount_in x = wrap64 amount \<and> swap_of ps p x"
    then obtain x where x: "args' = set_last_minimum (wrap64 amount) args @ [x]" "sa_amount_in x = wrap64 amount" "swap_of ps p x"
      by blast
    have "\<forall>y \<in> set args'. \<exists>p. swap_of ps p y"
      using inv(6) x by (fastforce dest!: set_set_last_minimum)
    moreover have "length args = length pairs \<Longrightarrow> swaps_chain pairs' args'"
      using swaps_chain_snoc [OF inv(4) inv(1) x(2)] step(2) x(1) by simp
    moreover have "length args = length pairs \<Longrightarrow> list_all2 (swap_of ps) (hops @ [p]) args'"
      using inv(5) x by (simp add: list_all2_appendI)
    ultimately show ?thesis
      using inv(1-3) step(2) x(1) by (auto simp: hops_inv_def st pairs_chain_snoc)
  qed
qed

lemma hops_inv_fold:
  assumes "foldO (swap_step spl ps) path st = Some st'" "hops_inv ps a hops st"
  shows "hops_inv ps a (hops @ path) st'"
  using assms
proof (induction path arbitrary: st hops)
  case (Cons p path)
  then obtain u where u: "swap_step spl ps p st = Some u" "foldO (swap_step spl ps) path u = Some st'"
    by (auto simp: bind_eq_Some_conv)
  from Cons.IH [OF u(2) hops_inv_step [OF u(1) Cons.prems(2)]] show ?case by simp
qed simp

lemma hops_inv_path:
  "foldO (swap_step spl ps) path (a, [], []) = Some st \<Longrightarrow> hops_inv ps a path st"
  using hops_inv_fold [of spl ps path "(a, [], [])" st a "[]"]
  by (simp add: hops_inv_def pairs_chain_def swaps_chain_def)

lemma hops_quoted:
  assumes "foldO (swap_step spl ps) path (amount, pairs, args) = Some (amount', pairs', args')"
  shows "\<exists>amounts. quote_path spl ps path amount = Some amounts \<and> hd amounts = amount \<and> last amounts = amount' \<and>
    amounts \<noteq> [] \<and> pairs' = pairs @ quoted_pairs amounts"
  using assms
proof (induction path arbitrary: amount pairs args)
  case Nil
  then show ?case by (simp add: quoted_pairs_def)
next
  case (Cons p path)
  obtain amount1 pairs1 args1 where step: "swap_step spl ps p (amount, pairs, args) = Some (amount1, pairs1, args1)"
    and rest: "foldO (swap_step spl ps) path (amount1, pairs1, args1) = Some (amount', pairs', args')"
    using Cons.prems by (auto simp: bind_eq_Some_conv)
  from Cons.IH [OF rest] obtain amounts where "quote_path spl ps path amount1 = Some amounts" "hd amounts = amount1"
    "last amounts = amount'" "amounts \<noteq> []" "pairs' = pairs1 @ quoted_pairs amounts"
    by blast
  with swap_step_Some(1,2) [OF step] show ?case
    by (cases amounts) (auto simp: quoted_pairs_def)
qed

text \<open>What an output of a path was computed from.\<close>

lemma arbitrage_output_Some:
  assumes "(arbitrage_output spl mh mev ps bh (idx, path) :: (_, 'e) result) = Ok (Some out)"
  obtains po first_pair first_state amount args where
    "get_path_calculation_output path ps = Some po" "slice_get (mp_path path) 0 = Some first_pair"
    "ps (pi_pool first_pair) = Some first_state"
    "foldO (swap_step spl ps) (mp_path path) (initial_amount_of po first_pair first_state, [], []) =
       Some (amount, mto_input_output_pairs out, args)"
    "mto_path_idx out = idx" "mto_profit out = wrap64 (amount - initial_amount_of po first_pair first_state)"
    "initial_amount_of po first_pair first_state \<le> amount"
    "(case mev_minimum_profit mev (first_mint first_pair first_state) of Some m \<Rightarrow> m | None \<Rightarrow> 0) \<le> mto_profit out"
    "mto_sanitized_tx out = None \<and> length args \<noteq> length (mp_path path) \<or>
     (\<exists>user stx. mev_user_authority mev = Some user \<and> length args = length (mp_path path) \<and>
        (create_swap_tx spl mh (set_last_minimum (wrap64 (initial_amount_of po first_pair first_state)) args) bh user ::
          (_, 'e) result) = Ok stx \<and>
        mto_sanitized_tx out = Some stx)"
proof -
  obtain po where po: "get_path_calculation_output path ps = Some po"
    using assms by (cases "get_path_calculation_output path ps") (auto simp: arbitrage_output_def)
  obtain p where p: "slice_get (mp_path path) 0 = Some p"
    using assms po by (cases "slice_get (mp_path path) 0") (auto simp: arbitrage_output_def)
  obtain fs where fs: "ps (pi_pool p) = Some fs"
    using assms po p by (cases "ps (pi_pool p)") (auto simp: arbitrage_output_def)
  let ?init = "initial_amount_of po p fs"
  obtain amount pairs args where fold: "foldO (swap_step spl ps) (mp_path path) (?init, [], []) = Some (amount, pairs, args)"
    using assms po p fs by (cases "foldO (swap_step spl ps) (mp_path path) (?init, [], [])") (auto simp: arbitrage_output_def)
  note out = assms [unfolded arbitrage_output_def, simplified, unfolded po p fs fold Let_def, simplified,
      unfolded po p fs fold Let_def, simplified]
  show ?thesis
  proof (cases "length args = length (mp_path path)")
    case True
    then show ?thesis
      using out po p fs fold by (intro that [of po p fs amount args]) (auto simp: result_simps not_less split: option.split_asm if_splits)
  next
    case False
    then show ?thesis
      using out po p fs fold by (intro that [of po p fs amount args]) (auto simp: result_simps not_less split: if_splits)
  qed
qed

section \<open>No token is lost\<close>

text \<open>
  The tokens of a hop are the mints of the token accounts of its pool. A path is closed when the token that hop \<open>i\<close>
  pays out is the one that the next hop takes in, and the last pays out what the first takes in. The configuration
  is not checked for it: \<^const>\<open>check_path\<close> only refuses an empty path and one whose first hop is its last.
\<close>

definition mint_in :: "pool_states \<Rightarrow> pair_info \<Rightarrow> pubkey option" where
  "mint_in ps p = map_option (first_mint p) (ps (pi_pool p))"

definition mint_out :: "pool_states \<Rightarrow> pair_info \<Rightarrow> pubkey option" where
  "mint_out ps p =
     map_option (\<lambda>state. case pi_direction p of AtoB \<Rightarrow> opa_pool_b_mint (opb_pool state) | BtoA \<Rightarrow> opa_pool_a_mint (opb_pool state))
       (ps (pi_pool p))"

definition next_hop :: "nat \<Rightarrow> nat \<Rightarrow> nat" where
  "next_hop n i = Suc i mod n"

definition closed_path :: "pool_states \<Rightarrow> pair_info list \<Rightarrow> bool" where
  "closed_path ps path \<longleftrightarrow> (\<forall>i < length path. mint_in ps (path ! next_hop (length path) i) = mint_out ps (path ! i))"

lemma bij_next_hop: "0 < n \<Longrightarrow> bij_betw (next_hop n) {..<n} {..<n}"
proof -
  assume n: "0 < n"
  have "inj_on (next_hop n) {..<n}"
    by (rule inj_onI) (metis lessThan_iff mod_Suc mod_less next_hop_def nat.inject nat.distinct(1))
  moreover have "next_hop n ` {..<n} \<subseteq> {..<n}" using n by (auto simp: next_hop_def)
  ultimately show ?thesis by (simp add: bij_betw_def endo_inj_surj)
qed

lemma cycle_covers:
  assumes "\<And>i. i < n \<Longrightarrow> amounts (next_hop n i) \<le> outs i" "\<And>i. i < n \<Longrightarrow> src (next_hop n i) = dst i"
  shows "(\<Sum>i < n. if src i = t then amounts i else (0::nat)) \<le> (\<Sum>i < n. if dst i = t then outs i else 0)"
proof (cases "n = 0")
  case False
  then have "(\<Sum>i < n. if src i = t then amounts i else 0) =
      (\<Sum>i < n. if src (next_hop n i) = t then amounts (next_hop n i) else 0)"
    using sum.reindex_bij_betw [OF bij_next_hop, of n "\<lambda>i. if src i = t then amounts i else 0"] by simp
  also have "\<dots> \<le> (\<Sum>i < n. if dst i = t then outs i else 0)"
    by (intro sum_mono) (simp add: assms)
  finally show ?thesis .
qed simp

text \<open>The minimum of each swap, once the minimum of the last is set, is the input of the next.\<close>

lemma swaps_minimum:
  assumes "swaps_chain pairs args" "pairs_chain a b pairs" "pairs \<noteq> []" "i < length pairs"
  shows "sa_minimum_amount_out (set_last_minimum (wrap64 a) args ! i) = token_in (pairs ! next_hop (length pairs) i)"
    and "sa_amount_in (set_last_minimum (wrap64 a) args ! i) = token_in (pairs ! i)"
proof -
  have len: "length args = length pairs" using assms(1) by (simp add: swaps_chain_def)
  show "sa_amount_in (set_last_minimum (wrap64 a) args ! i) = token_in (pairs ! i)"
    using assms(1,4) len by (simp add: nth_set_last_minimum swaps_chain_def)
  show "sa_minimum_amount_out (set_last_minimum (wrap64 a) args ! i) = token_in (pairs ! next_hop (length pairs) i)"
  proof (cases "Suc i = length pairs")
    case True
    then show ?thesis
      using assms len by (simp add: nth_set_last_minimum next_hop_def pairs_chain_def hd_conv_nth)
  next
    case False
    then show ?thesis
      using assms(1,4) len by (simp add: nth_set_last_minimum next_hop_def swaps_chain_def)
  qed
qed

section \<open>Amounts\<close>

lemma initial_amount_le:
  "initial_amount_of po p fs \<le> f64_to_u128 (f64_floor (pco_optimal_input po))"
  "(case pi_direction p of AtoB \<Rightarrow> opb_source_balance fs | BtoA \<Rightarrow> opb_destination_balance fs) = Some own \<Longrightarrow>
   initial_amount_of po p fs \<le> own"
  by (auto simp: initial_amount_of_def Let_def split: option.splits)

lemma quoted_pairs_ends:
  assumes "quote_path spl ps path amount = Some amounts" "path \<noteq> []"
  shows "token_in (hd (quoted_pairs amounts)) = wrap64 (hd amounts)" "token_out (last (quoted_pairs amounts)) = wrap64 (last amounts)"
proof -
  have len: "length amounts = Suc (length path)"
    using assms(1) by (induction path arbitrary: amount amounts) (auto split: option.splits)
  then obtain x xs y where xs: "amounts = x # xs @ [y]"
    using assms(2) by (cases amounts; cases path; cases "tl amounts" rule: rev_cases) auto
  show "token_in (hd (quoted_pairs amounts)) = wrap64 (hd amounts)"
    unfolding xs by (cases xs) (simp_all add: quoted_pairs_def)
  show "token_out (last (quoted_pairs amounts)) = wrap64 (last amounts)"
    unfolding xs by (simp add: quoted_pairs_def last_map last_conv_nth nth_append)
qed

section \<open>Creating the transaction\<close>

lemma all_metas_swaps:
  "set (all_metas (map (swap_instruction spl user) args)) = (\<Union>a \<in> set args. set (ix_accounts (swap_instruction spl user a)))"
  by (simp add: all_metas_def)

definition swap_keys :: "swap_arguments \<Rightarrow> pubkey list" where
  "swap_keys a = [sa_program_id a, sa_swap_pubkey a, sa_authority_pubkey a, sa_source_pubkey a, sa_swap_source_pubkey a,
     sa_swap_destination_pubkey a, sa_destination_pubkey a, sa_pool_mint_pubkey a, sa_pool_fee_pubkey a]"

lemma swap_keys_bound:
  assumes "\<forall>a \<in> set args. sa_token_program a = spl_token_id"
  shows "card (message_keys (map (swap_instruction spl user) args) (Some (kp_pubkey user))) \<le> 9 * length args + 2"
proof -
  let ?ks = "kp_pubkey user # spl_token_id # concat (map swap_keys args)"
  have "message_keys (map (swap_instruction spl user) args) (Some (kp_pubkey user)) \<subseteq> set ?ks"
    using assms
    by (auto simp: message_keys_def mentioned_def all_metas_swaps swap_instruction_def account_meta_new_def
        account_meta_new_readonly_def swap_keys_def)
  then have "card (message_keys (map (swap_instruction spl user) args) (Some (kp_pubkey user))) \<le> length ?ks"
    by (meson card_length card_mono finite_set le_trans)
  moreover have "length (concat (map swap_keys args)) = 9 * length args"
    by (induction args) (simp_all add: swap_keys_def)
  ultimately show ?thesis by simp
qed

lemma create_swap_tx_total:
  assumes "length args \<le> 28" "\<forall>a \<in> set args. sa_token_program a = spl_token_id \<and> sa_program_id a \<noteq> kp_pubkey user"
    and "\<forall>m. kp_sign user m \<noteq> default_signature"
  shows "\<exists>stx. (create_swap_tx spl mh args bh user :: (_, 'e) result) = Ok stx \<and>
    (decompile_instructions (stx_message stx) :: (_, 'e) result) =
      Ok (map (granted_instruction (map (swap_instruction spl user) args) (Some (kp_pubkey user)))
        (map (swap_instruction spl user) args))"
proof -
  let ?ixs = "map (swap_instruction spl user) args"
  have "card (message_keys ?ixs (Some (kp_pubkey user))) < 256"
    using swap_keys_bound [of args spl user] assms(1,2) by simp
  moreover have "\<forall>k. asks_signer (all_metas ?ixs) k \<longrightarrow> k = kp_pubkey user"
    by (auto simp: asks_signer_def all_metas_swaps swap_instruction_def account_meta_new_def account_meta_new_readonly_def)
  moreover have "kp_pubkey user \<notin> ix_program_id ` set ?ixs"
    using assms(2) by (auto simp: swap_instruction_def)
  ultimately obtain tx stx where "(new_signed_with_payer ?ixs (Some (kp_pubkey user)) [user] bh :: (_, 'e) result) = Ok tx"
    "try_from_legacy_transaction mh tx = Ok stx"
    "(decompile_instructions (stx_message stx) :: (_, 'e) result) = Ok (map (granted_instruction ?ixs (Some (kp_pubkey user))) ?ixs)"
    using payer_signed_sanitizes [OF _ _ _ assms(3), of ?ixs bh mh, where 'e = 'e] by blast
  then show ?thesis by (simp add: create_swap_tx_def)
qed

section \<open>The most profitable output\<close>

lemma max_profit_snoc:
  "max_profit (outs @ [b]) =
     (case max_profit outs of None \<Rightarrow> Some b | Some a \<Rightarrow> if mto_profit a > mto_profit b then Some a else Some b)"
  by (simp add: max_profit_def)

lemma max_profit_Some:
  "max_profit outs = Some best \<Longrightarrow> best \<in> set outs \<and> (\<forall>out \<in> set outs. mto_profit out \<le> mto_profit best)"
proof (induction outs arbitrary: best rule: rev_induct)
  case (snoc b outs)
  show ?case
  proof (cases "max_profit outs")
    case None
    then have "outs = []" by (cases outs rule: rev_cases) (auto simp: max_profit_snoc split: option.splits if_splits)
    with snoc.prems show ?thesis by (simp add: max_profit_def)
  next
    case (Some a)
    with snoc show ?thesis by (force simp: max_profit_snoc split: if_splits)
  qed
qed (simp add: max_profit_def)

lemma max_profit_None: "max_profit outs = None \<longleftrightarrow> outs = []"
  by (cases outs rule: rev_cases) (auto simp: max_profit_snoc max_profit_def split: option.splits)

text \<open>The outputs, each with the path it is for.\<close>

lemma arbitrage_outputs:
  assumes "(get_arbitrage_tx_outputs spl mh mev ps bh :: (_, 'e) result) = Ok outs" "out \<in> set outs"
  obtains idx where "idx < length (mev_mev_paths mev)"
    "(arbitrage_output spl mh mev ps bh (idx, mev_mev_paths mev ! idx) :: (_, 'e) result) = Ok (Some out)"
proof -
  from assms obtain os where os: "list_all2 (\<lambda>x y. (arbitrage_output spl mh mev ps bh x :: (_, 'e) result) = Ok y)
      (List.enumerate 0 (mev_mev_paths mev)) os" "outs = List.map_filter id os"
    by (auto simp: get_arbitrage_tx_outputs_def result_simps mapE_Ok)
  from assms(2) os(2) obtain i where "i < length os" "os ! i = Some out"
    by (auto simp: List.map_filter_def in_set_conv_nth)
  with os(1) show ?thesis
    using that [of i] by (auto simp: list_all2_conv_all_nth nth_enumerate_eq)
qed

lemma arbitrage_output_idx:
  "(arbitrage_output spl mh mev ps bh (idx, path) :: (_, 'e) result) = Ok (Some out) \<Longrightarrow> mto_path_idx out = idx"
  by (erule arbitrage_output_Some)

section \<open>No panics\<close>

lemma resolves_get_account:
  assumes "load_transaction env tx = Ok lt" "le_overrides env = None" "resolves env (stx_message tx) (ma_pubkey_account_map ma) k"
    and "map fst (lt_accounts lt') = map fst (lt_accounts lt)"
  shows "\<exists>acc. (get_account ma lt' k :: (_, 'e) result) = Ok acc \<and> fst acc = k"
proof (cases "ma_pubkey_account_map ma k")
  case (Some e)
  show ?thesis
  proof (cases e)
    case (Idx i)
    let ?keys = "ak_iter (sm_account_keys (stx_message tx))"
    have i: "i < length ?keys" "?keys ! i = k" using assms(3) Some Idx by (auto simp: resolves_def Let_def)
    note keys = loaded_keys [OF assms(1,2)]
    have len: "length (lt_accounts lt') = length (lt_accounts lt)" by (rule map_eq_imp_length_eq [OF assms(4)])
    have lt: "i < length (lt_accounts lt)" using i(1) keys(2) by simp
    have "fst (lt_accounts lt' ! i) = map fst (lt_accounts lt') ! i" using lt len by simp
    also have "\<dots> = fst (lt_accounts lt ! i)" unfolding assms(4) using lt by simp
    also have "\<dots> = map fst (take (length ?keys) (lt_accounts lt)) ! i" using i keys(2) by simp
    finally have "fst (lt_accounts lt' ! i) = k" using keys(1) i(2) by simp
    then show ?thesis using Some Idx lt len by (auto simp: get_account_def slice_get_def)
  qed (use assms(3) Some in \<open>auto simp: resolves_def get_account_def Let_def\<close>)
qed (use assms(3) in \<open>simp add: resolves_def\<close>)

text \<open>
  The accounts that the search looks up for a pool, from \<^const>\<open>read_pool\<close>: it reads the same from two maps that agree
  on them.
\<close>

lemma read_pool_lookups:
  assumes "\<forall>k \<in> {mpk_pool p, mpk_token_a p, mpk_token_b p, mpk_pool_mint p, mpk_pool_fee p} \<union> set_option (mpk_source p) \<union>
      set_option (mpk_destination p). (get_account ma lt k :: (_, program_error) result) = get_account ma' lt' k"
  shows "read_pool spl hashv curve ma lt p = read_pool spl hashv curve ma' lt' p"
proof -
  have "token_amount spl ma lt k = token_amount spl ma' lt' k" if "k = mpk_source p \<or> k = mpk_destination p" for k
    using assms that by (cases k) (auto simp: token_amount_def)
  then show ?thesis using assms by (simp add: read_pool_def)
qed

text \<open>What is assumed of the libraries: decoding does not panic, and a pool has an authority.\<close>

definition libraries_total :: "spl_library \<Rightarrow> hash_function \<Rightarrow> (hash \<Rightarrow> bool) \<Rightarrow> bool" where
  "libraries_total spl hashv curve \<longleftrightarrow>
     (\<forall>d. spl_unpack_pool spl d \<noteq> panic) \<and> (\<forall>d. spl_unpack_account spl d \<noteq> panic) \<and>
     (\<forall>pool program_id. try_find_program_address hashv curve [to_bytes pool] program_id \<noteq> None)"

lemma token_amount_no_panic:
  assumes "libraries_total spl hashv curve" "\<And>k'. k = Some k' \<Longrightarrow> \<exists>acc. (get_account ma lt k' :: (_, program_error) result) = Ok acc"
  shows "token_amount spl ma lt k \<noteq> panic"
  using assms by (cases k) (fastforce simp: token_amount_def libraries_total_def fault_iffs)+

lemma read_pool_no_panic:
  assumes "libraries_total spl hashv curve"
    and "\<And>k. k \<in> set (pool_keys_read p) \<Longrightarrow> \<exists>acc. (get_account ma lt k :: (_, program_error) result) = Ok acc"
  shows "read_pool spl hashv curve ma lt p \<noteq> panic"
proof -
  have ga: "(get_account ma lt k :: (_, program_error) result) \<noteq> panic"
    if "k \<in> {mpk_pool p, mpk_token_a p, mpk_token_b p, mpk_pool_mint p, mpk_pool_fee p}" for k
    using assms(2) [of k] that by (auto simp: pool_keys_read_def)
  have ta: "token_amount spl ma lt (mpk_source p) \<noteq> panic" "token_amount spl ma lt (mpk_destination p) \<noteq> panic"
    using assms(2) by (auto intro!: token_amount_no_panic [OF assms(1)] simp: pool_keys_read_def)
  have fpa: "(find_program_address hashv curve [to_bytes k] q :: (_, program_error) result) \<noteq> panic" for k q
    using assms(1) by (auto simp: libraries_total_def find_program_address_def unwrap_panic_iff)
  show ?thesis
    unfolding read_pool_def Let_def
    by (intro bindE_no_panic case_prod_no_panic)
      (use ga ta fpa assms(1) in \<open>auto simp: libraries_total_def\<close>)
qed

lemma swap_programs:
  assumes "foldO (swap_step spl ps) path (a, [], []) = Some (amount, pairs, args)" "x \<in> set args"
  shows "sa_token_program x = spl_token_id \<and> (\<exists>k pool. ps k = Some pool \<and> sa_program_id x = opa_program_id (opb_pool pool))"
  using hops_inv_path [OF assms(1)] assms(2)
  by (fastforce simp: hops_inv_def swap_of_def Let_def split: option.splits)

lemma arbitrage_output_no_panic:
  assumes "\<And>user. mev_user_authority mev = Some user \<Longrightarrow>
      (\<forall>m. kp_sign user m \<noteq> default_signature) \<and> (\<forall>k pool. ps k = Some pool \<longrightarrow> opa_program_id (opb_pool pool) \<noteq> kp_pubkey user)"
    and "length (mp_path path) \<le> 28"
  shows "(arbitrage_output spl mh mev ps bh (idx, path) :: (_, 'e) result) \<noteq> panic"
proof
  assume "(arbitrage_output spl mh mev ps bh (idx, path) :: (_, 'e) result) = panic"
  then obtain init amount pairs args user where fold: "foldO (swap_step spl ps) (mp_path path) (init, [], []) = Some (amount, pairs, args)"
    and len: "length args = length (mp_path path)" and user: "mev_user_authority mev = Some user"
    and p: "(create_swap_tx spl mh (set_last_minimum (wrap64 init) args) bh user :: (_, 'e) result) = panic"
    by (auto simp: arbitrage_output_def Let_def fault_iffs split: option.splits prod.splits if_splits)
  have "\<forall>a \<in> set (set_last_minimum (wrap64 init) args). sa_token_program a = spl_token_id \<and> sa_program_id a \<noteq> kp_pubkey user"
    using swap_programs [OF fold] assms(1) [OF user] by (fastforce dest!: set_set_last_minimum)
  then show False
    using create_swap_tx_total [of "set_last_minimum (wrap64 init) args" user spl mh bh, where 'e = 'e] assms(1) [OF user] assms(2) len p
    by auto
qed

lemma get_arbitrage_tx_outputs_no_panic:
  assumes "\<And>user. mev_user_authority mev = Some user \<Longrightarrow>
      (\<forall>m. kp_sign user m \<noteq> default_signature) \<and> (\<forall>k pool. ps k = Some pool \<longrightarrow> opa_program_id (opb_pool pool) \<noteq> kp_pubkey user)"
    and "\<forall>path \<in> set (mev_mev_paths mev). length (mp_path path) \<le> 28"
  shows "(get_arbitrage_tx_outputs spl mh mev ps bh :: (_, 'e) result) \<noteq> panic"
proof -
  have "(mapE (arbitrage_output spl mh mev ps bh) (List.enumerate 0 (mev_mev_paths mev)) :: (_, 'e) result) \<noteq> panic"
  proof (rule mapE_no_panic)
    fix x assume "x \<in> set (List.enumerate 0 (mev_mev_paths mev))"
    then have "snd x \<in> set (mev_mev_paths mev)" by (metis map_snd_enumerate image_eqI list.set_map)
    then show "(arbitrage_output spl mh mev ps bh x :: (_, 'e) result) \<noteq> panic"
      using arbitrage_output_no_panic [OF assms(1), where path = "snd x" and idx = "fst x"] assms(2) by simp
  qed
  then show ?thesis unfolding get_arbitrage_tx_outputs_def by (intro bindE_no_panic) simp_all
qed

section \<open>Properties\<close>

text \<open>
  C1. A transaction built for a path has one swap per hop, from our account of the token that the hop takes in, through
  the two accounts of the pool, to our account of the token that it pays out; each swap asks for at least what the
  next one takes in, and the last for what the first takes in. So if the path is closed, each hop taking in the token
  that the hop before it pays out and the first the token of the last, and if each swap pays at least the minimum it
  asks for, as the swap program ensures or else fails the transaction, then of every token at least as much comes
  back as goes in, whatever the pools have become when it executes. That a path is closed is not checked when the
  configuration is read.
\<close>

theorem arbitrage_loses_no_token:
  assumes "(arbitrage_output spl mh mev ps bh (idx, path) :: (_, 'e) result) = Ok (Some out)"
    and "mto_sanitized_tx out = Some stx"
  shows "\<exists>user args. mev_user_authority mev = Some user \<and>
    (create_swap_tx spl mh args bh user :: (_, 'e) result) = Ok stx \<and> list_all2 (swap_of ps) (mp_path path) args \<and>
    (\<forall>i < length args. sa_minimum_amount_out (args ! i) = sa_amount_in (args ! next_hop (length args) i)) \<and>
    (closed_path ps (mp_path path) \<longrightarrow>
       (\<forall>outs t. (\<forall>i < length args. sa_minimum_amount_out (args ! i) \<le> outs i) \<longrightarrow>
          (\<Sum>i < length args. if mint_in ps (mp_path path ! i) = Some t then sa_amount_in (args ! i) else 0) \<le>
          (\<Sum>i < length args. if mint_out ps (mp_path path ! i) = Some t then outs i else 0)))"
proof -
  obtain po p fs amount args where out: "slice_get (mp_path path) 0 = Some p"
    "foldO (swap_step spl ps) (mp_path path) (initial_amount_of po p fs, [], []) = Some (amount, mto_input_output_pairs out, args)"
    and tx: "mto_sanitized_tx out = None \<and> length args \<noteq> length (mp_path path) \<or>
     (\<exists>user stx. mev_user_authority mev = Some user \<and> length args = length (mp_path path) \<and>
        (create_swap_tx spl mh (set_last_minimum (wrap64 (initial_amount_of po p fs)) args) bh user ::
          (_, 'e) result) = Ok stx \<and> mto_sanitized_tx out = Some stx)"
    by (rule arbitrage_output_Some [OF assms(1)])
  let ?args = "set_last_minimum (wrap64 (initial_amount_of po p fs)) args" and ?pairs = "mto_input_output_pairs out"
  obtain user where user: "mev_user_authority mev = Some user" "length args = length (mp_path path)"
    "(create_swap_tx spl mh ?args bh user :: (_, 'e) result) = Ok stx"
    using tx assms(2) by auto
  have chain: "pairs_chain (initial_amount_of po p fs) amount ?pairs" "swaps_chain ?pairs args" "?pairs \<noteq> []" "length ?pairs = length args"
    and swaps: "list_all2 (swap_of ps) (mp_path path) ?args"
    using hops_inv_path [OF out(2)] user(2) out(1) by (auto simp: hops_inv_def slice_get_Some)
  have asks: "sa_minimum_amount_out (?args ! i) = sa_amount_in (?args ! next_hop (length ?args) i)" if "i < length ?args" for i
  proof -
    have n: "next_hop (length ?pairs) i < length ?pairs"
      using chain(3) by (auto simp: next_hop_def intro!: mod_less_divisor)
    show ?thesis using that swaps_minimum(1) [OF chain(2,1,3), of i] swaps_minimum(2) [OF chain(2,1,3) n] chain(4) by simp
  qed
  have "(\<Sum>i < length ?args. if mint_in ps (mp_path path ! i) = Some t then sa_amount_in (?args ! i) else 0) \<le>
      (\<Sum>i < length ?args. if mint_out ps (mp_path path ! i) = Some t then outs i else 0)"
    if "closed_path ps (mp_path path)" "\<forall>i < length ?args. sa_minimum_amount_out (?args ! i) \<le> outs i" for outs t
    by (rule cycle_covers) (use that asks user(2) in \<open>auto simp: closed_path_def\<close>)
  then show ?thesis using user swaps asks by blast
qed

text \<open>
  C9. The amounts that are reported for a path are the quotes of its pools: each hop is quoted on what the hop before
  it pays out, less the two fees, through the curve of the pool in the direction of the hop, starting from no more
  than the optimal input and no more than we own of the token; the pairs are these amounts as \<^verbatim>\<open>u64\<close>. The last
  amount is at least the first, the profit is their difference as a \<^verbatim>\<open>u64\<close>, and it is at least the
  minimum configured for the token. When the last amount fits a \<^verbatim>\<open>u64\<close> nothing wraps: the profit is what
  the last pair pays out above what the first takes in.
\<close>

theorem arbitrage_profit:
  assumes "(arbitrage_output spl mh mev ps bh (idx, path) :: (_, 'e) result) = Ok (Some out)"
  shows "\<exists>po p rest fs amounts. get_path_calculation_output path ps = Some po \<and> mp_path path = p # rest \<and> ps (pi_pool p) = Some fs \<and>
    quote_path spl ps (mp_path path) (hd amounts) = Some amounts \<and> mto_input_output_pairs out = quoted_pairs amounts \<and>
    hd amounts \<le> f64_to_u128 (f64_floor (pco_optimal_input po)) \<and>
    (\<forall>own. (case pi_direction p of AtoB \<Rightarrow> opb_source_balance fs | BtoA \<Rightarrow> opb_destination_balance fs) = Some own \<longrightarrow> hd amounts \<le> own) \<and>
    hd amounts \<le> last amounts \<and> mto_profit out = wrap64 (last amounts - hd amounts) \<and>
    (case mev_minimum_profit mev (first_mint p fs) of Some m \<Rightarrow> m | None \<Rightarrow> 0) \<le> mto_profit out \<and>
    (last amounts \<le> u64_max \<longrightarrow>
       mto_profit out = token_out (last (mto_input_output_pairs out)) - token_in (hd (mto_input_output_pairs out)))"
proof -
  obtain po p fs amount args where out: "get_path_calculation_output path ps = Some po"
    "slice_get (mp_path path) 0 = Some p" "ps (pi_pool p) = Some fs"
    "foldO (swap_step spl ps) (mp_path path) (initial_amount_of po p fs, [], []) = Some (amount, mto_input_output_pairs out, args)"
    "mto_profit out = wrap64 (amount - initial_amount_of po p fs)" "initial_amount_of po p fs \<le> amount"
    "(case mev_minimum_profit mev (first_mint p fs) of Some m \<Rightarrow> m | None \<Rightarrow> 0) \<le> mto_profit out"
    by (rule arbitrage_output_Some [OF assms])
  obtain rest where path: "mp_path path = p # rest" using out(2) by (cases "mp_path path") (auto simp: slice_get_def)
  obtain amounts where am: "quote_path spl ps (mp_path path) (initial_amount_of po p fs) = Some amounts"
    "hd amounts = initial_amount_of po p fs" "last amounts = amount" "mto_input_output_pairs out = quoted_pairs amounts"
    using hops_quoted [OF out(4)] by auto
  have "last amounts \<le> u64_max \<longrightarrow>
      mto_profit out = token_out (last (mto_input_output_pairs out)) - token_in (hd (mto_input_output_pairs out))"
    using quoted_pairs_ends [OF am(1)] path am out(5,6) by (auto simp: wrap64_def)
  then show ?thesis
    using out(1,3) path am(4) am(1) [folded am(2)] out(5-7) [folded am(2,3)]
      initial_amount_le [where po = po and p = p and fs = fs, folded am(2)]
    by blast
qed

section \<open>A batch of transactions\<close>






text \<open>
  The transaction that is chosen after a transaction has the largest profit of all paths, and the
  log thread finds the path of every output that it is sent.
\<close>

theorem chosen_output_is_maximal:
  assumes "(log_mev_opportunities_get_max_profit_tx spl hashv curve mh mev tx slot pre lt bh :: (_, unit) result) = Ok (msgs, found)"
    and "MM_Opportunities outs \<in> set msgs"
  shows "(\<exists>r. (log_opportunities (mev_mev_paths mev) outs :: (_, unit) result) = Ok r) \<and>
    (\<forall>stx profit. found = Some (stx, profit) \<longrightarrow> (\<forall>out \<in> set outs. mto_profit out \<le> profit) \<and> (\<exists>out \<in> set outs. mto_profit out = profit))"
proof -
  obtain ps outs0 best where ps: "(get_arbitrage_tx_outputs spl mh mev ps bh :: (_, unit) result) = Ok outs0"
    and best: "max_profit outs0 = Some best" "found = map_option (\<lambda>stx. (stx, mto_profit best)) (mto_sanitized_tx best)"
    and outs: "outs = map (\<lambda>out. if mto_path_idx out = mto_path_idx best then out\<lparr>mto_sanitized_tx := None\<rparr> else out) outs0"
    using assms
    by (auto simp: log_mev_opportunities_get_max_profit_tx_def result_simps Let_def
        split: option.splits sum.splits fault.splits)
  have "mto_path_idx out < length (mev_mev_paths mev)" if "out \<in> set outs0" for out
    using arbitrage_outputs [OF ps that] arbitrage_output_idx by metis
  then have "\<forall>out \<in> set outs. mto_path_idx out < length (mev_mev_paths mev)" using outs by (fastforce split: if_splits)
  then have "\<exists>r. (log_opportunities (mev_mev_paths mev) outs :: (_, unit) result) = Ok r"
    unfolding log_opportunities_def by (intro mapE_total) (auto simp: slice_get_def)
  moreover have "best \<in> set outs0" "\<forall>out \<in> set outs0. mto_profit out \<le> mto_profit best"
    using max_profit_Some [OF best(1)] by auto
  then have "best\<lparr>mto_sanitized_tx := None\<rparr> \<in> set outs" "\<forall>out \<in> set outs. mto_profit out \<le> mto_profit best"
    using outs by auto
  ultimately show ?thesis using best(2) by (auto intro!: bexI [of _ "best\<lparr>mto_sanitized_tx := None\<rparr>"])
qed

text \<open>
  C35. Every account that the search looks up for a configured pool (the pool, its two token accounts, its mint, its
  fee account, and our two token accounts where they are configured) is in the map that loading builds, whatever
  execution wrote to the loaded accounts: the lookup gives the account that the transaction has after execution at
  an index of that key, or the account that the database has for it, or the default account when it has none. The
  latter two only when the message does not make the account writable, when it is merely a called program or the
  instructions sysvar, or when the database has no such account; so of the accounts that existed before, the search
  sees what the transaction wrote.
\<close>

theorem mev_accounts_resolve:
  assumes "load_transaction env tx = Ok lt" "stx_mev_keys tx = Some mk" "le_overrides env = None"
    and "map fst (lt_accounts lt') = map fst (lt_accounts lt)" "p \<in> set (mk_pool_keys mk)"
    and "k \<in> {mpk_pool p, mpk_token_a p, mpk_token_b p, mpk_pool_mint p, mpk_pool_fee p} \<union> set_option (mpk_source p) \<union>
      set_option (mpk_destination p)"
  defines "keys \<equiv> ak_iter (sm_account_keys (stx_message tx))"
  shows "\<exists>ma. lt_mev_accounts lt = Some ma \<and> ma_pool_accounts ma = mk_pool_keys mk \<and>
    ((\<exists>i < length keys. keys ! i = k \<and> fst (lt_accounts lt' ! i) = k \<and>
        (get_account ma lt' k :: (_, program_error) result) = Ok (lt_accounts lt' ! i)) \<or>
     ((\<forall>i < length keys. keys ! i = k \<longrightarrow> \<not> sm_is_writable (stx_message tx) i \<or> \<not> sm_is_non_loader_key (stx_message tx) i \<or>
          k = instructions_id \<or> le_load env k = None) \<and>
        (get_account ma lt' k :: (_, program_error) result) =
          Ok (k, case le_load env k of Some account \<Rightarrow> account | None \<Rightarrow> default_account)))"
proof -
  have "k \<in> set (pool_keys_read p)" using assms(6) by (auto simp: pool_keys_read_def)
  from load_transaction_resolves [OF assms(1-3,5) this] obtain ma where ma: "lt_mev_accounts lt = Some ma"
    "ma_pool_accounts ma = mk_pool_keys mk" and res: "resolves env (stx_message tx) (ma_pubkey_account_map ma) k"
    by blast
  from resolves_get_account [OF assms(1,3) res assms(4)] obtain acc where acc: "(get_account ma lt' k :: (_, program_error) result) = Ok acc"
    "fst acc = k"
    by blast
  show ?thesis
    using ma res acc unfolding keys_def resolves_def
    by (auto simp: may_write_def get_account_def Let_def slice_get_Some result_simps split: option.splits mev_account_or_idx.splits)
qed

text \<open>
  C16. The search never panics on what the bank gives it. After a transaction that was loaded with the keys of the
  pools, whatever its execution wrote to the loaded accounts, every account that the search looks
  up is there, and the arbitrage transaction of a path of at most 28 hops can be built and signed.
\<close>

theorem mev_search_no_panic:
  assumes "load_transaction env (fill_tx_mev_accounts mev tx) = Ok lt" "le_overrides env = None" "stx_signatures tx \<noteq> []"
    and "map fst (lt_accounts lt') = map fst (lt_accounts lt)" "lt_mev_accounts lt' = lt_mev_accounts lt"
    and "libraries_total spl hashv curve"
    and "\<forall>path \<in> set (mev_mev_paths mev). length (mp_path path) \<le> 28"
    and "\<And>user. mev_user_authority mev = Some user \<Longrightarrow> (\<forall>m. kp_sign user m \<noteq> default_signature) \<and>
      (\<forall>ps k pool. get_all_orca_monitored_accounts spl hashv curve lt' = Some (Ok ps) \<longrightarrow> ps k = Some pool \<longrightarrow>
         opa_program_id (opb_pool pool) \<noteq> kp_pubkey user)"
  shows "(log_mev_opportunities_get_max_profit_tx spl hashv curve mh mev (fill_tx_mev_accounts mev tx) slot pre lt' bh :: (_, 'e) result) \<noteq> panic"
proof -
  let ?tx = "fill_tx_mev_accounts mev tx"
  have mas: "lt_mev_accounts lt = map_option (\<lambda>mk. the (lt_mev_accounts lt)) (stx_mev_keys ?tx)"
    by (rule load_transaction_Ok [OF assms(1)]) (cases "stx_mev_keys ?tx"; simp)
  have "read_pool spl hashv curve ma lt' p \<noteq> panic"
    if ma: "lt_mev_accounts lt = Some ma" and p: "p \<in> set (ma_pool_accounts ma)" for ma p
  proof (rule read_pool_no_panic [OF assms(6)])
    obtain mk where mk: "stx_mev_keys ?tx = Some mk" using mas ma by (cases "stx_mev_keys ?tx") auto
    then have pools: "ma_pool_accounts ma = mk_pool_keys mk"
      by (rule_tac load_transaction_Ok [OF assms(1)]) (use ma in \<open>auto simp: get_accounts_data_def Let_def\<close>)
    fix k assume "k \<in> set (pool_keys_read p)"
    with load_transaction_resolves [OF assms(1) mk assms(2), of p k] p pools ma
    have "resolves env (stx_message ?tx) (ma_pubkey_account_map ma) k" by auto
    then show "\<exists>acc. (get_account ma lt' k :: (_, program_error) result) = Ok acc"
      using resolves_get_account [OF assms(1,2) _ assms(4)] by blast
  qed
  then have read: "get_all_orca_monitored_accounts spl hashv curve lt' \<noteq> Some panic"
    unfolding get_all_orca_monitored_accounts_def assms(5)
    by (cases "lt_mev_accounts lt") (auto simp: bindE_Inl_iff intro: mapE_no_panic [THEN notE])
  have sig: "stx_signatures ?tx \<noteq> []" using assms(3) by (simp add: fill_tx_mev_accounts_def)
  have outs: "(get_arbitrage_tx_outputs spl mh mev ps bh :: (_, 'e) result) \<noteq> panic"
    if "get_all_orca_monitored_accounts spl hashv curve lt' = Some (Ok ps)" for ps
    using get_arbitrage_tx_outputs_no_panic [OF _ assms(7)] assms(8) that by blast
  show ?thesis
    unfolding log_mev_opportunities_get_max_profit_tx_def
    using read outs sig
    by (auto simp: Let_def slice_get_def bindE_Inl_iff split: option.splits sum.splits fault.splits)
qed

lemma fold_insert_set: "set (fold List.insert ks acc) = set ks \<union> set acc"
  by (induction ks arbitrary: acc) auto

lemma readonly_pools:
  "set (fold readonly_of_pool ps acc) =
     set acc \<union> (\<Union>p \<in> set ps. {mpk_pool p, mpk_pool_authority p} \<union>
       (if mpk_source p \<noteq> None \<and> mpk_destination p \<noteq> None then {}
        else {mpk_token_a p, mpk_token_b p, mpk_pool_mint p, mpk_pool_fee p}))"
  by (induction ps arbitrary: acc) (auto simp: Let_def)

lemma written_pools:
  "set (fold written_of_pool ps acc) =
     set acc \<union> (\<Union>p \<in> set ps. if mpk_source p \<noteq> None \<and> mpk_destination p \<noteq> None
       then {the (mpk_source p), the (mpk_destination p), mpk_token_a p, mpk_token_b p, mpk_pool_mint p, mpk_pool_fee p} else {})"
  by (induction ps arbitrary: acc) (auto split: option.splits)

lemma set_get_write_accounts: "set (get_write_accounts mk acc) = set acc \<union> set (get_write_accounts mk [])"
  by (simp add: get_write_accounts_def written_pools)

lemma set_get_readonly_accounts: "set (get_readonly_accounts mk acc) = set acc \<union> set (get_readonly_accounts mk [])"
  by (cases "mk_user_authority mk") (auto simp: get_readonly_accounts_def readonly_pools Let_def)

lemma request_of_pools:
  assumes "stx_mev_keys tx = Some mk"
  shows "set (get_write_accounts mk []) \<subseteq> set (fst (request_of tx))"
    "set (get_readonly_accounts mk []) \<subseteq> set (fst (request_of tx)) \<union> set (snd (request_of tx))"
    "set (fst (request_of tx)) \<union> set (snd (request_of tx)) \<subseteq>
       set (ak_iter (sm_account_keys (stx_message tx))) \<union> set (get_write_accounts mk []) \<union> set (get_readonly_accounts mk [])"
proof -
  let ?k = "get_account_locks_unchecked tx"
  let ?w = "get_write_accounts mk (fold List.insert (tal_writable ?k) [])"
  let ?r = "get_readonly_accounts mk (fold List.insert (tal_readonly ?k) [])"
  have "tal_readonly_mev ?k = Some mk" using assms by (simp add: get_account_locks_unchecked_def Let_def)
  then have req: "request_of tx = (?w, filter (\<lambda>k. k \<notin> set ?w) ?r)"
    by (simp add: request_of_def get_readable_and_writable_locks_vec_def Let_def)
  have "set (map snd (filter P (List.enumerate n xs))) \<subseteq> set xs" for P n and xs :: "pubkey list"
    by (metis (no_types, lifting) filter_is_subset image_mono list.set_map map_snd_enumerate)
  then have keys: "set (tal_writable ?k) \<subseteq> set (ak_iter (sm_account_keys (stx_message tx)))"
    "set (tal_readonly ?k) \<subseteq> set (ak_iter (sm_account_keys (stx_message tx)))"
    unfolding get_account_locks_unchecked_def Let_def by simp_all
  have sets: "set ?w = set (tal_writable ?k) \<union> set (get_write_accounts mk [])"
    "set ?r = set (tal_readonly ?k) \<union> set (get_readonly_accounts mk [])"
    using set_get_write_accounts [of mk "fold List.insert (tal_writable ?k) []"]
      set_get_readonly_accounts [of mk "fold List.insert (tal_readonly ?k) []"] by (simp_all add: fold_insert_set)
  show "set (get_write_accounts mk []) \<subseteq> set (fst (request_of tx))"
    "set (get_readonly_accounts mk []) \<subseteq> set (fst (request_of tx)) \<union> set (snd (request_of tx))"
    "set (fst (request_of tx)) \<union> set (snd (request_of tx)) \<subseteq>
       set (ak_iter (sm_account_keys (stx_message tx))) \<union> set (get_write_accounts mk []) \<union> set (get_readonly_accounts mk [])"
    using sets keys unfolding req by auto
qed

text \<open>
  C17. Whatever the MEV search reads of a pool is locked for the transaction, when both or none of our
  token accounts are configured for the pool; with both, all that a swap writes is locked for writing.
\<close>

theorem mev_reads_locked:
  assumes "stx_mev_keys tx = Some mk" "p \<in> set (mk_pool_keys mk)" "mpk_source p = None \<longleftrightarrow> mpk_destination p = None"
  shows "set (pool_keys_read p) \<subseteq> set (fst (request_of tx)) \<union> set (snd (request_of tx)) \<and>
    (\<forall>source destination. mpk_source p = Some source \<longrightarrow> mpk_destination p = Some destination \<longrightarrow>
       {source, destination, mpk_token_a p, mpk_token_b p, mpk_pool_mint p, mpk_pool_fee p} \<subseteq> set (fst (request_of tx)))"
proof -
  have w: "{source, destination, mpk_token_a p, mpk_token_b p, mpk_pool_mint p, mpk_pool_fee p} \<subseteq> set (get_write_accounts mk [])"
    if "mpk_source p = Some source" "mpk_destination p = Some destination" for source destination
    unfolding get_write_accounts_def written_pools using that by (intro le_supI2 SUP_upper2 [OF assms(2)]) simp
  have r: "{mpk_pool p, mpk_pool_authority p} \<union> (if mpk_source p \<noteq> None \<and> mpk_destination p \<noteq> None then {}
        else {mpk_token_a p, mpk_token_b p, mpk_pool_mint p, mpk_pool_fee p}) \<subseteq> set (get_readonly_accounts mk [])"
  proof -
    have "set (fold readonly_of_pool (mk_pool_keys mk) []) \<subseteq> set (get_readonly_accounts mk [])"
      by (cases "mk_user_authority mk") (auto simp: get_readonly_accounts_def Let_def)
    then show ?thesis unfolding readonly_pools using assms(2) by blast
  qed
  have "set (pool_keys_read p) \<subseteq> set (get_write_accounts mk []) \<union> set (get_readonly_accounts mk [])"
    using w r assms(3) by (cases "mpk_source p"; cases "mpk_destination p") (simp_all add: pool_keys_read_def)
  then show ?thesis using w request_of_pools [OF assms(1)] by blast
qed

end
