(* ===== verification/Mev_Examples.thy ===== *)
theory Mev_Examples
  imports Mev_Properties
begin

text \<open>
  Witnesses of the properties of the MEV search: two pools that trade at different prices, read from
  accounts of a database, with an arbitrage that takes 8 tokens of the mint 3 in, trades them for 21 of the mint 4,
  and these for 15 of the mint 3.
\<close>

section \<open>Two pools\<close>

definition example_curve :: swap_curve where
  "example_curve amount source destination _ = Some (amount, destination * amount div (source + amount))"

definition example_fees :: spl_fees where
  "example_fees = \<lparr>trade_fee_numerator = 0, trade_fee_denominator = 1, owner_trade_fee_numerator = 0,
     owner_trade_fee_denominator = 1, host_fee_numerator = 0, host_fee_denominator = 1\<rparr>"

definition example_spl :: spl_library where
  "example_spl = \<lparr>spl_trading_fee = (\<lambda>_ _. Some 0), spl_owner_trading_fee = (\<lambda>_ _. Some 0),
     spl_unpack_pool = (\<lambda>_. Ok (example_fees, example_curve)),
     spl_unpack_account = (\<lambda>d. case d of [amount, mint] \<Rightarrow> Ok \<lparr>spl_mint = ucast mint, spl_amount = unat amount\<rparr> | _ \<Rightarrow> Err PE_InvalidArgument),
     spl_pack_swap = (\<lambda>amount_in minimum_out. [of_nat amount_in, of_nat minimum_out])\<rparr>"

text \<open>A pool at the key \<open>k\<close>; its other accounts have the keys that follow.\<close>

definition example_addresses :: "pubkey \<Rightarrow> orca_pool_addresses" where
  "example_addresses k = \<lparr>opa_program_id = 30, opa_address = k, opa_pool_a_account = k + 1, opa_pool_b_account = k + 2,
     opa_source = Some (k + 3), opa_destination = Some (k + 4), opa_pool_mint = k + 5, opa_pool_fee = k + 6,
     opa_pool_authority = 5, opa_pool_a_mint = 3, opa_pool_b_mint = 4\<rparr>"

definition example_pool :: "pubkey \<Rightarrow> u64 \<Rightarrow> orca_pool_with_balance" where
  "example_pool k a = \<lparr>opb_pool = example_addresses k, opb_pool_a_balance = a, opb_pool_b_balance = 64,
     opb_source_balance = Some 40, opb_destination_balance = Some 40, opb_fees = example_fees, opb_curve_calculator = example_curve\<rparr>"

definition example_pools :: pool_states where
  "example_pools = [40 \<mapsto> example_pool 40 16, 50 \<mapsto> example_pool 50 64]"

definition example_path :: mev_path where
  "example_path = \<lparr>mp_name = ''two pools'', mp_path = [\<lparr>pi_pool = 40, pi_direction = AtoB\<rparr>, \<lparr>pi_pool = 50, pi_direction = BtoA\<rparr>]\<rparr>"

text \<open>The floating point operations of the example; all its values are powers of two.\<close>

definition power_of_two :: "int \<Rightarrow> f64" where
  "power_of_two e = F64 False 4503599627370496 (e - 52)"

definition zero_f64 :: f64 where
  "zero_f64 = F64 False 0 (- 1074)"

lemma example_constants:
  "f64_of_nat 0 = zero_f64" "f64_of_nat 1 = power_of_two 0" "f64_of_nat 64 = power_of_two 6"
  "f64_of_nat 16 = power_of_two 4"
  by (simp_all add: zero_f64_def power_of_two_def f64_eval)

lemma example_sums:
  "f64_add zero_f64 zero_f64 = zero_f64"
  "f64_sub (power_of_two 0) zero_f64 = power_of_two 0"
  "f64_add zero_f64 (power_of_two (- 4)) = power_of_two (- 4)"
proof -
  show "f64_add zero_f64 zero_f64 = zero_f64" by (simp add: zero_f64_def signed_def)
  show "f64_sub (power_of_two 0) zero_f64 = power_of_two 0"
    unfolding zero_f64_def power_of_two_def f64_sub_def f64_neg.simps by (rule f64_add_zero) simp_all
  show "f64_add zero_f64 (power_of_two (- 4)) = power_of_two (- 4)"
    unfolding zero_f64_def power_of_two_def by (rule f64_add_zero) simp_all
qed

lemma example_products:
  "f64_div (power_of_two 6) (power_of_two 4) = power_of_two 2" "f64_div (power_of_two 6) (power_of_two 6) = power_of_two 0"
  "f64_mul (power_of_two 0) (power_of_two 2) = power_of_two 2" "f64_mul (power_of_two 2) (power_of_two 0) = power_of_two 2"
  "f64_mul (power_of_two 0) (power_of_two 0) = power_of_two 0" "f64_div (power_of_two 0) (power_of_two 4) = power_of_two (- 4)"
  "f64_mul (power_of_two 0) (power_of_two (- 4)) = power_of_two (- 4)" "f64_div (power_of_two 2) (power_of_two 6) = power_of_two (- 4)"
  "f64_div (power_of_two 0) (power_of_two (- 3)) = power_of_two 3"
  by (simp_all add: power_of_two_def f64_eval)

lemma example_sum:
  "f64_add (power_of_two (- 4)) (power_of_two (- 4)) = power_of_two (- 3)"
  by (simp_all add: power_of_two_def f64_eval)

lemma example_sqrt: "f64_sqrt (power_of_two 2) = power_of_two 1"
proof -
  have "isqrt 20282409603651670423947251286016 = 4503599627370496" by (rule isqrt_unique) simp_all
  then show ?thesis by (simp add: power_of_two_def f64_eval )
qed

lemma example_difference: "f64_sub (power_of_two 1) (power_of_two 0) = power_of_two 0"
  by (simp_all add: power_of_two_def f64_eval)

lemma example_less: "f64_less (power_of_two 0) (power_of_two 2)"  by (simp_all add: power_of_two_def f64_eval)

lemma example_floor: "f64_to_u128 (f64_floor (power_of_two 3)) = 8"
  by (simp_all add: power_of_two_def f64_eval)

lemmas example_f64 = example_constants example_sums example_products example_sum example_sqrt example_difference example_less example_floor

lemma example_path_calculation:
  "get_path_calculation_output example_path example_pools =
     Some \<lparr>pco_optimal_input = power_of_two 3, pco_marginal_price = power_of_two 2, pco_source_token_balance = Some 40\<rparr>"
  by (simp add: get_path_calculation_output_def example_path_def example_pools_def example_pool_def path_step_def fee_ratio_def
      example_fees_def slice_get_def Let_def example_f64 del: One_nat_def)

lemma example_swaps:
  "\<exists>args. foldO (swap_step example_spl example_pools) (mp_path example_path) (8, [], []) =
     Some (15, [\<lparr>token_in = 8, token_out = 21\<rparr>, \<lparr>token_in = 21, token_out = 15\<rparr>], args) \<and>
     length args = 2 \<and> (\<forall>a \<in> set args. sa_token_program a = spl_token_id \<and> sa_program_id a = 30)"
  by (simp add: example_path_def swap_step_def example_pools_def example_pool_def example_spl_def example_addresses_def
      example_curve_def checked_add128_def checked_sub128_def wrap64_def set_last_minimum_def Let_def)

definition example_mev :: mev where
  "example_mev = \<lparr>mev_watched_programs = [100], mev_orca_monitored_accounts = [example_addresses 40, example_addresses 50],
     mev_mev_paths = [example_path], mev_user_authority = Some example_keypair, mev_minimum_profit = [3 \<mapsto> 5]\<rparr>"

abbreviation example_hash :: "legacy_message \<Rightarrow> hash" where
  "example_hash \<equiv> \<lambda>_. 9"

lemma example_output:
  "\<exists>out stx. (arbitrage_output example_spl example_hash example_mev example_pools bh (0, example_path) :: (_, 'e) result) = Ok (Some out) \<and>
     mto_sanitized_tx out = Some stx \<and> mto_profit out = 7 \<and> mto_path_idx out = 0 \<and>
     mto_input_output_pairs out = [\<lparr>token_in = 8, token_out = 21\<rparr>, \<lparr>token_in = 21, token_out = 15\<rparr>]"
proof -
  obtain args where args: "foldO (swap_step example_spl example_pools) (mp_path example_path) (8, [], []) =
     Some (15, [\<lparr>token_in = 8, token_out = 21\<rparr>, \<lparr>token_in = 21, token_out = 15\<rparr>], args)"
     "length args = 2" "\<forall>a \<in> set args. sa_token_program a = spl_token_id \<and> sa_program_id a = 30"
    using example_swaps by blast
  let ?args = "set_last_minimum 8 args"
  have "\<forall>a \<in> set ?args. sa_token_program a = spl_token_id \<and> sa_program_id a \<noteq> kp_pubkey example_keypair"
    using args(3) by (fastforce simp: example_keypair_def dest!: set_set_last_minimum)
  then obtain stx where stx: "(create_swap_tx example_spl example_hash ?args bh example_keypair :: (_, 'e) result) = Ok stx"
    using create_swap_tx_total [of ?args example_keypair example_spl example_hash bh, where 'e = 'e] args(2)
    by (auto simp: example_keypair_def default_signature_def)
  have path: "slice_get (mp_path example_path) 0 = Some \<lparr>pi_pool = 40, pi_direction = AtoB\<rparr>" "length (mp_path example_path) = 2"
    "example_pools 40 = Some (example_pool 40 16)" "opb_source_balance (example_pool 40 16) = Some 40"
    "opa_pool_a_mint (opb_pool (example_pool 40 16)) = 3"
    by (simp_all add: example_path_def slice_get_def example_pools_def example_pool_def example_addresses_def)
  have mev: "mev_minimum_profit example_mev 3 = Some 5" "mev_user_authority example_mev = Some example_keypair"
    by (simp_all add: example_mev_def)
  have "initial_amount_of \<lparr>pco_optimal_input = power_of_two 3, pco_marginal_price = power_of_two 2, pco_source_token_balance = Some 40\<rparr>
      \<lparr>pi_pool = 40, pi_direction = AtoB\<rparr> (example_pool 40 16) = 8"
    by (simp add: initial_amount_of_def path(4) example_floor [simplified])
  then show ?thesis
    using args stx path mev
    by (simp add: arbitrage_output_def example_path_calculation first_mint_def wrap64_def Let_def)
qed

section \<open>Reading the pools\<close>

definition example_swap_tx :: sanitized_transaction where
  "example_swap_tx = fill_tx_mev_accounts example_mev (example_watched_tx\<lparr>stx_mev_keys := None\<rparr>)"

definition example_keys :: mev_keys where
  "example_keys = \<lparr>mk_pool_keys = [mev_pool_keys_of (example_addresses 40), mev_pool_keys_of (example_addresses 50)],
     mk_token_program = spl_token_id, mk_user_authority = Some 7\<rparr>"

lemma example_swap_tx_keys: "example_swap_tx = example_watched_tx\<lparr>stx_mev_keys := Some example_keys\<rparr>"
  by (simp add: example_swap_tx_def fill_tx_mev_accounts_def is_monitored_account_def example_mev_def example_keys_def
      example_watched_tx_def example_message_def ak_iter_def key_segment_iter_def example_keypair_def)

lemma example_swap_loaded: "\<exists>lt. load_transaction example_env example_swap_tx = Ok lt"
  unfolding example_swap_tx_keys by (rule example_loaded)

text \<open>An account that is not one of the transaction is read from the database.\<close>

lemma example_read:
  assumes "load_transaction example_env example_swap_tx = Ok lt" "lt_mev_accounts lt = Some ma"
    and "p \<in> set (mk_pool_keys example_keys)" "k \<in> set (pool_keys_read p)" "k \<notin> {7, 8, 9, 100}"
  shows "(get_account ma lt' k :: (_, 'e) result) = Ok (k, case example_db k of Some a \<Rightarrow> a | None \<Rightarrow> default_account)"
proof -
  have keys: "ak_iter (sm_account_keys (stx_message example_swap_tx)) = [7, 8, 9, 100]"
    by (simp add: example_swap_tx_keys example_watched_tx_def example_message_def ak_iter_def key_segment_iter_def)
  have load: "le_load example_env k = example_db k"
    by (simp add: le_load_def example_env_def is_active_def)
  have "resolves example_env (stx_message example_swap_tx) (ma_pubkey_account_map ma) k"
    using load_transaction_resolves [OF assms(1) _ _ assms(3,4)] assms(2) by (simp add: example_swap_tx_keys example_env_def)
  then show ?thesis
    using assms(5) unfolding resolves_def keys load
    by (auto simp: get_account_def Let_def less_Suc_eq nth_Cons' split: option.splits mev_account_or_idx.splits if_splits)
qed

lemma example_address:
  "try_find_program_address (\<lambda>_. 5) (\<lambda>_. False) [to_bytes k] q = Some (5, 255)"
  unfolding try_find_program_address_def try_bumps_Some
  by (simp add: create_program_address_eq seeds_fit_def MAX_SEEDS_def MAX_SEED_LEN_def to_bytes_def)

lemma example_read_pool:
  assumes "load_transaction example_env example_swap_tx = Ok lt" "lt_mev_accounts lt = Some ma"
  shows "read_pool example_spl (\<lambda>_. 5) (\<lambda>_. False) ma lt' (mev_pool_keys_of (example_addresses 40)) = Ok (40, example_pool 40 16)"
    "read_pool example_spl (\<lambda>_. 5) (\<lambda>_. False) ma lt' (mev_pool_keys_of (example_addresses 50)) = Ok (50, example_pool 50 64)"
proof -
  have ga: "(get_account ma lt' k :: (_, program_error) result) = Ok (k, case example_db k of Some a \<Rightarrow> a | None \<Rightarrow> default_account)"
    if "k \<in> {40, 41, 42, 43, 44, 45, 46, 50, 51, 52, 53, 54, 55, 56}" for k
  proof -
    let ?p = "mev_pool_keys_of (example_addresses 40)" and ?q = "mev_pool_keys_of (example_addresses 50)"
    have "k \<in> set (pool_keys_read ?p) \<or> k \<in> set (pool_keys_read ?q)" "k \<notin> {7, 8, 9, 100}"
      using that by (auto simp: pool_keys_read_def mev_pool_keys_of_def example_addresses_def)
    then show ?thesis using example_read [OF assms] by (auto simp: example_keys_def)
  qed
  note reads = ga [of 40] ga [of 41] ga [of 42] ga [of 43] ga [of 44] ga [of 45] ga [of 46]
    ga [of 50] ga [of 51] ga [of 52] ga [of 53] ga [of 54] ga [of 55] ga [of 56]
  show "read_pool example_spl (\<lambda>_. 5) (\<lambda>_. False) ma lt' (mev_pool_keys_of (example_addresses 40)) = Ok (40, example_pool 40 16)"
    "read_pool example_spl (\<lambda>_. 5) (\<lambda>_. False) ma lt' (mev_pool_keys_of (example_addresses 50)) = Ok (50, example_pool 50 64)"
    using reads
    by (simp_all add: read_pool_def mev_pool_keys_of_def example_addresses_def find_program_address_def example_address
        token_amount_def example_spl_def example_db_def example_data_def example_pool_def)
qed

lemma example_pool_states:
  assumes "load_transaction example_env example_swap_tx = Ok lt"
  shows "get_all_orca_monitored_accounts example_spl (\<lambda>_. 5) (\<lambda>_. False) lt = Some (Ok example_pools)"
proof -
  have "mev_pool_keys_of (example_addresses 40) \<in> set (mk_pool_keys example_keys)"
    "40 \<in> set (pool_keys_read (mev_pool_keys_of (example_addresses 40)))"
    by (simp_all add: example_keys_def pool_keys_read_def mev_pool_keys_of_def example_addresses_def)
  then obtain ma where ma: "lt_mev_accounts lt = Some ma" "ma_pool_accounts ma = mk_pool_keys example_keys"
    using load_transaction_resolves [OF assms] by (force simp: example_swap_tx_keys example_env_def)
  then show ?thesis
    using example_read_pool [OF assms ma(1)]
    by (simp add: get_all_orca_monitored_accounts_def example_keys_def example_pools_def fun_upd_twist)
qed

section \<open>Witnesses\<close>

lemma example_closed: "closed_path example_pools (mp_path example_path)"
  by (simp add: closed_path_def example_path_def next_hop_def mint_in_def mint_out_def first_mint_def example_pools_def
      example_pool_def example_addresses_def less_Suc_eq numeral_2_eq_2)

theorem arbitrage_loses_no_token_witness:
  "\<exists>stx args. (create_swap_tx example_spl example_hash args 4 example_keypair :: (_, unit) result) = Ok stx \<and>
     list_all2 (swap_of example_pools) (mp_path example_path) args \<and>
     (\<forall>t. (\<Sum>i < length args. if mint_in example_pools (mp_path example_path ! i) = Some t then sa_amount_in (args ! i) else 0) \<le>
        (\<Sum>i < length args. if mint_out example_pools (mp_path example_path ! i) = Some t then sa_minimum_amount_out (args ! i) else 0))"
proof -
  obtain out stx where out: "(arbitrage_output example_spl example_hash example_mev example_pools 4 (0, example_path) :: (_, unit) result) = Ok (Some out)"
    "mto_sanitized_tx out = Some stx"
    using example_output [of 4, where 'e = unit] by blast
  obtain user args where args: "mev_user_authority example_mev = Some user"
    "(create_swap_tx example_spl example_hash args 4 user :: (_, unit) result) = Ok stx"
    "list_all2 (swap_of example_pools) (mp_path example_path) args"
    and covers: "\<forall>outs t. (\<forall>i < length args. sa_minimum_amount_out (args ! i) \<le> outs i) \<longrightarrow>
      (\<Sum>i < length args. if mint_in example_pools (mp_path example_path ! i) = Some t then sa_amount_in (args ! i) else 0) \<le>
      (\<Sum>i < length args. if mint_out example_pools (mp_path example_path ! i) = Some t then outs i else 0)"
    using arbitrage_loses_no_token [OF out] example_closed by blast
  have "user = example_keypair" using args(1) by (simp add: example_mev_def)
  with args(2,3) covers [rule_format, of "\<lambda>i. sa_minimum_amount_out (args ! i)"] show ?thesis by blast
qed

theorem arbitrage_profit_witness:
  "\<exists>out amounts. (arbitrage_output example_spl example_hash example_mev example_pools 4 (0, example_path) :: (_, unit) result) = Ok (Some out) \<and>
     quote_path example_spl example_pools (mp_path example_path) (hd amounts) = Some amounts \<and>
     mto_input_output_pairs out = quoted_pairs amounts \<and> hd amounts \<le> 40 \<and> 5 \<le> mto_profit out"
proof -
  obtain out where out: "(arbitrage_output example_spl example_hash example_mev example_pools 4 (0, example_path) :: (_, unit) result) = Ok (Some out)"
    using example_output [of 4, where 'e = unit] by blast
  have path: "mp_path example_path = p # rest \<Longrightarrow> p = \<lparr>pi_pool = 40, pi_direction = AtoB\<rparr>" for p rest
    by (simp add: example_path_def)
  have ex: "mev_minimum_profit example_mev (first_mint \<lparr>pi_pool = 40, pi_direction = AtoB\<rparr> (example_pool 40 16)) = Some 5"
    "example_pools 40 = Some (example_pool 40 16)" "opb_source_balance (example_pool 40 16) = Some 40"
    by (simp_all add: example_mev_def first_mint_def example_pools_def example_pool_def example_addresses_def)
  obtain p rest fs amounts where p: "mp_path example_path = p # rest" "example_pools (pi_pool p) = Some fs"
    and q: "quote_path example_spl example_pools (mp_path example_path) (hd amounts) = Some amounts"
      "mto_input_output_pairs out = quoted_pairs amounts"
    and own: "\<forall>own. (case pi_direction p of AtoB \<Rightarrow> opb_source_balance fs | BtoA \<Rightarrow> opb_destination_balance fs) = Some own \<longrightarrow> hd amounts \<le> own"
    and least: "(case mev_minimum_profit example_mev (first_mint p fs) of Some m \<Rightarrow> m | None \<Rightarrow> 0) \<le> mto_profit out"
    using arbitrage_profit [OF out] by blast
  have "p = \<lparr>pi_pool = 40, pi_direction = AtoB\<rparr>" "fs = example_pool 40 16" using p path [OF p(1)] ex(2) by simp_all
  then have "hd amounts \<le> 40" "5 \<le> mto_profit out" using own least ex by simp_all
  then show ?thesis using out q by blast
qed

theorem mev_accounts_resolve_witness:
  "\<exists>lt ma. load_transaction example_env example_swap_tx = Ok lt \<and> lt_mev_accounts lt = Some ma \<and>
     (get_account ma lt 43 :: (_, program_error) result) = Ok (43, example_data [40, 3])"
proof -
  obtain lt where lt: "load_transaction example_env example_swap_tx = Ok lt" using example_swap_loaded by blast
  have ex: "stx_mev_keys example_swap_tx = Some example_keys" "le_overrides example_env = None"
    "mev_pool_keys_of (example_addresses 40) \<in> set (mk_pool_keys example_keys)"
    "mpk_source (mev_pool_keys_of (example_addresses 40)) = Some 43"
    "ak_iter (sm_account_keys (stx_message example_swap_tx)) = [7, 8, 9, 100]" "le_load example_env 43 = Some (example_data [40, 3])"
    by (simp_all add: example_swap_tx_keys example_watched_tx_def example_message_def ak_iter_def key_segment_iter_def example_env_def
        example_keys_def mev_pool_keys_of_def example_addresses_def le_load_def example_db_def)
  have "[7, 8, 9, 100 :: pubkey] ! i \<noteq> 43" if "i < length [7, 8, 9, 100 :: pubkey]" for i
    using nth_mem [OF that] by auto
  then show ?thesis
    using mev_accounts_resolve [OF lt ex(1,2) refl ex(3), of 43] lt by (auto simp: ex(4-6))
qed

text \<open>After the transaction was executed without changing the pools, the search finds the arbitrage.\<close>

lemma example_search:
  assumes "load_transaction example_env example_swap_tx = Ok lt"
  shows "\<exists>msgs stx. (log_mev_opportunities_get_max_profit_tx example_spl (\<lambda>_. 5) (\<lambda>_. False) example_hash example_mev example_swap_tx 1
      Map.empty lt 0 :: (_, 'e) result) = Ok (msgs, Some (stx, 7)) \<and> (\<exists>outs. MM_Opportunities outs \<in> set msgs)"
proof -
  obtain out stx where out: "(arbitrage_output example_spl example_hash example_mev example_pools 0 (0, example_path) :: (_, 'e) result) = Ok (Some out)"
    "mto_sanitized_tx out = Some stx" "mto_profit out = 7"
    using example_output [of 0, where 'e = 'e] by blast
  have "(get_arbitrage_tx_outputs example_spl example_hash example_mev example_pools 0 :: (_, 'e) result) = Ok [out]"
    using out(1) by (simp add: get_arbitrage_tx_outputs_def example_mev_def List.map_filter_simps)
  moreover have "slice_get (stx_signatures example_swap_tx) 0 \<noteq> None"
    by (simp add: example_swap_tx_keys example_watched_tx_def slice_get_def)
  ultimately show ?thesis
    using out example_pool_states [OF assms]
    by (auto simp: log_mev_opportunities_get_max_profit_tx_def max_profit_def Let_def)
qed


theorem chosen_output_is_maximal_witness:
  "\<exists>lt msgs stx outs r. (log_mev_opportunities_get_max_profit_tx example_spl (\<lambda>_. 5) (\<lambda>_. False) example_hash example_mev example_swap_tx 1
      Map.empty lt 0 :: (_, unit) result) = Ok (msgs, Some (stx, 7)) \<and> MM_Opportunities outs \<in> set msgs \<and>
     (log_opportunities (mev_mev_paths example_mev) outs :: (_, unit) result) = Ok r \<and> (\<forall>out \<in> set outs. mto_profit out \<le> 7)"
proof -
  obtain lt where lt: "load_transaction example_env example_swap_tx = Ok lt" using example_swap_loaded by blast
  obtain msgs stx outs where search: "(log_mev_opportunities_get_max_profit_tx example_spl (\<lambda>_. 5) (\<lambda>_. False) example_hash example_mev example_swap_tx 1
      Map.empty lt 0 :: (_, unit) result) = Ok (msgs, Some (stx, 7))" "MM_Opportunities outs \<in> set msgs"
    using example_search [OF lt, where 'e = unit] by blast
  from chosen_output_is_maximal [OF search] search show ?thesis by blast
qed

theorem mev_search_no_panic_witness:
  "\<exists>lt. load_transaction example_env example_swap_tx = Ok lt \<and>
     (log_mev_opportunities_get_max_profit_tx example_spl (\<lambda>_. 5) (\<lambda>_. False) example_hash example_mev example_swap_tx 1
       Map.empty lt 0 :: (_, unit) result) \<noteq> panic"
proof -
  obtain lt where lt: "load_transaction example_env example_swap_tx = Ok lt" using example_swap_loaded by blast
  have "libraries_total example_spl (\<lambda>_. 5) (\<lambda>_. False)"
    by (simp add: libraries_total_def example_address) (simp add: example_spl_def split: list.splits)
  moreover have "opa_program_id (opb_pool pool) \<noteq> kp_pubkey example_keypair" if "example_pools k = Some pool" for k pool
    using that by (auto simp: example_pools_def example_pool_def example_addresses_def example_keypair_def split: if_splits)
  moreover have "kp_sign example_keypair m \<noteq> default_signature" for m
    by (simp add: example_keypair_def default_signature_def)
  moreover have "le_overrides example_env = None" "stx_signatures (example_watched_tx\<lparr>stx_mev_keys := None\<rparr>) \<noteq> []"
    "\<forall>path \<in> set (mev_mev_paths example_mev). length (mp_path path) \<le> 28" "mev_user_authority example_mev = Some example_keypair"
    by (simp_all add: example_env_def example_watched_tx_def example_mev_def example_path_def)
  ultimately show ?thesis
    using mev_search_no_panic [OF lt [unfolded example_swap_tx_def], of lt example_spl "\<lambda>_. 5" "\<lambda>_. False", where 'e = unit]
      example_pool_states [OF lt] lt
    unfolding example_swap_tx_def by auto
qed

theorem mev_reads_locked_witness:
  "43 \<in> set (fst (request_of example_swap_tx)) \<and>
     set (pool_keys_read (mev_pool_keys_of (example_addresses 40))) \<subseteq>
       set (fst (request_of example_swap_tx)) \<union> set (snd (request_of example_swap_tx))"
  using mev_reads_locked [of example_swap_tx example_keys "mev_pool_keys_of (example_addresses 40)"]
  by (simp add: example_swap_tx_keys example_keys_def mev_pool_keys_of_def example_addresses_def)

section \<open>A pool with one token account of ours\<close>

text \<open>When only the source is configured for a pool, the search reads it although no lock is taken for it.\<close>

lemma half_configured_pool_unlocked:
  defines "keys \<equiv> (mev_pool_keys_of (example_addresses 40))\<lparr>mpk_destination := None\<rparr>"
  defines "tx \<equiv> example_watched_tx\<lparr>stx_mev_keys := Some (example_keys\<lparr>mk_pool_keys := [keys]\<rparr>)\<rparr>"
  shows "43 \<in> set (pool_keys_read keys) \<and> 43 \<notin> set (fst (request_of tx)) \<union> set (snd (request_of tx))"
proof -
  let ?mk = "example_keys\<lparr>mk_pool_keys := [keys]\<rparr>"
  have "set (ak_iter (sm_account_keys (stx_message tx))) = {7, 8, 9, 100}"
    by (simp add: tx_def example_watched_tx_def example_message_def ak_iter_def key_segment_iter_def insert_commute)
  moreover have "get_write_accounts ?mk [] = []" "43 \<notin> set (get_readonly_accounts ?mk [])"
    by (simp_all add: get_write_accounts_def get_readonly_accounts_def example_keys_def keys_def mev_pool_keys_of_def
        example_addresses_def spl_token_id_def)
  ultimately have "43 \<notin> set (fst (request_of tx)) \<union> set (snd (request_of tx))"
    using request_of_pools(3) [of tx ?mk] by (auto simp: tx_def)
  then show ?thesis by (simp add: keys_def pool_keys_read_def mev_pool_keys_of_def example_addresses_def)
qed

end
