(* ===== verification/Stake_State.thy ===== *)
theory Stake_State
  imports Vote_Program
begin

text \<open>
  The state of stake accounts (\<^verbatim>\<open>sdk/program/src/stake/state.rs\<close>, \<^verbatim>\<open>stake_history.rs\<close>): lockups,
  authorities, delegations, and how much of a delegation is effective in an epoch. The two loops that
  warm a stake up and cool it down walk through the stake history from epoch to epoch; they end
  because the epoch they look at grows towards the target.
\<close>

section \<open>Errors and constants\<close>

datatype stake_error =
    NoCreditsToRedeem | LockupInForce | AlreadyDeactivated | TooSoonToRedelegate | InsufficientStake
  | MergeTransientStake | MergeMismatch | CustodianMissing | CustodianSignatureMissing

definition stake_error_code :: "stake_error \<Rightarrow> u64" where
  "stake_error_code e =
     (case e of NoCreditsToRedeem \<Rightarrow> 0 | LockupInForce \<Rightarrow> 1 | AlreadyDeactivated \<Rightarrow> 2
      | TooSoonToRedelegate \<Rightarrow> 3 | InsufficientStake \<Rightarrow> 4 | MergeTransientStake \<Rightarrow> 5
      | MergeMismatch \<Rightarrow> 6 | CustodianMissing \<Rightarrow> 7 | CustodianSignatureMissing \<Rightarrow> 8)"

definition instruction_error_of_stake :: "stake_error \<Rightarrow> instruction_error" where
  "instruction_error_of_stake e = instruction_error_of_u64 (stake_error_code e)"

definition MINIMUM_STAKE_DELEGATION :: u64 where "MINIMUM_STAKE_DELEGATION = 1"

definition stake_program_id :: pubkey where
  "stake_program_id = 2999830881511641543315636960581363899061052244619701952529276772483092971520"

definition stake_config_id :: pubkey where
  "stake_config_id = 2999830883595957297425391470815370877654746576576239794379788187849801596928"

definition DEFAULT_WARMUP_COOLDOWN_RATE :: f64 where
  "DEFAULT_WARMUP_COOLDOWN_RATE = F64 False (2 ^ 52) (- 54)"

record stake_config =
  cfg_warmup_cooldown_rate :: f64
  cfg_slash_penalty :: nat

definition default_stake_config :: stake_config where
  "default_stake_config =
     \<lparr>cfg_warmup_cooldown_rate = DEFAULT_WARMUP_COOLDOWN_RATE, cfg_slash_penalty = 5 * 255 div 100\<rparr>"

section \<open>Stake history\<close>

definition MAX_ENTRIES :: usize where "MAX_ENTRIES = 512"

abbreviation default_entry :: stake_history_entry where
  "default_entry \<equiv> \<lparr>effective = 0, activating = 0, deactivating = 0\<rparr>"

definition with_effective :: "u64 \<Rightarrow> stake_history_entry" where
  "with_effective n = default_entry\<lparr>effective := n\<rparr>"

definition with_effective_and_activating :: "u64 \<Rightarrow> u64 \<Rightarrow> stake_history_entry" where
  "with_effective_and_activating n a = default_entry\<lparr>effective := n, activating := a\<rparr>"

definition with_deactivating :: "u64 \<Rightarrow> stake_history_entry" where
  "with_deactivating n = default_entry\<lparr>effective := n, deactivating := n\<rparr>"

definition add_entry :: "stake_history_entry \<Rightarrow> stake_history_entry \<Rightarrow> stake_history_entry" where
  "add_entry a b = \<lparr>effective = saturating_add64 (effective a) (effective b),
     activating = saturating_add64 (activating a) (activating b),
     deactivating = saturating_add64 (deactivating a) (deactivating b)\<rparr>"

text \<open>The entries are sorted with the latest epoch first.\<close>

definition stake_history_get :: "stake_history \<Rightarrow> epoch \<Rightarrow> stake_history_entry option" where
  "stake_history_get history epoch =
     (case binary_search_by (\<lambda>probe. cmp epoch (fst probe)) history of
        Inr i \<Rightarrow> Some (snd (history ! i)) | Inl _ \<Rightarrow> None)"

definition stake_history_add :: "epoch \<Rightarrow> stake_history_entry \<Rightarrow> stake_history \<Rightarrow> stake_history" where
  "stake_history_add epoch entry history =
     take MAX_ENTRIES
       (case binary_search_by (\<lambda>probe. cmp epoch (fst probe)) history of
          Inr i \<Rightarrow> history[i := (epoch, entry)]
        | Inl i \<Rightarrow> take i history @ (epoch, entry) # drop i history)"

section \<open>Lockups and authorities\<close>

datatype stake_authorize = Staker | Withdrawer

record lockup =
  lk_unix_timestamp :: unix_timestamp
  lk_epoch :: epoch
  lk_custodian :: pubkey

definition default_lockup :: lockup where
  "default_lockup = \<lparr>lk_unix_timestamp = 0, lk_epoch = 0, lk_custodian = 0\<rparr>"

definition is_in_force :: "lockup \<Rightarrow> clock \<Rightarrow> pubkey option \<Rightarrow> bool" where
  "is_in_force l clk custodian =
     (if custodian = Some (lk_custodian l) then False
      else lk_unix_timestamp l > clock_unix_timestamp clk \<or> lk_epoch l > clock_epoch clk)"

record authorized =
  au_staker :: pubkey
  au_withdrawer :: pubkey

definition authorized_auto :: "pubkey \<Rightarrow> authorized" where
  "authorized_auto k = \<lparr>au_staker = k, au_withdrawer = k\<rparr>"

definition authorized_check :: "authorized \<Rightarrow> pubkey set \<Rightarrow> stake_authorize \<Rightarrow> (unit, instruction_error) result" where
  "authorized_check a signers stake_auth =
     (case stake_auth of
        Staker \<Rightarrow> guardE (au_staker a \<in> signers) MissingRequiredSignature
      | Withdrawer \<Rightarrow> guardE (au_withdrawer a \<in> signers) MissingRequiredSignature)"

text \<open>The last argument is \<^verbatim>\<open>lockup_custodian_args\<close>.\<close>

definition authorized_authorize ::
  "pubkey set \<Rightarrow> pubkey \<Rightarrow> stake_authorize \<Rightarrow> (lockup \<times> clock \<times> pubkey option) option \<Rightarrow> authorized \<Rightarrow>
     (authorized, instruction_error) result" where
  "authorized_authorize signers new_authorized stake_auth lockup_custodian_args a =
     (case stake_auth of
        Staker \<Rightarrow>
          if au_staker a \<notin> signers \<and> au_withdrawer a \<notin> signers then Err MissingRequiredSignature
          else Ok (a\<lparr>au_staker := new_authorized\<rparr>)
      | Withdrawer \<Rightarrow>
          bindE
            (case lockup_custodian_args of
               None \<Rightarrow> Ok ()
             | Some (l, clk, custodian) \<Rightarrow>
                 if is_in_force l clk None then
                   (case custodian of
                      None \<Rightarrow> Err (instruction_error_of_stake CustodianMissing)
                    | Some k \<Rightarrow>
                        if k \<notin> signers then Err (instruction_error_of_stake CustodianSignatureMissing)
                        else if is_in_force l clk (Some k) then Err (instruction_error_of_stake LockupInForce)
                        else Ok ())
                 else Ok ()) (\<lambda>_.
          bindE (authorized_check a signers stake_auth) (\<lambda>_.
          Ok (a\<lparr>au_withdrawer := new_authorized\<rparr>))))"

record meta =
  rent_exempt_reserve :: u64
  meta_authorized :: authorized
  meta_lockup :: lockup

definition default_meta :: meta where
  "default_meta = \<lparr>rent_exempt_reserve = 0, meta_authorized = \<lparr>au_staker = 0, au_withdrawer = 0\<rparr>, meta_lockup = default_lockup\<rparr>"

definition meta_auto :: "pubkey \<Rightarrow> meta" where
  "meta_auto k = default_meta\<lparr>meta_authorized := authorized_auto k\<rparr>"

record lockup_args =
  la_unix_timestamp :: "unix_timestamp option"
  la_epoch :: "epoch option"
  la_custodian :: "pubkey option"

definition meta_set_lockup :: "lockup_args \<Rightarrow> pubkey set \<Rightarrow> clock \<Rightarrow> meta \<Rightarrow> (meta, instruction_error) result" where
  "meta_set_lockup args signers clk m =
     bindE
       (if is_in_force (meta_lockup m) clk None
        then guardE (lk_custodian (meta_lockup m) \<in> signers) MissingRequiredSignature
        else guardE (au_withdrawer (meta_authorized m) \<in> signers) MissingRequiredSignature) (\<lambda>_.
     let l = meta_lockup m;
         l = (case la_unix_timestamp args of Some t \<Rightarrow> l\<lparr>lk_unix_timestamp := t\<rparr> | None \<Rightarrow> l);
         l = (case la_epoch args of Some e \<Rightarrow> l\<lparr>lk_epoch := e\<rparr> | None \<Rightarrow> l);
         l = (case la_custodian args of Some k \<Rightarrow> l\<lparr>lk_custodian := k\<rparr> | None \<Rightarrow> l)
     in Ok (m\<lparr>meta_lockup := l\<rparr>))"

section \<open>Delegations\<close>

record delegation =
  dg_voter_pubkey :: pubkey
  dg_stake :: u64
  activation_epoch :: epoch
  deactivation_epoch :: epoch
  warmup_cooldown_rate :: f64

definition default_delegation :: delegation where
  "default_delegation = \<lparr>dg_voter_pubkey = 0, dg_stake = 0, activation_epoch = 0, deactivation_epoch = u64_max,
     warmup_cooldown_rate = cfg_warmup_cooldown_rate default_stake_config\<rparr>"

definition delegation_new :: "pubkey \<Rightarrow> u64 \<Rightarrow> epoch \<Rightarrow> f64 \<Rightarrow> delegation" where
  "delegation_new voter_pubkey amount activation rate =
     default_delegation\<lparr>dg_voter_pubkey := voter_pubkey, dg_stake := amount, activation_epoch := activation,
       warmup_cooldown_rate := rate\<rparr>"

definition is_bootstrap :: "delegation \<Rightarrow> bool" where
  "is_bootstrap d = (activation_epoch d = u64_max)"

text \<open>What a stake may take of the growth of the cluster's stake: at least one lamport.\<close>

definition newly_effective_stake :: "delegation \<Rightarrow> stake_history_entry \<Rightarrow> u64 \<Rightarrow> u64" where
  "newly_effective_stake d prev_cluster_stake current_effective_stake =
     (let remaining_activating_stake = wrapping_sub64 (dg_stake d) current_effective_stake;
          weight = f64_div (f64_of_nat remaining_activating_stake) (f64_of_nat (activating prev_cluster_stake));
          newly_effective_cluster_stake = f64_mul (f64_of_nat (effective prev_cluster_stake)) (warmup_cooldown_rate d)
      in max (f64_to_u64 (f64_mul weight newly_effective_cluster_stake)) 1)"

function activate_loop ::
  "delegation \<Rightarrow> stake_history \<Rightarrow> epoch \<Rightarrow> epoch \<Rightarrow> stake_history_entry \<Rightarrow> u64 \<Rightarrow> u64" where
  "activate_loop d history target_epoch prev_epoch prev_cluster_stake current_effective_stake =
     (let current_epoch = prev_epoch + 1 in
      if activating prev_cluster_stake = 0 then current_effective_stake
      else
        let current_effective_stake =
              wrap64 (current_effective_stake + newly_effective_stake d prev_cluster_stake current_effective_stake) in
        if current_effective_stake \<ge> dg_stake d then dg_stake d
        else if current_epoch \<ge> target_epoch \<or> current_epoch \<ge> deactivation_epoch d then current_effective_stake
        else
          (case stake_history_get history current_epoch of
             Some current_cluster_stake \<Rightarrow>
               activate_loop d history target_epoch current_epoch current_cluster_stake current_effective_stake
           | None \<Rightarrow> current_effective_stake))"
  by pat_completeness auto
termination
  by (relation "measure (\<lambda>(d, history, target_epoch, prev_epoch, _). target_epoch - prev_epoch)") auto

declare activate_loop.simps [simp del]

text \<open>The pair of effective and activating stake.\<close>

definition stake_and_activating :: "delegation \<Rightarrow> epoch \<Rightarrow> stake_history option \<Rightarrow> u64 \<times> u64" where
  "stake_and_activating d target_epoch history =
     (let delegated_stake = dg_stake d in
      if is_bootstrap d then (delegated_stake, 0)
      else if activation_epoch d = deactivation_epoch d then (0, 0)
      else if target_epoch = activation_epoch d then (0, delegated_stake)
      else if target_epoch < activation_epoch d then (0, 0)
      else
        (case Option.bind history (\<lambda>history. map_option (\<lambda>entry. (history, entry)) (stake_history_get history (activation_epoch d))) of
           Some (history, prev_cluster_stake) \<Rightarrow>
             let current_effective_stake =
                   activate_loop d history target_epoch (activation_epoch d) prev_cluster_stake 0
             in (current_effective_stake, wrapping_sub64 delegated_stake current_effective_stake)
         | None \<Rightarrow> (delegated_stake, 0)))"

definition newly_not_effective_stake :: "delegation \<Rightarrow> stake_history_entry \<Rightarrow> u64 \<Rightarrow> u64" where
  "newly_not_effective_stake d prev_cluster_stake current_effective_stake =
     (let weight = f64_div (f64_of_nat current_effective_stake) (f64_of_nat (deactivating prev_cluster_stake));
          newly_not_effective_cluster_stake = f64_mul (f64_of_nat (effective prev_cluster_stake)) (warmup_cooldown_rate d)
      in max (f64_to_u64 (f64_mul weight newly_not_effective_cluster_stake)) 1)"

function deactivate_loop ::
  "delegation \<Rightarrow> stake_history \<Rightarrow> epoch \<Rightarrow> epoch \<Rightarrow> stake_history_entry \<Rightarrow> u64 \<Rightarrow> u64" where
  "deactivate_loop d history target_epoch prev_epoch prev_cluster_stake current_effective_stake =
     (let current_epoch = prev_epoch + 1 in
      if deactivating prev_cluster_stake = 0 then current_effective_stake
      else
        let current_effective_stake =
              saturating_sub64 current_effective_stake
                (newly_not_effective_stake d prev_cluster_stake current_effective_stake) in
        if current_effective_stake = 0 then current_effective_stake
        else if current_epoch \<ge> target_epoch then current_effective_stake
        else
          (case stake_history_get history current_epoch of
             Some current_cluster_stake \<Rightarrow>
               deactivate_loop d history target_epoch current_epoch current_cluster_stake current_effective_stake
           | None \<Rightarrow> current_effective_stake))"
  by pat_completeness auto
termination
  by (relation "measure (\<lambda>(d, history, target_epoch, prev_epoch, _). target_epoch - prev_epoch)") auto

declare deactivate_loop.simps [simp del]

definition stake_activating_and_deactivating ::
  "delegation \<Rightarrow> epoch \<Rightarrow> stake_history option \<Rightarrow> stake_history_entry" where
  "stake_activating_and_deactivating d target_epoch history =
     (let (effective_stake, activating_stake) = stake_and_activating d target_epoch history in
      if target_epoch < deactivation_epoch d then
        (if activating_stake = 0 then with_effective effective_stake
         else with_effective_and_activating effective_stake activating_stake)
      else if target_epoch = deactivation_epoch d then with_deactivating effective_stake
      else
        (case Option.bind history (\<lambda>history. map_option (\<lambda>entry. (history, entry)) (stake_history_get history (deactivation_epoch d))) of
           Some (history, prev_cluster_stake) \<Rightarrow>
             with_deactivating
               (deactivate_loop d history target_epoch (deactivation_epoch d) prev_cluster_stake effective_stake)
         | None \<Rightarrow> default_entry))"

definition delegation_stake :: "delegation \<Rightarrow> epoch \<Rightarrow> stake_history option \<Rightarrow> u64" where
  "delegation_stake d epoch history = effective (stake_activating_and_deactivating d epoch history)"

section \<open>Stakes\<close>

record stake =
  st_delegation :: delegation
  credits_observed :: u64

definition stake_stake :: "stake \<Rightarrow> epoch \<Rightarrow> stake_history option \<Rightarrow> u64" where
  "stake_stake st epoch history = delegation_stake (st_delegation st) epoch history"

text \<open>The stake that remains, and the one split off.\<close>

definition stake_split :: "u64 \<Rightarrow> u64 \<Rightarrow> stake \<Rightarrow> (stake \<times> stake, stake_error) result" where
  "stake_split remaining_stake_delta split_stake_amount st =
     (if remaining_stake_delta > dg_stake (st_delegation st) then Err InsufficientStake
      else
        let st = st\<lparr>st_delegation := (st_delegation st)\<lparr>dg_stake := dg_stake (st_delegation st) - remaining_stake_delta\<rparr>\<rparr>
        in Ok (st, st\<lparr>st_delegation := (st_delegation st)\<lparr>dg_stake := split_stake_amount\<rparr>\<rparr>))"

definition stake_deactivate :: "epoch \<Rightarrow> stake \<Rightarrow> (stake, stake_error) result" where
  "stake_deactivate epoch st =
     (if deactivation_epoch (st_delegation st) \<noteq> u64_max then Err AlreadyDeactivated
      else Ok (st\<lparr>st_delegation := (st_delegation st)\<lparr>deactivation_epoch := epoch\<rparr>\<rparr>))"

datatype stake_state = SS_Uninitialized | SS_Initialized meta | SS_Stake meta stake | SS_RewardsPool

fun state_stake :: "stake_state \<Rightarrow> stake option" where
  "state_stake (SS_Stake _ st) = Some st"
| "state_stake _ = None"

fun state_delegation :: "stake_state \<Rightarrow> delegation option" where
  "state_delegation (SS_Stake _ st) = Some (st_delegation st)"
| "state_delegation _ = None"

fun state_authorized :: "stake_state \<Rightarrow> authorized option" where
  "state_authorized (SS_Stake m _) = Some (meta_authorized m)"
| "state_authorized (SS_Initialized m) = Some (meta_authorized m)"
| "state_authorized _ = None"

fun state_meta :: "stake_state \<Rightarrow> meta option" where
  "state_meta (SS_Stake m _) = Some m"
| "state_meta (SS_Initialized m) = Some m"
| "state_meta _ = None"

definition state_lockup :: "stake_state \<Rightarrow> lockup option" where
  "state_lockup s = map_option meta_lockup (state_meta s)"

text \<open>
  \<^verbatim>\<open>size_of::<StakeState>()\<close>: a tag padded to 8 bytes, \<^verbatim>\<open>Meta\<close> with 120 bytes and \<^verbatim>\<open>Stake\<close> with 72.
\<close>

definition STAKE_STATE_SIZE :: usize where "STAKE_STATE_SIZE = 200"

definition stake_rent_exempt_reserve :: "rent \<Rightarrow> u64" where
  "stake_rent_exempt_reserve r = minimum_balance r STAKE_STATE_SIZE"

end
