(* ===== verification/Config_Program.thy ===== *)
theory Config_Program
  imports Program_Interface
begin

text \<open>
  The config program (\<^verbatim>\<open>programs/config/src\<close>): an account holds a list of keys, some marked as signers,
  followed by the data of some configuration. An instruction replaces the bytes of the account, if the
  signers that the account stores have signed. \<^verbatim>\<open>bincode\<close> is a parameter, as everywhere.
\<close>

section \<open>Accounts and instructions\<close>

definition config_program_id :: pubkey where
  "config_program_id = 1368054751858961187610615744159202396902912294346696811737198408170517561344"

type_synonym config_keys = "(pubkey \<times> bool) list"

text \<open>\<open>ce_instruction\<close> is \<^verbatim>\<open>limited_deserialize\<close>, the decoder of instruction data.\<close>

record config_env =
  ce_codec :: "config_keys codec"
  ce_instruction :: "bytes \<Rightarrow> config_keys option"

definition config_keys_serialized_size :: "config_keys codec \<Rightarrow> config_keys \<Rightarrow> usize" where
  "config_keys_serialized_size c keys = length (serialize c keys)"

text \<open>The slice panics when the keys take more bytes than there are.\<close>

definition get_config_data :: "config_keys codec \<Rightarrow> bytes \<Rightarrow> (bytes option, 'e) result" where
  "get_config_data c data =
     (case deserialize c data of
        None \<Rightarrow> Ok None
      | Some keys \<Rightarrow>
          let offset = config_keys_serialized_size c keys
          in if offset \<le> length data then Ok (Some (drop offset data)) else panic)"

definition create_config_account :: "config_keys codec \<Rightarrow> config_keys \<Rightarrow> bytes \<Rightarrow> u64 \<Rightarrow> account_shared_data" where
  "create_config_account c keys config_data lamports =
     account_create lamports (serialize c keys @ config_data) config_program_id False 0"

definition signer_keys :: "config_keys \<Rightarrow> pubkey list" where
  "signer_keys keys = map fst (filter snd keys)"

text \<open>
  The instruction that \<^verbatim>\<open>store\<close> builds: the accounts with their signer flags (all of them writable), and
  the data, the keys followed by the configuration.
\<close>

definition config_store ::
  "config_keys codec \<Rightarrow> pubkey \<Rightarrow> bool \<Rightarrow> config_keys \<Rightarrow> bytes \<Rightarrow> (pubkey \<times> bool) list \<times> bytes" where
  "config_store c config_account_pubkey is_config_signer keys data =
     ((config_account_pubkey, is_config_signer) #
        map (\<lambda>k. (k, True)) (filter (\<lambda>k. k \<noteq> config_account_pubkey) (signer_keys keys)),
      serialize c keys @ data)"

section \<open>The instruction processor\<close>

text \<open>The check of one new signer; the counter is the number of the signers seen so far.\<close>

definition check_new_signer ::
  "keyed_account list \<Rightarrow> keyed_account \<Rightarrow> config_keys \<Rightarrow> pubkey \<Rightarrow> nat \<Rightarrow> (nat, instruction_error) result" where
  "check_new_signer keyed_accounts config_keyed_account current_keys signer counter =
     (let counter = counter + 1 in
      if signer \<noteq> unsigned_key config_keyed_account then
        bindE (map_err (\<lambda>_. MissingRequiredSignature) (keyed_account_at_index keyed_accounts (counter + 1)))
          (\<lambda>signer_account.
        case signer_key signer_account of
          None \<Rightarrow> Err MissingRequiredSignature
        | Some k \<Rightarrow>
            if k \<noteq> signer then Err MissingRequiredSignature
            else if current_keys \<noteq> [] \<and> signer \<notin> set (signer_keys current_keys)
            then Err MissingRequiredSignature
            else Ok counter)
      else if signer_key config_keyed_account = None then Err MissingRequiredSignature
      else Ok counter)"

definition config_process_instruction ::
  "config_env \<Rightarrow> usize \<Rightarrow> bytes \<Rightarrow> invoke_context \<Rightarrow> store \<Rightarrow> (store, instruction_error) result" where
  "config_process_instruction env first data ic s =
     (let kas = ic_keyed_accounts ic in
      bindE (ok_or (ce_instruction env data) InvalidInstructionData) (\<lambda>key_list.
      bindE (keyed_account_at_index kas first) (\<lambda>config_keyed_account.
      if ka_owner s config_keyed_account \<noteq> config_program_id then Err InvalidAccountOwner
      else
        bindE (ok_or (deserialize (ce_codec env) (acc_data (account_ref s config_keyed_account))) InvalidAccountData)
          (\<lambda>current_data.
        let current_signer_keys = signer_keys current_data in
        if current_signer_keys = [] \<and> signer_key config_keyed_account = None then Err MissingRequiredSignature
        else
          bindE (foldE (check_new_signer kas config_keyed_account current_data) (signer_keys key_list) 0) (\<lambda>counter.
          if is_active (ic_feature_set ic) dedupe_config_program_signers \<and>
            length (remdups key_list) \<noteq> length key_list then Err InvalidArgument
          else if length current_signer_keys > counter then Err MissingRequiredSignature
          else if ka_data_len s config_keyed_account < length data then Err InvalidInstructionData
          else
            account_ref_mut config_keyed_account
              (\<lambda>a. Ok (a\<lparr>acc_data := data @ drop (length data) (acc_data a)\<rparr>)) s)))))"

section \<open>Properties\<close>

lemma config_process_instruction_conserving:
  assumes "valid_accounts s (ic_keyed_accounts ic)"
  shows "conserving s (config_process_instruction env first data ic s)"
  unfolding config_process_instruction_def Let_def
  by (intro conserving_intros conserving_account_ref_mut keyed_account_at_valid [OF assms]) auto

interpretation config_native: native_program "config_process_instruction env first" for env first
  by unfold_locales (rule config_process_instruction_conserving)

text \<open>What the loop over the new signers establishes.\<close>

definition new_signer_ok :: "keyed_account list \<Rightarrow> keyed_account \<Rightarrow> config_keys \<Rightarrow> pubkey \<Rightarrow> bool" where
  "new_signer_ok kas config_ka current k \<longleftrightarrow>
     (if k = unsigned_key config_ka then is_signer config_ka
      else k \<in> get_signers kas \<and> (current = [] \<or> k \<in> set (signer_keys current)))"

lemma check_new_signer_Ok:
  assumes "check_new_signer kas ka current k n = Ok n'"
  shows "n' = n + 1 \<and> new_signer_ok kas ka current k"
  using assms
  by (force simp: check_new_signer_def new_signer_ok_def Let_def signer_key_def get_signers_def result_simps
      keyed_account_at_index_def List.map_filter_def split: if_splits option.splits)

lemma check_new_signers_Ok:
  "foldE (check_new_signer kas ka current) ks n = Ok n' \<Longrightarrow>
   n' = n + length ks \<and> (\<forall>k \<in> set ks. new_signer_ok kas ka current k)"
proof (induction ks arbitrary: n)
  case (Cons k ks)
  then obtain n1 where n1: "check_new_signer kas ka current k n = Ok n1"
    "foldE (check_new_signer kas ka current) ks n1 = Ok n'"
    by (auto simp: result_simps)
  then show ?case using Cons.IH [OF n1(2)] check_new_signer_Ok [OF n1(1)] by simp
qed simp

lemma distinct_signer_keys: "distinct keys \<Longrightarrow> distinct (signer_keys keys)"
  by (auto simp: signer_keys_def distinct_map inj_on_def)

text \<open>Counting: the new signers other than the account itself are stored signers.\<close>

lemma missing_signers:
  assumes "distinct new" "\<forall>k \<in> set new. new_signer_ok kas ka current k"
    and "length (signer_keys current) \<le> length new" "signer_keys current \<noteq> []"
  shows "set (signer_keys current) \<subseteq> get_signers kas \<or>
    is_signer ka \<and> card (set (signer_keys current) - get_signers kas) \<le> 1"
proof -
  let ?C = "set (signer_keys current)" and ?N = "set new - {unsigned_key ka}"
  have current: "current \<noteq> []" using assms(4) by (auto simp: signer_keys_def)
  have N: "?N \<subseteq> ?C \<inter> get_signers kas"
    using assms(2) current by (auto simp: new_signer_ok_def split: if_splits)
  have C: "card ?C \<le> card (set new)"
    using assms(3) card_length [of "signer_keys current"] distinct_card [OF assms(1)] by linarith
  have "card (?C - get_signers kas) \<le> card (?C - ?N)"
    by (rule card_mono) (use N in auto)
  also have "card (?C - ?N) = card ?C - card ?N"
    by (rule card_Diff_subset) (use N in auto)
  finally have le: "card (?C - get_signers kas) \<le> card ?C - card ?N" .
  show ?thesis
  proof (cases "unsigned_key ka \<in> set new")
    case True
    then have "is_signer ka" using assms(2) by (auto simp: new_signer_ok_def)
    moreover have "card (set new) = Suc (card ?N)" using True by (intro card.remove) simp_all
    ultimately show ?thesis using le C by linarith
  next
    case False
    then have "card ?N = card (set new)" by simp
    then have "card (?C - get_signers kas) = 0" using le C by linarith
    then show ?thesis by simp
  qed
qed

text \<open>
  C40. An update of a config account is signed: with duplicate keys refused, a successful instruction writes
  its data over the beginning of that one account, and either all the signers that the account stored have
  signed (the account's own key if it stored none), or the account's own key has, and at most one of the
  stored signers has not.
\<close>

theorem config_update_signed:
  assumes "config_process_instruction env first data ic s = Ok s'"
    and "is_active (ic_feature_set ic) dedupe_config_program_signers"
    and "keyed_account_at_index (ic_keyed_accounts ic) first = Ok ka"
    and "deserialize (ce_codec env) (acc_data (account_ref s ka)) = Some current"
  shows "acc_owner (account_ref s ka) = config_program_id \<and>
    s' = s[ka_account ka := (account_ref s ka)
      \<lparr>acc_data := data @ drop (length data) (acc_data (account_ref s ka))\<rparr>] \<and>
    (if signer_keys current = [] then is_signer ka
     else set (signer_keys current) \<subseteq> get_signers (ic_keyed_accounts ic) \<or>
       is_signer ka \<and> card (set (signer_keys current) - get_signers (ic_keyed_accounts ic)) \<le> 1)"
proof -
  obtain keys n where keys:
    "foldE (check_new_signer (ic_keyed_accounts ic) ka current) (signer_keys keys) 0 = Ok n"
    "length (remdups keys) = length keys" "length (signer_keys current) \<le> n"
    "signer_keys current \<noteq> [] \<or> signer_key ka \<noteq> None" "ka_owner s ka = config_program_id"
    "s' = s[ka_account ka := (account_ref s ka)
      \<lparr>acc_data := data @ drop (length data) (acc_data (account_ref s ka))\<rparr>]"
    using assms
    by (auto simp: config_process_instruction_def Let_def result_simps account_ref_mut_def split: if_splits)
  have "distinct (signer_keys keys)"
    using keys(2) by (intro distinct_signer_keys) (simp add: length_remdups_eq)
  moreover have "length (signer_keys current) \<le> length (signer_keys keys)"
    "\<forall>k \<in> set (signer_keys keys). new_signer_ok (ic_keyed_accounts ic) ka current k"
    using check_new_signers_Ok [OF keys(1)] keys(3) by auto
  ultimately show ?thesis
    using missing_signers [of "signer_keys keys" "ic_keyed_accounts ic" ka current] keys(4-6)
    by (auto simp: ka_owner_def signer_key_def split: if_splits)
qed

section \<open>Examples\<close>

text \<open>
  An update of a config account with the key 10. The context runs the program on that account and the given
  further ones; the account of the program itself comes first.
\<close>

definition example_config_account :: account_shared_data where
  "example_config_account = account_create 1 [0, 7] config_program_id False 0"

definition example_config_env :: "config_keys \<Rightarrow> config_keys \<Rightarrow> config_env" where
  "example_config_env stored new =
     \<lparr>ce_codec = table_codec [stored, new], ce_instruction = deserialize (table_codec [stored, new])\<rparr>"

definition example_config_context :: "(pubkey \<times> bool) list \<Rightarrow> invoke_context" where
  "example_config_context accounts =
     \<lparr>ic_keyed_accounts = \<lparr>is_signer = False, is_writable = False, unsigned_key = config_program_id, ka_account = 0\<rparr> #
        map (\<lambda>(i, k, signer). \<lparr>is_signer = signer, is_writable = True, unsigned_key = k, ka_account = i\<rparr>)
          (List.enumerate 1 accounts),
      ic_sysvar_cache = default_sysvar_cache, ic_feature_set = [(dedupe_config_program_signers, 0)],
      ic_blockhash = 0, ic_lamports_per_signature = 0\<rparr>"

definition example_config_store :: "nat \<Rightarrow> store" where
  "example_config_store n =
     account_create 1 [] 0 True 0 # example_config_account # replicate n (account_create 1 [] 0 False 0)"

definition example_config_data :: "config_keys \<Rightarrow> config_keys \<Rightarrow> bytes" where
  "example_config_data stored new = serialize (table_codec [stored, new]) new @ [9]"

definition example_update ::
  "config_keys \<Rightarrow> config_keys \<Rightarrow> (pubkey \<times> bool) list \<Rightarrow> (store, instruction_error) result" where
  "example_update stored new accounts =
     config_process_instruction (example_config_env stored new) 1 (example_config_data stored new)
       (example_config_context accounts) (example_config_store (length accounts))"

lemma signer_keys_simps [simp]:
  "signer_keys [] = []" "signer_keys ((k, b) # ks) = (if b then k # signer_keys ks else signer_keys ks)"
  by (simp_all add: signer_keys_def)

lemmas config_example_defs = example_update_def example_config_env_def example_config_account_def
  example_config_context_def example_config_store_def example_config_data_def table_codec_def account_create_def
  config_process_instruction_def keyed_account_at_index_def ka_owner_def account_ref_def account_ref_mut_def
  ka_data_len_def check_new_signer_def signer_key_def is_active_def ok_or_def map_err_def

text \<open>With the signatures of both stored signers, 20 and 30, the update goes through.\<close>

lemma example_update_signed:
  "example_update [(20, True), (30, True)] [(20, True), (30, True)] [(10, False), (20, True), (30, True)] =
     Ok ((example_config_store 3)[1 := example_config_account\<lparr>acc_data := [0, 9]\<rparr>])"
  by (simp add: config_example_defs numeral_3_eq_3)

theorem config_update_signed_witness:
  "set (signer_keys [(20, True), (30, True)]) \<subseteq>
     get_signers (ic_keyed_accounts (example_config_context [(10, False), (20, True), (30, True)]))"
proof -
  let ?keys = "[(20, True), (30, True)] :: config_keys"
  let ?ic = "example_config_context [(10, False), (20, True), (30, True)]"
  let ?ka = "\<lparr>is_signer = False, is_writable = True, unsigned_key = 10, ka_account = 1\<rparr>"
  have "config_process_instruction (example_config_env ?keys ?keys) 1 (example_config_data ?keys ?keys) ?ic
      (example_config_store 3) = Ok ((example_config_store 3)[1 := example_config_account\<lparr>acc_data := [0, 9]\<rparr>])"
    using example_update_signed by (simp add: example_update_def numeral_3_eq_3)
  moreover have "is_active (ic_feature_set ?ic) dedupe_config_program_signers"
    "keyed_account_at_index (ic_keyed_accounts ?ic) 1 = Ok ?ka"
    "deserialize (ce_codec (example_config_env ?keys ?keys)) (acc_data (account_ref (example_config_store 3) ?ka)) = Some ?keys"
    by (simp_all add: config_example_defs)
  ultimately show ?thesis
    using config_update_signed [of "example_config_env ?keys ?keys" 1 "example_config_data ?keys ?keys" ?ic
        "example_config_store 3" _ ?ka ?keys]
    by simp
qed

text \<open>
  The check for signers that are not present in the update counts the account's own key as one of them: with
  it, an update goes through that the stored signer 30 has not signed, and drops that signer.
\<close>

theorem config_signer_dropped:
  "is_ok (example_update [(20, True), (30, True)] [(10, True), (20, True)] [(10, True), (40, False), (20, True)])"
  by (simp add: config_example_defs is_ok_def)

text \<open>
  The program counts the account's own key among the positions of the signers, the builder of the instruction leaves it
  out: an instruction that stores the account's own key before another signer is refused with all its signatures.
\<close>

theorem config_store_own_key_refused:
  "example_update [] [(10, True), (20, True)] (fst (config_store c 10 True [(10, True), (20, True)] data)) =
     Err MissingRequiredSignature"
  by (simp add: config_example_defs config_store_def)

end
