(* ===== verification/Stake_Program.thy ===== *)
theory Stake_Program
  imports Stake_State Config_Program
begin

text \<open>
  The stake program (\<^verbatim>\<open>programs/stake/src\<close>): the operations on stake accounts, the merging of stakes,
  the rewards that the runtime pays at the end of an epoch, and the instruction processor. The tracer of
  the inflation calculation only observes and is left out; so are the log messages.
\<close>

section \<open>Delegating\<close>

type_synonym stake_codec = "stake_state codec"

definition checked_add :: "u64 \<Rightarrow> u64 \<Rightarrow> (u64, instruction_error) result" where
  "checked_add a b = ok_or (checked_add64 a b) InsufficientFunds"

definition redelegate ::
  "u64 \<Rightarrow> pubkey \<Rightarrow> vote_state \<Rightarrow> clock \<Rightarrow> stake_history \<Rightarrow> stake_config \<Rightarrow> stake \<Rightarrow> (stake, stake_error) result" where
  "redelegate stake_lamports voter_pubkey vs clk history config st =
     (if stake_stake st (clock_epoch clk) (Some history) \<noteq> 0 then
        if dg_voter_pubkey (st_delegation st) = voter_pubkey \<and> clock_epoch clk = deactivation_epoch (st_delegation st)
        then Ok (st\<lparr>st_delegation := (st_delegation st)\<lparr>deactivation_epoch := u64_max\<rparr>\<rparr>)
        else Err TooSoonToRedelegate
      else
        Ok \<lparr>st_delegation = (st_delegation st)\<lparr>dg_stake := stake_lamports, activation_epoch := clock_epoch clk,
              deactivation_epoch := u64_max, dg_voter_pubkey := voter_pubkey,
              warmup_cooldown_rate := cfg_warmup_cooldown_rate config\<rparr>,
            credits_observed = credits vs\<rparr>)"

definition new_stake :: "u64 \<Rightarrow> pubkey \<Rightarrow> vote_state \<Rightarrow> epoch \<Rightarrow> stake_config \<Rightarrow> stake" where
  "new_stake amount voter_pubkey vs activation config =
     \<lparr>st_delegation = delegation_new voter_pubkey amount activation (cfg_warmup_cooldown_rate config),
      credits_observed = credits vs\<rparr>"

section \<open>Rewards\<close>

record point_value =
  pv_rewards :: u64
  pv_points :: u128

definition wrap128 :: "nat \<Rightarrow> u128" where
  "wrap128 n = n mod 2 ^ 128"

text \<open>One epoch of the credits of the vote account, on the points and the credits seen so far.\<close>

definition points_step ::
  "stake \<Rightarrow> stake_history option \<Rightarrow> epoch \<times> u64 \<times> u64 \<Rightarrow> u128 \<times> u64 \<Rightarrow> u128 \<times> u64" where
  "points_step st history = (\<lambda>(epoch, final_epoch_credits, initial_epoch_credits) (points, new_credits_observed).
     let credits_in_stake = credits_observed st;
         stake_amount = delegation_stake (st_delegation st) epoch history;
         earned_credits =
           (if credits_in_stake < initial_epoch_credits then wrapping_sub64 final_epoch_credits initial_epoch_credits
            else if credits_in_stake < final_epoch_credits then wrapping_sub64 final_epoch_credits new_credits_observed
            else 0);
         new_credits_observed = max new_credits_observed final_epoch_credits;
         earned_points = wrap128 (stake_amount * earned_credits)
     in (wrap128 (points + earned_points), new_credits_observed))"

definition calculate_stake_points_and_credits ::
  "stake \<Rightarrow> vote_state \<Rightarrow> stake_history option \<Rightarrow> u128 \<times> u64" where
  "calculate_stake_points_and_credits st vs history =
     (let credits_in_stake = credits_observed st; credits_in_vote = credits vs in
      if credits_in_vote \<le> credits_in_stake then (0, credits_in_stake)
      else fold (points_step st history) (epoch_credits vs) (0, credits_in_stake))"

definition calculate_stake_points :: "stake \<Rightarrow> vote_state \<Rightarrow> stake_history option \<Rightarrow> u128" where
  "calculate_stake_points st vs history = fst (calculate_stake_points_and_credits st vs history)"

text \<open>The unwraps of the reward arithmetic panic; the result is staker reward, voter reward and credits.\<close>

definition calculate_stake_rewards ::
  "epoch \<Rightarrow> stake \<Rightarrow> point_value \<Rightarrow> vote_state \<Rightarrow> stake_history option \<Rightarrow> ((u64 \<times> u64 \<times> u64) option, 'e) result" where
  "calculate_stake_rewards rewarded_epoch st pv vs history =
     (let (points, new_credits) = calculate_stake_points_and_credits st vs history in
      if pv_rewards pv = 0 \<or> activation_epoch (st_delegation st) = rewarded_epoch then Ok (Some (0, 0, new_credits))
      else if points = 0 then Ok None
      else if pv_points pv = 0 then Ok None
      else
        bindE (unwrap (checked_mul128 points (pv_rewards pv))) (\<lambda>product.
        let rewards = product div pv_points pv in
        bindE (unwrap (if rewards \<le> u64_max then Some rewards else None)) (\<lambda>rewards.
        if rewards = 0 then Ok None
        else
          let (voter_rewards, staker_rewards, is_split) = commission_split vs rewards in
          if (voter_rewards = 0 \<or> staker_rewards = 0) \<and> is_split then Ok None
          else Ok (Some (staker_rewards, voter_rewards, new_credits)))))"

definition redeem_stake_rewards ::
  "epoch \<Rightarrow> point_value \<Rightarrow> vote_state \<Rightarrow> stake_history option \<Rightarrow> stake \<Rightarrow> ((stake \<times> u64 \<times> u64) option, 'e) result" where
  "redeem_stake_rewards rewarded_epoch pv vs history st =
     bindE (calculate_stake_rewards rewarded_epoch st pv vs history) (\<lambda>r.
     Ok (map_option (\<lambda>(stakers_reward, voters_reward, new_credits).
       (\<lparr>st_delegation = (st_delegation st)\<lparr>dg_stake := wrap64 (dg_stake (st_delegation st) + stakers_reward)\<rparr>,
         credits_observed = new_credits\<rparr>, stakers_reward, voters_reward)) r))"

definition redeem_rewards ::
  "stake_codec \<Rightarrow> epoch \<Rightarrow> stake_state \<Rightarrow> vote_state \<Rightarrow> point_value \<Rightarrow> stake_history option \<Rightarrow> account_shared_data \<Rightarrow>
     (account_shared_data \<times> u64 \<times> u64, instruction_error) result" where
  "redeem_rewards c rewarded_epoch state vs pv history account =
     (case state of
        SS_Stake m st \<Rightarrow>
          bindE (redeem_stake_rewards rewarded_epoch pv vs history st) (\<lambda>r.
          case r of
            Some (st, stakers_reward, voters_reward) \<Rightarrow>
              bindE (map_err instruction_error_of_lamports (checked_add_lamports stakers_reward account)) (\<lambda>account.
              bindE (account_set_state c (SS_Stake m st) account) (\<lambda>account.
              Ok (account, stakers_reward, voters_reward)))
          | None \<Rightarrow> Err (instruction_error_of_stake NoCreditsToRedeem))
      | _ \<Rightarrow> Err InvalidAccountData)"

definition calculate_points :: "stake_state \<Rightarrow> vote_state \<Rightarrow> stake_history option \<Rightarrow> (u128, instruction_error) result" where
  "calculate_points state vs history =
     (case state of SS_Stake _ st \<Rightarrow> Ok (calculate_stake_points st vs history) | _ \<Rightarrow> Err InvalidAccountData)"

definition new_stake_history_entry :: "epoch \<Rightarrow> delegation list \<Rightarrow> stake_history option \<Rightarrow> stake_history_entry" where
  "new_stake_history_entry epoch stakes history =
     fold (\<lambda>d sum. add_entry sum (stake_activating_and_deactivating d epoch history)) stakes default_entry"

section \<open>Operations on stake accounts\<close>

definition stake_initialize ::
  "stake_codec \<Rightarrow> keyed_account \<Rightarrow> authorized \<Rightarrow> lockup \<Rightarrow> rent \<Rightarrow> store \<Rightarrow> (store, instruction_error) result" where
  "stake_initialize c me auth l r s =
     (if ka_data_len s me \<noteq> STAKE_STATE_SIZE then Err InvalidAccountData
      else
        bindE (ka_state c s me) (\<lambda>state.
        case state of
          SS_Uninitialized \<Rightarrow>
            let reserve = minimum_balance r (ka_data_len s me);
                min_balance = wrap64 (reserve + MINIMUM_STAKE_DELEGATION) in
            if ka_lamports s me \<ge> min_balance then
              ka_set_state c me (SS_Initialized \<lparr>rent_exempt_reserve = reserve, meta_authorized = auth, meta_lockup = l\<rparr>) s
            else Err InsufficientFunds
        | _ \<Rightarrow> Err InvalidAccountData))"

definition authorize_meta ::
  "pubkey set \<Rightarrow> pubkey \<Rightarrow> stake_authorize \<Rightarrow> bool \<Rightarrow> clock \<Rightarrow> pubkey option \<Rightarrow> meta \<Rightarrow> (meta, instruction_error) result" where
  "authorize_meta signers new_authority stake_auth require_custodian clk custodian m =
     bindE (authorized_authorize signers new_authority stake_auth
       (if require_custodian then Some (meta_lockup m, clk, custodian) else None) (meta_authorized m)) (\<lambda>a.
     Ok (m\<lparr>meta_authorized := a\<rparr>))"

definition stake_account_authorize ::
  "stake_codec \<Rightarrow> keyed_account \<Rightarrow> pubkey set \<Rightarrow> pubkey \<Rightarrow> stake_authorize \<Rightarrow> bool \<Rightarrow> clock \<Rightarrow> pubkey option \<Rightarrow>
     store \<Rightarrow> (store, instruction_error) result" where
  "stake_account_authorize c me signers new_authority stake_auth require_custodian clk custodian s =
     bindE (ka_state c s me) (\<lambda>state.
     case state of
       SS_Stake m st \<Rightarrow>
         bindE (authorize_meta signers new_authority stake_auth require_custodian clk custodian m) (\<lambda>m.
         ka_set_state c me (SS_Stake m st) s)
     | SS_Initialized m \<Rightarrow>
         bindE (authorize_meta signers new_authority stake_auth require_custodian clk custodian m) (\<lambda>m.
         ka_set_state c me (SS_Initialized m) s)
     | _ \<Rightarrow> Err InvalidAccountData)"

definition stake_authorize_with_seed ::
  "hash_function \<Rightarrow> stake_codec \<Rightarrow> keyed_account \<Rightarrow> keyed_account \<Rightarrow> bytes \<Rightarrow> pubkey \<Rightarrow> pubkey \<Rightarrow> stake_authorize \<Rightarrow> bool \<Rightarrow>
     clock \<Rightarrow> pubkey option \<Rightarrow> store \<Rightarrow> (store, instruction_error) result" where
  "stake_authorize_with_seed hashv c me authority_base seed owner new_authority stake_auth require_custodian clk custodian s =
     bindE (case signer_key authority_base of
              Some base_pubkey \<Rightarrow>
                bindE (map_err instruction_error_of_pubkey (create_with_seed hashv base_pubkey seed owner)) (\<lambda>k. Ok {k})
            | None \<Rightarrow> Ok {}) (\<lambda>signers.
     stake_account_authorize c me signers new_authority stake_auth require_custodian clk custodian s)"

definition validate_delegated_amount :: "store \<Rightarrow> keyed_account \<Rightarrow> meta \<Rightarrow> u64" where
  "validate_delegated_amount s me m = saturating_sub64 (ka_lamports s me) (rent_exempt_reserve m)"

definition stake_delegate ::
  "stake_codec \<Rightarrow> vote_codec \<Rightarrow> keyed_account \<Rightarrow> keyed_account \<Rightarrow> clock \<Rightarrow> stake_history \<Rightarrow> stake_config \<Rightarrow> pubkey set \<Rightarrow>
     store \<Rightarrow> (store, instruction_error) result" where
  "stake_delegate c vc me vote_account clk history config signers s =
     (if ka_owner s vote_account \<noteq> vote_program_id then Err IncorrectProgramId
      else
        bindE (ka_state c s me) (\<lambda>state.
        case state of
          SS_Initialized m \<Rightarrow>
            bindE (authorized_check (meta_authorized m) signers Staker) (\<lambda>_.
            let stake_amount = validate_delegated_amount s me m in
            bindE (ka_state vc s vote_account) (\<lambda>versions.
            let st = new_stake stake_amount (unsigned_key vote_account) (convert_to_current versions) (clock_epoch clk) config
            in ka_set_state c me (SS_Stake m st) s))
        | SS_Stake m st \<Rightarrow>
            bindE (authorized_check (meta_authorized m) signers Staker) (\<lambda>_.
            let stake_amount = validate_delegated_amount s me m in
            bindE (ka_state vc s vote_account) (\<lambda>versions.
            bindE (map_err instruction_error_of_stake
              (redelegate stake_amount (unsigned_key vote_account) (convert_to_current versions) clk history config st)) (\<lambda>st.
            ka_set_state c me (SS_Stake m st) s)))
        | _ \<Rightarrow> Err InvalidAccountData))"

definition stake_account_deactivate ::
  "stake_codec \<Rightarrow> keyed_account \<Rightarrow> clock \<Rightarrow> pubkey set \<Rightarrow> store \<Rightarrow> (store, instruction_error) result" where
  "stake_account_deactivate c me clk signers s =
     bindE (ka_state c s me) (\<lambda>state.
     case state of
       SS_Stake m st \<Rightarrow>
         bindE (authorized_check (meta_authorized m) signers Staker) (\<lambda>_.
         bindE (map_err instruction_error_of_stake (stake_deactivate (clock_epoch clk) st)) (\<lambda>st.
         ka_set_state c me (SS_Stake m st) s))
     | _ \<Rightarrow> Err InvalidAccountData)"

definition stake_set_lockup ::
  "stake_codec \<Rightarrow> keyed_account \<Rightarrow> lockup_args \<Rightarrow> pubkey set \<Rightarrow> clock \<Rightarrow> store \<Rightarrow> (store, instruction_error) result" where
  "stake_set_lockup c me args signers clk s =
     bindE (ka_state c s me) (\<lambda>state.
     case state of
       SS_Initialized m \<Rightarrow>
         bindE (meta_set_lockup args signers clk m) (\<lambda>m. ka_set_state c me (SS_Initialized m) s)
     | SS_Stake m st \<Rightarrow>
         bindE (meta_set_lockup args signers clk m) (\<lambda>m. ka_set_state c me (SS_Stake m st) s)
     | _ \<Rightarrow> Err InvalidAccountData)"

subsection \<open>Splitting\<close>

definition calculate_split_rent_exempt_reserve :: "u64 \<Rightarrow> u64 \<Rightarrow> u64 \<Rightarrow> u64" where
  "calculate_split_rent_exempt_reserve source_rent_exempt_reserve source_data_len split_data_len =
     (let lamports_per_byte_year = source_rent_exempt_reserve div wrap64 (source_data_len + ACCOUNT_STORAGE_OVERHEAD)
      in wrap64 (lamports_per_byte_year * wrap64 (split_data_len + ACCOUNT_STORAGE_OVERHEAD)))"

record validated_split_info =
  source_remaining_balance :: u64
  destination_rent_exempt_reserve :: u64

definition validate_split_amount ::
  "store \<Rightarrow> keyed_account \<Rightarrow> keyed_account \<Rightarrow> u64 \<Rightarrow> meta \<Rightarrow> stake option \<Rightarrow>
     (validated_split_info, instruction_error) result" where
  "validate_split_amount s source_account destination_account lamports source_meta source_stake =
     (let source_lamports = ka_lamports s source_account; destination_lamports = ka_lamports s destination_account in
      if lamports = 0 then Err InsufficientFunds
      else if lamports > source_lamports then Err InsufficientFunds
      else
        let source_minimum_balance = saturating_add64 (rent_exempt_reserve source_meta) MINIMUM_STAKE_DELEGATION;
            source_remaining_balance = saturating_sub64 source_lamports lamports in
        if source_remaining_balance \<noteq> 0 \<and> source_remaining_balance < source_minimum_balance then Err InsufficientFunds
        else
          let destination_rent_exempt_reserve = calculate_split_rent_exempt_reserve (rent_exempt_reserve source_meta)
                (ka_data_len s source_account) (ka_data_len s destination_account);
              destination_minimum_balance = saturating_add64 destination_rent_exempt_reserve MINIMUM_STAKE_DELEGATION;
              destination_balance_deficit = saturating_sub64 destination_minimum_balance destination_lamports in
          if lamports < destination_balance_deficit then Err InsufficientFunds
          else if source_stake \<noteq> None \<and> lamports < MINIMUM_STAKE_DELEGATION then Err InsufficientFunds
          else Ok \<lparr>source_remaining_balance = source_remaining_balance,
                   destination_rent_exempt_reserve = destination_rent_exempt_reserve\<rparr>)"

text \<open>What the source gives up and what the new stake gets.\<close>

definition split_amounts :: "store \<Rightarrow> keyed_account \<Rightarrow> u64 \<Rightarrow> meta \<Rightarrow> validated_split_info \<Rightarrow> u64 \<times> u64" where
  "split_amounts s split lamports m info =
     (if source_remaining_balance info = 0 then
        let remaining_stake_delta = saturating_sub64 lamports (rent_exempt_reserve m)
        in (remaining_stake_delta, remaining_stake_delta)
      else
        (lamports,
         saturating_sub64 lamports
           (saturating_sub64 (destination_rent_exempt_reserve info) (ka_lamports s split))))"

definition split_states ::
  "stake_codec \<Rightarrow> keyed_account \<Rightarrow> u64 \<Rightarrow> keyed_account \<Rightarrow> pubkey set \<Rightarrow> store \<Rightarrow> (store, instruction_error) result" where
  "split_states c me lamports split signers s =
     bindE (ka_state c s me) (\<lambda>state.
     case state of
       SS_Stake m st \<Rightarrow>
         bindE (authorized_check (meta_authorized m) signers Staker) (\<lambda>_.
         bindE (validate_split_amount s me split lamports m (Some st)) (\<lambda>info.
         let (remaining_stake_delta, split_stake_amount) = split_amounts s split lamports m info in
         bindE (map_err instruction_error_of_stake (stake_split remaining_stake_delta split_stake_amount st))
           (\<lambda>(st, split_stake).
         let split_meta = m\<lparr>rent_exempt_reserve := destination_rent_exempt_reserve info\<rparr> in
         bindE (ka_set_state c me (SS_Stake m st) s) (\<lambda>s.
         ka_set_state c split (SS_Stake split_meta split_stake) s))))
     | SS_Initialized m \<Rightarrow>
         bindE (authorized_check (meta_authorized m) signers Staker) (\<lambda>_.
         bindE (validate_split_amount s me split lamports m None) (\<lambda>info.
         let split_meta = m\<lparr>rent_exempt_reserve := destination_rent_exempt_reserve info\<rparr> in
         ka_set_state c split (SS_Initialized split_meta) s))
     | SS_Uninitialized \<Rightarrow> if unsigned_key me \<notin> signers then Err MissingRequiredSignature else Ok s
     | SS_RewardsPool \<Rightarrow> Err InvalidAccountData)"

text \<open>An account that gives all its lamports away is reset.\<close>

definition deinitialize_if_drained ::
  "stake_codec \<Rightarrow> keyed_account \<Rightarrow> u64 \<Rightarrow> store \<Rightarrow> (store, instruction_error) result" where
  "deinitialize_if_drained c me lamports s =
     (if lamports = ka_lamports s me then ka_set_state c me SS_Uninitialized s else Ok s)"

definition stake_account_split ::
  "stake_codec \<Rightarrow> keyed_account \<Rightarrow> u64 \<Rightarrow> keyed_account \<Rightarrow> pubkey set \<Rightarrow> store \<Rightarrow> (store, instruction_error) result" where
  "stake_account_split c me lamports split signers s =
     (if ka_owner s split \<noteq> stake_program_id then Err IncorrectProgramId
      else if ka_data_len s split \<noteq> STAKE_STATE_SIZE then Err InvalidAccountData
      else
        bindE (ka_state c s split) (\<lambda>split_state.
        if split_state \<noteq> SS_Uninitialized then Err InvalidAccountData
        else if lamports > ka_lamports s me then Err InsufficientFunds
        else
          bindE (split_states c me lamports split signers s) (\<lambda>s.
          bindE (deinitialize_if_drained c me lamports s) (\<lambda>s.
          bindE (ka_checked_add_lamports split lamports s) (\<lambda>s.
          ka_checked_sub_lamports me lamports s)))))"

subsection \<open>Merging\<close>

datatype merge_kind = MK_Inactive meta u64 | MK_ActivationEpoch meta stake | MK_FullyActive meta stake

fun merge_kind_meta :: "merge_kind \<Rightarrow> meta" where
  "merge_kind_meta (MK_Inactive m _) = m"
| "merge_kind_meta (MK_ActivationEpoch m _) = m"
| "merge_kind_meta (MK_FullyActive m _) = m"

fun merge_kind_active_stake :: "merge_kind \<Rightarrow> stake option" where
  "merge_kind_active_stake (MK_Inactive _ _) = None"
| "merge_kind_active_stake (MK_ActivationEpoch _ st) = Some st"
| "merge_kind_active_stake (MK_FullyActive _ st) = Some st"

definition get_if_mergeable ::
  "stake_codec \<Rightarrow> keyed_account \<Rightarrow> clock \<Rightarrow> stake_history \<Rightarrow> store \<Rightarrow> (merge_kind, instruction_error) result" where
  "get_if_mergeable c ka clk history s =
     bindE (ka_state c s ka) (\<lambda>state.
     case state of
       SS_Stake m st \<Rightarrow>
         let status = stake_activating_and_deactivating (st_delegation st) (clock_epoch clk) (Some history) in
         if effective status = 0 \<and> activating status = 0 \<and> deactivating status = 0
         then Ok (MK_Inactive m (ka_lamports s ka))
         else if effective status = 0 then Ok (MK_ActivationEpoch m st)
         else if activating status = 0 \<and> deactivating status = 0 then Ok (MK_FullyActive m st)
         else Err (instruction_error_of_stake MergeTransientStake)
     | SS_Initialized m \<Rightarrow> Ok (MK_Inactive m (ka_lamports s ka))
     | _ \<Rightarrow> Err InvalidAccountData)"

definition metas_can_merge :: "meta \<Rightarrow> meta \<Rightarrow> clock \<Rightarrow> (unit, instruction_error) result" where
  "metas_can_merge m source clk =
     (let can_merge_lockups = meta_lockup m = meta_lockup source \<or>
            (\<not> is_in_force (meta_lockup m) clk None \<and> \<not> is_in_force (meta_lockup source) clk None)
      in if meta_authorized m = meta_authorized source \<and> can_merge_lockups then Ok ()
         else Err (instruction_error_of_stake MergeMismatch))"

definition active_delegations_can_merge :: "delegation \<Rightarrow> delegation \<Rightarrow> (unit, instruction_error) result" where
  "active_delegations_can_merge d source =
     (if dg_voter_pubkey d \<noteq> dg_voter_pubkey source then Err (instruction_error_of_stake MergeMismatch)
      else if f64_less (f64_abs (f64_sub (warmup_cooldown_rate d) (warmup_cooldown_rate source))) F64_EPSILON \<and>
        deactivation_epoch d = u64_max \<and> deactivation_epoch source = u64_max then Ok ()
      else Err (instruction_error_of_stake MergeMismatch))"

definition active_stakes_can_merge :: "stake \<Rightarrow> stake \<Rightarrow> (unit, instruction_error) result" where
  "active_stakes_can_merge st source =
     bindE (active_delegations_can_merge (st_delegation st) (st_delegation source)) (\<lambda>_.
     if credits_observed st = credits_observed source then Ok ()
     else Err (instruction_error_of_stake MergeMismatch))"

definition stake_weighted_credits_observed :: "stake \<Rightarrow> u64 \<Rightarrow> u64 \<Rightarrow> u64 option" where
  "stake_weighted_credits_observed st absorbed_lamports absorbed_credits_observed =
     (if credits_observed st = absorbed_credits_observed then Some (credits_observed st)
      else
        Option.bind (checked_add64 (dg_stake (st_delegation st)) absorbed_lamports) (\<lambda>total_stake.
        Option.bind (checked_mul128 (credits_observed st) (dg_stake (st_delegation st))) (\<lambda>stake_weighted_credits.
        Option.bind (checked_mul128 absorbed_credits_observed absorbed_lamports) (\<lambda>absorbed_weighted_credits.
        Option.bind (checked_add128 stake_weighted_credits absorbed_weighted_credits) (\<lambda>sum.
        Option.bind (checked_add128 sum total_stake) (\<lambda>sum.
        Option.bind (checked_sub128 sum 1) (\<lambda>total_weighted_credits.
        if total_stake = 0 then None
        else
          let credits = total_weighted_credits div total_stake
          in if credits \<le> u64_max then Some credits else None)))))))"

definition merge_delegation_stake_and_credits_observed ::
  "feature_set \<Rightarrow> u64 \<Rightarrow> u64 \<Rightarrow> stake \<Rightarrow> (stake, instruction_error) result" where
  "merge_delegation_stake_and_credits_observed fs absorbed_lamports absorbed_credits_observed st =
     bindE
       (if is_active fs stake_merge_with_unmatched_credits_observed then
          bindE (ok_or (stake_weighted_credits_observed st absorbed_lamports absorbed_credits_observed) ArithmeticOverflow)
            (\<lambda>credits. Ok (st\<lparr>credits_observed := credits\<rparr>))
        else Ok st) (\<lambda>st.
     bindE (checked_add (dg_stake (st_delegation st)) absorbed_lamports) (\<lambda>amount.
     Ok (st\<lparr>st_delegation := (st_delegation st)\<lparr>dg_stake := amount\<rparr>\<rparr>)))"

definition merge_kinds ::
  "feature_set \<Rightarrow> merge_kind \<Rightarrow> merge_kind \<Rightarrow> clock \<Rightarrow> (stake_state option, instruction_error) result" where
  "merge_kinds fs me source clk =
     bindE (metas_can_merge (merge_kind_meta me) (merge_kind_meta source) clk) (\<lambda>_.
     bindE
       (case (merge_kind_active_stake me, merge_kind_active_stake source) of
          (Some st, Some source) \<Rightarrow>
            if is_active fs stake_merge_with_unmatched_credits_observed
            then active_delegations_can_merge (st_delegation st) (st_delegation source)
            else active_stakes_can_merge st source
        | _ \<Rightarrow> Ok ()) (\<lambda>_.
     case (me, source) of
       (MK_Inactive _ _, MK_Inactive _ _) \<Rightarrow> Ok None
     | (MK_Inactive _ _, MK_ActivationEpoch _ _) \<Rightarrow> Ok None
     | (MK_ActivationEpoch m st, MK_Inactive _ source_lamports) \<Rightarrow>
         bindE (checked_add (dg_stake (st_delegation st)) source_lamports) (\<lambda>amount.
         Ok (Some (SS_Stake m (st\<lparr>st_delegation := (st_delegation st)\<lparr>dg_stake := amount\<rparr>\<rparr>))))
     | (MK_ActivationEpoch m st, MK_ActivationEpoch source_meta source_stake) \<Rightarrow>
         bindE (checked_add (rent_exempt_reserve source_meta) (dg_stake (st_delegation source_stake))) (\<lambda>source_lamports.
         bindE (merge_delegation_stake_and_credits_observed fs source_lamports (credits_observed source_stake) st) (\<lambda>st.
         Ok (Some (SS_Stake m st))))
     | (MK_FullyActive m st, MK_FullyActive _ source_stake) \<Rightarrow>
         bindE (merge_delegation_stake_and_credits_observed fs (dg_stake (st_delegation source_stake))
           (credits_observed source_stake) st) (\<lambda>st.
         Ok (Some (SS_Stake m st)))
     | _ \<Rightarrow> Err (instruction_error_of_stake MergeMismatch)))"

definition stake_merge ::
  "stake_codec \<Rightarrow> feature_set \<Rightarrow> keyed_account \<Rightarrow> keyed_account \<Rightarrow> clock \<Rightarrow> stake_history \<Rightarrow> pubkey set \<Rightarrow>
     store \<Rightarrow> (store, instruction_error) result" where
  "stake_merge c fs me source_account clk history signers s =
     (if ka_owner s source_account \<noteq> stake_program_id then Err IncorrectProgramId
      else if unsigned_key source_account = unsigned_key me then Err InvalidArgument
      else
        bindE (get_if_mergeable c me clk history s) (\<lambda>stake_merge_kind.
        bindE (authorized_check (meta_authorized (merge_kind_meta stake_merge_kind)) signers Staker) (\<lambda>_.
        bindE (get_if_mergeable c source_account clk history s) (\<lambda>source_merge_kind.
        bindE (merge_kinds fs stake_merge_kind source_merge_kind clk) (\<lambda>merged.
        bindE (case merged of Some merged_state \<Rightarrow> ka_set_state c me merged_state s | None \<Rightarrow> Ok s) (\<lambda>s.
        bindE (ka_set_state c source_account SS_Uninitialized s) (\<lambda>s.
        let lamports = ka_lamports s source_account in
        bindE (ka_checked_sub_lamports source_account lamports s) (\<lambda>s.
        ka_checked_add_lamports me lamports s))))))))"

subsection \<open>Withdrawing\<close>

text \<open>The lockup, the lamports that must stay, and whether the account is staked.\<close>

definition withdraw_limits ::
  "stake_state \<Rightarrow> keyed_account \<Rightarrow> clock \<Rightarrow> stake_history \<Rightarrow> pubkey set \<Rightarrow> (lockup \<times> u64 \<times> bool, instruction_error) result" where
  "withdraw_limits state me clk history signers =
     (case state of
        SS_Stake m st \<Rightarrow>
          bindE (authorized_check (meta_authorized m) signers Withdrawer) (\<lambda>_.
          let d = st_delegation st;
              staked = (if clock_epoch clk \<ge> deactivation_epoch d
                        then delegation_stake d (clock_epoch clk) (Some history)
                        else dg_stake d) in
          bindE (checked_add staked (rent_exempt_reserve m)) (\<lambda>staked_and_reserve.
          Ok (meta_lockup m, staked_and_reserve, staked \<noteq> 0)))
      | SS_Initialized m \<Rightarrow>
          bindE (authorized_check (meta_authorized m) signers Withdrawer) (\<lambda>_.
          bindE (checked_add (rent_exempt_reserve m) MINIMUM_STAKE_DELEGATION) (\<lambda>reserve.
          Ok (meta_lockup m, reserve, False)))
      | SS_Uninitialized \<Rightarrow>
          if unsigned_key me \<notin> signers then Err MissingRequiredSignature
          else Ok (default_lockup, 0, False)
      | SS_RewardsPool \<Rightarrow> Err InvalidAccountData)"

definition stake_withdraw ::
  "stake_codec \<Rightarrow> keyed_account \<Rightarrow> u64 \<Rightarrow> keyed_account \<Rightarrow> clock \<Rightarrow> stake_history \<Rightarrow> keyed_account \<Rightarrow>
     keyed_account option \<Rightarrow> store \<Rightarrow> (store, instruction_error) result" where
  "stake_withdraw c me lamports to clk history withdraw_authority custodian s =
     bindE (ok_or (signer_key withdraw_authority) MissingRequiredSignature) (\<lambda>withdraw_authority_pubkey.
     let signers = {withdraw_authority_pubkey} in
     bindE (ka_state c s me) (\<lambda>state.
     bindE (withdraw_limits state me clk history signers) (\<lambda>(lk, reserve, is_staked).
     let custodian_pubkey = Option.bind custodian signer_key in
     if is_in_force lk clk custodian_pubkey then Err (instruction_error_of_stake LockupInForce)
     else
       bindE (checked_add lamports reserve) (\<lambda>lamports_and_reserve.
       if is_staked \<and> lamports_and_reserve > ka_lamports s me then Err InsufficientFunds
       else if lamports \<noteq> ka_lamports s me \<and> lamports_and_reserve > ka_lamports s me
       then bindE (assertE (\<not> is_staked)) (\<lambda>_. Err InsufficientFunds)
       else
         bindE (deinitialize_if_drained c me lamports s) (\<lambda>s.
         bindE (ka_checked_sub_lamports me lamports s) (\<lambda>s.
         ka_checked_add_lamports to lamports s))))))"

section \<open>Accounts created by the genesis and by the bank\<close>

text \<open>The \<^verbatim>\<open>assert!\<close>, the \<^verbatim>\<open>expect\<close>s and the underflow of the code are panics.\<close>

definition create_lockup_stake_account ::
  "stake_codec \<Rightarrow> authorized \<Rightarrow> lockup \<Rightarrow> rent \<Rightarrow> u64 \<Rightarrow> (account_shared_data, 'e) result" where
  "create_lockup_stake_account c auth l r lamports =
     (let account = shared_new lamports STAKE_STATE_SIZE stake_program_id;
          reserve = minimum_balance r (length (acc_data account)) in
      bindE (assertE (lamports \<ge> reserve)) (\<lambda>_.
      expectE (account_set_state c
        (SS_Initialized \<lparr>rent_exempt_reserve = reserve, meta_authorized = auth, meta_lockup = l\<rparr>) account)))"

definition do_create_account ::
  "stake_codec \<Rightarrow> vote_codec \<Rightarrow> pubkey \<Rightarrow> pubkey \<Rightarrow> account_shared_data \<Rightarrow> rent \<Rightarrow> u64 \<Rightarrow> epoch \<Rightarrow>
     (account_shared_data, 'e) result" where
  "do_create_account c vc auth voter_pubkey vote_account r lamports activation =
     (let account = shared_new lamports STAKE_STATE_SIZE stake_program_id in
      bindE (unwrap (vote_state_from vc vote_account)) (\<lambda>vs.
      let reserve = minimum_balance r (length (acc_data account)) in
      expectE (account_set_state c
        (SS_Stake (default_meta\<lparr>meta_authorized := authorized_auto auth, rent_exempt_reserve := reserve\<rparr>)
          (new_stake (wrapping_sub64 lamports reserve) voter_pubkey vs activation default_stake_config)) account)))"

definition stake_create_account ::
  "stake_codec \<Rightarrow> vote_codec \<Rightarrow> pubkey \<Rightarrow> pubkey \<Rightarrow> account_shared_data \<Rightarrow> rent \<Rightarrow> u64 \<Rightarrow> (account_shared_data, 'e) result" where
  "stake_create_account c vc auth voter_pubkey vote_account r lamports =
     do_create_account c vc auth voter_pubkey vote_account r lamports u64_max"

section \<open>The instruction processor\<close>

record authorize_with_seed_args =
  aws_new_authorized_pubkey :: pubkey
  aws_stake_authorize :: stake_authorize
  aws_authority_seed :: bytes
  aws_authority_owner :: pubkey

record authorize_checked_with_seed_args =
  acws_stake_authorize :: stake_authorize
  acws_authority_seed :: bytes
  acws_authority_owner :: pubkey

record lockup_checked_args =
  lca_unix_timestamp :: "unix_timestamp option"
  lca_epoch :: "epoch option"

datatype stake_instruction =
    SI_Initialize authorized lockup
  | SI_Authorize pubkey stake_authorize
  | SI_DelegateStake
  | SI_Split u64
  | SI_Withdraw u64
  | SI_Deactivate
  | SI_SetLockup lockup_args
  | SI_Merge
  | SI_AuthorizeWithSeed authorize_with_seed_args
  | SI_InitializeChecked
  | SI_AuthorizeChecked stake_authorize
  | SI_AuthorizeCheckedWithSeed authorize_checked_with_seed_args
  | SI_SetLockupChecked lockup_checked_args

text \<open>
  What the program calls in other crates: the codecs of the accounts, the hash function, the decoders of
  the config account and of the instruction data.
\<close>

record stake_env =
  ste_codec :: stake_codec
  ste_vote_codec :: vote_codec
  ste_hashv :: hash_function
  ste_config_keys :: "config_keys codec"
  ste_config :: "bytes \<Rightarrow> stake_config option"
  ste_instruction :: "bytes \<Rightarrow> stake_instruction option"

definition stake_history_at ::
  "keyed_account list \<Rightarrow> usize \<Rightarrow> invoke_context \<Rightarrow> (stake_history, instruction_error) result" where
  "stake_history_at keyed_accounts i ic =
     bindE (keyed_account_at_index keyed_accounts i) (\<lambda>ka. check_stake_history ka ic)"

definition rent_at :: "keyed_account list \<Rightarrow> usize \<Rightarrow> invoke_context \<Rightarrow> (rent, instruction_error) result" where
  "rent_at keyed_accounts i ic =
     bindE (keyed_account_at_index keyed_accounts i) (\<lambda>ka. check_rent ka ic)"

definition account_at_opt :: "keyed_account list \<Rightarrow> usize \<Rightarrow> keyed_account option" where
  "account_at_opt keyed_accounts i =
     (if i < length keyed_accounts then Some (keyed_accounts ! i) else None)"

definition stake_config_from :: "stake_env \<Rightarrow> account_shared_data \<Rightarrow> (stake_config option, 'e) result" where
  "stake_config_from env account =
     bindE (get_config_data (ste_config_keys env) (acc_data account)) (\<lambda>data.
     Ok (Option.bind data (ste_config env)))"

definition custodian_at :: "keyed_account list \<Rightarrow> usize \<Rightarrow> pubkey option" where
  "custodian_at keyed_accounts i = map_option unsigned_key (account_at_opt keyed_accounts i)"

definition process_stake_instruction ::
  "stake_env \<Rightarrow> usize \<Rightarrow> stake_instruction \<Rightarrow> invoke_context \<Rightarrow> keyed_account \<Rightarrow> pubkey set \<Rightarrow>
     store \<Rightarrow> (store, instruction_error) result" where
  "process_stake_instruction env first instr ic me signers s =
     (let c = ste_codec env; kas = ic_keyed_accounts ic; fs = ic_feature_set ic;
          require_custodian = is_active fs require_custodian_for_locked_stake_authorize;
          checked = is_active fs vote_stake_checked_instructions in
      case instr of
        SI_Initialize auth lk \<Rightarrow>
          bindE (rent_at kas (first + 1) ic) (\<lambda>r. stake_initialize c me auth lk r s)
      | SI_Authorize authorized_pubkey stake_auth \<Rightarrow>
          if require_custodian then
            bindE (clock_at kas (first + 1) ic) (\<lambda>clk.
            bindE (keyed_account_at_index kas (first + 2)) (\<lambda>_.
            stake_account_authorize c me signers authorized_pubkey stake_auth require_custodian clk
              (custodian_at kas (first + 3)) s))
          else
            stake_account_authorize c me signers authorized_pubkey stake_auth require_custodian default_clock None s
      | SI_AuthorizeWithSeed args \<Rightarrow>
          bindE (keyed_account_at_index kas (first + 1)) (\<lambda>authority_base.
          if require_custodian then
            bindE (clock_at kas (first + 2) ic) (\<lambda>clk.
            stake_authorize_with_seed (ste_hashv env) c me authority_base (aws_authority_seed args)
              (aws_authority_owner args) (aws_new_authorized_pubkey args) (aws_stake_authorize args)
              require_custodian clk (custodian_at kas (first + 3)) s)
          else
            stake_authorize_with_seed (ste_hashv env) c me authority_base (aws_authority_seed args)
              (aws_authority_owner args) (aws_new_authorized_pubkey args) (aws_stake_authorize args)
              require_custodian default_clock None s)
      | SI_DelegateStake \<Rightarrow>
          bindE (keyed_account_at_index kas (first + 1)) (\<lambda>vote.
          bindE (clock_at kas (first + 2) ic) (\<lambda>clk.
          bindE (stake_history_at kas (first + 3) ic) (\<lambda>history.
          bindE (keyed_account_at_index kas (first + 4)) (\<lambda>config_account.
          if unsigned_key config_account \<noteq> stake_config_id then Err InvalidArgument
          else
            bindE (stake_config_from env (account_ref s config_account)) (\<lambda>config.
            bindE (ok_or config InvalidArgument) (\<lambda>config.
            stake_delegate c (ste_vote_codec env) me vote clk history config signers s))))))
      | SI_Split lamports \<Rightarrow>
          bindE (keyed_account_at_index kas (first + 1)) (\<lambda>split_stake.
          stake_account_split c me lamports split_stake signers s)
      | SI_Merge \<Rightarrow>
          bindE (keyed_account_at_index kas (first + 1)) (\<lambda>source_stake.
          bindE (clock_at kas (first + 2) ic) (\<lambda>clk.
          bindE (stake_history_at kas (first + 3) ic) (\<lambda>history.
          stake_merge c fs me source_stake clk history signers s)))
      | SI_Withdraw lamports \<Rightarrow>
          bindE (keyed_account_at_index kas (first + 1)) (\<lambda>to.
          bindE (clock_at kas (first + 2) ic) (\<lambda>clk.
          bindE (stake_history_at kas (first + 3) ic) (\<lambda>history.
          bindE (keyed_account_at_index kas (first + 4)) (\<lambda>withdraw_authority.
          stake_withdraw c me lamports to clk history withdraw_authority (account_at_opt kas (first + 5)) s))))
      | SI_Deactivate \<Rightarrow>
          bindE (clock_at kas (first + 1) ic) (\<lambda>clk. stake_account_deactivate c me clk signers s)
      | SI_SetLockup args \<Rightarrow>
          bindE (get_clock (ic_sysvar_cache ic)) (\<lambda>clk. stake_set_lockup c me args signers clk s)
      | SI_InitializeChecked \<Rightarrow>
          if checked then
            bindE (keyed_account_at_index kas (first + 2)) (\<lambda>staker.
            bindE (required_signer_at kas (first + 3)) (\<lambda>withdrawer.
            bindE (rent_at kas (first + 1) ic) (\<lambda>r.
            stake_initialize c me \<lparr>au_staker = unsigned_key staker, au_withdrawer = withdrawer\<rparr> default_lockup r s)))
          else Err InvalidInstructionData
      | SI_AuthorizeChecked stake_auth \<Rightarrow>
          if checked then
            bindE (clock_at kas (first + 1) ic) (\<lambda>clk.
            bindE (keyed_account_at_index kas (first + 2)) (\<lambda>_.
            bindE (required_signer_at kas (first + 3)) (\<lambda>authorized_pubkey.
            stake_account_authorize c me signers authorized_pubkey stake_auth True clk
              (custodian_at kas (first + 4)) s)))
          else Err InvalidInstructionData
      | SI_AuthorizeCheckedWithSeed args \<Rightarrow>
          if checked then
            bindE (keyed_account_at_index kas (first + 1)) (\<lambda>authority_base.
            bindE (clock_at kas (first + 2) ic) (\<lambda>clk.
            bindE (required_signer_at kas (first + 3)) (\<lambda>authorized_pubkey.
            stake_authorize_with_seed (ste_hashv env) c me authority_base (acws_authority_seed args)
              (acws_authority_owner args) authorized_pubkey (acws_stake_authorize args) True clk
              (custodian_at kas (first + 4)) s)))
          else Err InvalidInstructionData
      | SI_SetLockupChecked args \<Rightarrow>
          if checked then
            bindE (case account_at_opt kas (first + 2) of
                     Some custodian \<Rightarrow> bindE (ok_or (signer_key custodian) MissingRequiredSignature) (\<lambda>k. Ok (Some k))
                   | None \<Rightarrow> Ok None) (\<lambda>custodian.
            let lockup_args = \<lparr>la_unix_timestamp = lca_unix_timestamp args, la_epoch = lca_epoch args,
                  la_custodian = custodian\<rparr> in
            bindE (get_clock (ic_sysvar_cache ic)) (\<lambda>clk. stake_set_lockup c me lockup_args signers clk s))
          else Err InvalidInstructionData)"

definition stake_process_instruction ::
  "stake_env \<Rightarrow> usize \<Rightarrow> bytes \<Rightarrow> invoke_context \<Rightarrow> store \<Rightarrow> (store, instruction_error) result" where
  "stake_process_instruction env first data ic s =
     (let kas = ic_keyed_accounts ic in
      bindE (keyed_account_at_index kas first) (\<lambda>me.
      if ka_owner s me \<noteq> stake_program_id then Err InvalidAccountOwner
      else
        let signers = get_signers (drop first kas) in
        bindE (ok_or (ste_instruction env data) InvalidInstructionData) (\<lambda>instr.
        process_stake_instruction env first instr ic me signers s)))"

section \<open>Properties of the operations\<close>

lemma conserving_stake_state [conserving_intros]:
  "(x = SS_Uninitialized \<Longrightarrow> conserving s m) \<Longrightarrow> (\<And>a. x = SS_Initialized a \<Longrightarrow> conserving s (f a)) \<Longrightarrow>
   (\<And>a b. x = SS_Stake a b \<Longrightarrow> conserving s (g a b)) \<Longrightarrow> (x = SS_RewardsPool \<Longrightarrow> conserving s n) \<Longrightarrow>
   conserving s (case x of SS_Uninitialized \<Rightarrow> m | SS_Initialized a \<Rightarrow> f a | SS_Stake a b \<Rightarrow> g a b | SS_RewardsPool \<Rightarrow> n)"
  by (cases x) simp_all

lemma stake_ops_conserving [conserving_intros]:
  assumes "valid_keyed_account s me"
  shows "conserving s (stake_initialize c me auth lk r s)"
    "conserving s (stake_account_authorize c me signers k sa b clk cust s)"
    "conserving s (stake_delegate c vc me vote clk h config signers s)"
    "conserving s (stake_account_deactivate c me clk signers s)"
    "conserving s (stake_set_lockup c me args signers clk s)"
  unfolding stake_initialize_def stake_account_authorize_def stake_delegate_def stake_account_deactivate_def
    stake_set_lockup_def Let_def
  by (intro conserving_intros conserving_set_state assms)+

lemma stake_authorize_with_seed_conserving [conserving_intros]:
  "valid_keyed_account s me \<Longrightarrow>
   conserving s (stake_authorize_with_seed hashv c me base seed owner k sa b clk cust s)"
  unfolding stake_authorize_with_seed_def by (intro conserving_intros)

lemma deinitialize_conserving:
  "valid_keyed_account s me \<Longrightarrow> conserving s (deinitialize_if_drained c me n s)"
  unfolding deinitialize_if_drained_def by (intro conserving_intros conserving_set_state)

lemma split_states_conserving:
  assumes "valid_keyed_account s me" "valid_keyed_account s split"
  shows "conserving s (split_states c me n split signers s)"
  unfolding split_states_def Let_def
  by (intro conserving_intros conserving_seq conserving_set_state assms)
    (simp_all add: store_frame_valid assms)

text \<open>The split adds to the destination before it takes from the source.\<close>

lemma conserving_move_back:
  assumes "valid_keyed_account s from" "valid_keyed_account s to"
  shows "conserving s (bindE (ka_checked_add_lamports to n s) (ka_checked_sub_lamports from n))"
proof -
  have "total_lamports s2 = total_lamports s \<and> store_frame s s2"
    if "ka_checked_add_lamports to n s = Ok s1" "ka_checked_sub_lamports from n s1 = Ok s2" for s1 s2
  proof -
    have fr: "store_frame s s1" "store_frame s1 s2" using that by (auto dest: lamports_frame)
    then have "valid_keyed_account s1 from" using assms(1) by (simp add: store_frame_valid)
    then show ?thesis
      using ka_checked_add_total [OF that(1) assms(2)] ka_checked_sub_total [OF that(2)] fr
      by (auto intro: store_frame_trans)
  qed
  then show ?thesis by (auto simp: conserving_def result_simps)
qed

lemma stake_split_conserving:
  assumes "valid_keyed_account s me" "valid_keyed_account s split"
  shows "conserving s (stake_account_split c me n split signers s)"
proof -
  have tail: "conserving s (bindE (split_states c me n split signers s) (\<lambda>s. bindE (deinitialize_if_drained c me n s)
      (\<lambda>s. bindE (ka_checked_add_lamports split n s) (ka_checked_sub_lamports me n))))"
    by (rule conserving_seq [OF split_states_conserving [OF assms]], rule conserving_seq [OF deinitialize_conserving])
      (auto intro!: conserving_move_back simp: store_frame_valid assms)
  show ?thesis
    unfolding stake_account_split_def by (rule conserving_if conserving_fault tail conserving_bind)+
qed

lemma stake_withdraw_conserving:
  assumes "valid_keyed_account s me" "valid_keyed_account s to"
  shows "conserving s (stake_withdraw c me n to clk h auth cust s)"
proof -
  have tail: "conserving s (bindE (deinitialize_if_drained c me n s)
      (\<lambda>s. bindE (ka_checked_sub_lamports me n s) (ka_checked_add_lamports to n)))"
    by (rule conserving_seq [OF deinitialize_conserving [OF assms(1)]])
      (auto intro!: conserving_move simp: store_frame_valid assms)
  show ?thesis
    unfolding stake_withdraw_def Let_def by (rule conserving_if conserving_fault tail conserving_split conserving_bind)+
qed

lemma stake_merge_conserving:
  assumes "valid_keyed_account s me" "valid_keyed_account s source"
  shows "conserving s (stake_merge c fs me source clk h signers s)"
proof -
  have set: "conserving s (case merged of Some x \<Rightarrow> ka_set_state c me x s | None \<Rightarrow> Ok s)" for merged
    using conserving_set_state [OF assms(1)] by (cases merged) (simp_all add: conserving_Ok)
  have tail: "conserving s (bindE (case merged of Some x \<Rightarrow> ka_set_state c me x s | None \<Rightarrow> Ok s)
      (\<lambda>s. bindE (ka_set_state c source SS_Uninitialized s)
      (\<lambda>s. bindE (ka_checked_sub_lamports source (ka_lamports s source) s)
        (ka_checked_add_lamports me (ka_lamports s source)))))" for merged
    by (rule conserving_seq [OF set], rule conserving_seq [OF conserving_set_state])
      (auto intro!: conserving_move simp: store_frame_valid assms)
  show ?thesis
    unfolding stake_merge_def Let_def by (rule conserving_if conserving_fault tail conserving_bind)+
qed

lemma process_stake_instruction_conserving:
  assumes "valid_keyed_account s me" "valid_accounts s (ic_keyed_accounts ic)"
  shows "conserving s (process_stake_instruction env first instr ic me signers s)"
  unfolding process_stake_instruction_def Let_def
  by (cases instr; simp only: stake_instruction.case;
      intro conserving_intros stake_split_conserving stake_withdraw_conserving stake_merge_conserving assms(1);
      elim keyed_account_at_valid [OF assms(2)])

lemma stake_process_instruction_conserving:
  assumes "valid_accounts s (ic_keyed_accounts ic)"
  shows "conserving s (stake_process_instruction env first data ic s)"
  unfolding stake_process_instruction_def Let_def
  by (intro conserving_intros process_stake_instruction_conserving assms)
    (rule keyed_account_at_valid [OF assms])

interpretation stake_native: native_program "stake_process_instruction env first" for env first
  by unfold_locales (rule stake_process_instruction_conserving)

end
