(* ===== verification/Stake_Activation.thy ===== *)
theory Stake_Activation
  imports Stake_State
begin

text \<open>
  How a delegation warms up and cools down. The two loops of \<^verbatim>\<open>Delegation\<close> stay within the delegated stake
  whatever the stake history holds, every epoch of the cool-down takes at least one lamport as long as the
  history records deactivating stake, a stake that cools down never grows again, and it is gone once its
  deactivation has left the history.
\<close>

section \<open>Warm-up\<close>

lemma activate_loop_le:
  "cur < dg_stake d \<Longrightarrow> activate_loop d h target prev entry cur \<le> dg_stake d"
  by (induction d h target prev entry cur rule: activate_loop.induct)
    (subst activate_loop.simps, auto simp: Let_def split: option.split)

lemma activate_loop_zero:
  "activate_loop d h target prev entry 0 \<le> dg_stake d"
proof (cases "dg_stake d = 0")
  case True
  then show ?thesis by (subst activate_loop.simps) (simp add: Let_def)
qed (simp add: activate_loop_le)

text \<open>From the deactivation epoch on, the target no longer matters.\<close>

lemma activate_loop_target:
  "prev < deactivation_epoch d \<Longrightarrow> deactivation_epoch d \<le> target \<Longrightarrow> deactivation_epoch d \<le> target' \<Longrightarrow>
   activate_loop d h target prev entry cur = activate_loop d h target' prev entry cur"
proof (induction d h target prev entry cur rule: activate_loop.induct)
  case (1 d h target prev entry cur)
  show ?case
    using 1(2-4)
    by (subst (1 2) activate_loop.simps) (auto simp: Let_def 1(1) split: option.split)
qed

section \<open>Cool-down\<close>

lemma newly_not_effective_pos: "1 \<le> newly_not_effective_stake d entry cur"
  by (simp add: newly_not_effective_stake_def Let_def)

lemma deactivate_loop_le: "deactivate_loop d h target prev entry cur \<le> cur"
proof (induction d h target prev entry cur rule: deactivate_loop.induct)
  case (1 d h target prev entry cur)
  show ?case
    by (subst deactivate_loop.simps)
      (auto simp: Let_def saturating_sub64_def split: option.split intro!: order.trans [OF 1])
qed

lemma deactivate_loop_antimono:
  "target \<le> target' \<Longrightarrow> deactivate_loop d h target' prev entry cur \<le> deactivate_loop d h target prev entry cur"
proof (induction d h target prev entry cur rule: deactivate_loop.induct)
  case (1 d h target prev entry cur)
  show ?case
    using 1(2)
    by (subst (1 2) deactivate_loop.simps)
      (auto simp: Let_def saturating_sub64_def 1(1) deactivate_loop_le split: option.split)
qed

lemma deactivate_loop_progress:
  "prev < target \<Longrightarrow> deactivating entry \<noteq> 0 \<Longrightarrow>
   (\<And>e. prev < e \<Longrightarrow> e < target \<Longrightarrow> \<exists>entry. stake_history_get h e = Some entry \<and> deactivating entry \<noteq> 0) \<Longrightarrow>
   deactivate_loop d h target prev entry cur \<le> cur - (target - prev)"
proof (induction d h target prev entry cur rule: deactivate_loop.induct)
  case (1 d h target prev entry cur)
  let ?cur = "saturating_sub64 cur (newly_not_effective_stake d entry cur)"
  have step: "?cur \<le> cur - 1"
    using newly_not_effective_pos [of d entry cur] by (simp add: saturating_sub64_def)
  show ?case
  proof (cases "?cur = 0 \<or> target \<le> prev + 1")
    case True
    then show ?thesis using step 1(2,3) by (subst deactivate_loop.simps) (auto simp: Let_def)
  next
    case False
    then obtain entry' where e: "stake_history_get h (prev + 1) = Some entry'" "deactivating entry' \<noteq> 0"
      using 1(4) [of "prev + 1"] by auto
    have "deactivate_loop d h target (prev + 1) entry' ?cur \<le> ?cur - (target - (prev + 1))"
      using False 1(3,4) e by (intro 1(1)) auto
    then show ?thesis
      using False step 1(2,3) e by (subst deactivate_loop.simps) (auto simp: Let_def)
  qed
qed

section \<open>Effective, activating and deactivating stake\<close>

lemma stake_and_activating_bounds:
  assumes "stake_and_activating d e h = (eff, act)" "dg_stake d \<le> u64_max"
  shows "eff + act \<le> dg_stake d"
  using assms activate_loop_zero [of d]
  by (auto simp: stake_and_activating_def Let_def split: if_splits option.splits)

text \<open>At and after the deactivation epoch the cool-down starts from the same effective stake.\<close>

definition activated_before_deactivation :: "delegation \<Rightarrow> bool" where
  "activated_before_deactivation d \<longleftrightarrow> is_bootstrap d \<or> activation_epoch d \<le> deactivation_epoch d"

lemma stake_and_activating_frozen:
  assumes "activated_before_deactivation d" "deactivation_epoch d \<le> e" "deactivation_epoch d \<le> e'"
  shows "fst (stake_and_activating d e h) = fst (stake_and_activating d e' h)"
  using assms activate_loop_target [of "activation_epoch d" d e e']
  by (cases "activation_epoch d = deactivation_epoch d")
    (auto simp: stake_and_activating_def activated_before_deactivation_def Let_def split: option.split)

lemma delegation_stake_cooling:
  assumes "deactivation_epoch d \<le> e"
  obtains "e = deactivation_epoch d" "delegation_stake d e h = fst (stake_and_activating d e h)"
  | entry hs where "deactivation_epoch d < e" "h = Some hs" "stake_history_get hs (deactivation_epoch d) = Some entry"
      "delegation_stake d e h =
         deactivate_loop d hs e (deactivation_epoch d) entry (fst (stake_and_activating d e h))"
  | "deactivation_epoch d < e" "delegation_stake d e h = 0"
      "h = None \<or> (\<exists>hs. h = Some hs \<and> stake_history_get hs (deactivation_epoch d) = None)"
proof (cases "e = deactivation_epoch d")
  case True
  then show ?thesis
    by (intro that(1))
      (auto simp: delegation_stake_def stake_activating_and_deactivating_def with_deactivating_def split: prod.split)
next
  case False
  then have lt: "deactivation_epoch d < e" using assms by simp
  note unfold = delegation_stake_def stake_activating_and_deactivating_def with_deactivating_def
  show ?thesis
  proof (cases h)
    case None
    with lt show ?thesis by (intro that(3)) (auto simp: unfold split: prod.split)
  next
    case (Some hs)
    with lt show ?thesis
      by (cases "stake_history_get hs (deactivation_epoch d)"; intro that(2,3))
        (auto simp: unfold split: prod.split)
  qed
qed

lemma delegation_stake_le:
  "dg_stake d \<le> u64_max \<Longrightarrow> delegation_stake d e h \<le> dg_stake d"
  using stake_and_activating_bounds [of d e h]
    order.trans [OF deactivate_loop_le [of d _ e "deactivation_epoch d" _ "fst (stake_and_activating d e h)"]]
  by (fastforce simp: delegation_stake_def stake_activating_and_deactivating_def with_deactivating_def
      with_effective_def with_effective_and_activating_def Let_def split: prod.split option.split)

lemma delegation_stake_antimono:
  assumes "activated_before_deactivation d" "deactivation_epoch d \<le> e" "e \<le> e'"
  shows "delegation_stake d e' h \<le> delegation_stake d e h"
proof -
  have e': "deactivation_epoch d \<le> e'" using assms by simp
  have eq: "fst (stake_and_activating d e' h) = fst (stake_and_activating d e h)"
    by (rule stake_and_activating_frozen [OF assms(1) e' assms(2)])
  show ?thesis
  proof (rule delegation_stake_cooling [OF assms(2), of h]; rule delegation_stake_cooling [OF e', of h];
      use assms(3) eq deactivate_loop_le deactivate_loop_antimono [OF assms(3)] in \<open>auto\<close>)
  qed
qed

lemma delegation_stake_loop:
  "deactivation_epoch d < e \<Longrightarrow> stake_history_get h (deactivation_epoch d) = Some entry \<Longrightarrow>
   delegation_stake d e (Some h) =
     deactivate_loop d h e (deactivation_epoch d) entry (fst (stake_and_activating d e (Some h)))"
  by (auto simp: delegation_stake_def stake_activating_and_deactivating_def with_deactivating_def split: prod.split)

lemma delegation_stake_progress:
  assumes "dg_stake d \<le> u64_max" "deactivation_epoch d < e"
    and "\<And>e'. deactivation_epoch d \<le> e' \<Longrightarrow> e' < e \<Longrightarrow>
      \<exists>entry. stake_history_get h e' = Some entry \<and> deactivating entry \<noteq> 0"
  shows "delegation_stake d e (Some h) \<le> dg_stake d - (e - deactivation_epoch d)"
proof -
  obtain entry where entry: "stake_history_get h (deactivation_epoch d) = Some entry" "deactivating entry \<noteq> 0"
    using assms(2,3) by blast
  let ?cur = "fst (stake_and_activating d e (Some h))"
  have "?cur \<le> dg_stake d"
    using stake_and_activating_bounds [of d e "Some h" ?cur "snd (stake_and_activating d e (Some h))"] assms(1) by simp
  moreover have "deactivate_loop d h e (deactivation_epoch d) entry ?cur \<le> ?cur - (e - deactivation_epoch d)"
    using assms(2,3) entry(2) by (intro deactivate_loop_progress) auto
  ultimately show ?thesis
    using assms(2) entry(1) by (simp add: delegation_stake_loop)
qed

section \<open>The history that a bank keeps\<close>

text \<open>
  At the end of each epoch the bank adds an entry for it (\<^verbatim>\<open>Stakes::activate_epoch\<close>), so that in epoch \<open>e\<close> the
  history holds the latest epochs before \<open>e\<close>, up to \<^const>\<open>MAX_ENTRIES\<close> of them.
\<close>

inductive history_at :: "epoch \<Rightarrow> stake_history \<Rightarrow> bool" where
  genesis: "history_at 0 []"
| next_epoch: "history_at e h \<Longrightarrow> history_at (e + 1) (stake_history_add e entry h)"

lemma stake_history_add_latest:
  assumes "\<forall>x \<in> set h. fst x < e"
  shows "stake_history_add e entry h = take MAX_ENTRIES ((e, entry) # h)"
proof -
  let ?f = "\<lambda>probe :: epoch \<times> stake_history_entry. cmp e (fst probe)"
  have f: "?f x = Greater" if "x \<in> set h" for x using assms that by simp
  have ordered: "search_ordered ?f h" unfolding search_ordered_def using f by (metis nth_mem less_trans ordering.distinct(3))
  have "binary_search_by ?f h = Inl 0"
  proof (cases "binary_search_by ?f h")
    case (Inl i)
    then have "i = 0" using binary_search_by_Inl [OF Inl ordered] f
      by (metis gr0I less_le_trans nth_mem ordering.distinct(3))
    with Inl show ?thesis by simp
  next
    case (Inr i)
    then have "i < length h" "?f (h ! i) = Equal" using binary_search_by_Inr by blast+
    with f [of "h ! i"] show ?thesis by simp
  qed
  then show ?thesis by (simp add: stake_history_add_def)
qed

lemma history_at_epochs: "history_at e h \<Longrightarrow> map fst h = rev [e - MAX_ENTRIES..<e]"
proof (induction rule: history_at.induct)
  case (next_epoch e h entry)
  then have "fst ` set h = {e - MAX_ENTRIES..<e}" by (metis list.set_map set_rev set_upt)
  then have "\<forall>x \<in> set h. fst x < e" by force
  then have "map fst (stake_history_add e entry h) = take MAX_ENTRIES (rev [e - MAX_ENTRIES..<e + 1])"
    using next_epoch.IH by (simp add: stake_history_add_latest take_map [symmetric])
  also have "take MAX_ENTRIES (rev [e - MAX_ENTRIES..<e + 1]) = rev [e + 1 - MAX_ENTRIES..<e + 1]"
    by (simp only: take_rev drop_upt length_upt) (rule arg_cong [of _ _ rev], rule arg_cong2 [of _ _ _ _ upt], linarith, rule refl)
  finally show ?case .
qed simp

lemma history_at_dropped:
  assumes "history_at e h" "e' + MAX_ENTRIES < e"
  shows "stake_history_get h e' = None"
proof -
  have epochs: "fst ` set h = {e - MAX_ENTRIES..<e}"
    using history_at_epochs [OF assms(1)] by (metis list.set_map set_rev set_upt)
  have False if "binary_search_by (\<lambda>probe. cmp e' (fst probe)) h = Inr i" for i
  proof -
    have "fst (h ! i) \<in> fst ` set h" "fst (h ! i) = e'" using binary_search_by_Inr [OF that] by auto
    then show False using epochs assms(2) by simp
  qed
  then show ?thesis by (auto simp: stake_history_get_def split: sum.split)
qed

lemma history_exists: "\<exists>h. history_at e h"
  by (induction e) (use history_at.intros in \<open>auto simp: Suc_eq_plus1 simp del: One_nat_def add_Suc_right\<close>)

section \<open>Properties\<close>

text \<open>
  C37. The stake of a delegation is accounted for in every epoch, whatever the stake history holds: the effective and
  the activating stake together are at most what was delegated, only effective stake deactivates, and no stake
  activates and deactivates at the same time.
\<close>

theorem stake_activation_bounds:
  assumes "dg_stake d \<le> u64_max" "stake_activating_and_deactivating d e h = status"
  shows "effective status + activating status \<le> dg_stake d \<and> deactivating status \<le> effective status \<and>
    (activating status = 0 \<or> deactivating status = 0)"
proof -
  have eff: "effective status \<le> dg_stake d"
    using delegation_stake_le [OF assms(1), of e h] assms(2) by (simp add: delegation_stake_def)
  show ?thesis
  proof (cases "e < deactivation_epoch d")
    case True
    then show ?thesis
      using assms(2) stake_and_activating_bounds [OF _ assms(1), of e h]
      by (auto simp: stake_activating_and_deactivating_def with_effective_def with_effective_and_activating_def
          split: prod.splits if_splits)
  next
    case False
    then have "activating status = 0" "deactivating status \<le> effective status"
      using assms(2)
      by (auto simp: stake_activating_and_deactivating_def with_deactivating_def split: prod.splits option.splits if_splits)
    with eff show ?thesis by simp
  qed
qed

text \<open>
  C38. A deactivated stake cools down and does not grow again: by one and the same history, a later epoch never
  has more effective stake than an earlier one; as long as the history records deactivating stake for each epoch since the
  deactivation, every epoch takes at least a lamport; and by the history that a bank keeps, nothing is effective once more than
  \<^const>\<open>MAX_ENTRIES\<close> epochs have passed, however large the stake is.
\<close>

theorem stake_cooldown:
  assumes "dg_stake d \<le> u64_max" "activated_before_deactivation d"
  shows "(deactivation_epoch d \<le> e \<and> e \<le> e' \<longrightarrow> delegation_stake d e' (Some h) \<le> delegation_stake d e (Some h)) \<and>
    (deactivation_epoch d < e \<and>
      (\<forall>e'. deactivation_epoch d \<le> e' \<and> e' < e \<longrightarrow>
         (\<exists>entry. stake_history_get h e' = Some entry \<and> deactivating entry \<noteq> 0)) \<longrightarrow>
     delegation_stake d e (Some h) \<le> dg_stake d - (e - deactivation_epoch d)) \<and>
    (history_at e h \<and> deactivation_epoch d + MAX_ENTRIES < e \<longrightarrow> delegation_stake d e (Some h) = 0)"
proof (intro conjI impI)
  show "delegation_stake d e' (Some h) \<le> delegation_stake d e (Some h)" if "deactivation_epoch d \<le> e \<and> e \<le> e'"
    using that by (intro delegation_stake_antimono assms(2)) auto
  show "delegation_stake d e (Some h) \<le> dg_stake d - (e - deactivation_epoch d)"
    if "deactivation_epoch d < e \<and> (\<forall>e'. deactivation_epoch d \<le> e' \<and> e' < e \<longrightarrow>
         (\<exists>entry. stake_history_get h e' = Some entry \<and> deactivating entry \<noteq> 0))"
    using that by (intro delegation_stake_progress assms(1)) auto
  show "delegation_stake d e (Some h) = 0" if *: "history_at e h \<and> deactivation_epoch d + MAX_ENTRIES < e"
  proof -
    have "deactivation_epoch d \<le> e" "deactivation_epoch d \<noteq> e" using * by simp_all
    then show ?thesis
      using delegation_stake_cooling [of d e "Some h"] history_at_dropped [of e h "deactivation_epoch d"] * by auto
  qed
qed

end
