(* ===== verification/Stake_Properties.thy ===== *)
theory Stake_Properties
  imports Stake_Program Stake_Activation
begin

text \<open>
  Properties of the stake program: who can take lamports out of a stake account and where they go, that a stake stays
  backed by the lamports of its account, what a merge does to the credits observed, and that the rewards paid out
  stay within the rewards of the epoch.
\<close>

section \<open>Reading and writing accounts\<close>

definition write_state :: "'a codec \<Rightarrow> 'a \<Rightarrow> account_shared_data \<Rightarrow> account_shared_data" where
  "write_state c x a = a\<lparr>acc_data := serialize c x @ drop (length (serialize c x)) (acc_data a)\<rparr>"

lemma ka_set_state_Ok:
  "ka_set_state c ka x s = Ok s' \<longleftrightarrow>
     length (serialize c x) \<le> ka_data_len s ka \<and> s' = s[ka_account ka := write_state c x (account_ref s ka)]"
  by (auto simp: ka_set_state_def account_ref_mut_def account_set_state_def write_state_def ka_data_len_def
      result_simps Let_def split: if_splits)

lemma ka_checked_add_Ok:
  "ka_checked_add_lamports ka n s = Ok s' \<longleftrightarrow>
     ka_lamports s ka + n \<le> u64_max \<and> s' = s[ka_account ka := set_lamports (ka_lamports s ka + n) (account_ref s ka)]"
  by (auto simp: ka_checked_add_lamports_def account_ref_mut_def checked_add_lamports_def ka_lamports_def result_simps
      split: if_splits)

lemma ka_checked_sub_Ok:
  "ka_checked_sub_lamports ka n s = Ok s' \<longleftrightarrow>
     n \<le> ka_lamports s ka \<and> s' = s[ka_account ka := set_lamports (ka_lamports s ka - n) (account_ref s ka)]"
  by (auto simp: ka_checked_sub_lamports_def account_ref_mut_def checked_sub_lamports_def ka_lamports_def result_simps
      split: if_splits)

lemmas ka_updates = ka_set_state_Ok ka_checked_add_Ok ka_checked_sub_Ok

lemma write_state_frame [simp]:
  "acc_lamports (write_state c x a) = acc_lamports a" "acc_owner (write_state c x a) = acc_owner a"
  by (simp_all add: write_state_def)

lemma write_state_length [simp]:
  "length (serialize c x) \<le> length (acc_data a) \<Longrightarrow> length (acc_data (write_state c x a)) = length (acc_data a)"
  by (simp add: write_state_def)

lemma write_state_read:
  "codec_faithful c \<Longrightarrow> deserialize_data c (write_state c x a) = Some y \<Longrightarrow> y = x"
  by (auto simp: codec_faithful_def deserialize_data_def write_state_def)

lemma set_lamports_frame [simp]:
  "acc_lamports (set_lamports n a) = n" "acc_owner (set_lamports n a) = acc_owner a"
  "acc_data (set_lamports n a) = acc_data a"
  by (simp_all add: set_lamports_def)

lemma ka_state_Ok: "ka_state c s ka = Ok x \<longleftrightarrow> deserialize_data c (account_ref s ka) = Some x"
  by (auto simp: ka_state_def account_state_def ok_or_def split: option.splits)

lemma checked_add_Ok [result_simps]: "checked_add a b = Ok n \<longleftrightarrow> a + b \<le> u64_max \<and> n = a + b"
  by (auto simp: checked_add_def checked_add64_def ok_or_def)

lemma authorized_check_Ok [result_simps]:
  "authorized_check a signers Staker = Ok u \<longleftrightarrow> au_staker a \<in> signers"
  "authorized_check a signers Withdrawer = Ok u \<longleftrightarrow> au_withdrawer a \<in> signers"
  by (simp_all add: authorized_check_def result_simps)

text \<open>What holds of the result of an operation if it succeeds.\<close>

definition ensures :: "('a \<Rightarrow> bool) \<Rightarrow> ('a, 'e) result \<Rightarrow> bool" where
  "ensures P m \<longleftrightarrow> (\<forall>x. m = Ok x \<longrightarrow> P x)"

lemma ensuresI: "(\<And>x. m = Ok x \<Longrightarrow> P x) \<Longrightarrow> ensures P m"
  by (simp add: ensures_def)

lemma ensures_intros:
  "ensures P (Inl e)"
  "(\<And>x. m = Ok x \<Longrightarrow> ensures P (f x)) \<Longrightarrow> ensures P (bindE m f)"
  "(b \<Longrightarrow> ensures P m') \<Longrightarrow> (\<not> b \<Longrightarrow> ensures P n) \<Longrightarrow> ensures P (if b then m' else n)"
  by (auto simp: ensures_def result_simps)

section \<open>Splitting, merging and withdrawing\<close>

text \<open>The account that gives lamports away is reset when it gives all of them.\<close>

definition drained :: "stake_codec \<Rightarrow> u64 \<Rightarrow> account_shared_data \<Rightarrow> account_shared_data" where
  "drained c n a =
     set_lamports (acc_lamports a - n) (if n = acc_lamports a then write_state c SS_Uninitialized a else a)"

definition credited :: "u64 \<Rightarrow> account_shared_data \<Rightarrow> account_shared_data" where
  "credited n a = set_lamports (acc_lamports a + n) a"

lemma split_transfer_Ok:
  assumes "bindE (deinitialize_if_drained c me n s) (\<lambda>s.
      bindE (ka_checked_add_lamports split n s) (ka_checked_sub_lamports me n)) = Ok s'"
    and "ka_account me \<noteq> ka_account split" "valid_keyed_account s me" "valid_keyed_account s split"
  shows "n \<le> ka_lamports s me \<and> ka_lamports s split + n \<le> u64_max \<and>
    s' = s[ka_account me := drained c n (account_ref s me), ka_account split := credited n (account_ref s split)]"
  using assms
  by (auto simp: deinitialize_if_drained_def result_simps ka_updates drained_def credited_def account_ref_def ka_lamports_def
      valid_keyed_account_def list_update_swap split: if_splits)

lemma split_states_Stake:
  assumes "split_states c me n split signers s = Ok s'" "deserialize_data c (account_ref s me) = Some (SS_Stake m st)"
    and "ka_account me \<noteq> ka_account split" "valid_keyed_account s me" "valid_keyed_account s split"
  obtains info delta amount st1 st2 where
    "au_staker (meta_authorized m) \<in> signers" "validate_split_amount s me split n m (Some st) = Ok info"
    "split_amounts s split n m info = (delta, amount)" "stake_split delta amount st = Ok (st1, st2)"
    "length (serialize c (SS_Stake m st1)) \<le> ka_data_len s me"
    "length (serialize c (SS_Stake (m\<lparr>rent_exempt_reserve := destination_rent_exempt_reserve info\<rparr>) st2)) \<le> ka_data_len s split"
    "s' = s[ka_account me := write_state c (SS_Stake m st1) (account_ref s me),
       ka_account split := write_state c
         (SS_Stake (m\<lparr>rent_exempt_reserve := destination_rent_exempt_reserve info\<rparr>) st2) (account_ref s split)]"
  using assms
  by (auto simp: split_states_def ka_state_Ok result_simps ka_updates account_ref_def ka_data_len_def
      valid_keyed_account_def Let_def case_prod_unfold intro!: that)

lemma split_states_Initialized:
  assumes "split_states c me n split signers s = Ok s'" "deserialize_data c (account_ref s me) = Some (SS_Initialized m)"
  obtains info where
    "au_staker (meta_authorized m) \<in> signers" "validate_split_amount s me split n m None = Ok info"
    "length (serialize c (SS_Initialized (m\<lparr>rent_exempt_reserve := destination_rent_exempt_reserve info\<rparr>))) \<le> ka_data_len s split"
    "s' = s[ka_account split := write_state c
         (SS_Initialized (m\<lparr>rent_exempt_reserve := destination_rent_exempt_reserve info\<rparr>)) (account_ref s split)]"
  using assms
  by (auto simp: split_states_def ka_state_Ok result_simps ka_updates)

lemma stake_split_cases:
  assumes "stake_account_split c me n split signers s = Ok s'"
  obtains "deserialize_data c (account_ref s me) = Some SS_Uninitialized" "unsigned_key me \<in> signers"
      "bindE (deinitialize_if_drained c me n s) (\<lambda>s.
         bindE (ka_checked_add_lamports split n s) (ka_checked_sub_lamports me n)) = Ok s'"
  | x m s1 where "deserialize_data c (account_ref s me) = Some x" "state_meta x = Some m"
      "ka_account me \<noteq> ka_account split" "split_states c me n split signers s = Ok s1"
      "bindE (deinitialize_if_drained c me n s1) (\<lambda>s.
         bindE (ka_checked_add_lamports split n s) (ka_checked_sub_lamports me n)) = Ok s'"
      "ka_owner s split = stake_program_id" "ka_data_len s split = STAKE_STATE_SIZE"
proof -
  obtain s1 where s1: "split_states c me n split signers s = Ok s1"
    "bindE (deinitialize_if_drained c me n s1) (\<lambda>s.
         bindE (ka_checked_add_lamports split n s) (ka_checked_sub_lamports me n)) = Ok s'"
    and sp: "deserialize_data c (account_ref s split) = Some SS_Uninitialized"
      "ka_owner s split = stake_program_id" "ka_data_len s split = STAKE_STATE_SIZE"
    using assms by (auto simp: stake_account_split_def result_simps ka_state_Ok split: if_splits)
  then obtain x where x: "deserialize_data c (account_ref s me) = Some x"
    by (auto simp: split_states_def result_simps ka_state_Ok)
  show ?thesis
  proof (cases "state_meta x")
    case None
    then have "x = SS_Uninitialized \<and> s1 = s \<and> unsigned_key me \<in> signers"
      using s1(1) x by (cases x) (auto simp: split_states_def result_simps ka_state_Ok split: if_splits)
    then show ?thesis using that(1) x s1(2) by simp
  next
    case (Some m)
    then have "ka_account me \<noteq> ka_account split" using x sp(1) by (auto simp: account_ref_def)
    then show ?thesis using that(2) [OF x Some] s1 sp by blast
  qed
qed

lemma get_if_mergeable_state:
  assumes "get_if_mergeable c ka clk h s = Ok k"
  obtains x where "deserialize_data c (account_ref s ka) = Some x" "state_meta x = Some (merge_kind_meta k)"
    "\<And>m l. k = MK_Inactive m l \<Longrightarrow> l = ka_lamports s ka"
    "\<And>st. merge_kind_active_stake k = Some st \<Longrightarrow> x = SS_Stake (merge_kind_meta k) st"
proof -
  obtain x where x: "deserialize_data c (account_ref s ka) = Some x"
    using assms by (auto simp: get_if_mergeable_def result_simps ka_state_Ok)
  then show ?thesis
    using assms by (cases x)
      (auto simp: get_if_mergeable_def result_simps ka_state_Ok Let_def ka_state_def account_state_def
        split: if_splits intro: that)
qed

lemma list_update_again: "i \<noteq> j \<Longrightarrow> xs[i := a, j := b, i := c] = xs[i := c, j := b]"
  by (metis list_update_overwrite list_update_swap)

lemma stake_merge_Ok:
  assumes "stake_merge c fs me source clk h signers s = Ok s'" "ka_account me \<noteq> ka_account source"
    and "valid_keyed_account s me" "valid_keyed_account s source"
  obtains k1 k2 merged where "get_if_mergeable c me clk h s = Ok k1" "get_if_mergeable c source clk h s = Ok k2"
    "au_staker (meta_authorized (merge_kind_meta k1)) \<in> signers" "merge_kinds fs k1 k2 clk = Ok merged"
    "\<forall>x. merged = Some x \<longrightarrow> length (serialize c x) \<le> ka_data_len s me"
    "s' = s[ka_account me := credited (ka_lamports s source)
         (case merged of None \<Rightarrow> account_ref s me | Some x \<Rightarrow> write_state c x (account_ref s me)),
       ka_account source := set_lamports 0 (write_state c SS_Uninitialized (account_ref s source))]"
    "ka_owner s source = stake_program_id"
proof -
  define moved where "moved t = bindE (ka_set_state c source SS_Uninitialized t) (\<lambda>t.
      bindE (ka_checked_sub_lamports source (ka_lamports t source) t) (ka_checked_add_lamports me (ka_lamports t source)))" for t
  obtain k1 k2 merged t where k: "get_if_mergeable c me clk h s = Ok k1" "get_if_mergeable c source clk h s = Ok k2"
    "au_staker (meta_authorized (merge_kind_meta k1)) \<in> signers" "merge_kinds fs k1 k2 clk = Ok merged"
    and own: "ka_owner s source = stake_program_id"
    and t: "(case merged of Some x \<Rightarrow> ka_set_state c me x s | None \<Rightarrow> Ok s) = Ok t" and "moved t = Ok s'"
    using assms(1) by (auto simp: stake_merge_def moved_def result_simps Let_def split: if_splits)
  moreover have "t = s[ka_account me := (case merged of None \<Rightarrow> account_ref s me | Some x \<Rightarrow> write_state c x (account_ref s me))]"
    "\<And>x. merged = Some x \<Longrightarrow> length (serialize c x) \<le> ka_data_len s me"
    using t by (auto simp: ka_updates account_ref_def split: option.splits)
  ultimately show ?thesis
    using assms(2-4)
    by (intro that [OF k]) (simp_all add: moved_def result_simps ka_updates credited_def account_ref_def ka_lamports_def
        valid_keyed_account_def list_update_again)
qed

lemma stake_withdraw_Ok:
  assumes "stake_withdraw c me n to clk h auth cust s = Ok s'" "valid_keyed_account s me"
  obtains x lk reserve staked where "is_signer auth" "deserialize_data c (account_ref s me) = Some x"
    "withdraw_limits x me clk h {unsigned_key auth} = Ok (lk, reserve, staked)"
    "\<not> is_in_force lk clk (Option.bind cust signer_key)" "n \<le> ka_lamports s me"
    "n + reserve \<le> ka_lamports s me \<or> n = ka_lamports s me"
    "s' = (s[ka_account me := drained c n (account_ref s me)])
       [ka_account to := credited n (account_ref (s[ka_account me := drained c n (account_ref s me)]) to)]"
  using assms
  by (auto simp: stake_withdraw_def result_simps ka_updates ka_state_Ok Let_def credited_def drained_def
      account_ref_def ka_lamports_def deinitialize_if_drained_def signer_key_def
      valid_keyed_account_def ok_or_def split: if_splits option.splits intro!: that)

section \<open>Stakes stay backed\<close>

text \<open>
  A stake account is sound when its lamports cover the reserve, and also the delegated stake as long as the
  stake is not deactivated. The bounds on the length of the data are those of accounts that the program
  initialised or that were split off.
\<close>

fun state_sound :: "stake_state \<Rightarrow> usize \<Rightarrow> u64 \<Rightarrow> bool" where
  "state_sound (SS_Initialized m) len lamports \<longleftrightarrow>
     STAKE_STATE_SIZE \<le> len \<and> len + ACCOUNT_STORAGE_OVERHEAD \<le> u64_max \<and> rent_exempt_reserve m \<le> lamports"
| "state_sound (SS_Stake m st) len lamports \<longleftrightarrow>
     STAKE_STATE_SIZE \<le> len \<and> len + ACCOUNT_STORAGE_OVERHEAD \<le> u64_max \<and> rent_exempt_reserve m \<le> lamports \<and>
     (deactivation_epoch (st_delegation st) = u64_max \<longrightarrow> dg_stake (st_delegation st) + rent_exempt_reserve m \<le> lamports)"
| "state_sound _ _ _ \<longleftrightarrow> True"

definition stake_sound :: "stake_codec \<Rightarrow> account_shared_data \<Rightarrow> bool" where
  "stake_sound c a \<longleftrightarrow> (acc_owner a = stake_program_id \<longrightarrow>
     (\<forall>x. deserialize_data c a = Some x \<longrightarrow> state_sound x (length (acc_data a)) (acc_lamports a)))"

definition store_sound :: "stake_codec \<Rightarrow> store \<Rightarrow> bool" where
  "store_sound c s \<longleftrightarrow> (\<forall>a \<in> set s. stake_sound c a)"

lemma state_sound_mono: "state_sound x len n \<Longrightarrow> n \<le> n' \<Longrightarrow> state_sound x len n'"
  by (cases x) auto

lemma store_sound_update: "store_sound c s \<Longrightarrow> stake_sound c a \<Longrightarrow> store_sound c (s[i := a])"
  by (auto simp: store_sound_def dest!: set_update_subset_insert [THEN subsetD])

lemma store_sound_ref: "store_sound c s \<Longrightarrow> valid_keyed_account s ka \<Longrightarrow> stake_sound c (account_ref s ka)"
  by (simp add: store_sound_def valid_keyed_account_def account_ref_def)

lemma stake_sound_write:
  assumes "codec_faithful c" "length (serialize c x) \<le> length (acc_data a)"
    and "state_sound x (length (acc_data a)) n"
  shows "stake_sound c (set_lamports n (write_state c x a))"
  using assms write_state_read [OF assms(1)]
  by (auto simp: stake_sound_def deserialize_data_def)

lemma stake_sound_credited: "stake_sound c a \<Longrightarrow> stake_sound c (credited n a)"
  by (auto simp: stake_sound_def credited_def deserialize_data_def intro: state_sound_mono)

lemma stake_sound_reset:
  "codec_faithful c \<Longrightarrow> stake_sound c (set_lamports n (write_state c SS_Uninitialized a))"
  using write_state_read [of c SS_Uninitialized a] by (fastforce simp: stake_sound_def deserialize_data_def)

lemma stake_sound_drained:
  assumes "codec_faithful c" "n \<noteq> acc_lamports a \<Longrightarrow> stake_sound c (set_lamports (acc_lamports a - n) a)"
  shows "stake_sound c (drained c n a)"
  using assms stake_sound_reset by (auto simp: drained_def)

lemma set_lamports_same [simp]: "set_lamports (acc_lamports a) a = a"
  by (simp add: set_lamports_def)

lemma sound_set_state:
  assumes "ka_set_state c ka x s = Ok s'" "codec_faithful c" "store_sound c s"
    and "state_sound x (ka_data_len s ka) (ka_lamports s ka)"
  shows "store_sound c s'"
  using assms stake_sound_write [OF assms(2), of x "account_ref s ka" "acc_lamports (write_state c x (account_ref s ka))"]
  by (auto simp: ka_updates ka_data_len_def ka_lamports_def simp del: write_state_frame intro!: store_sound_update)
    (simp add: write_state_def)

lemma sound_read:
  assumes "store_sound c s" "valid_keyed_account s ka" "ka_owner s ka = stake_program_id"
    and "deserialize_data c (account_ref s ka) = Some x"
  shows "state_sound x (ka_data_len s ka) (ka_lamports s ka)"
  using store_sound_ref [OF assms(1,2)] assms(3,4)
  by (simp add: stake_sound_def ka_owner_def ka_data_len_def ka_lamports_def)

lemma initialize_sound:
  assumes "stake_initialize c me auth lk r s = Ok s'" "codec_faithful c" "store_sound c s"
    and "minimum_balance r STAKE_STATE_SIZE < u64_max"
  shows "store_sound c s'"
proof -
  obtain x where x: "ka_state c s me = Ok x"
    using assms(1) by (auto simp: stake_initialize_def result_simps split: if_splits)
  then have "ka_set_state c me (SS_Initialized \<lparr>rent_exempt_reserve = minimum_balance r STAKE_STATE_SIZE,
      meta_authorized = auth, meta_lockup = lk\<rparr>) s = Ok s'"
    and len: "ka_data_len s me = STAKE_STATE_SIZE"
    and "minimum_balance r STAKE_STATE_SIZE + 1 \<le> ka_lamports s me"
    using assms(1,4)
    by (cases x; simp add: stake_initialize_def result_simps Let_def MINIMUM_STAKE_DELEGATION_def split: if_splits)+
  then show ?thesis
    by (elim sound_set_state) (auto simp: assms len STAKE_STATE_SIZE_def ACCOUNT_STORAGE_OVERHEAD_def)
qed

lemma authorize_sound:
  assumes "stake_account_authorize c me signers k sa b clk cust s = Ok s'" "codec_faithful c" "store_sound c s"
    and "valid_keyed_account s me" "ka_owner s me = stake_program_id"
  shows "store_sound c s'"
proof -
  obtain x where x: "deserialize_data c (account_ref s me) = Some x"
    using assms(1) by (auto simp: stake_account_authorize_def result_simps ka_state_Ok)
  then show ?thesis
    using assms(1-3) sound_read [OF assms(3-5) x]
    by (cases x) (auto simp: stake_account_authorize_def authorize_meta_def result_simps ka_state_Ok
        ka_state_def account_state_def elim!: sound_set_state)
qed

lemma authorize_with_seed_sound:
  assumes "stake_authorize_with_seed hashv c me base seed owner k sa b clk cust s = Ok s'" "codec_faithful c" "store_sound c s"
    and "valid_keyed_account s me" "ka_owner s me = stake_program_id"
  shows "store_sound c s'"
  using assms(1) authorize_sound [OF _ assms(2-5)] by (auto simp: stake_authorize_with_seed_def result_simps)

lemma set_lockup_sound:
  assumes "stake_set_lockup c me args signers clk s = Ok s'" "codec_faithful c" "store_sound c s"
    and "valid_keyed_account s me" "ka_owner s me = stake_program_id"
  shows "store_sound c s'"
proof -
  obtain x where x: "deserialize_data c (account_ref s me) = Some x"
    using assms(1) by (auto simp: stake_set_lockup_def result_simps ka_state_Ok)
  have keep: "meta_set_lockup args signers clk m = Ok m' \<Longrightarrow> rent_exempt_reserve m' = rent_exempt_reserve m" for m m'
    by (auto simp: meta_set_lockup_def result_simps Let_def split: if_splits)
  show ?thesis
    using assms(1-3) sound_read [OF assms(3-5) x] x
    by (cases x) (auto simp: stake_set_lockup_def result_simps ka_state_def account_state_def
        dest!: keep elim!: sound_set_state)
qed

lemma deactivate_sound:
  assumes "stake_account_deactivate c me clk signers s = Ok s'" "codec_faithful c" "store_sound c s"
    and "valid_keyed_account s me" "ka_owner s me = stake_program_id" "clock_epoch clk < u64_max"
  shows "store_sound c s'"
proof -
  obtain x where x: "deserialize_data c (account_ref s me) = Some x"
    using assms(1) by (auto simp: stake_account_deactivate_def result_simps ka_state_Ok)
  then show ?thesis
    using assms(1-3,6) sound_read [OF assms(3-5) x]
    by (cases x) (auto simp: stake_account_deactivate_def stake_deactivate_def result_simps ka_state_def account_state_def
        split: if_splits elim!: sound_set_state)
qed

text \<open>
  Delegation. A delegation to the same vote account in the epoch of the deactivation takes the deactivation back and
  leaves the delegated amount as it was, whether or not the lamports are still there.
\<close>

definition rescinded :: "stake_codec \<Rightarrow> clock \<Rightarrow> account_shared_data \<Rightarrow> account_shared_data \<Rightarrow> bool" where
  "rescinded c clk a a' \<longleftrightarrow>
     (\<exists>m st. deserialize_data c a = Some (SS_Stake m st) \<and> deactivation_epoch (st_delegation st) = clock_epoch clk \<and>
        account_set_state c (SS_Stake m (st\<lparr>st_delegation := (st_delegation st)\<lparr>deactivation_epoch := u64_max\<rparr>\<rparr>)) a = Ok a')"

lemma redelegate_Ok:
  assumes "redelegate amount voter vs clk h config st = Ok st'"
  shows "deactivation_epoch (st_delegation st') = u64_max \<and> dg_stake (st_delegation st') = amount \<or>
     deactivation_epoch (st_delegation st) = clock_epoch clk \<and> st' = st\<lparr>st_delegation := (st_delegation st)\<lparr>deactivation_epoch := u64_max\<rparr>\<rparr>"
  using assms by (auto simp: redelegate_def split: if_splits)

lemma delegate_sound:
  assumes "stake_delegate c vc me vote clk h config signers s = Ok s'" "codec_faithful c" "store_sound c s"
    and "valid_keyed_account s me" "ka_owner s me = stake_program_id"
  shows "store_sound c s' \<or> (\<exists>a. s' = s[ka_account me := a] \<and> rescinded c clk (account_ref s me) a)"
proof -
  obtain x where x: "deserialize_data c (account_ref s me) = Some x"
    using assms(1) by (auto simp: stake_delegate_def result_simps ka_state_Ok split: if_splits)
  note sound = sound_read [OF assms(3-5) x]
  show ?thesis
  proof (cases x)
    case (SS_Stake m st)
    then obtain voter vs st' where st': "redelegate (validate_delegated_amount s me m) voter vs clk h config st = Ok st'"
      "ka_set_state c me (SS_Stake m st') s = Ok s'"
      using assms(1) x by (auto simp: stake_delegate_def Let_def result_simps ka_state_def account_state_def split: if_splits)
    from redelegate_Ok [OF st'(1)] show ?thesis
    proof
      assume "deactivation_epoch (st_delegation st') = u64_max \<and> dg_stake (st_delegation st') = validate_delegated_amount s me m"
      then have "store_sound c s'"
        using sound SS_Stake
        by (intro sound_set_state [OF st'(2) assms(2,3)]) (simp add: validate_delegated_amount_def saturating_sub64_def)
      then show ?thesis ..
    next
      assume "deactivation_epoch (st_delegation st) = clock_epoch clk \<and>
        st' = st\<lparr>st_delegation := (st_delegation st)\<lparr>deactivation_epoch := u64_max\<rparr>\<rparr>"
      with st'(2) x SS_Stake show ?thesis
        by (auto simp: rescinded_def ka_set_state_def account_ref_mut_def result_simps)
    qed
  qed (use assms(1-3) x sound in \<open>auto simp: stake_delegate_def new_stake_def delegation_new_def
      validate_delegated_amount_def saturating_sub64_def Let_def result_simps ka_state_def account_state_def
      split: if_splits elim!: sound_set_state\<close>)
qed

text \<open>Withdrawal: what stays covers the reserve, and the stake unless it is deactivated.\<close>

lemma withdraw_sound:
  assumes "stake_withdraw c me n to clk h auth cust s = Ok s'" "codec_faithful c" "store_sound c s"
    and "valid_keyed_account s me" "valid_keyed_account s to" "ka_owner s me = stake_program_id" "clock_epoch clk < u64_max"
  shows "store_sound c s'"
proof -
  obtain x lk reserve staked where w: "deserialize_data c (account_ref s me) = Some x"
    "withdraw_limits x me clk h {unsigned_key auth} = Ok (lk, reserve, staked)"
    "n + reserve \<le> ka_lamports s me \<or> n = ka_lamports s me"
    "s' = (s[ka_account me := drained c n (account_ref s me)])
       [ka_account to := credited n (account_ref (s[ka_account me := drained c n (account_ref s me)]) to)]"
    by (rule stake_withdraw_Ok [OF assms(1,4)])
  have x: "state_sound x (ka_data_len s me) (ka_lamports s me)"
    by (rule sound_read [OF assms(3,4,6) w(1)])
  have "state_sound x (ka_data_len s me) (ka_lamports s me - n)" if "n \<noteq> ka_lamports s me"
    using that x w(2,3) assms(7) by (cases x) (auto simp: withdraw_limits_def result_simps Let_def split: if_splits)
  then have "stake_sound c (drained c n (account_ref s me))"
    using w(1) by (intro stake_sound_drained assms(2))
      (simp add: ka_lamports_def ka_data_len_def stake_sound_def deserialize_data_def)
  then have me: "store_sound c (s[ka_account me := drained c n (account_ref s me)])"
    by (intro store_sound_update assms(3))
  have "stake_sound c (account_ref (s[ka_account me := drained c n (account_ref s me)]) to)"
    by (rule store_sound_ref [OF me]) (use assms(5) in \<open>simp add: valid_keyed_account_def\<close>)
  then show ?thesis
    unfolding w(4) by (intro store_sound_update [OF me] stake_sound_credited)
qed

text \<open>Split: both parts cover their reserve and their share of the stake.\<close>

lemma split_reserve_le:
  assumes "split_len \<le> source_len" "source_len + ACCOUNT_STORAGE_OVERHEAD \<le> u64_max"
  shows "calculate_split_rent_exempt_reserve reserve source_len split_len \<le> reserve"
proof -
  let ?r = "reserve div (source_len + ACCOUNT_STORAGE_OVERHEAD)"
  have "wrap64 (?r * (split_len + ACCOUNT_STORAGE_OVERHEAD)) \<le> ?r * (split_len + ACCOUNT_STORAGE_OVERHEAD)"
    by (simp add: wrap64_def)
  also have "\<dots> \<le> ?r * (source_len + ACCOUNT_STORAGE_OVERHEAD)"
    using assms(1) by (intro mult_left_mono) simp_all
  also have "\<dots> \<le> reserve" by simp
  finally show ?thesis
    using assms by (simp add: calculate_split_rent_exempt_reserve_def Let_def)
qed

lemma validate_split_Ok:
  assumes "validate_split_amount s me split n m st = Ok info" "ka_lamports s me \<le> u64_max"
  shows "0 < n \<and> n \<le> ka_lamports s me \<and> source_remaining_balance info = ka_lamports s me - n \<and>
    (n = ka_lamports s me \<or> n + rent_exempt_reserve m < ka_lamports s me) \<and>
    destination_rent_exempt_reserve info =
      calculate_split_rent_exempt_reserve (rent_exempt_reserve m) (ka_data_len s me) (ka_data_len s split) \<and>
    destination_rent_exempt_reserve info \<le> ka_lamports s split + n"
proof -
  have le: "calculate_split_rent_exempt_reserve a b d \<le> u64_max" for a b d
    using wrap64_less by (simp add: calculate_split_rent_exempt_reserve_def Let_def less_Suc_eq_le [symmetric])
  show ?thesis
    using assms le [of "rent_exempt_reserve m" "ka_data_len s me" "ka_data_len s split"]
    by (auto simp: validate_split_amount_def Let_def saturating_add64_def saturating_sub64_def MINIMUM_STAKE_DELEGATION_def
        split: if_splits)
qed

lemma split_parts_sound:
  assumes "state_sound (SS_Stake m st) (ka_data_len s me) (ka_lamports s me)" "ka_lamports s me \<le> u64_max"
    and "ka_data_len s split = STAKE_STATE_SIZE"
    and info: "validate_split_amount s me split n m (Some st) = Ok info"
    and split: "split_amounts s split n m info = (delta, amount)" "stake_split delta amount st = Ok (st1, st2)"
  shows "state_sound (SS_Stake (m\<lparr>rent_exempt_reserve := destination_rent_exempt_reserve info\<rparr>) st2)
      STAKE_STATE_SIZE (ka_lamports s split + n)"
    and "n \<noteq> ka_lamports s me \<Longrightarrow> state_sound (SS_Stake m st1) (ka_data_len s me) (ka_lamports s me - n)"
proof -
  note v = validate_split_Ok [OF info assms(2)]
  have r: "destination_rent_exempt_reserve info \<le> rent_exempt_reserve m"
    using v assms(1,3) split_reserve_le [of "ka_data_len s split" "ka_data_len s me"] by simp
  have st: "dg_stake (st_delegation st2) = amount" "delta \<le> dg_stake (st_delegation st)"
    "deactivation_epoch (st_delegation st2) = deactivation_epoch (st_delegation st)"
    "dg_stake (st_delegation st1) = dg_stake (st_delegation st) - delta"
    "deactivation_epoch (st_delegation st1) = deactivation_epoch (st_delegation st)"
    using split(2) by (auto simp: stake_split_def Let_def split: if_splits)
  have "amount + destination_rent_exempt_reserve info \<le> ka_lamports s split + n"
    using split(1) v r by (auto simp: split_amounts_def Let_def saturating_sub64_def split: if_splits)
  then show "state_sound (SS_Stake (m\<lparr>rent_exempt_reserve := destination_rent_exempt_reserve info\<rparr>) st2)
      STAKE_STATE_SIZE (ka_lamports s split + n)"
    using v st by (simp add: STAKE_STATE_SIZE_def ACCOUNT_STORAGE_OVERHEAD_def)
  show "state_sound (SS_Stake m st1) (ka_data_len s me) (ka_lamports s me - n)" if "n \<noteq> ka_lamports s me"
    using that split(1) v st assms(1) by (auto simp: split_amounts_def split: if_splits)
qed

lemma split_uninitialized_sound:
  assumes "bindE (deinitialize_if_drained c me n s) (\<lambda>s.
      bindE (ka_checked_add_lamports split n s) (ka_checked_sub_lamports me n)) = Ok s'"
    and "deserialize_data c (account_ref s me) = Some SS_Uninitialized"
    and "codec_faithful c" "store_sound c s" "valid_keyed_account s me" "valid_keyed_account s split"
  shows "store_sound c s'"
proof -
  obtain s1 s2 where s1: "deinitialize_if_drained c me n s = Ok s1" "ka_checked_add_lamports split n s1 = Ok s2"
    "ka_checked_sub_lamports me n s2 = Ok s'"
    using assms(1) by (auto simp: result_simps)
  have len: "length s1 = length s"
    using s1(1) by (auto simp: deinitialize_if_drained_def ka_updates split: if_splits)
  have sound1: "store_sound c s1" and un1: "\<And>y. deserialize_data c (account_ref s1 me) = Some y \<Longrightarrow> y = SS_Uninitialized"
    using s1(1) assms(2-5) write_state_read [OF assms(3), of SS_Uninitialized "account_ref s me"]
    by (auto simp: deinitialize_if_drained_def ka_set_state_Ok account_ref_def valid_keyed_account_def
        intro: sound_set_state split: if_splits)
  have s2: "s2 = s1[ka_account split := credited n (account_ref s1 split)]"
    using s1(2) by (simp add: ka_updates credited_def ka_lamports_def)
  have sound2: "store_sound c s2"
    unfolding s2 using assms(6) sound1 len
    by (intro store_sound_update stake_sound_credited store_sound_ref) (simp_all add: valid_keyed_account_def)
  have "\<And>y. deserialize_data c (account_ref s2 me) = Some y \<Longrightarrow> y = SS_Uninitialized"
    using un1 assms(5) len unfolding s2
    by (cases "ka_account me = ka_account split")
      (auto simp: account_ref_def deserialize_data_def credited_def valid_keyed_account_def)
  then have "stake_sound c (set_lamports (ka_lamports s2 me - n) (account_ref s2 me))"
    by (force simp: stake_sound_def deserialize_data_def)
  with sound2 s1(3) show ?thesis by (auto simp: ka_updates intro: store_sound_update)
qed

lemma split_sound:
  assumes "stake_account_split c me n split signers s = Ok s'" "codec_faithful c" "store_sound c s"
    and "valid_keyed_account s me" "valid_keyed_account s split" "ka_owner s me = stake_program_id"
    and "ka_lamports s me \<le> u64_max"
  shows "store_sound c s'"
  using assms(1)
proof (cases rule: stake_split_cases)
  case 1
  then show ?thesis using split_uninitialized_sound [OF 1(3,1) assms(2-5)] by simp
next
  case (2 x m s1)
  note x = sound_read [OF assms(3,4,6) 2(1)]
  have s1: "valid_keyed_account s1 me" "valid_keyed_account s1 split"
    using 2(4) split_states_conserving [OF assms(4,5), of c n signers] assms(4,5)
    by (auto simp: conserving_def store_frame_valid)
  note moved = split_transfer_Ok [OF 2(5,3) s1]
  have both: "store_sound c s'"
    if "stake_sound c (drained c n (account_ref s1 me))" "stake_sound c (credited n (account_ref s1 split))"
      "s1 = s[ka_account me := a, ka_account split := b]" for a b
    using that moved assms(3) 2(3) by (simp add: list_update_again store_sound_update)
  show ?thesis
  proof (cases x)
    case (SS_Stake m' st)
    then have x': "deserialize_data c (account_ref s me) = Some (SS_Stake m st)" using 2(1,2) by simp
    show ?thesis
      using 2(4) x' 2(3) assms(4,5)
    proof (cases rule: split_states_Stake)
      case (1 info delta amount st1 st2)
      note parts = split_parts_sound [OF sound_read [OF assms(3,4,6) x'] assms(7) 2(7) 1(2-4)]
      have refs: "account_ref s1 me = write_state c (SS_Stake m st1) (account_ref s me)"
        "account_ref s1 split = write_state c (SS_Stake (m\<lparr>rent_exempt_reserve := destination_rent_exempt_reserve info\<rparr>) st2)
          (account_ref s split)"
        using 1(7) 2(3) assms(4,5) by (simp_all add: account_ref_def valid_keyed_account_def)
      show ?thesis
      proof (rule both [OF _ _ 1(7)])
        show "stake_sound c (drained c n (account_ref s1 me))"
          unfolding refs using parts(2) 1(5)
          by (intro stake_sound_drained assms(2) stake_sound_write) (simp_all add: ka_data_len_def ka_lamports_def)
        show "stake_sound c (credited n (account_ref s1 split))"
          unfolding refs credited_def using parts(1) 1(6) 2(7)
          by (intro stake_sound_write assms(2)) (simp_all add: ka_data_len_def ka_lamports_def)
      qed
    qed
  next
    case (SS_Initialized m')
    then have x': "deserialize_data c (account_ref s me) = Some (SS_Initialized m)" using 2(1,2) by simp
    show ?thesis
      using 2(4) x'
    proof (cases rule: split_states_Initialized)
      case (1 info)
      note v = validate_split_Ok [OF 1(2) assms(7)]
      have refs: "account_ref s1 me = account_ref s me"
        "account_ref s1 split = write_state c (SS_Initialized (m\<lparr>rent_exempt_reserve := destination_rent_exempt_reserve info\<rparr>))
          (account_ref s split)"
        using 1(4) 2(3) assms(4,5) by (simp_all add: account_ref_def valid_keyed_account_def)
      show ?thesis
      proof (rule both)
        show "stake_sound c (drained c n (account_ref s1 me))"
          unfolding refs using sound_read [OF assms(3,4,6) x'] v x'
          by (intro stake_sound_drained assms(2))
            (auto simp: stake_sound_def deserialize_data_def ka_data_len_def ka_lamports_def)
        show "stake_sound c (credited n (account_ref s1 split))"
          unfolding refs credited_def using v 1(3) 2(7)
          by (intro stake_sound_write assms(2))
            (simp_all add: ka_data_len_def ka_lamports_def STAKE_STATE_SIZE_def ACCOUNT_STORAGE_OVERHEAD_def)
        show "s1 = s[ka_account me := account_ref s me, ka_account split := account_ref s1 split]"
          using 1(4) refs(2) by (simp add: account_ref_def)
      qed
    qed
  qed (use 2(2) in simp_all)
qed

text \<open>Merge: the stake of the source comes with the lamports of the source.\<close>

lemma active_delegations_can_merge_Ok:
  assumes "active_delegations_can_merge d source = Ok u"
  shows "dg_voter_pubkey d = dg_voter_pubkey source" "deactivation_epoch d = u64_max" "deactivation_epoch source = u64_max"
  using assms by (auto simp: active_delegations_can_merge_def split: if_splits)

lemma merge_delegation_Ok:
  assumes "merge_delegation_stake_and_credits_observed fs n cr st = Ok st'"
  shows "dg_stake (st_delegation st') = dg_stake (st_delegation st) + n \<and>
    deactivation_epoch (st_delegation st') = deactivation_epoch (st_delegation st)"
  using assms
  by (auto simp: merge_delegation_stake_and_credits_observed_def result_simps split: if_splits)

lemma merge_kinds_Ok:
  assumes "merge_kinds fs k1 k2 clk = Ok merged"
  shows "meta_authorized (merge_kind_meta k1) = meta_authorized (merge_kind_meta k2)"
    "meta_lockup (merge_kind_meta k1) = meta_lockup (merge_kind_meta k2) \<or>
     \<not> is_in_force (meta_lockup (merge_kind_meta k1)) clk None \<and> \<not> is_in_force (meta_lockup (merge_kind_meta k2)) clk None"
    "merge_kind_active_stake k1 = Some st1 \<Longrightarrow> merge_kind_active_stake k2 = Some st2 \<Longrightarrow>
       deactivation_epoch (st_delegation st1) = u64_max \<and> deactivation_epoch (st_delegation st2) = u64_max"
  using assms
  by (auto simp: merge_kinds_def metas_can_merge_def active_stakes_can_merge_def Let_def result_simps
      dest: active_delegations_can_merge_Ok split: if_splits)

lemma merge_kinds_Some:
  assumes "merge_kinds fs k1 k2 clk = Ok (Some x)"
  obtains m st st' where "merge_kind_meta k1 = m" "merge_kind_active_stake k1 = Some st" "x = SS_Stake m st'"
    "deactivation_epoch (st_delegation st') = deactivation_epoch (st_delegation st)"
    "(\<exists>m2 l. k2 = MK_Inactive m2 l \<and> dg_stake (st_delegation st') = dg_stake (st_delegation st) + l) \<or>
     (\<exists>st2. merge_kind_active_stake k2 = Some st2 \<and>
        dg_stake (st_delegation st') \<le>
          dg_stake (st_delegation st) + dg_stake (st_delegation st2) + rent_exempt_reserve (merge_kind_meta k2))"
  using assms
  by (cases k1; cases k2) (auto simp: merge_kinds_def result_simps dest!: merge_delegation_Ok intro: that)

lemma merged_state_sound:
  assumes "merge_kinds fs k1 k2 clk = Ok (Some x)"
    and k1: "get_if_mergeable c me clk h s = Ok k1" and k2: "get_if_mergeable c source clk h s = Ok k2"
    and sound: "store_sound c s" "valid_keyed_account s me" "valid_keyed_account s source"
      "ka_owner s me = stake_program_id" "ka_owner s source = stake_program_id"
  shows "state_sound x (ka_data_len s me) (ka_lamports s me + ka_lamports s source)"
proof -
  obtain m st st' where m: "merge_kind_meta k1 = m" "merge_kind_active_stake k1 = Some st" "x = SS_Stake m st'"
    "deactivation_epoch (st_delegation st') = deactivation_epoch (st_delegation st)"
    "(\<exists>m2 l. k2 = MK_Inactive m2 l \<and> dg_stake (st_delegation st') = dg_stake (st_delegation st) + l) \<or>
     (\<exists>st2. merge_kind_active_stake k2 = Some st2 \<and>
        dg_stake (st_delegation st') \<le>
          dg_stake (st_delegation st) + dg_stake (st_delegation st2) + rent_exempt_reserve (merge_kind_meta k2))"
    by (rule merge_kinds_Some [OF assms(1)])
  have me: "deserialize_data c (account_ref s me) = Some (SS_Stake m st)"
    using k1 m(1,2) by (elim get_if_mergeable_state) auto
  note me = sound_read [OF sound(1,2,4) me]
  from m(5) consider l m2 where "k2 = MK_Inactive m2 l" "dg_stake (st_delegation st') = dg_stake (st_delegation st) + l"
    | st2 where "merge_kind_active_stake k2 = Some st2"
      "dg_stake (st_delegation st') \<le>
         dg_stake (st_delegation st) + dg_stake (st_delegation st2) + rent_exempt_reserve (merge_kind_meta k2)"
    by blast
  then show ?thesis
  proof cases
    case 1
    moreover have "l = ka_lamports s source" using k2 1(1) by (elim get_if_mergeable_state) auto
    ultimately show ?thesis using me m(3,4) by auto
  next
    case 2
    have "deserialize_data c (account_ref s source) = Some (SS_Stake (merge_kind_meta k2) st2)"
      using k2 2(1) by (elim get_if_mergeable_state) auto
    note source = sound_read [OF sound(1,3,5) this]
    then show ?thesis
      using merge_kinds_Ok(3) [OF assms(1) m(2) 2(1)] me m(3,4) 2(2) by auto
  qed
qed

lemma merge_sound:
  assumes "stake_merge c fs me source clk h signers s = Ok s'" "codec_faithful c" "store_sound c s"
    and "valid_keyed_account s me" "valid_keyed_account s source" "ka_owner s me = stake_program_id"
    and "ka_account me \<noteq> ka_account source"
  shows "store_sound c s'"
proof -
  obtain k1 k2 merged where k: "get_if_mergeable c me clk h s = Ok k1" "get_if_mergeable c source clk h s = Ok k2"
    "au_staker (meta_authorized (merge_kind_meta k1)) \<in> signers" "merge_kinds fs k1 k2 clk = Ok merged"
    "\<forall>x. merged = Some x \<longrightarrow> length (serialize c x) \<le> ka_data_len s me"
    "s' = s[ka_account me := credited (ka_lamports s source)
         (case merged of None \<Rightarrow> account_ref s me | Some x \<Rightarrow> write_state c x (account_ref s me)),
       ka_account source := set_lamports 0 (write_state c SS_Uninitialized (account_ref s source))]"
    "ka_owner s source = stake_program_id"
    by (rule stake_merge_Ok [OF assms(1,7,4,5)])
  have "stake_sound c (credited (ka_lamports s source)
      (case merged of None \<Rightarrow> account_ref s me | Some x \<Rightarrow> write_state c x (account_ref s me)))"
  proof (cases merged)
    case None
    then show ?thesis using store_sound_ref [OF assms(3,4)] by (simp add: stake_sound_credited)
  next
    case (Some x)
    then have "state_sound x (ka_data_len s me) (ka_lamports s me + ka_lamports s source)"
      using merged_state_sound [OF _ k(1,2) assms(3-6) k(7)] k(4) by simp
    then show ?thesis
      unfolding credited_def Some using k(5) Some
      by (simp add: ka_data_len_def ka_lamports_def stake_sound_write [OF assms(2)])
  qed
  then show ?thesis
    unfolding k(6) by (intro store_sound_update assms(3) stake_sound_reset assms(2))
qed

section \<open>Instructions\<close>

text \<open>Two keyed accounts of an instruction share a cell iff they have the same key.\<close>

definition cells_by_key :: "keyed_account list \<Rightarrow> bool" where
  "cells_by_key kas \<longleftrightarrow> (\<forall>a \<in> set kas. \<forall>b \<in> set kas. ka_account a = ka_account b \<longrightarrow> unsigned_key a = unsigned_key b)"

text \<open>The epoch and the rent are far from the end of the range.\<close>

definition sane_sysvars :: "invoke_context \<Rightarrow> bool" where
  "sane_sysvars ic \<longleftrightarrow>
     (\<forall>clk. get_clock (ic_sysvar_cache ic) = Ok clk \<longrightarrow> clock_epoch clk < u64_max) \<and>
     (\<forall>r. get_rent (ic_sysvar_cache ic) = Ok r \<longrightarrow> minimum_balance r STAKE_STATE_SIZE < u64_max)"

lemma sysvars_at:
  "clock_at kas i ic = Ok clk \<Longrightarrow> get_clock (ic_sysvar_cache ic) = Ok clk"
  "rent_at kas i ic = Ok r \<Longrightarrow> get_rent (ic_sysvar_cache ic) = Ok r"
  by (auto simp: clock_at_def rent_at_def check_clock_def check_rent_def result_simps)

lemma stake_ops_sound:
  assumes "codec_faithful c" "store_sound c s" "valid_keyed_account s me" "ka_owner s me = stake_program_id"
    and "ka_lamports s me \<le> u64_max"
  shows "minimum_balance r STAKE_STATE_SIZE < u64_max \<Longrightarrow> ensures (store_sound c) (stake_initialize c me auth lk r s)"
    "ensures (store_sound c) (stake_account_authorize c me signers k sa b clk cust s)"
    "ensures (store_sound c) (stake_authorize_with_seed hashv c me base seed owner k sa b clk cust s)"
    "ensures (store_sound c) (stake_set_lockup c me args signers clk s)"
    "clock_epoch clk < u64_max \<Longrightarrow> ensures (store_sound c) (stake_account_deactivate c me clk signers s)"
    "valid_keyed_account s to \<Longrightarrow> ensures (store_sound c) (stake_account_split c me n to signers s)"
    "valid_keyed_account s to \<Longrightarrow> clock_epoch clk < u64_max \<Longrightarrow>
       ensures (store_sound c) (stake_withdraw c me n to clk h auth_ka cust_ka s)"
  by (rule ensuresI;
      erule initialize_sound authorize_sound authorize_with_seed_sound set_lockup_sound deactivate_sound split_sound withdraw_sound;
      (assumption | rule assms))+

lemma process_stake_sound:
  assumes "process_stake_instruction env first instr ic me signers s = Ok s'" "instr \<noteq> SI_DelegateStake"
    and "store_sound (ste_codec env) s" "codec_faithful (ste_codec env)" "ka_owner s me = stake_program_id"
    and "valid_accounts s (ic_keyed_accounts ic)" "cells_by_key (ic_keyed_accounts ic)" "me \<in> set (ic_keyed_accounts ic)"
    and "lamports_in_range s" "sane_sysvars ic"
  shows "store_sound (ste_codec env) s'"
proof -
  note valid = keyed_account_at_valid [OF assms(6)]
  have mem: "keyed_account_at_index (ic_keyed_accounts ic) i = Ok ka \<Longrightarrow> ka \<in> set (ic_keyed_accounts ic)" for i ka
    by (auto simp: keyed_account_at_index_def split: if_splits)
  have me: "valid_keyed_account s me" using assms(6,8) by (simp add: valid_accounts_def)
  have range: "ka_lamports s me \<le> u64_max"
    using assms(9) me by (simp add: lamports_in_range_def ka_lamports_def account_ref_def valid_keyed_account_def)
  have epoch: "clock_at kas i ic = Ok clk \<Longrightarrow> clock_epoch clk < u64_max" for kas i clk
    using assms(10) sysvars_at(1) by (simp add: sane_sysvars_def)
  have rent: "rent_at kas i ic = Ok r \<Longrightarrow> minimum_balance r STAKE_STATE_SIZE < u64_max" for kas i r
    using assms(10) sysvars_at(2) by (simp add: sane_sysvars_def)
  note base = assms(4,3) me assms(5)
  let ?keeps = "ensures (store_sound (ste_codec env))"
  have delegate: "?keeps (stake_delegate (ste_codec env) vc me vote clk h config signers s)"
    if "clock_at kas i ic = Ok clk" "instr = SI_DelegateStake" for vc vote clk h config signers kas i
    using that(2) assms(2) by simp
  have merge: "?keeps (stake_merge (ste_codec env) fs me source clk h signers s)"
    if "keyed_account_at_index (ic_keyed_accounts ic) i = Ok source" for fs source clk h signers i
  proof (cases "ka_account me = ka_account source")
    case True
    then have "unsigned_key source = unsigned_key me"
      using assms(7,8) mem [OF that] unfolding cells_by_key_def by metis
    then show ?thesis by (simp add: ensures_def stake_merge_def)
  next
    case False
    then show ?thesis by (intro ensuresI) (erule merge_sound [OF _ base(1-3) valid [OF that] base(4) False])
  qed
  note ops = stake_ops_sound [OF base range]
  have "?keeps (process_stake_instruction env first instr ic me signers s)"
    unfolding process_stake_instruction_def Let_def
    by (cases instr; simp only: stake_instruction.case;
        (intro ensures_intros ops)?;
        (erule epoch rent valid merge delegate)?; (rule refl)?)
  with assms(1) show ?thesis by (simp add: ensures_def)
qed

text \<open>
  C6. A stake stays backed by lamports: whatever instruction the program executes, every stake account keeps the
  lamports for its reserve, and as long as it is not deactivated also those for its delegated stake. There is one exception,
  the account of a \<^verbatim>\<open>DelegateStake\<close> that takes back a deactivation of the current epoch.
\<close>

theorem stake_stays_backed:
  assumes "stake_process_instruction env first data ic s = Ok s'"
    and "store_sound (ste_codec env) s" "codec_faithful (ste_codec env)"
    and "valid_accounts s (ic_keyed_accounts ic)" "cells_by_key (ic_keyed_accounts ic)"
    and "lamports_in_range s" "sane_sysvars ic"
  shows "\<forall>i < length s'. stake_sound (ste_codec env) (s' ! i) \<or>
    (ste_instruction env data = Some SI_DelegateStake \<and>
     (\<exists>me clk. keyed_account_at_index (ic_keyed_accounts ic) first = Ok me \<and> i = ka_account me \<and>
        get_clock (ic_sysvar_cache ic) = Ok clk \<and> rescinded (ste_codec env) clk (s ! i) (s' ! i)))"
proof -
  obtain me instr where me: "keyed_account_at_index (ic_keyed_accounts ic) first = Ok me"
    and own: "ka_owner s me = stake_program_id" and instr: "ste_instruction env data = Some instr"
    and run: "process_stake_instruction env first instr ic me (get_signers (drop first (ic_keyed_accounts ic))) s = Ok s'"
    using assms(1) by (auto simp: stake_process_instruction_def Let_def result_simps split: if_splits)
  have mem: "me \<in> set (ic_keyed_accounts ic)" using me by (auto simp: keyed_account_at_index_def split: if_splits)
  then have valid: "valid_keyed_account s me" using assms(4) by (simp add: valid_accounts_def)
  show ?thesis
  proof (cases "instr = SI_DelegateStake")
    case True
    then obtain vote clk h config where clk: "get_clock (ic_sysvar_cache ic) = Ok clk" and
      "stake_delegate (ste_codec env) (ste_vote_codec env) me vote clk h config (get_signers (drop first (ic_keyed_accounts ic))) s = Ok s'"
      using run by (auto simp: process_stake_instruction_def Let_def result_simps dest: sysvars_at(1) split: if_splits)
    then have "store_sound (ste_codec env) s' \<or>
        (\<exists>a. s' = s[ka_account me := a] \<and> rescinded (ste_codec env) clk (account_ref s me) a)"
      using delegate_sound assms(2,3) valid own by blast
    then show ?thesis
    proof (elim disjE exE conjE)
      fix a assume s': "s' = s[ka_account me := a]" and resc: "rescinded (ste_codec env) clk (account_ref s me) a"
      have "stake_sound (ste_codec env) (s' ! i)" if "i < length s'" "i \<noteq> ka_account me" for i
        using assms(2) that by (simp add: s' store_sound_def)
      moreover have "rescinded (ste_codec env) clk (s ! ka_account me) (s' ! ka_account me)"
        using resc valid by (simp add: s' account_ref_def valid_keyed_account_def)
      ultimately show ?thesis using True instr me clk by blast
    qed (simp add: store_sound_def)
  next
    case False
    from process_stake_sound [OF run this assms(2,3) own assms(4,5) mem assms(6,7)] show ?thesis by (simp add: store_sound_def)
  qed
qed

section \<open>Who takes lamports out of a stake account\<close>

text \<open>The withdrawer has signed, and the custodian as well while the lockup is in force.\<close>

definition withdrawal_authorised :: "pubkey set \<Rightarrow> clock \<Rightarrow> meta \<Rightarrow> bool" where
  "withdrawal_authorised signers clk m \<longleftrightarrow>
     au_withdrawer (meta_authorized m) \<in> signers \<and>
     (\<not> is_in_force (meta_lockup m) clk None \<or> lk_custodian (meta_lockup m) \<in> signers)"

definition holds_meta :: "stake_codec \<Rightarrow> account_shared_data \<Rightarrow> meta \<Rightarrow> bool" where
  "holds_meta c a m \<longleftrightarrow> acc_owner a = stake_program_id \<and>
     (\<exists>x. state_meta x = Some m \<and> (deserialize_data c a = Some x \<or> (\<exists>b. acc_data a = acc_data (write_state c x b))))"

text \<open>All the lamports that leave the account \<open>i\<close> are in a stake account under the same authorities and lockup.\<close>

definition moved_to_stake :: "stake_codec \<Rightarrow> clock \<Rightarrow> meta \<Rightarrow> store \<Rightarrow> store \<Rightarrow> nat \<Rightarrow> bool" where
  "moved_to_stake c clk m s s' i \<longleftrightarrow>
     (\<exists>j < length s. \<exists>m'. j \<noteq> i \<and> holds_meta c (s' ! j) m' \<and> meta_authorized m' = meta_authorized m \<and>
        (meta_lockup m' = meta_lockup m \<or> \<not> is_in_force (meta_lockup m') clk None \<and> \<not> is_in_force (meta_lockup m) clk None) \<and>
        acc_lamports (s' ! j) + acc_lamports (s' ! i) = acc_lamports (s ! j) + acc_lamports (s ! i))"

definition debit_justified ::
  "stake_codec \<Rightarrow> keyed_account list \<Rightarrow> pubkey set \<Rightarrow> clock \<Rightarrow> store \<Rightarrow> store \<Rightarrow> nat \<Rightarrow> bool" where
  "debit_justified c kas signers clk s s' i \<longleftrightarrow>
     (\<exists>x. deserialize_data c (s ! i) = Some x \<and>
        (case state_meta x of
           None \<Rightarrow> x = SS_Uninitialized \<and> (\<exists>ka \<in> set kas. ka_account ka = i \<and> unsigned_key ka \<in> signers)
         | Some m \<Rightarrow> withdrawal_authorised signers clk m \<or>
             au_staker (meta_authorized m) \<in> signers \<and> moved_to_stake c clk m s s' i))"

definition justified ::
  "stake_codec \<Rightarrow> keyed_account list \<Rightarrow> pubkey set \<Rightarrow> clock \<Rightarrow> store \<Rightarrow> (store, 'e) result \<Rightarrow> bool" where
  "justified c kas signers clk s m \<longleftrightarrow>
     (\<forall>s' i. m = Ok s' \<and> i < length s \<and> debited (s ! i) (s' ! i) \<longrightarrow> debit_justified c kas signers clk s s' i)"

lemma touches_stake_state:
  assumes "x = SS_Uninitialized \<Longrightarrow> touches debited P s m" "\<And>a. x = SS_Initialized a \<Longrightarrow> touches debited P s (f a)"
    "\<And>a b. x = SS_Stake a b \<Longrightarrow> touches debited P s (g a b)" "x = SS_RewardsPool \<Longrightarrow> touches debited P s n"
  shows "touches debited P s
    (case x of SS_Uninitialized \<Rightarrow> m | SS_Initialized a \<Rightarrow> f a | SS_Stake a b \<Rightarrow> g a b | SS_RewardsPool \<Rightarrow> n)"
  using assms by (cases x) simp_all

lemma stake_ops_no_debit:
  "touches debited P s (stake_initialize c me auth lk r s)"
  "touches debited P s (stake_account_authorize c me signers k sa b clk cust s)"
  "touches debited P s (stake_authorize_with_seed hashv c me base seed owner k sa b clk cust s)"
  "touches debited P s (stake_delegate c vc me vote clk h config signers s)"
  "touches debited P s (stake_account_deactivate c me clk signers s)"
  "touches debited P s (stake_set_lockup c me args signers clk s)"
  unfolding stake_initialize_def stake_authorize_with_seed_def stake_account_authorize_def stake_delegate_def
    stake_account_deactivate_def stake_set_lockup_def Let_def
  by (intro touches_intros touches_stake_state)+

lemma withdraw_justified:
  assumes "valid_keyed_account s me" "valid_keyed_account s to" "me \<in> set kas"
    and "is_signer auth \<Longrightarrow> unsigned_key auth \<in> signers"
    and "\<And>k. Option.bind cust signer_key = Some k \<Longrightarrow> k \<in> signers"
  shows "justified c kas signers clk s (stake_withdraw c me n to clk h auth cust s)"
  unfolding justified_def
proof (intro allI impI, elim conjE)
  fix s' i
  assume run: "stake_withdraw c me n to clk h auth cust s = Ok s'" and i: "i < length s" "debited (s ! i) (s' ! i)"
  from run assms(1) show "debit_justified c kas signers clk s s' i"
  proof (cases rule: stake_withdraw_Ok)
    case (1 x lk reserve staked)
    have "i = ka_account me"
    proof (rule ccontr)
      assume "i \<noteq> ka_account me"
      then show False
        using i 1(7) assms(2) by (cases "i = ka_account to") (auto simp: debited_def credited_def account_ref_def valid_keyed_account_def)
    qed
    moreover have "state_meta x = None \<Longrightarrow> x = SS_Uninitialized \<and> unsigned_key me = unsigned_key auth"
      using 1(3) by (cases x) (auto simp: withdraw_limits_def split: if_splits)
    moreover have "withdrawal_authorised signers clk m" if "state_meta x = Some m" for m
    proof -
      have "meta_lockup m = lk" "au_withdrawer (meta_authorized m) = unsigned_key auth"
        using 1(3) that by (cases x; auto simp: withdraw_limits_def result_simps Let_def)+
      then show ?thesis
        using 1(1,4) assms(4,5) by (auto simp: withdrawal_authorised_def is_in_force_def split: if_splits)
    qed
    ultimately show ?thesis
      using 1(1,2) assms(3,4) by (auto simp: debit_justified_def account_ref_def split: option.split)
  qed
qed

lemma split_states_meta:
  assumes "split_states c me n split signers s = Ok s1" "deserialize_data c (account_ref s me) = Some x" "state_meta x = Some m"
    and "ka_account me \<noteq> ka_account split" "valid_keyed_account s me" "valid_keyed_account s split"
  shows "au_staker (meta_authorized m) \<in> signers \<and>
    (\<exists>a y m'. s1 = s[ka_account me := a, ka_account split := write_state c y (account_ref s split)] \<and>
       acc_lamports a = ka_lamports s me \<and> state_meta y = Some m' \<and>
       meta_authorized m' = meta_authorized m \<and> meta_lockup m' = meta_lockup m)"
proof (cases x)
  case (SS_Initialized m')
  then have x: "deserialize_data c (account_ref s me) = Some (SS_Initialized m)" using assms(2,3) by simp
  show ?thesis
    by (rule split_states_Initialized [OF assms(1) x])
      (auto simp: account_ref_def ka_lamports_def intro!: exI [of _ "s ! ka_account me"] exI [of _ "SS_Initialized _"])
next
  case (SS_Stake m' st)
  then have x: "deserialize_data c (account_ref s me) = Some (SS_Stake m st)" using assms(2,3) by simp
  show ?thesis
    by (rule split_states_Stake [OF assms(1) x assms(4-6)])
      (auto simp: ka_lamports_def intro!: exI [of _ "write_state c (SS_Stake m _) (account_ref s me)"] exI [of _ "SS_Stake _ _"])
qed (use assms(3) in simp_all)

lemma split_justified:
  assumes "valid_keyed_account s me" "valid_keyed_account s split" "me \<in> set kas"
  shows "justified c kas signers clk s (stake_account_split c me n split signers s)"
  unfolding justified_def
proof (intro allI impI, elim conjE)
  fix s' i
  assume run: "stake_account_split c me n split signers s = Ok s'" and i: "i < length s" "debited (s ! i) (s' ! i)"
  from run show "debit_justified c kas signers clk s s' i"
  proof (cases rule: stake_split_cases)
    case 1
    have "i = ka_account me"
    proof (rule ccontr)
      assume "i \<noteq> ka_account me"
      then show False
        using i 1(3) assms(2)
        by (cases "i = ka_account split")
          (auto simp: debited_def deinitialize_if_drained_def ka_updates result_simps account_ref_def ka_lamports_def
            valid_keyed_account_def split: if_splits)
    qed
    then show ?thesis using 1(1,2) assms(3) by (auto simp: debit_justified_def account_ref_def)
  next
    case (2 x m s1)
    note s1 = split_states_meta [OF 2(4,1,2,3) assms(1,2)]
    from s1 obtain a y m' where a: "s1 = s[ka_account me := a, ka_account split := write_state c y (account_ref s split)]"
      "acc_lamports a = ka_lamports s me" "state_meta y = Some m'"
      "meta_authorized m' = meta_authorized m" "meta_lockup m' = meta_lockup m" by blast
    have "valid_keyed_account s1 me" "valid_keyed_account s1 split"
      using a(1) assms(1,2) by (simp_all add: valid_keyed_account_def)
    from split_transfer_Ok [OF 2(5,3) this]
    have s': "n \<le> ka_lamports s me" "s' ! ka_account me = drained c n a"
      "s' ! ka_account split = credited n (write_state c y (account_ref s split))"
      "\<And>k. k \<noteq> ka_account me \<Longrightarrow> k \<noteq> ka_account split \<Longrightarrow> s' ! k = s ! k"
      using a(1,2) 2(3) assms(1,2) by (auto simp: account_ref_def valid_keyed_account_def ka_lamports_def)
    have i_me: "i = ka_account me"
      using i(2) s'(3) s'(4) [of i]
      by (cases "i = ka_account split"; cases "i = ka_account me") (auto simp: debited_def credited_def account_ref_def)
    have "holds_meta c (s' ! ka_account split) m'"
      using s'(3) 2(6) a(3) by (auto simp: holds_meta_def credited_def ka_owner_def)
    moreover have "acc_lamports (s' ! ka_account split) + acc_lamports (s' ! i) =
        acc_lamports (s ! ka_account split) + acc_lamports (s ! i)"
      using s'(1-3) a(2) i_me by (simp add: credited_def drained_def account_ref_def ka_lamports_def)
    ultimately have "moved_to_stake c clk m s s' i"
      unfolding moved_to_stake_def using i_me 2(3) a(4,5) assms(2)
      by (intro exI [of _ "ka_account split"] exI [of _ m']) (auto simp: valid_keyed_account_def)
    then show ?thesis
      using 2(1,2) s1 i_me by (auto simp: debit_justified_def account_ref_def)
  qed
qed

lemma merge_justified:
  assumes "valid_keyed_account s me" "valid_keyed_account s source" "ka_owner s me = stake_program_id"
    and "ka_account me = ka_account source \<Longrightarrow> unsigned_key me = unsigned_key source"
  shows "justified c kas signers clk s (stake_merge c fs me source clk h signers s)"
  unfolding justified_def
proof (intro allI impI, elim conjE)
  fix s' i
  assume run: "stake_merge c fs me source clk h signers s = Ok s'" and i: "i < length s" "debited (s ! i) (s' ! i)"
  have neq: "ka_account me \<noteq> ka_account source"
    using run assms(4) by (auto simp: stake_merge_def split: if_splits)
  from run neq assms(1,2) show "debit_justified c kas signers clk s s' i"
  proof (cases rule: stake_merge_Ok)
    case (1 k1 k2 merged)
    have s': "s' ! ka_account me = credited (ka_lamports s source)
        (case merged of None \<Rightarrow> account_ref s me | Some x \<Rightarrow> write_state c x (account_ref s me))"
      "s' ! ka_account source = set_lamports 0 (write_state c SS_Uninitialized (account_ref s source))"
      "\<And>k. k \<noteq> ka_account me \<Longrightarrow> k \<noteq> ka_account source \<Longrightarrow> s' ! k = s ! k"
      using 1(6) neq assms(1,2) by (auto simp: valid_keyed_account_def)
    have i_source: "i = ka_account source"
      using i(2) s'(1) s'(3) [of i] by (cases "i = ka_account source"; cases "i = ka_account me")
        (auto simp: debited_def credited_def account_ref_def split: option.splits)
    obtain x1 where x1: "deserialize_data c (account_ref s me) = Some x1" "state_meta x1 = Some (merge_kind_meta k1)"
      by (rule get_if_mergeable_state [OF 1(1)])
    obtain x2 where x2: "deserialize_data c (account_ref s source) = Some x2" "state_meta x2 = Some (merge_kind_meta k2)"
      by (rule get_if_mergeable_state [OF 1(2)])
    have "holds_meta c (s' ! ka_account me) (merge_kind_meta k1)"
    proof (cases merged)
      case None
      then show ?thesis
        using s'(1) x1 assms(3) by (auto simp: holds_meta_def credited_def ka_owner_def deserialize_data_def)
    next
      case (Some x)
      then have "state_meta x = Some (merge_kind_meta k1)"
        using 1(4) by (auto elim: merge_kinds_Some)
      then show ?thesis
        using s'(1) Some assms(3) by (auto simp: holds_meta_def credited_def ka_owner_def)
    qed
    moreover have "acc_lamports (s' ! ka_account me) + acc_lamports (s' ! i) = acc_lamports (s ! ka_account me) + acc_lamports (s ! i)"
      using s'(1,2) i_source by (simp add: credited_def account_ref_def ka_lamports_def split: option.split)
    ultimately have "moved_to_stake c clk (merge_kind_meta k2) s s' i"
      unfolding moved_to_stake_def using i_source neq merge_kinds_Ok(1,2) [OF 1(4)] assms(1)
      by (intro exI [of _ "ka_account me"] exI [of _ "merge_kind_meta k1"]) (auto simp: valid_keyed_account_def)
    then show ?thesis
      using x2 i_source 1(3) merge_kinds_Ok(1) [OF 1(4)] by (auto simp: debit_justified_def account_ref_def)
  qed
qed

lemma justified_intros:
  "justified c kas signers clk s (Inl e)"
  "(\<And>x. m = Ok x \<Longrightarrow> justified c kas signers clk s (f x)) \<Longrightarrow> justified c kas signers clk s (bindE m f)"
  "(b \<Longrightarrow> justified c kas signers clk s m') \<Longrightarrow> (\<not> b \<Longrightarrow> justified c kas signers clk s n) \<Longrightarrow>
   justified c kas signers clk s (if b then m' else n)"
  by (auto simp: justified_def result_simps)

lemma justified_no_debit: "touches debited (\<lambda>_. False) s m \<Longrightarrow> justified c kas signers clk s m"
  by (auto simp: justified_def touches_def)

lemmas stake_ops_justified = stake_ops_no_debit [THEN justified_no_debit]

text \<open>
  C8. Lamports leave a stake account only if they may: after every instruction that succeeds, an account that has fewer
  lamports than before was uninitialised and signed with its own key, or its withdrawer has signed and so has the custodian
  while the lockup is in force, or its staker has signed and all the lamports are in another stake account
  with the same staker, withdrawer and lockup (lockups may differ once both are over).
\<close>

theorem stake_lamports_protected:
  assumes "stake_process_instruction env first data ic s = Ok s'"
    and "valid_accounts s (ic_keyed_accounts ic)" "cells_by_key (ic_keyed_accounts ic)"
    and "get_clock (ic_sysvar_cache ic) = Ok clk" "i < length s" "acc_lamports (s' ! i) < acc_lamports (s ! i)"
  shows "debit_justified (ste_codec env) (ic_keyed_accounts ic) (get_signers (drop first (ic_keyed_accounts ic))) clk s s' i"
proof -
  let ?kas = "ic_keyed_accounts ic"
  let ?signers = "get_signers (drop first ?kas)"
  obtain me instr where me: "keyed_account_at_index ?kas first = Ok me" and own: "ka_owner s me = stake_program_id"
    and run: "process_stake_instruction env first instr ic me ?signers s = Ok s'"
    using assms(1) by (auto simp: stake_process_instruction_def Let_def result_simps split: if_splits)
  note valid = keyed_account_at_valid [OF assms(2)]
  have mem: "keyed_account_at_index ?kas j = Ok ka \<Longrightarrow> ka \<in> set ?kas" for j ka
    by (auto simp: keyed_account_at_index_def split: if_splits)
  have clock: "clock_at ?kas j ic = Ok clk' \<Longrightarrow> clk' = clk" for j clk'
    using sysvars_at(1) assms(4) by simp
  have split: "justified (ste_codec env) ?kas ?signers clk s (stake_account_split (ste_codec env) me n to ?signers s)"
    if "keyed_account_at_index ?kas j = Ok to" for n to j
    by (rule split_justified [OF valid [OF me] valid [OF that] mem [OF me]])
  have merge: "justified (ste_codec env) ?kas ?signers clk s (stake_merge (ste_codec env) fs me source clk' h ?signers s)"
    if "keyed_account_at_index ?kas j = Ok source" "clock_at ?kas k ic = Ok clk'" for fs source j k clk' h
    unfolding clock [OF that(2)] using assms(3) mem [OF me] mem [OF that(1)] unfolding cells_by_key_def
    by (intro merge_justified [OF valid [OF me] valid [OF that(1)] own]) metis
  have withdraw: "justified (ste_codec env) ?kas ?signers clk s
      (stake_withdraw (ste_codec env) me n to clk' h auth (account_at_opt ?kas (first + 5)) s)"
    if "keyed_account_at_index ?kas j = Ok to" "clock_at ?kas k ic = Ok clk'"
      "keyed_account_at_index ?kas (first + 4) = Ok auth" for n to j k clk' h auth
  proof -
    have "Option.bind (account_at_opt ?kas (first + 5)) signer_key = Some y \<Longrightarrow> y \<in> ?signers" for y
      using signer_in_signers [of ?kas "first + 5" "?kas ! (first + 5)" first]
      by (auto simp: account_at_opt_def keyed_account_at_index_def signer_key_def split: if_splits)
    moreover have "is_signer auth \<Longrightarrow> unsigned_key auth \<in> ?signers"
      using signer_in_signers [OF that(3) le_add1] by (simp add: signer_key_def)
    ultimately show ?thesis
      unfolding clock [OF that(2)] by (intro withdraw_justified valid [OF me] valid [OF that(1)] mem [OF me])
  qed
  have "justified (ste_codec env) ?kas ?signers clk s (process_stake_instruction env first instr ic me ?signers s)"
    unfolding process_stake_instruction_def Let_def
    by (cases instr; simp only: stake_instruction.case;
        (intro justified_intros stake_ops_justified)?; (elim split merge withdraw)?)
  with run assms(5,6) show ?thesis by (simp add: justified_def debited_def)
qed

end
