(* ===== verification/Stake_Rewards.thy ===== *)
theory Stake_Rewards
  imports Stake_Properties
begin

text \<open>
  Credits and rewards of stakes: a merge does not create points, and the rewards paid for an epoch stay within
  what the epoch has to distribute.
\<close>

section \<open>Credits observed after a merge\<close>

lemma ceiling_div:
  assumes "0 < (t::nat)"
  shows "n \<le> (n + t - 1) div t * t" "(n + t - 1) div t * t < n + t"
proof -
  have eq: "(n + t - 1) div t * t + (n + t - 1) mod t = n + t - 1"
    by (rule div_mult_mod_eq)
  have "(n + t - 1) mod t < t" using assms by simp
  with eq assms show "n \<le> (n + t - 1) div t * t" "(n + t - 1) div t * t < n + t" by linarith+
qed

lemma weighted_sum_bound:
  fixes a b c d :: nat
  assumes "c \<le> M" "d \<le> M"
  shows "c * a + d * b \<le> M * (a + b)"
  using add_mono [OF mult_right_mono [OF assms(1), of a] mult_right_mono [OF assms(2), of b]]
  by (simp add: distrib_left)

lemma weighted_credits_value:
  fixes st absorbed absorbed_credits
  defines "s \<equiv> dg_stake (st_delegation st)" and "c \<equiv> credits_observed st"
  assumes pos: "0 < s + absorbed" and T: "s + absorbed \<le> u64_max" and cr: "c \<le> u64_max" "absorbed_credits \<le> u64_max"
  obtains merged where "stake_weighted_credits_observed st absorbed absorbed_credits = Some merged"
    "c * s + absorbed_credits * absorbed \<le> merged * (s + absorbed)"
    "merged * (s + absorbed) < c * s + absorbed_credits * absorbed + (s + absorbed)"
    "merged \<le> max c absorbed_credits"
proof (cases "c = absorbed_credits")
  case True
  with pos show ?thesis
    by (intro that [of c]) (simp_all add: stake_weighted_credits_observed_def c_def distrib_left)
next
  case False
  define N where "N = c * s + absorbed_credits * absorbed"
  define m where "m = (N + (s + absorbed) - 1) div (s + absorbed)"
  note ceil = ceiling_div [OF pos, of N, folded m_def]
  have N: "N \<le> max c absorbed_credits * (s + absorbed)"
    unfolding N_def by (rule weighted_sum_bound) simp_all
  have le: "m \<le> max c absorbed_credits"
  proof (rule ccontr)
    assume "\<not> m \<le> max c absorbed_credits"
    then have "(max c absorbed_credits + 1) * (s + absorbed) \<le> m * (s + absorbed)"
      by (intro mult_right_mono) simp_all
    then show False using ceil(2) N by (simp add: distrib_right)
  qed
  have "N + (s + absorbed) \<le> u64_max * (s + absorbed) + (s + absorbed)"
    using weighted_sum_bound [OF cr, of s absorbed] by (simp add: N_def)
  also have "\<dots> \<le> u64_max * u64_max + u64_max"
    using T by (intro add_mono mult_left_mono) simp_all
  finally have big: "N + (s + absorbed) \<le> u128_max" by simp
  then have "c * s \<le> u128_max" "absorbed_credits * absorbed \<le> u128_max" "N \<le> u128_max"
    by (simp_all add: N_def)
  with False pos T big le cr have "stake_weighted_credits_observed st absorbed absorbed_credits = Some m"
    unfolding stake_weighted_credits_observed_def s_def [symmetric] c_def [symmetric]
    by (auto simp: int_ops N_def [symmetric] m_def Let_def)
  then show ?thesis using that [of m] ceil le by (simp add: N_def)
qed

lemma points_of_merge:
  fixes c d s a m v :: nat
  assumes "c * s + d * a \<le> m * (s + a)" "m * (s + a) < c * s + d * a + (s + a)" "c \<le> v" "d \<le> v" "m \<le> v"
  shows "(v - m) * (s + a) \<le> (v - c) * s + (v - d) * a"
    "(v - c) * s + (v - d) * a < (v - m) * (s + a) + (s + a)"
proof -
  have "(v - m) * (s + a) + m * (s + a) = v * (s + a)" "(v - c) * s + c * s = v * s" "(v - d) * a + d * a = v * a"
    using assms(3-5) by (simp_all flip: distrib_right)
  moreover have "v * (s + a) = v * s + v * a" by (rule distrib_left)
  ultimately show "(v - m) * (s + a) \<le> (v - c) * s + (v - d) * a"
    "(v - c) * s + (v - d) * a < (v - m) * (s + a) + (s + a)"
    using assms(1,2) by linarith+
qed

text \<open>
  C39. A merge of two active stakes never overflows and creates no points: the credits observed of the merged stake are the
  average of the two weighted by stake, rounded up, so that whatever credits the vote account reaches, the
  merged stake earns at most the points that the two would have earned, and less than its stake short of them.
\<close>

theorem merged_credits:
  assumes "0 < dg_stake (st_delegation st) + absorbed" "dg_stake (st_delegation st) + absorbed \<le> u64_max"
    and "credits_observed st \<le> u64_max" "absorbed_credits \<le> u64_max"
  shows "\<exists>merged. stake_weighted_credits_observed st absorbed absorbed_credits = Some merged \<and>
    merged \<le> max (credits_observed st) absorbed_credits \<and>
    (\<forall>v. credits_observed st \<le> v \<and> absorbed_credits \<le> v \<longrightarrow>
      (v - merged) * (dg_stake (st_delegation st) + absorbed) \<le>
        (v - credits_observed st) * dg_stake (st_delegation st) + (v - absorbed_credits) * absorbed \<and>
      (v - credits_observed st) * dg_stake (st_delegation st) + (v - absorbed_credits) * absorbed <
        (v - merged) * (dg_stake (st_delegation st) + absorbed) + (dg_stake (st_delegation st) + absorbed))"
proof -
  obtain m where m: "stake_weighted_credits_observed st absorbed absorbed_credits = Some m"
    "credits_observed st * dg_stake (st_delegation st) + absorbed_credits * absorbed \<le> m * (dg_stake (st_delegation st) + absorbed)"
    "m * (dg_stake (st_delegation st) + absorbed) <
       credits_observed st * dg_stake (st_delegation st) + absorbed_credits * absorbed + (dg_stake (st_delegation st) + absorbed)"
    "m \<le> max (credits_observed st) absorbed_credits"
    using weighted_credits_value [OF assms] .
  then show ?thesis
    using points_of_merge [OF m(2,3)] by (intro exI [of _ m]) auto
qed

section \<open>Rewards\<close>

text \<open>The points of a stake fit the 128 bits; then the multiplication does not panic and the quotient is exact.\<close>

lemma calculate_stake_rewards_le:
  assumes "calculate_stake_rewards e st pv vs h = Ok (Some (staker, voter, cr))"
  shows "(staker + voter) * pv_points pv \<le> calculate_stake_points st vs h * pv_rewards pv"
proof -
  define points where "points = calculate_stake_points st vs h"
  consider "staker = 0" "voter = 0"
    | split where "commission_split vs (points * pv_rewards pv div pv_points pv) = (voter, staker, split)"
      "points * pv_rewards pv div pv_points pv \<le> u64_max" "pv_points pv \<noteq> 0"
    using assms
    by (auto simp: calculate_stake_rewards_def calculate_stake_points_def points_def Let_def result_simps unwrap_def
        checked_mul128_def split: prod.splits if_splits option.splits)
  then show ?thesis
  proof cases
    case 2
    then have "staker + voter \<le> points * pv_rewards pv div pv_points pv"
      using commission_split_bounds(1) by fastforce
    then have "(staker + voter) * pv_points pv \<le> points * pv_rewards pv div pv_points pv * pv_points pv"
      by (rule mult_right_mono) simp
    also have "\<dots> \<le> points * pv_rewards pv" by simp
    finally show ?thesis by (simp add: points_def)
  qed simp
qed

end
