(* ===== verification/Stakes_Cache.thy ===== *)
theory Stakes_Cache
  imports Stake_Program Stake_Activation "HOL-Library.AList"
begin

text \<open>
  The cache of vote accounts and stake delegations that a bank keeps (\<^verbatim>\<open>runtime/src/vote_account.rs\<close>,
  \<^verbatim>\<open>runtime/src/stakes.rs\<close>). A hash map is an association list with distinct keys; nothing depends on the order of
  its entries. A vote account deserialises its state on first use and remembers it, which is a function of
  the account; the copy-on-write and the locks are left out. The parallel folds are folds from the left: their
  additions are associative and commutative.
\<close>

section \<open>Vote accounts\<close>

text \<open>\<open>va_once\<close>: the map of staked nodes has been computed and is maintained from then on.\<close>

record vote_accounts =
  va_accounts :: "(pubkey \<times> u64 \<times> account_shared_data) list"
  va_staked_nodes :: "(pubkey \<times> u64) list"
  va_once :: bool

definition default_vote_accounts :: vote_accounts where
  "default_vote_accounts = \<lparr>va_accounts = [], va_staked_nodes = [], va_once = False\<rparr>"

definition va_node_pubkey :: "vote_codec \<Rightarrow> account_shared_data \<Rightarrow> pubkey option" where
  "va_node_pubkey vc a =
     (case vote_state_deserialize vc (acc_data a) of Ok vs \<Rightarrow> Some (node_pubkey vs) | Inl _ \<Rightarrow> None)"

definition add_to_entry :: "pubkey \<Rightarrow> u64 \<Rightarrow> (pubkey \<times> u64) list \<Rightarrow> (pubkey \<times> u64) list" where
  "add_to_entry k n m = AList.update k (wrap64 ((case map_of m k of Some v \<Rightarrow> v | None \<Rightarrow> 0) + n)) m"

definition compute_staked_nodes :: "vote_codec \<Rightarrow> (pubkey \<times> u64 \<times> account_shared_data) list \<Rightarrow> (pubkey \<times> u64) list" where
  "compute_staked_nodes vc accounts =
     fold (\<lambda>(_, stake, a) m.
       if stake = 0 then m else (case va_node_pubkey vc a of Some node \<Rightarrow> add_to_entry node stake m | None \<Rightarrow> m))
       accounts []"

definition staked_nodes :: "vote_codec \<Rightarrow> vote_accounts \<Rightarrow> (pubkey \<times> u64) list \<times> vote_accounts" where
  "staked_nodes vc va =
     (let va = (if va_once va then va
                else va\<lparr>va_staked_nodes := compute_staked_nodes vc (va_accounts va), va_once := True\<rparr>)
      in (va_staked_nodes va, va))"

definition va_get :: "vote_accounts \<Rightarrow> pubkey \<Rightarrow> (u64 \<times> account_shared_data) option" where
  "va_get va k = map_of (va_accounts va) k"

definition add_node_stake :: "vote_codec \<Rightarrow> u64 \<Rightarrow> account_shared_data \<Rightarrow> vote_accounts \<Rightarrow> vote_accounts" where
  "add_node_stake vc stake a va =
     (if stake \<noteq> 0 \<and> va_once va then
        (case va_node_pubkey vc a of
           Some node \<Rightarrow> va\<lparr>va_staked_nodes := add_to_entry node stake (va_staked_nodes va)\<rparr>
         | None \<Rightarrow> va)
      else va)"

definition sub_node_stake ::
  "vote_codec \<Rightarrow> u64 \<Rightarrow> account_shared_data \<Rightarrow> vote_accounts \<Rightarrow> (vote_accounts, 'e) result" where
  "sub_node_stake vc stake a va =
     (if stake \<noteq> 0 \<and> va_once va then
        (case va_node_pubkey vc a of
           Some node \<Rightarrow>
             (case map_of (va_staked_nodes va) node of
                None \<Rightarrow> panic
              | Some s \<Rightarrow>
                  if s < stake then panic
                  else if s = stake then Ok (va\<lparr>va_staked_nodes := AList.delete node (va_staked_nodes va)\<rparr>)
                  else Ok (va\<lparr>va_staked_nodes := AList.update node (s - stake) (va_staked_nodes va)\<rparr>))
         | None \<Rightarrow> Ok va)
      else Ok va)"

definition va_insert ::
  "vote_codec \<Rightarrow> pubkey \<Rightarrow> u64 \<Rightarrow> account_shared_data \<Rightarrow> vote_accounts \<Rightarrow> (vote_accounts, 'e) result" where
  "va_insert vc k stake a va =
     (let va = add_node_stake vc stake a va;
          old = map_of (va_accounts va) k;
          va = va\<lparr>va_accounts := AList.update k (stake, a) (va_accounts va)\<rparr>
      in case old of Some (stake, a) \<Rightarrow> sub_node_stake vc stake a va | None \<Rightarrow> Ok va)"

text \<open>Returns the removed entry as well.\<close>

definition va_remove ::
  "vote_codec \<Rightarrow> pubkey \<Rightarrow> vote_accounts \<Rightarrow> ((u64 \<times> account_shared_data) option \<times> vote_accounts, 'e) result" where
  "va_remove vc k va =
     (let entry = map_of (va_accounts va) k;
          va = va\<lparr>va_accounts := AList.delete k (va_accounts va)\<rparr>
      in bindE (case entry of Some (stake, a) \<Rightarrow> sub_node_stake vc stake a va | None \<Rightarrow> Ok va) (\<lambda>va.
         Ok (entry, va)))"

definition va_add_stake :: "vote_codec \<Rightarrow> pubkey \<Rightarrow> u64 \<Rightarrow> vote_accounts \<Rightarrow> vote_accounts" where
  "va_add_stake vc k delta va =
     (case map_of (va_accounts va) k of
        Some (stake, a) \<Rightarrow>
          add_node_stake vc delta a (va\<lparr>va_accounts := AList.update k (wrap64 (stake + delta), a) (va_accounts va)\<rparr>)
      | None \<Rightarrow> va)"

definition va_sub_stake :: "vote_codec \<Rightarrow> pubkey \<Rightarrow> u64 \<Rightarrow> vote_accounts \<Rightarrow> (vote_accounts, 'e) result" where
  "va_sub_stake vc k delta va =
     (case map_of (va_accounts va) k of
        Some (stake, a) \<Rightarrow>
          bindE (unwrap (checked_sub64 stake delta)) (\<lambda>new_stake.
          sub_node_stake vc delta a (va\<lparr>va_accounts := AList.update k (new_stake, a) (va_accounts va)\<rparr>))
      | None \<Rightarrow> Ok va)"

section \<open>Stakes\<close>

record stakes =
  sk_vote_accounts :: vote_accounts
  sk_stake_delegations :: "(pubkey \<times> delegation) list"
  sk_epoch :: epoch
  sk_stake_history :: stake_history

definition calculate_stake :: "stakes \<Rightarrow> pubkey \<Rightarrow> epoch \<Rightarrow> stake_history \<Rightarrow> u64" where
  "calculate_stake sk voter_pubkey epoch history =
     fold (\<lambda>(_, d) acc. wrap64 (acc + delegation_stake d epoch (Some history)))
       (filter (\<lambda>(_, d). dg_voter_pubkey d = voter_pubkey) (sk_stake_delegations sk)) 0"

definition vote_balance_and_staked :: "stakes \<Rightarrow> u64" where
  "vote_balance_and_staked sk =
     wrap64 (fold (\<lambda>(_, d) acc. wrap64 (acc + dg_stake d)) (sk_stake_delegations sk) 0 +
       fold (\<lambda>(_, _, a) acc. wrap64 (acc + acc_lamports a)) (va_accounts (sk_vote_accounts sk)) 0)"

definition stakes_activate_epoch :: "epoch \<Rightarrow> stakes \<Rightarrow> stakes" where
  "stakes_activate_epoch next_epoch sk =
     (let entry = fold (\<lambda>(_, d) acc.
            add_entry acc (stake_activating_and_deactivating d (sk_epoch sk) (Some (sk_stake_history sk))))
            (sk_stake_delegations sk) default_entry;
          history = stake_history_add (sk_epoch sk) entry (sk_stake_history sk);
          delegated_stakes = fold (\<lambda>(_, d) m.
            add_to_entry (dg_voter_pubkey d) (delegation_stake d next_epoch (Some history)) m)
            (sk_stake_delegations sk) [];
          accounts = map (\<lambda>(k, _, a). (k, (case map_of delegated_stakes k of Some n \<Rightarrow> n | None \<Rightarrow> 0), a))
            (va_accounts (sk_vote_accounts sk))
      in sk\<lparr>sk_vote_accounts := \<lparr>va_accounts = accounts, va_staked_nodes = [], va_once = False\<rparr>,
            sk_epoch := next_epoch, sk_stake_history := history\<rparr>)"

definition remove_vote_account :: "vote_codec \<Rightarrow> pubkey \<Rightarrow> stakes \<Rightarrow> (stakes, 'e) result" where
  "remove_vote_account vc k sk =
     bindE (va_remove vc k (sk_vote_accounts sk)) (\<lambda>(_, va). Ok (sk\<lparr>sk_vote_accounts := va\<rparr>))"

definition remove_stake_delegation :: "vote_codec \<Rightarrow> pubkey \<Rightarrow> stakes \<Rightarrow> (stakes, 'e) result" where
  "remove_stake_delegation vc k sk =
     (case map_of (sk_stake_delegations sk) k of
        Some removed \<Rightarrow>
          let sk = sk\<lparr>sk_stake_delegations := AList.delete k (sk_stake_delegations sk)\<rparr>;
              removed_stake = delegation_stake removed (sk_epoch sk) (Some (sk_stake_history sk)) in
          bindE (va_sub_stake vc (dg_voter_pubkey removed) removed_stake (sk_vote_accounts sk)) (\<lambda>va.
          Ok (sk\<lparr>sk_vote_accounts := va\<rparr>))
      | None \<Rightarrow> Ok sk)"

definition update_vote_account ::
  "vote_codec \<Rightarrow> pubkey \<Rightarrow> account_shared_data option \<Rightarrow> stakes \<Rightarrow> (stakes, 'e) result" where
  "update_vote_account vc k new_vote_account sk =
     bindE (va_remove vc k (sk_vote_accounts sk)) (\<lambda>(old_entry, va).
     let sk = sk\<lparr>sk_vote_accounts := va\<rparr> in
     case new_vote_account of
       Some a \<Rightarrow>
         let new_stake = (case old_entry of
               None \<Rightarrow> calculate_stake sk k (sk_epoch sk) (sk_stake_history sk)
             | Some (old_stake, _) \<Rightarrow> old_stake) in
         bindE (va_insert vc k new_stake a (sk_vote_accounts sk)) (\<lambda>va. Ok (sk\<lparr>sk_vote_accounts := va\<rparr>))
     | None \<Rightarrow> Ok sk)"

definition update_stake_delegation ::
  "vote_codec \<Rightarrow> pubkey \<Rightarrow> (u64 \<times> delegation) option \<Rightarrow> stakes \<Rightarrow> (stakes, 'e) result" where
  "update_stake_delegation vc k new_delegation sk =
     (let old_stake = map_option (\<lambda>d.
            (dg_voter_pubkey d, delegation_stake d (sk_epoch sk) (Some (sk_stake_history sk))))
            (map_of (sk_stake_delegations sk) k);
          new_stake = map_option (\<lambda>(stake, d). (dg_voter_pubkey d, stake)) new_delegation in
      bindE
        (if new_stake \<noteq> old_stake then
           bindE (case old_stake of
                    Some (voter, stake) \<Rightarrow> va_sub_stake vc voter stake (sk_vote_accounts sk)
                  | None \<Rightarrow> Ok (sk_vote_accounts sk)) (\<lambda>va.
           Ok (case new_stake of Some (voter, stake) \<Rightarrow> va_add_stake vc voter stake va | None \<Rightarrow> va))
         else Ok (sk_vote_accounts sk)) (\<lambda>va.
      Ok (sk\<lparr>sk_vote_accounts := va,
             sk_stake_delegations :=
               (case new_delegation of
                  Some (_, d) \<Rightarrow> AList.update k d (sk_stake_delegations sk)
                | None \<Rightarrow> AList.delete k (sk_stake_delegations sk))\<rparr>)))"

text \<open>\<^verbatim>\<open>max_by\<close> returns the last of several maximal entries.\<close>

definition highest_staked_node :: "vote_codec \<Rightarrow> stakes \<Rightarrow> pubkey option" where
  "highest_staked_node vc sk =
     (case va_accounts (sk_vote_accounts sk) of
        [] \<Rightarrow> None
      | e # es \<Rightarrow>
          let (_, _, a) = fold (\<lambda>x best. if fst (snd x) < fst (snd best) then best else x) es e
          in va_node_pubkey vc a)"

section \<open>The cache\<close>

definition VERSION_OFFSET :: usize where "VERSION_OFFSET = 4"
definition DEFAULT_PRIOR_VOTERS_OFFSET :: usize where "DEFAULT_PRIOR_VOTERS_OFFSET = 82"

definition is_correct_size_and_initialized :: "vote_codec \<Rightarrow> (nat \<Rightarrow> pubkey) \<Rightarrow> bytes \<Rightarrow> bool" where
  "is_correct_size_and_initialized vc new_rand data =
     (length data = vote_state_size_of vc new_rand \<and>
      take DEFAULT_PRIOR_VOTERS_OFFSET (drop VERSION_OFFSET data) \<noteq> replicate DEFAULT_PRIOR_VOTERS_OFFSET 0)"

definition stake_delegation_from :: "stake_codec \<Rightarrow> account_shared_data \<Rightarrow> delegation option" where
  "stake_delegation_from c a =
     (case account_state c a of Ok state \<Rightarrow> state_delegation state | Inl _ \<Rightarrow> None)"

definition is_stake_account :: "account_shared_data \<Rightarrow> bool" where
  "is_stake_account a \<longleftrightarrow>
     acc_owner a = vote_program_id \<or> acc_owner a = stake_program_id \<and> length (acc_data a) \<ge> STAKE_STATE_SIZE"

record cache_env =
  cae_stake_codec :: stake_codec
  cae_vote_codec :: vote_codec
  cae_new_rand :: "nat \<Rightarrow> pubkey"

definition check_and_store :: "cache_env \<Rightarrow> pubkey \<Rightarrow> account_shared_data \<Rightarrow> stakes \<Rightarrow> (stakes, 'e) result" where
  "check_and_store env k a sk =
     (if acc_owner a = vote_program_id then
        let new_vote_account =
              (if acc_lamports a \<noteq> 0 \<and> is_correct_size_and_initialized (cae_vote_codec env) (cae_new_rand env) (acc_data a)
               then Some a else None)
        in update_vote_account (cae_vote_codec env) k new_vote_account sk
      else if acc_owner a = stake_program_id then
        let new_delegation = map_option (\<lambda>d.
              let stake = (if acc_lamports a \<noteq> 0 then delegation_stake d (sk_epoch sk) (Some (sk_stake_history sk)) else 0)
              in (stake, d)) (stake_delegation_from (cae_stake_codec env) a)
        in update_stake_delegation (cae_vote_codec env) k new_delegation sk
      else Ok sk)"

text \<open>The invalid entries that the loading of the accounts has found are evicted.\<close>

datatype invalid_cache_entry_reason = ICE_Missing | ICE_BadState | ICE_WrongOwner

definition handle_invalid_keys ::
  "vote_codec \<Rightarrow> (pubkey \<times> invalid_cache_entry_reason) list \<Rightarrow> (pubkey \<times> invalid_cache_entry_reason) list \<Rightarrow> bool \<Rightarrow>
     stakes \<Rightarrow> (stakes, 'e) result" where
  "handle_invalid_keys vc invalid_stake_keys invalid_vote_keys should_evict sk =
     (if \<not> should_evict then Ok sk
      else
        bindE (foldE (\<lambda>(k, _). remove_stake_delegation vc k) invalid_stake_keys sk) (\<lambda>sk.
        foldE (\<lambda>(k, _). remove_vote_account vc k) invalid_vote_keys sk))"

section \<open>The map of staked nodes\<close>

text \<open>Sums over association lists.\<close>

definition alist_sum :: "('k \<Rightarrow> 'v \<Rightarrow> nat) \<Rightarrow> ('k \<times> 'v) list \<Rightarrow> nat" where
  "alist_sum f xs = sum_list (map (\<lambda>(k, v). f k v) xs)"

lemma alist_sum_simps [simp]:
  "alist_sum f [] = 0" "alist_sum f ((k, v) # xs) = f k v + alist_sum f xs"
  by (simp_all add: alist_sum_def)

lemma alist_sum_update:
  "alist_sum f (AList.update k v xs) + (case map_of xs k of Some w \<Rightarrow> f k w | None \<Rightarrow> 0) = alist_sum f xs + f k v"
  by (induction xs) (auto split: option.split)

lemma delete_absent: "map_of xs k = None \<Longrightarrow> AList.delete k xs = xs"
  by (induction xs) (auto split: if_splits)

lemma alist_sum_delete:
  "distinct (map fst xs) \<Longrightarrow>
   alist_sum f (AList.delete k xs) + (case map_of xs k of Some w \<Rightarrow> f k w | None \<Rightarrow> 0) = alist_sum f xs"
proof (induction xs)
  case (Cons p xs)
  obtain k' v where p: "p = (k', v)" by (cases p)
  have "map_of xs k' = None" using Cons.prems p by (simp add: map_of_eq_None_iff)
  then show ?case using Cons p by (cases "k = k'") (auto simp: delete_absent split: option.splits)
qed simp

lemma alist_sum_member: "map_of xs k = Some v \<Longrightarrow> f k v \<le> alist_sum f xs"
  by (induction xs) (auto split: if_splits)

lemma alist_sum_mono: "(\<And>k v. (k, v) \<in> set xs \<Longrightarrow> f k v \<le> g k v) \<Longrightarrow> alist_sum f xs \<le> alist_sum g xs"
  by (induction xs) (auto intro!: add_mono)

definition node_sum :: "vote_codec \<Rightarrow> (pubkey \<times> u64 \<times> account_shared_data) list \<Rightarrow> pubkey \<Rightarrow> nat" where
  "node_sum vc accounts node = alist_sum (\<lambda>_ (stake, a). if va_node_pubkey vc a = Some node then stake else 0) accounts"

definition nodes_match :: "(pubkey \<times> u64) list \<Rightarrow> (pubkey \<Rightarrow> nat) \<Rightarrow> bool" where
  "nodes_match nodes tot \<longleftrightarrow> distinct (map fst nodes) \<and> (\<forall>n. map_of nodes n = (if tot n = 0 then None else Some (tot n)))"

text \<open>
  The invariant of the vote accounts: distinct keys, and once the staked nodes have been computed, they hold for every node
  the tot of the stakes of its vote accounts.
\<close>

definition va_inv :: "vote_codec \<Rightarrow> vote_accounts \<Rightarrow> bool" where
  "va_inv vc va \<longleftrightarrow> distinct (map fst (va_accounts va)) \<and>
     (va_once va \<longrightarrow> nodes_match (va_staked_nodes va) (node_sum vc (va_accounts va)))"

lemma add_node_stake_match:
  assumes "va_once va \<Longrightarrow> nodes_match (va_staked_nodes va) tot"
    and "\<And>n. tot' n = tot n + (if va_node_pubkey vc a = Some n then stake else 0)" "\<And>n. tot' n \<le> u64_max"
  shows "va_once va \<Longrightarrow> nodes_match (va_staked_nodes (add_node_stake vc stake a va)) tot'"
    "va_accounts (add_node_stake vc stake a va) = va_accounts va" "va_once (add_node_stake vc stake a va) = va_once va"
proof -
  show "va_accounts (add_node_stake vc stake a va) = va_accounts va" "va_once (add_node_stake vc stake a va) = va_once va"
    by (simp_all add: add_node_stake_def split: option.split)
  assume once: "va_once va"
  show "nodes_match (va_staked_nodes (add_node_stake vc stake a va)) tot'"
  proof (cases "va_node_pubkey vc a")
    case (Some node)
    then have "tot node + stake \<le> u64_max" using assms(2) [of node] assms(3) [of node] by simp
    then show ?thesis
      using assms(1) [OF once] Some assms(2) once
      by (auto simp: nodes_match_def add_node_stake_def add_to_entry_def update_conv distinct_update)
  qed (use assms(1) [OF once] assms(2) in \<open>simp add: nodes_match_def add_node_stake_def\<close>)
qed

lemma sub_node_stake_match:
  assumes "va_once va \<Longrightarrow> nodes_match (va_staked_nodes va) tot"
    and "\<And>n. tot n = tot' n + (if va_node_pubkey vc a = Some n then stake else 0)"
  obtains va' where "sub_node_stake vc stake a va = Ok va'" "va_accounts va' = va_accounts va" "va_once va' = va_once va"
    "va_once va \<Longrightarrow> nodes_match (va_staked_nodes va') tot'"
proof (cases "stake = 0 \<or> \<not> va_once va \<or> va_node_pubkey vc a = None")
  case True
  then have "sub_node_stake vc stake a va = Ok va" by (auto simp: sub_node_stake_def)
  moreover have "va_once va \<Longrightarrow> tot' = tot" using True assms(2) by (auto simp: fun_eq_iff)
  ultimately show ?thesis using assms(1) by (intro that) auto
next
  case False
  then obtain node where node: "va_node_pubkey vc a = Some node" "stake \<noteq> 0" "va_once va" by auto
  then have tot: "tot node = tot' node + stake" "\<And>n. n \<noteq> node \<Longrightarrow> tot n = tot' n" using assms(2) by auto
  note m = assms(1) [OF node(3), unfolded nodes_match_def]
  have "map_of (va_staked_nodes va) node = Some (tot node)" using m tot node(2) by simp
  then show ?thesis
    using m tot node
    by (cases "tot node = stake")
      (auto intro!: that simp: sub_node_stake_def nodes_match_def update_conv distinct_update delete_conv distinct_delete)
qed

definition stake_sum :: "(pubkey \<times> u64 \<times> account_shared_data) list \<Rightarrow> nat" where
  "stake_sum accounts = alist_sum (\<lambda>_ (stake, _). stake) accounts"

lemma node_sum_le: "node_sum vc accounts n \<le> stake_sum accounts"
  unfolding node_sum_def stake_sum_def by (rule alist_sum_mono) (auto split: prod.split)

lemma stake_sum_member: "map_of accounts k = Some (stake, a) \<Longrightarrow> stake \<le> stake_sum accounts"
  unfolding stake_sum_def using alist_sum_member [of accounts k "(stake, a)" "\<lambda>_ (stake, _). stake"] by simp

text \<open>The operations keep the invariant and do not panic.\<close>

lemma va_add_stake_inv:
  assumes "va_inv vc va" "stake_sum (va_accounts va) + delta \<le> u64_max"
  shows "va_inv vc (va_add_stake vc k delta va) \<and>
    va_accounts (va_add_stake vc k delta va) =
      (case map_of (va_accounts va) k of
         Some (stake, a) \<Rightarrow> AList.update k (stake + delta, a) (va_accounts va) | None \<Rightarrow> va_accounts va)"
proof (cases "map_of (va_accounts va) k")
  case None
  then show ?thesis using assms by (simp add: va_add_stake_def)
next
  case (Some e)
  obtain stake a where e: "e = (stake, a)" by (cases e)
  define accounts where "accounts = AList.update k (stake + delta, a) (va_accounts va)"
  have w: "wrap64 (stake + delta) = stake + delta"
    using stake_sum_member [OF Some [unfolded e]] assms(2) by (intro wrap64_id) linarith
  have sum: "node_sum vc accounts n = node_sum vc (va_accounts va) n + (if va_node_pubkey vc a = Some n then delta else 0)" for n
    using alist_sum_update [of "\<lambda>_ (s, a). if va_node_pubkey vc a = Some n then s else 0" k "(stake + delta, a)" "va_accounts va"]
      Some e by (auto simp: node_sum_def accounts_def)
  have bound: "node_sum vc accounts n \<le> u64_max" for n
    using sum [of n] node_sum_le [of vc "va_accounts va" n] assms(2) by (simp split: if_splits)
  note add = add_node_stake_match [of "va\<lparr>va_accounts := accounts\<rparr>" "node_sum vc (va_accounts va)" "node_sum vc accounts" vc a delta]
  show ?thesis
    using assms(1) Some e w add sum bound
    by (simp add: va_add_stake_def va_inv_def accounts_def [symmetric]) (simp add: accounts_def distinct_update)
qed

lemma va_sub_stake_inv:
  assumes "va_inv vc va" "\<And>stake a. map_of (va_accounts va) k = Some (stake, a) \<Longrightarrow> delta \<le> stake"
  obtains va' where "(va_sub_stake vc k delta va :: (vote_accounts, 'e) result) = Ok va'" "va_inv vc va'"
    "va_accounts va' = (case map_of (va_accounts va) k of
       Some (stake, a) \<Rightarrow> AList.update k (stake - delta, a) (va_accounts va) | None \<Rightarrow> va_accounts va)"
proof (cases "map_of (va_accounts va) k")
  case None
  then show ?thesis using assms by (intro that [of va]) (simp_all add: va_sub_stake_def)
next
  case (Some e)
  obtain stake a where e: "e = (stake, a)" by (cases e)
  define accounts where "accounts = AList.update k (stake - delta, a) (va_accounts va)"
  have le: "delta \<le> stake" using assms(2) Some e by simp
  have sum: "node_sum vc (va_accounts va) n = node_sum vc accounts n + (if va_node_pubkey vc a = Some n then delta else 0)" for n
    using alist_sum_update [of "\<lambda>_ (s, a). if va_node_pubkey vc a = Some n then s else 0" k "(stake - delta, a)" "va_accounts va"]
      Some e le by (auto simp: node_sum_def accounts_def)
  obtain va' where va': "(sub_node_stake vc delta a (va\<lparr>va_accounts := accounts\<rparr>) :: (vote_accounts, 'e) result) = Ok va'" "va_accounts va' = accounts"
    "va_once va' = va_once va" "va_once va \<Longrightarrow> nodes_match (va_staked_nodes va') (node_sum vc accounts)"
    by (rule sub_node_stake_match [of "va\<lparr>va_accounts := accounts\<rparr>" "node_sum vc (va_accounts va)" "node_sum vc accounts" vc a delta])
      (use assms(1) sum in \<open>auto simp: va_inv_def\<close>)
  show ?thesis
  proof (rule that)
    show "(va_sub_stake vc k delta va :: (vote_accounts, 'e) result) = Ok va'"
      using Some e le va'(1) by (simp add: va_sub_stake_def accounts_def checked_sub64_def unwrap_def)
    show "va_inv vc va'"
      using assms(1) va' by (simp add: va_inv_def) (simp add: accounts_def distinct_update)
  qed (use va'(2) Some e in \<open>simp add: accounts_def\<close>)
qed

lemma va_remove_inv:
  assumes "va_inv vc va"
  obtains va' where "(va_remove vc k va :: (_, 'e) result) = Ok (map_of (va_accounts va) k, va')" "va_inv vc va'"
    "va_accounts va' = AList.delete k (va_accounts va)"
proof (cases "map_of (va_accounts va) k")
  case None
  then show ?thesis
    using assms by (intro that [of va]) (simp_all add: va_remove_def delete_absent)
next
  case (Some e)
  obtain stake a where e: "e = (stake, a)" by (cases e)
  define accounts where "accounts = AList.delete k (va_accounts va)"
  have sum: "node_sum vc (va_accounts va) n = node_sum vc accounts n + (if va_node_pubkey vc a = Some n then stake else 0)" for n
    using alist_sum_delete [of "va_accounts va" "\<lambda>_ (s, a). if va_node_pubkey vc a = Some n then s else 0" k]
      Some e assms by (auto simp: node_sum_def accounts_def va_inv_def)
  obtain va' where va': "(sub_node_stake vc stake a (va\<lparr>va_accounts := accounts\<rparr>) :: (vote_accounts, 'e) result) = Ok va'" "va_accounts va' = accounts"
    "va_once va' = va_once va" "va_once va \<Longrightarrow> nodes_match (va_staked_nodes va') (node_sum vc accounts)"
    by (rule sub_node_stake_match [of "va\<lparr>va_accounts := accounts\<rparr>" "node_sum vc (va_accounts va)" "node_sum vc accounts" vc a stake])
      (use assms sum in \<open>auto simp: va_inv_def\<close>)
  show ?thesis
  proof (rule that)
    show "(va_remove vc k va :: (_, 'e) result) = Ok (map_of (va_accounts va) k, va')"
      using Some e va'(1) by (simp add: va_remove_def accounts_def)
    show "va_inv vc va'"
      using assms va' by (simp add: va_inv_def) (simp add: accounts_def distinct_delete)
  qed (use va'(2) in \<open>simp add: accounts_def\<close>)
qed

lemma va_insert_inv:
  assumes "va_inv vc va" "map_of (va_accounts va) k = None" "stake_sum (va_accounts va) + stake \<le> u64_max"
  obtains va' where "va_insert vc k stake a va = Ok va'" "va_inv vc va'"
    "va_accounts va' = AList.update k (stake, a) (va_accounts va)"
proof -
  define accounts where "accounts = AList.update k (stake, a) (va_accounts va)"
  have sum: "node_sum vc accounts n = node_sum vc (va_accounts va) n + (if va_node_pubkey vc a = Some n then stake else 0)" for n
    using alist_sum_update [of "\<lambda>_ (s, a). if va_node_pubkey vc a = Some n then s else 0" k "(stake, a)" "va_accounts va"]
      assms(2) by (auto simp: node_sum_def accounts_def)
  have bound: "node_sum vc accounts n \<le> u64_max" for n
    using sum [of n] node_sum_le [of vc "va_accounts va" n] assms(3) by (simp split: if_splits)
  note add = add_node_stake_match [of va "node_sum vc (va_accounts va)" "node_sum vc accounts" vc a stake]
  show ?thesis
  proof (rule that)
    show "va_insert vc k stake a va = Ok ((add_node_stake vc stake a va)\<lparr>va_accounts := accounts\<rparr>)"
      using assms(2) add sum bound by (simp add: va_insert_def Let_def accounts_def va_inv_def assms(1) [unfolded va_inv_def])
    show "va_inv vc ((add_node_stake vc stake a va)\<lparr>va_accounts := accounts\<rparr>)"
      using assms(1) add sum bound by (simp add: va_inv_def) (simp add: accounts_def distinct_update)
  qed (simp add: accounts_def)
qed

lemma compute_staked_nodes_match:
  assumes "stake_sum accounts \<le> u64_max"
  shows "nodes_match (compute_staked_nodes vc accounts) (node_sum vc accounts)"
proof -
  define step where "step = (\<lambda>(_ :: pubkey, stake, a) m.
       if stake = 0 then m else (case va_node_pubkey vc a of Some node \<Rightarrow> add_to_entry node stake m | None \<Rightarrow> m))"
  have "nodes_match (fold step xs m) (\<lambda>n. tot n + node_sum vc xs n)"
    if "nodes_match m tot" "\<And>n. tot n + node_sum vc xs n \<le> u64_max" for xs m tot
    using that
  proof (induction xs arbitrary: m tot)
    case (Cons x xs)
    obtain k stake a where x: "x = (k, stake, a)" by (cases x)
    define tot' where "tot' n = tot n + (if va_node_pubkey vc a = Some n then stake else 0)" for n
    have sum: "node_sum vc (x # xs) n = (if va_node_pubkey vc a = Some n then stake else 0) + node_sum vc xs n" for n
      by (simp add: node_sum_def x)
    have le: "tot' n + node_sum vc xs n \<le> u64_max" for n
      using Cons.prems(2) [of n] by (simp add: sum tot'_def)
    have "nodes_match (step x m) tot'"
    proof (cases "va_node_pubkey vc a")
      case (Some node)
      then have "tot node + stake \<le> u64_max" using le [of node] by (simp add: tot'_def)
      then show ?thesis
        using Cons.prems(1) Some
        by (auto simp: step_def x nodes_match_def tot'_def add_to_entry_def update_conv distinct_update)
    qed (use Cons.prems(1) in \<open>simp add: step_def x nodes_match_def tot'_def\<close>)
    from Cons.IH [OF this le] show ?case by (simp add: sum tot'_def add.assoc)
  qed (simp add: node_sum_def)
  from this [of "[]" "\<lambda>_. 0" accounts] show ?thesis
    using assms order.trans [OF node_sum_le assms]
    by (simp add: compute_staked_nodes_def step_def nodes_match_def)
qed

section \<open>The stakes match the delegations\<close>

definition effective_of :: "stakes \<Rightarrow> delegation \<Rightarrow> u64" where
  "effective_of sk d = delegation_stake d (sk_epoch sk) (Some (sk_stake_history sk))"

lemma effective_of_frame [simp]:
  "effective_of (sk\<lparr>sk_vote_accounts := va\<rparr>) = effective_of sk"
  "effective_of (sk\<lparr>sk_stake_delegations := ds\<rparr>) = effective_of sk"
  by (simp_all add: fun_eq_iff effective_of_def)

definition delegated_to :: "(delegation \<Rightarrow> u64) \<Rightarrow> (pubkey \<times> delegation) list \<Rightarrow> pubkey \<Rightarrow> nat" where
  "delegated_to eff ds k = alist_sum (\<lambda>_ d. if dg_voter_pubkey d = k then eff d else 0) ds"

definition accounts_match ::
  "(delegation \<Rightarrow> u64) \<Rightarrow> (pubkey \<times> delegation) list \<Rightarrow> (pubkey \<times> u64 \<times> account_shared_data) list \<Rightarrow> bool" where
  "accounts_match eff ds accounts \<longleftrightarrow>
     (\<forall>k stake a. map_of accounts k = Some (stake, a) \<longrightarrow> stake = delegated_to eff ds k)"

text \<open>
  The invariant: the keys are distinct, the stake cached for a vote account is the sum of the effective stakes of the
  delegations to it, the staked nodes match, and all the delegated lamports fit 64 bits.
\<close>

definition stakes_inv :: "vote_codec \<Rightarrow> stakes \<Rightarrow> bool" where
  "stakes_inv vc sk \<longleftrightarrow>
     va_inv vc (sk_vote_accounts sk) \<and> distinct (map fst (sk_stake_delegations sk)) \<and>
     accounts_match (effective_of sk) (sk_stake_delegations sk) (va_accounts (sk_vote_accounts sk)) \<and>
     alist_sum (\<lambda>_ d. dg_stake d) (sk_stake_delegations sk) \<le> u64_max"

lemma alist_sum_set: "distinct (map fst xs) \<Longrightarrow> alist_sum f xs = (\<Sum>k \<in> fst ` set xs. f k (the (map_of xs k)))"
proof (induction xs)
  case (Cons x xs)
  obtain k v where x: "x = (k, v)" by (cases x)
  have "(\<Sum>j \<in> fst ` set xs. f j (the (map_of (x # xs) j))) = (\<Sum>j \<in> fst ` set xs. f j (the (map_of xs j)))"
    using Cons.prems x by (intro sum.cong) auto
  then show ?case using Cons x by simp
qed simp

lemma delegated_to_all:
  assumes "finite K"
  shows "(\<Sum>k \<in> K. delegated_to eff ds k) \<le> alist_sum (\<lambda>_ d. eff d) ds"
proof (induction ds)
  case (Cons x ds)
  obtain j d where x: "x = (j, d)" by (cases x)
  have "(\<Sum>k \<in> K. delegated_to eff (x # ds) k) =
      (\<Sum>k \<in> K. if dg_voter_pubkey d = k then eff d else 0) + (\<Sum>k \<in> K. delegated_to eff ds k)"
    by (simp add: delegated_to_def x sum.distrib)
  also have "(\<Sum>k \<in> K. if dg_voter_pubkey d = k then eff d else 0) \<le> eff d"
    using assms by (simp add: sum.delta')
  finally show ?case using Cons.IH x by simp
qed (simp add: delegated_to_def)

lemma accounts_match_sum:
  assumes "accounts_match eff ds accounts" "distinct (map fst accounts)"
  shows "stake_sum accounts \<le> alist_sum (\<lambda>_ d. eff d) ds"
proof -
  have "stake_sum accounts = (\<Sum>k \<in> fst ` set accounts. delegated_to eff ds k)"
    unfolding stake_sum_def alist_sum_set [OF assms(2)]
  proof (rule sum.cong)
    fix k assume "k \<in> fst ` set accounts"
    then obtain stake a where "map_of accounts k = Some (stake, a)"
      by (metis domIff dom_map_of_conv_image_fst option.exhaust prod.exhaust)
    then show "(\<lambda>_ (stake, _). stake) k (the (map_of accounts k)) = delegated_to eff ds k"
      using assms(1) by (simp add: accounts_match_def)
  qed simp
  then show ?thesis using delegated_to_all [of "fst ` set accounts" eff ds] by simp
qed

lemma alist_sum_bound: "(k, v) \<in> set xs \<Longrightarrow> f k v \<le> alist_sum f xs"
  by (induction xs) auto

lemma effective_sum_le:
  assumes "alist_sum (\<lambda>_ d. dg_stake d) ds \<le> u64_max"
  shows "alist_sum (\<lambda>_ d. effective_of sk d) ds \<le> u64_max"
proof -
  have "alist_sum (\<lambda>_ d. effective_of sk d) ds \<le> alist_sum (\<lambda>_ d. dg_stake d) ds"
    unfolding effective_of_def
    using assms alist_sum_bound [of _ _ ds "\<lambda>_ d. dg_stake d"]
    by (intro alist_sum_mono delegation_stake_le) (meson order.trans)
  then show ?thesis using assms by (rule order.trans)
qed

lemma delegated_to_update:
  "distinct (map fst ds) \<Longrightarrow> delegated_to eff (AList.update k d ds) j =
     delegated_to eff (AList.delete k ds) j + (if dg_voter_pubkey d = j then eff d else 0)"
  using alist_sum_update [of "\<lambda>_ d. if dg_voter_pubkey d = j then eff d else 0" k d ds]
    alist_sum_delete [of ds "\<lambda>_ d. if dg_voter_pubkey d = j then eff d else 0" k]
  by (simp add: delegated_to_def)

lemma delegated_to_delete:
  "distinct (map fst ds) \<Longrightarrow> delegated_to eff ds j = delegated_to eff (AList.delete k ds) j +
     (case map_of ds k of Some d \<Rightarrow> if dg_voter_pubkey d = j then eff d else 0 | None \<Rightarrow> 0)"
  using alist_sum_delete [of ds "\<lambda>_ d. if dg_voter_pubkey d = j then eff d else 0" k]
  by (simp add: delegated_to_def)

lemma accounts_match_add:
  assumes "accounts_match eff ds accounts" "\<And>j. delegated_to eff ds' j = delegated_to eff ds j + (if voter = j then n else 0)"
  shows "accounts_match eff ds'
    (case map_of accounts voter of Some (stake, a) \<Rightarrow> AList.update voter (stake + n, a) accounts | None \<Rightarrow> accounts)"
  using assms by (auto simp: accounts_match_def update_conv split: option.splits if_splits)

lemma accounts_match_sub:
  assumes "accounts_match eff ds accounts" "\<And>j. delegated_to eff ds j = delegated_to eff ds' j + (if voter = j then n else 0)"
  shows "accounts_match eff ds'
    (case map_of accounts voter of Some (stake, a) \<Rightarrow> AList.update voter (stake - n, a) accounts | None \<Rightarrow> accounts)"
    "map_of accounts voter = Some (stake, a) \<Longrightarrow> n \<le> stake"
proof -
  have old: "stake = delegated_to eff ds' k + (if voter = k then n else 0)" if "map_of accounts k = Some (stake, a)" for k stake a
    using assms(1) that by (simp add: accounts_match_def assms(2))
  show "accounts_match eff ds'
    (case map_of accounts voter of Some (stake, a) \<Rightarrow> AList.update voter (stake - n, a) accounts | None \<Rightarrow> accounts)"
  proof (cases "map_of accounts voter")
    case None
    then show ?thesis using old unfolding accounts_match_def by fastforce
  next
    case (Some e)
    then show ?thesis
      using old unfolding accounts_match_def by (cases e) (fastforce simp: update_conv split: if_splits)
  qed
  show "map_of accounts voter = Some (stake, a) \<Longrightarrow> n \<le> stake" by (auto dest: old)
qed

lemma fold_wrap64:
  "fold (\<lambda>x acc. wrap64 (acc + f x)) xs a = (if xs = [] then a else wrap64 (a + sum_list (map f xs)))"
proof (induction xs arbitrary: a)
  case (Cons x xs)
  show ?case
    by (simp add: Cons.IH) (simp add: wrap64_def mod_simps add.assoc)
qed simp

lemma calculate_stake_delegated:
  assumes "alist_sum (\<lambda>_ d. dg_stake d) (sk_stake_delegations sk) \<le> u64_max"
  shows "calculate_stake sk k (sk_epoch sk) (sk_stake_history sk) = delegated_to (effective_of sk) (sk_stake_delegations sk) k"
proof -
  have sum: "sum_list (map (\<lambda>(_, d). delegation_stake d (sk_epoch sk) (Some (sk_stake_history sk)))
      (filter (\<lambda>(_, d). dg_voter_pubkey d = k) ds)) = delegated_to (effective_of sk) ds k" for ds
    by (induction ds) (auto simp: delegated_to_def effective_of_def)
  have "delegated_to (effective_of sk) (sk_stake_delegations sk) k \<le> u64_max"
    using delegated_to_all [of "{k}" "effective_of sk" "sk_stake_delegations sk"] effective_sum_le [OF assms, of sk]
    by simp
  then show ?thesis
    unfolding calculate_stake_def case_prod_unfold fold_wrap64
    using sum [of "sk_stake_delegations sk"] by (auto simp: case_prod_unfold)
qed

lemma update_vote_account_inv:
  assumes "stakes_inv vc sk"
  obtains sk' where "(update_vote_account vc k new sk :: (stakes, 'e) result) = Ok sk'" "stakes_inv vc sk'"
proof -
  let ?va = "sk_vote_accounts sk" and ?ds = "sk_stake_delegations sk"
  note inv = assms [unfolded stakes_inv_def]
  define stake where "stake = delegated_to (effective_of sk) ?ds k"
  obtain va where va: "(va_remove vc k ?va :: (_, 'e) result) = Ok (map_of (va_accounts ?va) k, va)" "va_inv vc va"
    "va_accounts va = AList.delete k (va_accounts ?va)"
    by (rule va_remove_inv [OF conjunct1 [OF inv]])
  have match: "accounts_match (effective_of sk) ?ds (va_accounts va)"
    using inv va(3) by (auto simp: accounts_match_def delete_conv split: if_splits)
  show ?thesis
  proof (cases new)
    case None
    then have "(update_vote_account vc k new sk :: (_, 'e) result) = Ok (sk\<lparr>sk_vote_accounts := va\<rparr>)"
      using va(1) by (simp add: update_vote_account_def)
    moreover have "stakes_inv vc (sk\<lparr>sk_vote_accounts := va\<rparr>)"
      using inv va(2) match by (simp add: stakes_inv_def)
    ultimately show ?thesis by (rule that)
  next
    case (Some a)
    let ?accounts = "AList.update k (stake, a) (va_accounts va)"
    have match': "accounts_match (effective_of sk) ?ds ?accounts"
      using match by (auto simp: accounts_match_def update_conv stake_def split: if_splits)
    have dist: "distinct (map fst ?accounts)" using va(2) by (simp add: va_inv_def distinct_update)
    have absent: "map_of (va_accounts va) k = None" by (simp add: va(3) delete_conv)
    then have "stake_sum (va_accounts va) + stake \<le> u64_max"
      using alist_sum_update [of "\<lambda>_ (stake, _). stake" k "(stake, a)" "va_accounts va"]
        accounts_match_sum [OF match' dist] effective_sum_le [of ?ds sk] inv
      by (auto simp: stake_sum_def)
    then obtain va' where va': "(va_insert vc k stake a va :: (_, 'e) result) = Ok va'" "va_inv vc va'" "va_accounts va' = ?accounts"
      by (rule va_insert_inv [OF va(2) absent])
    have stake: "(case map_of (va_accounts ?va) k of
         None \<Rightarrow> calculate_stake (sk\<lparr>sk_vote_accounts := va\<rparr>) k
           (sk_epoch (sk\<lparr>sk_vote_accounts := va\<rparr>)) (sk_stake_history (sk\<lparr>sk_vote_accounts := va\<rparr>))
       | Some (old, _) \<Rightarrow> old) = stake"
      using inv calculate_stake_delegated [of "sk\<lparr>sk_vote_accounts := va\<rparr>" k]
      by (auto simp: accounts_match_def stake_def split: option.split)
    have "(update_vote_account vc k new sk :: (_, 'e) result) = Ok (sk\<lparr>sk_vote_accounts := va'\<rparr>)"
      using va(1) va'(1) stake Some by (simp add: update_vote_account_def Let_def)
    moreover have "stakes_inv vc (sk\<lparr>sk_vote_accounts := va'\<rparr>)"
      using inv va'(2,3) match' by (simp add: stakes_inv_def)
    ultimately show ?thesis by (rule that)
  qed
qed

lemma va_sub_delegated:
  assumes "va_inv vc va" "accounts_match eff ds (va_accounts va)"
    and "\<And>j. delegated_to eff ds j = delegated_to eff ds' j + (if voter = j then n else 0)"
  obtains va' where "(va_sub_stake vc voter n va :: (vote_accounts, 'e) result) = Ok va'" "va_inv vc va'"
    "accounts_match eff ds' (va_accounts va')"
proof -
  obtain va' where va': "(va_sub_stake vc voter n va :: (vote_accounts, 'e) result) = Ok va'" "va_inv vc va'"
    "va_accounts va' = (case map_of (va_accounts va) voter of
       Some (stake, a) \<Rightarrow> AList.update voter (stake - n, a) (va_accounts va) | None \<Rightarrow> va_accounts va)"
    by (rule va_sub_stake_inv [OF assms(1), of voter n]) (use accounts_match_sub(2) [OF assms(2,3)] in auto)
  with accounts_match_sub(1) [OF assms(2,3)] show ?thesis by (intro that [OF va'(1,2)]) simp
qed

lemma va_add_delegated:
  assumes "va_inv vc va" "accounts_match eff ds (va_accounts va)"
    and "\<And>j. delegated_to eff ds' j = delegated_to eff ds j + (if voter = j then n else 0)"
    and "alist_sum (\<lambda>_ d. eff d) ds + n \<le> u64_max"
  shows "va_inv vc (va_add_stake vc voter n va) \<and> accounts_match eff ds' (va_accounts (va_add_stake vc voter n va))"
proof -
  have "stake_sum (va_accounts va) + n \<le> u64_max"
    using accounts_match_sum [OF assms(2)] assms(1,4) by (simp add: va_inv_def)
  from va_add_stake_inv [OF assms(1) this, of voter] show ?thesis
    using accounts_match_add [OF assms(2,3)] by simp
qed

lemma remove_stake_delegation_inv:
  assumes "stakes_inv vc sk"
  obtains sk' where "(remove_stake_delegation vc k sk :: (stakes, 'e) result) = Ok sk'" "stakes_inv vc sk'"
proof (cases "map_of (sk_stake_delegations sk) k")
  case None
  then show ?thesis using assms by (intro that [of sk]) (simp_all add: remove_stake_delegation_def)
next
  case (Some d)
  let ?ds = "sk_stake_delegations sk"
  note inv = assms [unfolded stakes_inv_def]
  have split: "delegated_to (effective_of sk) ?ds j =
      delegated_to (effective_of sk) (AList.delete k ?ds) j + (if dg_voter_pubkey d = j then effective_of sk d else 0)" for j
    using delegated_to_delete [of ?ds "effective_of sk" j k] Some inv by simp
  obtain va where va: "(va_sub_stake vc (dg_voter_pubkey d) (effective_of sk d) (sk_vote_accounts sk) :: (_, 'e) result) = Ok va"
    "va_inv vc va" "accounts_match (effective_of sk) (AList.delete k ?ds) (va_accounts va)"
    by (rule va_sub_delegated [OF _ _ split]) (use inv in auto)
  have "alist_sum (\<lambda>_ d. dg_stake d) (AList.delete k ?ds) \<le> u64_max"
    using alist_sum_delete [of ?ds "\<lambda>_ d. dg_stake d" k] inv by simp
  then have "stakes_inv vc (sk\<lparr>sk_stake_delegations := AList.delete k ?ds, sk_vote_accounts := va\<rparr>)"
    using inv va by (simp add: stakes_inv_def distinct_delete)
  then show ?thesis
    using va(1) Some by (intro that) (simp_all add: remove_stake_delegation_def Let_def effective_of_def)
qed

text \<open>The vote accounts after the stake behind a delegation is replaced: those of the delegations \<open>ds'\<close>.\<close>

lemma restake_inv:
  fixes sk :: stakes and k :: pubkey
  defines "ds \<equiv> sk_stake_delegations sk" and "eff \<equiv> effective_of sk"
  assumes "stakes_inv vc sk"
    and update: "\<And>j. delegated_to eff ds' j = delegated_to eff (AList.delete k ds) j + (if dg_voter_pubkey d = j then n else 0)"
    and total: "alist_sum (\<lambda>_ d. eff d) (AList.delete k ds) + n \<le> u64_max"
  obtains va where "(update_stake_delegation vc k (Some (n, d)) sk :: (stakes, 'e) result) =
      Ok (sk\<lparr>sk_vote_accounts := va, sk_stake_delegations := AList.update k d ds\<rparr>)"
    "va_inv vc va" "accounts_match eff ds' (va_accounts va)"
proof -
  note inv = assms(3) [unfolded stakes_inv_def, folded ds_def eff_def]
  define old where "old = map_option (\<lambda>d. (dg_voter_pubkey d, eff d)) (map_of ds k)"
  let ?voter = "dg_voter_pubkey d"
  have delete: "delegated_to eff ds j = delegated_to eff (AList.delete k ds) j +
      (case old of Some (voter, n) \<Rightarrow> if voter = j then n else 0 | None \<Rightarrow> 0)" for j
    using delegated_to_delete [of ds eff j k] inv by (simp add: old_def split: option.split)
  obtain va where va: "(if Some (?voter, n) \<noteq> old then
           bindE (case old of
                    Some (voter, stake) \<Rightarrow> va_sub_stake vc voter stake (sk_vote_accounts sk)
                  | None \<Rightarrow> Ok (sk_vote_accounts sk)) (\<lambda>va.
           Ok (va_add_stake vc ?voter n va))
         else Ok (sk_vote_accounts sk)) = (Ok va :: (vote_accounts, 'e) result)" "va_inv vc va" "accounts_match eff ds' (va_accounts va)"
  proof (cases "old = Some (?voter, n)")
    case True
    then have "accounts_match eff ds' (va_accounts (sk_vote_accounts sk))"
      using inv delete update by (simp add: accounts_match_def)
    then show ?thesis using True inv by (intro that [of "sk_vote_accounts sk"]) auto
  next
    case False
    obtain va where va: "(case old of
                    Some (voter, stake) \<Rightarrow> va_sub_stake vc voter stake (sk_vote_accounts sk)
                  | None \<Rightarrow> Ok (sk_vote_accounts sk)) = (Ok va :: (vote_accounts, 'e) result)"
      "va_inv vc va" "accounts_match eff (AList.delete k ds) (va_accounts va)"
    proof (cases old)
      case None
      then show ?thesis
        using inv delete by (intro that [of "sk_vote_accounts sk"]) (simp_all add: accounts_match_def)
    next
      case (Some v)
      obtain voter' n' where v: "v = (voter', n')" by (cases v)
      show ?thesis
        by (rule va_sub_delegated [of vc "sk_vote_accounts sk" eff ds "AList.delete k ds" voter' n'])
          (use inv delete Some v that in auto)
    qed
    from va_add_delegated [OF va(2,3) update total] show ?thesis
      using False va(1) by (intro that) auto
  qed
  moreover have "update_stake_delegation vc k (Some (n, d)) sk =
      (Ok (sk\<lparr>sk_vote_accounts := va, sk_stake_delegations := AList.update k d ds\<rparr>) :: (stakes, 'e) result)"
    unfolding update_stake_delegation_def Let_def effective_of_def [symmetric] ds_def [symmetric] eff_def [symmetric]
    by (simp only: old_def [symmetric] option.map prod.case option.case va(1) bindE_simps)
  ultimately show ?thesis by (intro that)
qed

lemma update_stake_delegation_inv:
  assumes "stakes_inv vc sk"
    and "alist_sum (\<lambda>_ d. dg_stake d) (AList.update k d (sk_stake_delegations sk)) \<le> u64_max"
  obtains sk' where "(update_stake_delegation vc k (Some (effective_of sk d, d)) sk :: (stakes, 'e) result) = Ok sk'" "stakes_inv vc sk'"
proof -
  let ?ds = "sk_stake_delegations sk" and ?eff = "effective_of sk"
  let ?ds' = "AList.update k d ?ds"
  note inv = assms(1) [unfolded stakes_inv_def]
  have update: "delegated_to ?eff ?ds' j =
      delegated_to ?eff (AList.delete k ?ds) j + (if dg_voter_pubkey d = j then ?eff d else 0)" for j
    using delegated_to_update inv by blast
  have total: "alist_sum (\<lambda>_ d. ?eff d) (AList.delete k ?ds) + ?eff d \<le> u64_max"
    using effective_sum_le [OF assms(2), of sk] alist_sum_update [of "\<lambda>_ d. ?eff d" k d ?ds]
      alist_sum_delete [of ?ds "\<lambda>_ d. ?eff d" k] inv by simp
  obtain va where va: "(update_stake_delegation vc k (Some (?eff d, d)) sk :: (stakes, 'e) result) =
      Ok (sk\<lparr>sk_vote_accounts := va, sk_stake_delegations := ?ds'\<rparr>)" "va_inv vc va" "accounts_match ?eff ?ds' (va_accounts va)"
    by (rule restake_inv [OF assms(1) update total])
  then have "stakes_inv vc (sk\<lparr>sk_vote_accounts := va, sk_stake_delegations := ?ds'\<rparr>)"
    using inv assms(2) by (simp add: stakes_inv_def distinct_update)
  with va(1) show ?thesis by (rule that)
qed

text \<open>A delegation that is stored without lamports takes its stake from the vote account but stays in the cache.\<close>

lemma drained_stake_delegation:
  assumes "stakes_inv vc sk"
  obtains sk' where "(update_stake_delegation vc k (Some (0, d)) sk :: (stakes, 'e) result) = Ok sk'"
    "sk_stake_delegations sk' = AList.update k d (sk_stake_delegations sk)"
    "accounts_match (effective_of sk) (AList.delete k (sk_stake_delegations sk)) (va_accounts (sk_vote_accounts sk'))"
proof -
  let ?ds = "sk_stake_delegations sk" and ?eff = "effective_of sk"
  have total: "alist_sum (\<lambda>_ d. ?eff d) (AList.delete k ?ds) + 0 \<le> u64_max"
    using effective_sum_le [of ?ds sk] alist_sum_delete [of ?ds "\<lambda>_ d. ?eff d" k] assms by (simp add: stakes_inv_def)
  have update: "delegated_to ?eff (AList.delete k ?ds) j =
      delegated_to ?eff (AList.delete k ?ds) j + (if dg_voter_pubkey d = j then 0 else 0)" for j by simp
  obtain va where va: "(update_stake_delegation vc k (Some (0, d)) sk :: (stakes, 'e) result) =
      Ok (sk\<lparr>sk_vote_accounts := va, sk_stake_delegations := AList.update k d ?ds\<rparr>)"
    "accounts_match ?eff (AList.delete k ?ds) (va_accounts va)"
    by (rule restake_inv [OF assms update total])
  then show ?thesis by (intro that [OF va(1)]) simp_all
qed

lemma forget_stake_delegation:
  "(update_stake_delegation vc k None sk :: (stakes, 'e) result) = remove_stake_delegation vc k sk"
  by (cases sk; cases "map_of (sk_stake_delegations sk) k")
    (simp_all add: update_stake_delegation_def remove_stake_delegation_def delete_absent bindE_assoc)

lemma remove_vote_account_inv:
  assumes "stakes_inv vc sk"
  obtains sk' where "(remove_vote_account vc k sk :: (stakes, 'e) result) = Ok sk'" "stakes_inv vc sk'"
proof -
  have "(remove_vote_account vc k sk :: (stakes, 'e) result) = update_vote_account vc k None sk"
    by (simp add: remove_vote_account_def update_vote_account_def)
  with update_vote_account_inv [OF assms] that show ?thesis by metis
qed

lemma fold_add_to_entry:
  assumes "\<And>j. tot j + delegated_to eff ds j \<le> u64_max" "\<And>j. (case map_of m j of Some n \<Rightarrow> n | None \<Rightarrow> 0) = tot j"
  shows "(case map_of (fold (\<lambda>(_, d) m. add_to_entry (dg_voter_pubkey d) (eff d) m) ds m) j of Some n \<Rightarrow> n | None \<Rightarrow> 0) =
    tot j + delegated_to eff ds j"
  using assms
proof (induction ds arbitrary: m tot)
  case (Cons x ds)
  obtain k d where x: "x = (k, d)" by (cases x)
  define tot' where "tot' j = tot j + (if dg_voter_pubkey d = j then eff d else 0)" for j
  have sum: "tot j + delegated_to eff (x # ds) j = tot' j + delegated_to eff ds j" for j
    by (simp add: delegated_to_def tot'_def x)
  have le: "tot' j + delegated_to eff ds j \<le> u64_max" for j using Cons.prems(1) [of j] by (simp add: sum)
  have "wrap64 (tot (dg_voter_pubkey d) + eff d) = tot (dg_voter_pubkey d) + eff d"
    using le [of "dg_voter_pubkey d"] by (intro wrap64_id) (simp add: tot'_def)
  then have m': "(case map_of (add_to_entry (dg_voter_pubkey d) (eff d) m) j of Some n \<Rightarrow> n | None \<Rightarrow> 0) = tot' j" for j
    using Cons.prems(2) by (simp add: add_to_entry_def update_conv tot'_def)
  from Cons.IH [OF le m'] show ?case by (simp only: sum) (simp add: x)
qed (simp add: delegated_to_def)

text \<open>A new epoch recomputes every cached stake from the delegations and forgets the staked nodes.\<close>

lemma stakes_activate_epoch_inv:
  assumes "stakes_inv vc sk"
  shows "stakes_inv vc (stakes_activate_epoch e sk)"
proof -
  let ?sk' = "stakes_activate_epoch e sk" and ?ds = "sk_stake_delegations sk"
  define history where "history = sk_stake_history ?sk'"
  define eff where "eff d = delegation_stake d e (Some history)" for d
  note inv = assms [unfolded stakes_inv_def]
  have eff: "effective_of ?sk' = eff"
    by (simp add: fun_eq_iff effective_of_def eff_def history_def) (simp add: stakes_activate_epoch_def Let_def)
  have "delegated_to eff ?ds j \<le> u64_max" for j
    using delegated_to_all [of "{j}" eff ?ds] effective_sum_le [of ?ds ?sk'] inv by (simp add: eff)
  then have stakes: "(case map_of (fold (\<lambda>(_, d) m. add_to_entry (dg_voter_pubkey d) (eff d) m) ?ds []) j of
      Some n \<Rightarrow> n | None \<Rightarrow> 0) = delegated_to eff ?ds j" for j
    using fold_add_to_entry [of "\<lambda>_. 0" eff ?ds "[]" j] by simp
  have accounts: "va_accounts (sk_vote_accounts ?sk') =
      map (\<lambda>(k, _, a). (k, delegated_to eff ?ds k, a)) (va_accounts (sk_vote_accounts sk))"
    unfolding stakes [symmetric] eff_def history_def by (simp add: stakes_activate_epoch_def Let_def)
  have lookup: "map_of (map (\<lambda>(k, _, a). (k, delegated_to eff ?ds k, a)) xs) k =
      map_option (\<lambda>(_, a). (delegated_to eff ?ds k, a)) (map_of xs k)" for xs :: "(pubkey \<times> u64 \<times> account_shared_data) list" and k
    by (induction xs) (auto split: prod.split)
  have keys: "map (fst \<circ> (\<lambda>(k, _, a). (k, delegated_to eff ?ds k, a))) xs = map fst xs"
    for xs :: "(pubkey \<times> u64 \<times> account_shared_data) list"
    by (induction xs) auto
  have "sk_stake_delegations ?sk' = ?ds" "\<not> va_once (sk_vote_accounts ?sk')"
    by (simp_all add: stakes_activate_epoch_def Let_def)
  then show ?thesis
    using inv by (auto simp: stakes_inv_def va_inv_def accounts keys accounts_match_def eff lookup)
qed

lemma staked_nodes_inv:
  assumes "stakes_inv vc sk" "staked_nodes vc (sk_vote_accounts sk) = (nodes, va)"
  shows "stakes_inv vc (sk\<lparr>sk_vote_accounts := va\<rparr>)"
    "nodes_match nodes (node_sum vc (va_accounts (sk_vote_accounts sk)))"
proof -
  let ?va = "sk_vote_accounts sk"
  note inv = assms(1) [unfolded stakes_inv_def]
  have "stake_sum (va_accounts ?va) \<le> u64_max"
    using accounts_match_sum [of "effective_of sk" "sk_stake_delegations sk" "va_accounts ?va"]
      effective_sum_le [of "sk_stake_delegations sk" sk] inv by (simp add: va_inv_def)
  from compute_staked_nodes_match [OF this, of vc]
  show "stakes_inv vc (sk\<lparr>sk_vote_accounts := va\<rparr>)" "nodes_match nodes (node_sum vc (va_accounts ?va))"
    using assms(2) inv by (auto simp: staked_nodes_def stakes_inv_def va_inv_def Let_def split: if_splits)
qed

section \<open>The cache over the life of a bank\<close>

text \<open>
  What a bank does with its cache: it stores accounts, reads the staked nodes, enters an epoch and evicts invalid entries.
  An account is stored in good order when a delegating stake account holds lamports and all delegations together
  fit 64 bits (the supply of lamports does).
\<close>

datatype cache_op =
    StoreAccount pubkey account_shared_data
  | ReadStakedNodes
  | ActivateEpoch epoch
  | EvictInvalid "(pubkey \<times> invalid_cache_entry_reason) list" "(pubkey \<times> invalid_cache_entry_reason) list"

fun cache_apply :: "cache_env \<Rightarrow> cache_op \<Rightarrow> stakes \<Rightarrow> (stakes, 'e) result" where
  "cache_apply env (StoreAccount k a) sk = check_and_store env k a sk"
| "cache_apply env ReadStakedNodes sk =
     Ok (sk\<lparr>sk_vote_accounts := snd (staked_nodes (cae_vote_codec env) (sk_vote_accounts sk))\<rparr>)"
| "cache_apply env (ActivateEpoch e) sk = Ok (stakes_activate_epoch e sk)"
| "cache_apply env (EvictInvalid ss vs) sk = handle_invalid_keys (cae_vote_codec env) ss vs True sk"

fun op_in_order :: "cache_env \<Rightarrow> cache_op \<Rightarrow> stakes \<Rightarrow> bool" where
  "op_in_order env (StoreAccount k a) sk \<longleftrightarrow>
     acc_owner a = stake_program_id \<longrightarrow>
     (case stake_delegation_from (cae_stake_codec env) a of
        None \<Rightarrow> True
      | Some d \<Rightarrow> acc_lamports a \<noteq> 0 \<and>
          alist_sum (\<lambda>_ d. dg_stake d) (AList.update k d (sk_stake_delegations sk)) \<le> u64_max)"
| "op_in_order env _ sk \<longleftrightarrow> True"

inductive cache_reachable :: "cache_env \<Rightarrow> stakes \<Rightarrow> bool" for env where
  empty: "cache_reachable env
     \<lparr>sk_vote_accounts = default_vote_accounts, sk_stake_delegations = [], sk_epoch = e, sk_stake_history = h\<rparr>"
| step: "cache_reachable env sk \<Longrightarrow> op_in_order env op sk \<Longrightarrow> (cache_apply env op sk :: (stakes, unit) result) = Ok sk' \<Longrightarrow>
     cache_reachable env sk'"

lemma foldE_inv:
  assumes "\<And>x s. I s \<Longrightarrow> \<exists>s'. (f x s :: (_, 'e) result) = Ok s' \<and> I s'" "I s"
  shows "\<exists>s'. (foldE f xs s :: (_, 'e) result) = Ok s' \<and> I s'"
  using assms(2)
proof (induction xs arbitrary: s)
  case (Cons x xs)
  then show ?case using assms(1) [of s x] by fastforce
qed simp

lemma handle_invalid_keys_inv:
  assumes "stakes_inv vc sk"
  shows "\<exists>sk'. (handle_invalid_keys vc ss vs evict sk :: (stakes, 'e) result) = Ok sk' \<and> stakes_inv vc sk'"
proof -
  have "\<exists>sk'. (foldE (\<lambda>(k, _). remove_stake_delegation vc k) ss sk :: (stakes, 'e) result) = Ok sk' \<and> stakes_inv vc sk'"
    using assms by (intro foldE_inv) (auto split: prod.split elim: remove_stake_delegation_inv)
  moreover have "\<exists>sk''. (foldE (\<lambda>(k, _). remove_vote_account vc k) vs sk' :: (stakes, 'e) result) = Ok sk'' \<and> stakes_inv vc sk''"
    if "stakes_inv vc sk'" for sk'
    using that by (intro foldE_inv) (auto split: prod.split elim: remove_vote_account_inv)
  ultimately show ?thesis using assms unfolding handle_invalid_keys_def by fastforce
qed

lemma check_and_store_inv:
  assumes "stakes_inv (cae_vote_codec env) sk" "op_in_order env (StoreAccount k a) sk"
  shows "\<exists>sk'. (check_and_store env k a sk :: (stakes, 'e) result) = Ok sk' \<and> stakes_inv (cae_vote_codec env) sk'"
proof (cases "acc_owner a = stake_program_id \<and> acc_owner a \<noteq> vote_program_id")
  case True
  then have owner: "acc_owner a = stake_program_id" "stake_program_id \<noteq> vote_program_id" by auto
  show ?thesis
  proof (cases "stake_delegation_from (cae_stake_codec env) a")
    case None
    then have "(check_and_store env k a sk :: (stakes, 'e) result) = remove_stake_delegation (cae_vote_codec env) k sk"
      using owner by (simp add: check_and_store_def forget_stake_delegation)
    then show ?thesis using remove_stake_delegation_inv [OF assms(1), of k] by metis
  next
    case (Some d)
    then have d: "acc_lamports a \<noteq> 0" "alist_sum (\<lambda>_ d. dg_stake d) (AList.update k d (sk_stake_delegations sk)) \<le> u64_max"
      using assms(2) owner by simp_all
    have "(check_and_store env k a sk :: (stakes, 'e) result) =
        update_stake_delegation (cae_vote_codec env) k (Some (effective_of sk d, d)) sk"
      using owner Some d(1) by (simp add: check_and_store_def effective_of_def)
    then show ?thesis using update_stake_delegation_inv [OF assms(1) d(2)] by metis
  qed
next
  case False
  then show ?thesis
    using assms(1) update_vote_account_inv [OF assms(1), of k] unfolding check_and_store_def Let_def by metis
qed

lemma cache_apply_inv:
  assumes "stakes_inv (cae_vote_codec env) sk" "op_in_order env op sk"
  shows "\<exists>sk'. (cache_apply env op sk :: (stakes, 'e) result) = Ok sk' \<and> stakes_inv (cae_vote_codec env) sk'"
proof (cases op)
  case (StoreAccount k a)
  then show ?thesis using check_and_store_inv [OF assms(1), of k a] assms(2) by simp
next
  case ReadStakedNodes
  then show ?thesis using staked_nodes_inv(1) [OF assms(1) prod.collapse [symmetric]] by simp
qed (use assms(1) in \<open>simp_all add: stakes_activate_epoch_inv handle_invalid_keys_inv\<close>)

lemma cache_reachable_inv: "cache_reachable env sk \<Longrightarrow> stakes_inv (cae_vote_codec env) sk"
proof (induction rule: cache_reachable.induct)
  case (empty e h)
  then show ?case by (simp add: stakes_inv_def va_inv_def default_vote_accounts_def accounts_match_def)
next
  case (step sk op sk')
  then show ?case using cache_apply_inv [OF step.IH step.hyps(2), where ?'e = unit] by auto
qed

text \<open>
  C5. As long as no stake account was stored without lamports while it still delegates, and all delegations fit 64 bits, the
  stake cached for a vote account is the sum of the effective stakes of the delegations to it, the map of staked nodes gives
  every node the total of the stakes of its vote accounts, and no further operation panics: the checked subtractions and the
  lookups with \<^verbatim>\<open>expect\<close> succeed. Storing such a drained account from there does not panic either, and takes its
  stake, and no other, from the cached stakes; but its delegation stays in the cache, which is then no longer consistent.
\<close>

theorem stakes_cache_consistent:
  assumes "cache_reachable env sk"
  shows "(\<forall>k stake a. va_get (sk_vote_accounts sk) k = Some (stake, a) \<longrightarrow>
        stake = delegated_to (effective_of sk) (sk_stake_delegations sk) k) \<and>
    (\<forall>node. (case map_of (fst (staked_nodes (cae_vote_codec env) (sk_vote_accounts sk))) node of Some n \<Rightarrow> n | None \<Rightarrow> 0) =
        node_sum (cae_vote_codec env) (va_accounts (sk_vote_accounts sk)) node) \<and>
    (\<forall>op. op_in_order env op sk \<longrightarrow> (\<exists>sk'. (cache_apply env op sk :: (stakes, 'e) result) = Ok sk')) \<and>
    (\<forall>k a d. acc_owner a = stake_program_id \<and> acc_lamports a = 0 \<and> stake_delegation_from (cae_stake_codec env) a = Some d \<longrightarrow>
       (\<exists>sk'. (cache_apply env (StoreAccount k a) sk :: (stakes, 'e) result) = Ok sk' \<and>
          sk_stake_delegations sk' = AList.update k d (sk_stake_delegations sk) \<and>
          (\<forall>j stake v. va_get (sk_vote_accounts sk') j = Some (stake, v) \<longrightarrow>
             stake = delegated_to (effective_of sk) (AList.delete k (sk_stake_delegations sk)) j)))"
proof (intro conjI allI impI; (elim conjE)?)
  note inv = cache_reachable_inv [OF assms]
  show "stake = delegated_to (effective_of sk) (sk_stake_delegations sk) k"
    if "va_get (sk_vote_accounts sk) k = Some (stake, a)" for k stake a
    using inv that by (simp add: stakes_inv_def accounts_match_def va_get_def)
  show "(case map_of (fst (staked_nodes (cae_vote_codec env) (sk_vote_accounts sk))) node of Some n \<Rightarrow> n | None \<Rightarrow> 0) =
        node_sum (cae_vote_codec env) (va_accounts (sk_vote_accounts sk)) node" for node
    using staked_nodes_inv(2) [OF inv prod.collapse [symmetric]] by (simp add: nodes_match_def)
  show "\<exists>sk'. (cache_apply env op sk :: (stakes, 'e) result) = Ok sk'" if "op_in_order env op sk" for op
    using cache_apply_inv [OF inv that] by blast
  fix k a d
  assume drained: "acc_owner a = stake_program_id" "acc_lamports a = 0" "stake_delegation_from (cae_stake_codec env) a = Some d"
  obtain sk' where sk': "(update_stake_delegation (cae_vote_codec env) k (Some (0, d)) sk :: (stakes, 'e) result) = Ok sk'"
    "sk_stake_delegations sk' = AList.update k d (sk_stake_delegations sk)"
    "accounts_match (effective_of sk) (AList.delete k (sk_stake_delegations sk)) (va_accounts (sk_vote_accounts sk'))"
    by (rule drained_stake_delegation [OF inv])
  have "stake_program_id \<noteq> vote_program_id" by (simp add: stake_program_id_def vote_program_id_def)
  then have "(cache_apply env (StoreAccount k a) sk :: (stakes, 'e) result) = Ok sk'"
    using drained sk'(1) by (simp add: check_and_store_def)
  with sk'(2,3) show "\<exists>sk'. (cache_apply env (StoreAccount k a) sk :: (stakes, 'e) result) = Ok sk' \<and>
      sk_stake_delegations sk' = AList.update k d (sk_stake_delegations sk) \<and>
      (\<forall>j stake v. va_get (sk_vote_accounts sk') j = Some (stake, v) \<longrightarrow>
         stake = delegated_to (effective_of sk) (AList.delete k (sk_stake_delegations sk)) j)"
    by (auto simp: accounts_match_def va_get_def)
qed

end
