(* ===== verification/Stake_Examples.thy ===== *)
theory Stake_Examples
  imports Stake_Rewards Stakes_Cache
begin

text \<open>
  A stake account from its activation to the rescission of its deactivation: concrete runs of the stake program and of the
  cache of stakes at which the hypotheses of their theorems hold.
\<close>

section \<open>A stake that is warming up\<close>

text \<open>
  Four lamports delegated to the vote account 20 in epoch 0, above a reserve of ten. In epoch 1 one of
  them is effective.
\<close>

definition example_delegation :: delegation where
  "example_delegation = delegation_new 20 4 0 DEFAULT_WARMUP_COOLDOWN_RATE"

definition example_history :: stake_history where
  "example_history = [(0, \<lparr>effective = 4, activating = 4, deactivating = 0\<rparr>)]"

definition example_meta :: meta where
  "example_meta = (meta_auto 10)\<lparr>rent_exempt_reserve := 10\<rparr>"

definition example_stake :: "epoch \<Rightarrow> stake_state" where
  "example_stake deactivation =
     SS_Stake example_meta \<lparr>st_delegation = example_delegation\<lparr>deactivation_epoch := deactivation\<rparr>, credits_observed = 0\<rparr>"

definition power2 :: "int \<Rightarrow> f64" where
  "power2 e = F64 False 4503599627370496 (e - 52)"

lemma example_warmup:
  "f64_of_nat 4 = power2 2" "DEFAULT_WARMUP_COOLDOWN_RATE = power2 (- 2)" "f64_div (power2 2) (power2 2) = power2 0"
  "f64_mul (power2 2) (power2 (- 2)) = power2 0" "f64_mul (power2 0) (power2 0) = power2 0" "f64_to_uint 18446744073709551615 (power2 0) = 1"
  by (simp_all add: power2_def DEFAULT_WARMUP_COOLDOWN_RATE_def f64_eval)

lemma example_delegation_simps [simp]:
  "dg_voter_pubkey example_delegation = 20" "dg_stake example_delegation = 4" "activation_epoch example_delegation = 0"
  "deactivation_epoch example_delegation = u64_max"
  "warmup_cooldown_rate example_delegation = DEFAULT_WARMUP_COOLDOWN_RATE"
  by (simp_all add: example_delegation_def delegation_new_def default_delegation_def)

lemma example_newly_effective:
  "newly_effective_stake (example_delegation\<lparr>deactivation_epoch := e\<rparr>) \<lparr>effective = 4, activating = 4, deactivating = 0\<rparr> 0 = 1"
  by (simp add: newly_effective_stake_def wrapping_sub64_def example_warmup)

lemma example_history_get: "stake_history_get example_history 0 = Some \<lparr>effective = 4, activating = 4, deactivating = 0\<rparr>"
  by (simp add: stake_history_get_def example_history_def binary_search_by_def binary_search_loop.simps cmp_def)

lemma example_effective:
  assumes "1 \<le> e"
  shows "stake_and_activating (example_delegation\<lparr>deactivation_epoch := e\<rparr>) 1 (Some example_history) = (1, 3)"
  using assms
  by (simp add: stake_and_activating_def example_history_get activate_loop.simps [where target_epoch = "Suc 0"]
      example_newly_effective is_bootstrap_def wrapping_sub64_def wrap64_def)

theorem stake_activation_bounds_witness:
  "(let status = stake_activating_and_deactivating example_delegation 1 (Some example_history)
    in effective status + activating status \<le> 4 \<and> deactivating status \<le> effective status \<and>
      (activating status = 0 \<or> deactivating status = 0))"
  using stake_activation_bounds [of example_delegation 1 "Some example_history", OF _ refl] by (simp add: Let_def)

text \<open>
  A stake deactivated in epoch 1: of one lamport, it is gone in epoch 2 when the history records it; of a billion, it is
  gone in epoch 600 in every case.
\<close>

definition cooling_delegation :: "u64 \<Rightarrow> delegation" where
  "cooling_delegation n = \<lparr>dg_voter_pubkey = 20, dg_stake = n, activation_epoch = u64_max, deactivation_epoch = 1,
      warmup_cooldown_rate = DEFAULT_WARMUP_COOLDOWN_RATE\<rparr>"

theorem stake_cooldown_witness:
  "delegation_stake (cooling_delegation 1) 2 (Some [(1, \<lparr>effective = 1, activating = 0, deactivating = 1\<rparr>)]) = 0 \<and>
   (\<exists>h. history_at 600 h \<and> delegation_stake (cooling_delegation (10 ^ 9)) 600 (Some h) = 0)"
proof -
  let ?h = "[(1, \<lparr>effective = 1, activating = 0, deactivating = 1\<rparr>)]"
  have "stake_history_get ?h 1 = Some \<lparr>effective = 1, activating = 0, deactivating = 1\<rparr>"
    by (simp add: stake_history_get_def binary_search_by_def binary_search_loop.simps cmp_def)
  then have recorded: "\<forall>e'. 1 \<le> e' \<and> e' < 2 \<longrightarrow> (\<exists>entry. stake_history_get ?h e' = Some entry \<and> deactivating entry \<noteq> 0)"
    by (auto simp: le_Suc_eq numeral_2_eq_2 less_Suc_eq)
  have d: "dg_stake (cooling_delegation n) = n" "deactivation_epoch (cooling_delegation n) = 1"
    "activated_before_deactivation (cooling_delegation n)" for n
    by (simp_all add: cooling_delegation_def activated_before_deactivation_def is_bootstrap_def)
  obtain h where h: "history_at 600 h" using history_exists by blast
  have "delegation_stake (cooling_delegation 1) 2 (Some ?h) = 0"
    using stake_cooldown [of "cooling_delegation 1" 2 2 ?h] recorded by (simp add: d)
  moreover have "delegation_stake (cooling_delegation (10 ^ 9)) 600 (Some h) = 0"
    using stake_cooldown [of "cooling_delegation (10 ^ 9)" 600 600 h] h by (simp add: d MAX_ENTRIES_def)
  ultimately show ?thesis using h by blast
qed

text \<open>Merging three lamports that have seen 10 credits with one that has seen 20: 13 credits, rounded up.\<close>

theorem merged_credits_witness:
  "\<exists>merged. stake_weighted_credits_observed
      \<lparr>st_delegation = example_delegation\<lparr>dg_stake := 3\<rparr>, credits_observed = 10\<rparr> 1 20 = Some merged \<and> merged \<le> 20 \<and>
    (30 - merged) * 4 \<le> 70"
proof -
  let ?st = "\<lparr>st_delegation = example_delegation\<lparr>dg_stake := 3\<rparr>, credits_observed = 10\<rparr>"
  obtain merged where m: "stake_weighted_credits_observed ?st 1 20 = Some merged" "merged \<le> max 10 20"
    "\<forall>v. 10 \<le> v \<and> 20 \<le> v \<longrightarrow> (v - merged) * (3 + 1) \<le> (v - 10) * 3 + (v - 20) * 1"
    using merged_credits [of ?st 1 20] by auto
  from m(3) [rule_format, of 30] show ?thesis using m(1,2) by auto
qed

lemma example_deactivating: "delegation_stake (example_delegation\<lparr>deactivation_epoch := Suc 0\<rparr>) (Suc 0) (Some example_history) = 1"
  using example_effective [of "Suc 0"]
  by (simp add: delegation_stake_def stake_activating_and_deactivating_def with_deactivating_def)

lemma example_delegation_inject [simp]:
  "example_delegation\<lparr>deactivation_epoch := a\<rparr> = example_delegation\<lparr>deactivation_epoch := b\<rparr> \<longleftrightarrow> a = b"
  by (auto dest: arg_cong [of _ _ deactivation_epoch])

section \<open>Deactivating, withdrawing and rescinding\<close>

definition example_stake_env :: stake_env where
  "example_stake_env = \<lparr>ste_codec = table_codec [example_stake u64_max, example_stake 1],
     ste_vote_codec = table_codec [new_current vote_state_default], ste_hashv = (\<lambda>_. 0),
     ste_config_keys = table_codec [[]], ste_config = (\<lambda>_. Some default_stake_config),
     ste_instruction = (\<lambda>d. map_of [([0], SI_Deactivate), ([1], SI_Withdraw 3), ([2], SI_DelegateStake)] d)\<rparr>"

definition example_ka :: "pubkey \<Rightarrow> nat \<Rightarrow> keyed_account" where
  "example_ka k cell = \<lparr>is_signer = (k = 10), is_writable = True, unsigned_key = k, ka_account = cell\<rparr>"

definition example_context :: "keyed_account list \<Rightarrow> invoke_context" where
  "example_context kas = \<lparr>ic_keyed_accounts = example_ka 10 0 # kas,
     ic_sysvar_cache = default_sysvar_cache\<lparr>sc_clock := Some (default_clock\<lparr>clock_epoch := 1\<rparr>), sc_stake_history := Some example_history\<rparr>,
     ic_feature_set = [], ic_blockhash = 0, ic_lamports_per_signature = 0\<rparr>"

definition deactivate_context :: invoke_context where
  "deactivate_context = example_context [example_ka clock_id 3]"

definition withdraw_context :: invoke_context where
  "withdraw_context = example_context [example_ka 30 1, example_ka clock_id 3, example_ka stake_history_id 4, example_ka 10 0]"

definition delegate_context :: invoke_context where
  "delegate_context = example_context
     [example_ka 20 2, example_ka clock_id 3, example_ka stake_history_id 4, example_ka stake_config_id 5]"

text \<open>The stake account, the recipient, the vote account, and the sysvars and the configuration.\<close>

definition example_accounts :: "8 word \<Rightarrow> u64 \<Rightarrow> u64 \<Rightarrow> store" where
  "example_accounts state lamports recipient =
     [account_create lamports (state # replicate 199 0) stake_program_id False 0, account_create recipient [] 0 False 0,
      account_create 1 [0] vote_program_id False 0, account_create 1 [0] 0 False 0, account_create 1 [0] 0 False 0,
      account_create 1 [0] 0 False 0]"

lemmas stake_example_defs = example_stake_env_def example_ka_def example_context_def example_accounts_def
  deactivate_context_def withdraw_context_def delegate_context_def table_codec_def account_create_def
  stake_process_instruction_def process_stake_instruction_def keyed_account_at_index_def ka_owner_def account_ref_def
  account_ref_mut_def get_signers_def signer_key_def clock_at_def check_clock_def check_sysvar_keyed_account_def get_clock_def
  stake_history_at_def check_stake_history_def get_stake_history_def
  ok_or_def map_err_def ka_state_def account_state_def deserialize_data_def ka_set_state_def account_set_state_def
  ka_lamports_def authorized_check_def example_stake_def example_meta_def meta_auto_def authorized_auto_def
  default_meta_def default_lockup_def default_sysvar_cache_def default_clock_def map_filter_simps

lemma example_deactivate:
  "stake_process_instruction example_stake_env 0 [0] deactivate_context (example_accounts 0 14 0) = Ok (example_accounts 1 14 0)"
  by (simp add: stake_example_defs stake_account_deactivate_def stake_deactivate_def)

lemma example_withdraw:
  "stake_process_instruction example_stake_env 0 [1] withdraw_context (example_accounts 1 14 0) = Ok (example_accounts 1 11 3)"
  by (simp add: stake_example_defs stake_withdraw_def withdraw_limits_def example_deactivating checked_add_def checked_add64_def
      is_in_force_def account_at_opt_def deinitialize_if_drained_def ka_checked_sub_lamports_def ka_checked_add_lamports_def
      checked_sub_lamports_def checked_add_lamports_def checked_sub64_def set_lamports_def)

lemma example_rescind:
  "stake_process_instruction example_stake_env 0 [2] delegate_context (example_accounts 1 11 3) = Ok (example_accounts 0 11 3)"
  by (simp add: stake_example_defs stake_delegate_def redelegate_def stake_stake_def example_deactivating stake_config_from_def get_config_data_def
      config_keys_serialized_size_def)

text \<open>
  A withdrawal from a stake that is deactivating is limited by the part of it that is effective. Delegating to the
  same vote account in the same epoch takes the deactivation back and leaves the delegated amount as it was: the account
  delegates four lamports above its reserve of ten and holds eleven.
\<close>

lemma stake_rescission_unbacked:
  "bindE (stake_process_instruction example_stake_env 0 [0] deactivate_context (example_accounts 0 14 0)) (\<lambda>s.
   bindE (stake_process_instruction example_stake_env 0 [1] withdraw_context s) (\<lambda>s.
   stake_process_instruction example_stake_env 0 [2] delegate_context s)) = Ok (example_accounts 0 11 3) \<and>
   store_sound (ste_codec example_stake_env) (example_accounts 0 14 0) \<and>
   \<not> store_sound (ste_codec example_stake_env) (example_accounts 0 11 3)"
proof (intro conjI)
  show "bindE (stake_process_instruction example_stake_env 0 [0] deactivate_context (example_accounts 0 14 0)) (\<lambda>s.
     bindE (stake_process_instruction example_stake_env 0 [1] withdraw_context s) (\<lambda>s.
     stake_process_instruction example_stake_env 0 [2] delegate_context s)) = Ok (example_accounts 0 11 3)"
    by (simp add: example_deactivate example_withdraw example_rescind)
qed (simp_all add: store_sound_def stake_sound_def stake_example_defs STAKE_STATE_SIZE_def ACCOUNT_STORAGE_OVERHEAD_def
    stake_program_id_def vote_program_id_def)

lemma example_context_valid:
  "valid_accounts (example_accounts b l r) (ic_keyed_accounts withdraw_context)"
  "cells_by_key (ic_keyed_accounts withdraw_context)"
  by (simp_all add: valid_accounts_def valid_keyed_account_def cells_by_key_def withdraw_context_def example_context_def
      example_ka_def example_accounts_def)

theorem stake_stays_backed_witness:
  "store_sound (ste_codec example_stake_env) (example_accounts 1 11 3)"
proof -
  have "store_sound (ste_codec example_stake_env) (example_accounts 1 14 0)"
    by (simp add: store_sound_def stake_sound_def stake_example_defs STAKE_STATE_SIZE_def ACCOUNT_STORAGE_OVERHEAD_def
        stake_program_id_def vote_program_id_def)
  moreover have "codec_faithful (ste_codec example_stake_env)"
    by (simp add: example_stake_env_def table_codec_laws)
  moreover have "lamports_in_range (example_accounts 1 14 0)"
    by (simp add: lamports_in_range_def example_accounts_def account_create_def)
  moreover have "sane_sysvars withdraw_context"
    by (simp add: sane_sysvars_def stake_example_defs get_rent_def)
  moreover have "ste_instruction example_stake_env [1] \<noteq> Some SI_DelegateStake" by (simp add: example_stake_env_def)
  ultimately have "\<forall>i < length (example_accounts 1 11 3). stake_sound (ste_codec example_stake_env) (example_accounts 1 11 3 ! i)"
    using stake_stays_backed [OF example_withdraw] example_context_valid by blast
  then show ?thesis by (auto simp: store_sound_def in_set_conv_nth)
qed

theorem stake_lamports_protected_witness:
  "debit_justified (ste_codec example_stake_env) (ic_keyed_accounts withdraw_context)
     (get_signers (drop 0 (ic_keyed_accounts withdraw_context))) (default_clock\<lparr>clock_epoch := 1\<rparr>)
     (example_accounts 1 14 0) (example_accounts 1 11 3) 0"
  by (rule stake_lamports_protected [OF example_withdraw example_context_valid])
    (simp_all add: withdraw_context_def example_context_def get_clock_def example_accounts_def account_create_def)

section \<open>A cached stake\<close>

text \<open>
  A vote account of the node 0 and a bootstrap stake of ten lamports delegated to it, stored one after the other in an
  empty cache.
\<close>

definition bootstrap_stake :: stake_state where
  "bootstrap_stake = SS_Stake example_meta \<lparr>st_delegation = delegation_new 20 10 u64_max DEFAULT_WARMUP_COOLDOWN_RATE, credits_observed = 0\<rparr>"

definition example_cache_env :: cache_env where
  "example_cache_env = \<lparr>cae_stake_codec = table_codec [bootstrap_stake],
     cae_vote_codec = table_codec [new_current vote_state_default], cae_new_rand = (\<lambda>_. 0)\<rparr>"

definition empty_cache :: stakes where
  "empty_cache = \<lparr>sk_vote_accounts = default_vote_accounts, sk_stake_delegations = [], sk_epoch = 0, sk_stake_history = []\<rparr>"

definition cached_vote_account :: account_shared_data where
  "cached_vote_account = account_create 1 [0] vote_program_id False 0"

definition cached_stake_account :: "u64 \<Rightarrow> account_shared_data" where
  "cached_stake_account lamports = account_create lamports [0] stake_program_id False 0"

definition example_cache :: "u64 \<Rightarrow> stakes" where
  "example_cache stake =
     empty_cache\<lparr>sk_vote_accounts := default_vote_accounts\<lparr>va_accounts := [(20, stake, cached_vote_account)]\<rparr>,
       sk_stake_delegations := (if stake = 0 then [] else [(10, delegation_new 20 10 u64_max DEFAULT_WARMUP_COOLDOWN_RATE)])\<rparr>"

lemmas cache_example_defs = example_cache_env_def empty_cache_def cached_vote_account_def cached_stake_account_def
  example_cache_def bootstrap_stake_def default_vote_accounts_def table_codec_def account_create_def
  check_and_store_def is_correct_size_and_initialized_def vote_state_size_of_def VERSION_OFFSET_def
  DEFAULT_PRIOR_VOTERS_OFFSET_def update_vote_account_def update_stake_delegation_def va_remove_def va_insert_def
  add_node_stake_def calculate_stake_def stake_delegation_from_def account_state_def deserialize_data_def ok_or_def
  delegation_stake_def stake_activating_and_deactivating_def stake_and_activating_def is_bootstrap_def with_effective_def
  delegation_new_def default_delegation_def va_add_stake_def va_sub_stake_def checked_sub64_def unwrap_def

lemma example_store_vote:
  "check_and_store example_cache_env 20 cached_vote_account empty_cache = Ok (example_cache 0)"
  by (simp add: cache_example_defs)

lemma example_store_stake:
  "check_and_store example_cache_env 10 (cached_stake_account 20) (example_cache 0) = Ok (example_cache 10)"
  by (simp add: cache_example_defs stake_program_id_def vote_program_id_def)

lemma example_cache_reachable: "cache_reachable example_cache_env (example_cache 10)"
proof (rule cache_reachable.step)
  show "cache_reachable example_cache_env (example_cache 0)"
  proof (rule cache_reachable.step)
    show "cache_reachable example_cache_env empty_cache" unfolding empty_cache_def by (rule cache_reachable.empty)
    show "op_in_order example_cache_env (StoreAccount 20 cached_vote_account) empty_cache"
      by (simp add: cached_vote_account_def account_create_def stake_program_id_def vote_program_id_def)
    show "cache_apply example_cache_env (StoreAccount 20 cached_vote_account) empty_cache = Ok (example_cache 0)"
      by (simp add: example_store_vote)
  qed
  show "op_in_order example_cache_env (StoreAccount 10 (cached_stake_account 20)) (example_cache 0)"
    by (simp add: cache_example_defs)
  show "cache_apply example_cache_env (StoreAccount 10 (cached_stake_account 20)) (example_cache 0) = Ok (example_cache 10)"
    by (simp add: example_store_stake)
qed

theorem stakes_cache_consistent_witness:
  "10 = delegated_to (effective_of (example_cache 10)) (sk_stake_delegations (example_cache 10)) 20 \<and>
   (\<exists>sk'. (cache_apply example_cache_env (ActivateEpoch 1) (example_cache 10) :: (stakes, unit) result) = Ok sk')"
proof -
  have "va_get (sk_vote_accounts (example_cache 10)) 20 = Some (10, cached_vote_account)"
    by (simp add: example_cache_def va_get_def)
  moreover have "op_in_order example_cache_env (ActivateEpoch 1) (example_cache 10)" by simp
  ultimately show ?thesis using stakes_cache_consistent [OF example_cache_reachable, where ?'e = unit] by blast
qed

text \<open>
  A stake account that is stored without lamports but with its delegation leaves the delegation in the cache with
  no stake behind it: stored again with its lamports the stake stays zero, and evicting the delegation panics.
\<close>

definition drained_cache :: stakes where
  "drained_cache = (example_cache 10)\<lparr>sk_vote_accounts := default_vote_accounts\<lparr>va_accounts := [(20, 0, cached_vote_account)]\<rparr>\<rparr>"

lemma drained_stake_breaks_cache:
  "check_and_store example_cache_env 10 (cached_stake_account 0) (example_cache 10) = (Ok drained_cache :: (stakes, unit) result) \<and>
   check_and_store example_cache_env 10 (cached_stake_account 20) drained_cache = (Ok drained_cache :: (stakes, unit) result) \<and>
   remove_stake_delegation (cae_vote_codec example_cache_env) 10 drained_cache = (panic :: (stakes, unit) result)"
  by (intro conjI)
    (simp_all add: cache_example_defs drained_cache_def remove_stake_delegation_def sub_node_stake_def
      stake_program_id_def vote_program_id_def)

end
