(* ===== verification/Pre_Account.thy ===== *)
theory Pre_Account
  imports Account_Loading System_Program
begin

text \<open>
  The rules by which the runtime accepts what a program did to an account
  (\<^verbatim>\<open>program-runtime/src/pre_account.rs\<close>), and the meter of the data of all accounts
  (\<^verbatim>\<open>accounts_data_meter.rs\<close>). The timings that \<^verbatim>\<open>verify\<close> collects are left out, and with them its
  argument \<^verbatim>\<open>outermost_call\<close>.
\<close>

section \<open>Verification of one account\<close>

record pre_account =
  pa_key :: pubkey
  pa_account :: account_shared_data
  pa_changed :: bool

definition pre_account_new :: "pubkey \<Rightarrow> account_shared_data \<Rightarrow> pre_account" where
  "pre_account_new k a = \<lparr>pa_key = k, pa_account = a, pa_changed = False\<rparr>"

definition ZEROS_LEN :: usize where "ZEROS_LEN = 1024"

text \<open>\<^verbatim>\<open>chunks_exact\<close>: blocks of 1024 bytes and the remainder, each compared with as many zeros.\<close>

function is_zeroed :: "bytes \<Rightarrow> bool" where
  "is_zeroed buf =
     (if length buf < ZEROS_LEN then buf = replicate (length buf) 0
      else take ZEROS_LEN buf = replicate ZEROS_LEN 0 \<and> is_zeroed (drop ZEROS_LEN buf))"
  by pat_completeness auto
termination by (relation "measure length") (auto simp: ZEROS_LEN_def)

declare is_zeroed.simps [simp del]

definition pre_account_verify ::
  "pubkey \<Rightarrow> bool \<Rightarrow> rent \<Rightarrow> account_shared_data \<Rightarrow> bool \<Rightarrow> account_shared_data \<Rightarrow> (unit, instruction_error) result" where
  "pre_account_verify program_id writable r post realloc pre =
     (let owner_changed = acc_owner pre \<noteq> acc_owner post in
      if owner_changed \<and> (\<not> writable \<or> acc_executable pre \<or> program_id \<noteq> acc_owner pre \<or> \<not> is_zeroed (acc_data post))
      then Err ModifiedProgramId
      else if program_id \<noteq> acc_owner pre \<and> acc_lamports pre > acc_lamports post then Err ExternalAccountLamportSpend
      else
        let lamports_changed = acc_lamports pre \<noteq> acc_lamports post in
        if lamports_changed \<and> \<not> writable then Err ReadonlyLamportChange
        else if lamports_changed \<and> acc_executable pre then Err ExecutableLamportChange
        else
          let data_len_changed = length (acc_data pre) \<noteq> length (acc_data post) in
          bindE
            (if realloc then
               (if length (acc_data post) > MAX_PERMITTED_DATA_LENGTH then Err InvalidRealloc
                else if data_len_changed \<and> program_id \<noteq> acc_owner pre then Err AccountDataSizeChanged
                else Ok ())
             else
               (if data_len_changed \<and> (program_id \<noteq> system_program_id \<or> acc_owner pre \<noteq> system_program_id)
                then Err AccountDataSizeChanged else Ok ())) (\<lambda>_.
          if \<not> (program_id = acc_owner pre \<and> writable \<and> \<not> acc_executable pre) \<and> acc_data pre \<noteq> acc_data post then
            (if acc_executable pre then Err ExecutableDataModified
             else if writable then Err ExternalAccountDataModified
             else Err ReadonlyDataModified)
          else
            let executable_changed = acc_executable pre \<noteq> acc_executable post in
            if executable_changed \<and> \<not> is_exempt r (acc_lamports post) (length (acc_data post))
            then Err ExecutableAccountNotRentExempt
            else if executable_changed \<and> (\<not> writable \<or> acc_executable pre \<or> program_id \<noteq> acc_owner post)
            then Err ExecutableModified
            else if acc_rent_epoch pre \<noteq> acc_rent_epoch post then Err RentEpochModified
            else Ok ()))"

definition pre_account_update :: "account_shared_data \<Rightarrow> pre_account \<Rightarrow> pre_account" where
  "pre_account_update a pa =
     pa\<lparr>pa_account := a\<lparr>acc_rent_epoch := acc_rent_epoch (pa_account pa)\<rparr>, pa_changed := True\<rparr>"

section \<open>The meter of accounts data\<close>

definition MAX_ACCOUNTS_DATA_LEN :: u64 where "MAX_ACCOUNTS_DATA_LEN = 128000000000"

record accounts_data_meter =
  adm_maximum :: u64
  adm_initial :: u64
  adm_delta :: i64

definition accounts_data_meter_new :: "u64 \<Rightarrow> accounts_data_meter" where
  "accounts_data_meter_new initial_accounts_data_len =
     \<lparr>adm_maximum = MAX_ACCOUNTS_DATA_LEN, adm_initial = initial_accounts_data_len, adm_delta = 0\<rparr>"

definition saturate_i64 :: "int \<Rightarrow> i64" where
  "saturate_i64 z = max (- (2 ^ 63)) (min z (2 ^ 63 - 1))"

text \<open>\<^verbatim>\<open>lhs.overflowing_add(rhs as u64)\<close>, with the overflow flag compared to the sign.\<close>

definition saturating_add_signed :: "u64 \<Rightarrow> i64 \<Rightarrow> u64" where
  "saturating_add_signed lhs rhs =
     (let sum = lhs + u64_of_i64 rhs; res = wrap64 sum; overflow = (sum > u64_max) in
      if overflow = (rhs < 0) then res else if overflow then u64_max else 0)"

definition adm_current :: "accounts_data_meter \<Rightarrow> u64" where
  "adm_current m = saturating_add_signed (adm_initial m) (adm_delta m)"

definition adm_remaining :: "accounts_data_meter \<Rightarrow> u64" where
  "adm_remaining m = saturating_sub64 (adm_maximum m) (adm_current m)"

definition adjust_delta_unchecked :: "i64 \<Rightarrow> accounts_data_meter \<Rightarrow> accounts_data_meter" where
  "adjust_delta_unchecked amount m = m\<lparr>adm_delta := saturate_i64 (adm_delta m + amount)\<rparr>"

definition adjust_delta :: "i64 \<Rightarrow> accounts_data_meter \<Rightarrow> (accounts_data_meter, instruction_error) result" where
  "adjust_delta amount m =
     (if amount > i64_of_u64 (adm_remaining m) then Err MaxAccountsDataSizeExceeded
      else Ok (adjust_delta_unchecked amount m))"

section \<open>Properties\<close>

lemma zeros_iff: "buf = replicate (length buf) 0 \<longleftrightarrow> (\<forall>b \<in> set buf. b = 0)"
  by (metis in_set_replicate replicate_length_same)

lemma is_zeroed_iff: "is_zeroed buf \<longleftrightarrow> (\<forall>b \<in> set buf. b = 0)"
proof (induction buf rule: is_zeroed.induct)
  case (1 buf)
  show ?case
  proof (cases "length buf < ZEROS_LEN")
    case True
    then show ?thesis by (subst is_zeroed.simps) (simp add: zeros_iff)
  next
    case False
    have "set buf = set (take ZEROS_LEN buf) \<union> set (drop ZEROS_LEN buf)"
      by (metis append_take_drop_id set_append)
    then show ?thesis
      using False 1 zeros_iff [of "take ZEROS_LEN buf"] by (subst is_zeroed.simps) auto
  qed
qed

text \<open>The addition of a signed number is the exact sum, cut off at the bounds of \<^verbatim>\<open>u64\<close>.\<close>

lemma saturating_add_signed_exact:
  assumes "a \<le> u64_max" "- (2 ^ 63) \<le> z" "z < 2 ^ 63"
  shows "int (saturating_add_signed a z) = max 0 (min (int a + z) (2 ^ 64 - 1))"
proof (cases "z < 0")
  case True
  have "z mod 2 ^ 64 = z + 2 ^ 64"
    using assms True by (subst mod_add_self2 [symmetric], intro mod_pos_pos_trivial) auto
  then have u: "int (u64_of_i64 z) = z + 2 ^ 64" using assms(2) by (simp add: u64_of_i64_def)
  show ?thesis
  proof (cases "u64_max < a + u64_of_i64 z")
    case overflow: True
    then have "(a + u64_of_i64 z) mod 2 ^ 64 = a + u64_of_i64 z - 2 ^ 64"
      using assms(1) u True by (simp add: mod_if)
    then show ?thesis using True overflow u assms(1) by (simp add: saturating_add_signed_def wrap64_def Let_def of_nat_diff)
  qed (use True u in \<open>simp add: saturating_add_signed_def Let_def\<close>)
next
  case False
  then have u: "u64_of_i64 z = nat z" using assms(3) by simp
  show ?thesis
  proof (cases "u64_max < a + u64_of_i64 z")
    case True
    then show ?thesis using False unfolding saturating_add_signed_def u Let_def by simp
  next
    case fits: False
    then show ?thesis using False unfolding saturating_add_signed_def u Let_def wrap64_def by simp
  qed
qed

text \<open>What the runtime lets a program do to one account, without the order of the checks.\<close>

lemma pre_account_verify_iff:
  "pre_account_verify p w r post realloc pre = Ok () \<longleftrightarrow>
     (acc_owner post \<noteq> acc_owner pre \<longrightarrow> w \<and> \<not> acc_executable pre \<and> p = acc_owner pre \<and> is_zeroed (acc_data post)) \<and>
     (acc_lamports post < acc_lamports pre \<longrightarrow> p = acc_owner pre) \<and>
     (acc_lamports post \<noteq> acc_lamports pre \<longrightarrow> w \<and> \<not> acc_executable pre) \<and>
     (realloc \<longrightarrow> length (acc_data post) \<le> MAX_PERMITTED_DATA_LENGTH) \<and>
     (length (acc_data post) \<noteq> length (acc_data pre) \<longrightarrow>
        p = acc_owner pre \<and> (\<not> realloc \<longrightarrow> p = system_program_id)) \<and>
     (acc_data post \<noteq> acc_data pre \<longrightarrow> p = acc_owner pre \<and> w \<and> \<not> acc_executable pre) \<and>
     (acc_executable post \<noteq> acc_executable pre \<longrightarrow>
        is_exempt r (acc_lamports post) (length (acc_data post)) \<and> w \<and> \<not> acc_executable pre \<and> p = acc_owner post) \<and>
     acc_rent_epoch post = acc_rent_epoch pre"
proof -
  have rejected: "(if b then Err e else m) = Ok x \<longleftrightarrow> \<not> b \<and> m = Ok x"
    "(if b then if c then Err e else if d then Err e' else Err e'' else m) = Ok x \<longleftrightarrow> \<not> b \<and> m = Ok x"
    for b c d e e' e'' x and m :: "(unit, instruction_error) result"
    by simp_all
  have Ok_unit: "(\<exists>x. m = Ok x \<and> P) \<longleftrightarrow> m = Ok () \<and> P" for P and m :: "(unit, instruction_error) result"
    by simp
  show ?thesis
    unfolding pre_account_verify_def Let_def rejected bindE_Ok_iff Ok_unit
      eq_commute [of "acc_owner pre" "acc_owner post"] eq_commute [of "acc_lamports pre" "acc_lamports post"]
      eq_commute [of "acc_data pre" "acc_data post"] eq_commute [of "acc_executable pre" "acc_executable post"]
      eq_commute [of "length (acc_data pre)" "length (acc_data post)"] eq_commute [of "acc_rent_epoch pre" "acc_rent_epoch post"]
    by (cases realloc; cases "p = acc_owner pre"; simp only: if_True if_False rejected simp_thms not_less de_Morgan_conj
        de_Morgan_disj not_not; (blast | metis))
qed

lemma pre_account_verify_Ok:
  assumes "pre_account_verify p w r post realloc pre = Ok ()"
  shows "acc_rent_epoch post = acc_rent_epoch pre"
    and "p \<noteq> acc_owner pre \<Longrightarrow>
      acc_lamports pre \<le> acc_lamports post \<and> acc_data post = acc_data pre \<and> acc_owner post = acc_owner pre"
    and "\<not> w \<or> acc_executable pre \<Longrightarrow> post = pre"
proof -
  note v = assms [unfolded pre_account_verify_iff]
  show "acc_rent_epoch post = acc_rent_epoch pre" using v by blast
  show "acc_lamports pre \<le> acc_lamports post \<and> acc_data post = acc_data pre \<and> acc_owner post = acc_owner pre" if "p \<noteq> acc_owner pre"
    using v that not_less by blast
  show "post = pre" if "\<not> w \<or> acc_executable pre"
    using v that by (intro account_shared_data.equality) auto
qed

lemma pre_account_verify_mono:
  "pre_account_verify p w r post realloc pre = Ok () \<Longrightarrow> (w \<Longrightarrow> w') \<Longrightarrow> pre_account_verify p w' r post realloc pre = Ok ()"
  unfolding pre_account_verify_iff by blast

end
