(* ===== verification/Transaction_Context.thy ===== *)
theory Transaction_Context
  imports Pre_Account
begin

text \<open>
  The accounts of a transaction and the stack of its instructions (\<^verbatim>\<open>sdk/src/transaction_context.rs\<close>). An
  account is borrowed only while the runtime or a program works on it, so that the borrow flags are left
  out; a borrowed account is the index of its cell. Debug assertions are left out.
\<close>

record instruction_account =
  ia_index_in_transaction :: usize
  ia_index_in_caller :: usize
  ia_is_signer :: bool
  ia_is_writable :: bool

record instruction_context =
  ixc_nesting_level :: usize
  ixc_program_accounts :: "usize list"
  ixc_instruction_accounts :: "instruction_account list"
  ixc_instruction_data :: bytes

record transaction_context =
  tc_account_keys :: "pubkey list"
  tc_accounts :: store
  tc_instruction_context_capacity :: usize
  tc_instruction_stack :: "usize list"
  tc_number_of_instructions_at_transaction_level :: usize
  tc_instruction_trace :: "instruction_context list list"
  tc_return_data :: "pubkey \<times> bytes"

definition transaction_context_new :: "transaction_account list \<Rightarrow> usize \<Rightarrow> usize \<Rightarrow> transaction_context" where
  "transaction_context_new transaction_accounts capacity number_of_instructions =
     \<lparr>tc_account_keys = map fst transaction_accounts, tc_accounts = map snd transaction_accounts,
      tc_instruction_context_capacity = capacity, tc_instruction_stack = [],
      tc_number_of_instructions_at_transaction_level = number_of_instructions,
      tc_instruction_trace = [], tc_return_data = (0, [])\<rparr>"

definition tc_deconstruct :: "transaction_context \<Rightarrow> transaction_account list \<times> instruction_context list list" where
  "tc_deconstruct tc = (zip (tc_account_keys tc) (tc_accounts tc), tc_instruction_trace tc)"

definition deconstruct_without_keys :: "transaction_context \<Rightarrow> (store, instruction_error) result" where
  "deconstruct_without_keys tc = (if tc_instruction_stack tc \<noteq> [] then Err CallDepth else Ok (tc_accounts tc))"

definition tc_get_number_of_accounts :: "transaction_context \<Rightarrow> usize" where
  "tc_get_number_of_accounts tc = length (tc_accounts tc)"

definition get_key_of_account_at_index :: "transaction_context \<Rightarrow> usize \<Rightarrow> (pubkey, instruction_error) result" where
  "get_key_of_account_at_index tc i = ok_or (slice_get (tc_account_keys tc) i) NotEnoughAccountKeys"

definition get_account_at_index :: "transaction_context \<Rightarrow> usize \<Rightarrow> (account_shared_data, instruction_error) result" where
  "get_account_at_index tc i = ok_or (slice_get (tc_accounts tc) i) NotEnoughAccountKeys"

definition tc_find_index_of_account :: "transaction_context \<Rightarrow> pubkey \<Rightarrow> usize option" where
  "tc_find_index_of_account tc k = position (tc_account_keys tc) k"

text \<open>\<^verbatim>\<open>rposition\<close>: the last one.\<close>

definition tc_find_index_of_program_account :: "transaction_context \<Rightarrow> pubkey \<Rightarrow> usize option" where
  "tc_find_index_of_program_account tc k =
     map_option (\<lambda>i. length (tc_account_keys tc) - 1 - i) (position (rev (tc_account_keys tc)) k)"

definition get_instruction_context_at ::
  "transaction_context \<Rightarrow> usize \<Rightarrow> (instruction_context, instruction_error) result" where
  "get_instruction_context_at tc level =
     bindE (ok_or (slice_get (tc_instruction_stack tc) 0) CallDepth) (\<lambda>top_level_index.
     bindE (if level = 0 then Ok 0 else ok_or (slice_get (tc_instruction_stack tc) level) CallDepth) (\<lambda>cpi_index.
     ok_or (Option.bind (slice_get (tc_instruction_trace tc) top_level_index) (\<lambda>trace. slice_get trace cpi_index)) CallDepth))"

definition get_instruction_context_stack_height :: "transaction_context \<Rightarrow> usize" where
  "get_instruction_context_stack_height tc = length (tc_instruction_stack tc)"

definition get_current_instruction_context :: "transaction_context \<Rightarrow> (instruction_context, instruction_error) result" where
  "get_current_instruction_context tc =
     bindE (ok_or (checked_sub64 (get_instruction_context_stack_height tc) 1) CallDepth) (\<lambda>level.
     get_instruction_context_at tc level)"

definition tc_push ::
  "usize list \<Rightarrow> instruction_account list \<Rightarrow> bytes \<Rightarrow> bool \<Rightarrow> transaction_context \<Rightarrow>
     (transaction_context, instruction_error) result" where
  "tc_push program_accounts instruction_accounts instruction_data record_on_push tc =
     (let ixc = \<lparr>ixc_nesting_level = length (tc_instruction_stack tc), ixc_program_accounts = program_accounts,
            ixc_instruction_accounts = instruction_accounts, ixc_instruction_data = instruction_data\<rparr>;
          traces = tc_instruction_trace tc in
      bindE
        (if tc_instruction_stack tc = [] then Ok (length traces, traces @ [[ixc]])
         else if traces \<noteq> [] then
           let trace = (if record_on_push then last traces @ [ixc] else last traces)
           in Ok (saturating_sub64 (length trace) 1, butlast traces @ [trace])
         else Err CallDepth) (\<lambda>(index_in_trace, traces).
      if length (tc_instruction_stack tc) \<ge> tc_instruction_context_capacity tc then Err CallDepth
      else Ok (tc\<lparr>tc_instruction_trace := traces, tc_instruction_stack := tc_instruction_stack tc @ [index_in_trace]\<rparr>)))"

definition tc_pop :: "transaction_context \<Rightarrow> (transaction_context, instruction_error) result" where
  "tc_pop tc =
     (if tc_instruction_stack tc = [] then Err CallDepth
      else Ok (tc\<lparr>tc_instruction_stack := butlast (tc_instruction_stack tc)\<rparr>))"

definition set_return_data :: "pubkey \<Rightarrow> bytes \<Rightarrow> transaction_context \<Rightarrow> transaction_context" where
  "set_return_data program_id data tc = tc\<lparr>tc_return_data := (program_id, data)\<rparr>"

definition record_instruction :: "instruction_context \<Rightarrow> transaction_context \<Rightarrow> transaction_context" where
  "record_instruction ixc tc =
     (let traces = tc_instruction_trace tc in
      if traces = [] then tc else tc\<lparr>tc_instruction_trace := butlast traces @ [last traces @ [ixc]]\<rparr>)"

section \<open>One instruction\<close>

definition ixc_get_stack_height :: "instruction_context \<Rightarrow> usize" where
  "ixc_get_stack_height ixc = ixc_nesting_level ixc + 1"

definition ixc_get_program_id :: "instruction_context \<Rightarrow> transaction_context \<Rightarrow> (pubkey, 'e) result" where
  "ixc_get_program_id ixc tc =
     unwrap (slice_get (tc_account_keys tc)
       (if ixc_program_accounts ixc = [] then 0 else last (ixc_program_accounts ixc)))"

definition check_number_of_instruction_accounts :: "instruction_context \<Rightarrow> usize \<Rightarrow> (unit, instruction_error) result" where
  "check_number_of_instruction_accounts ixc expected_at_least =
     guardE (expected_at_least \<le> length (ixc_instruction_accounts ixc)) NotEnoughAccountKeys"

definition ixc_get_number_of_accounts :: "instruction_context \<Rightarrow> usize" where
  "ixc_get_number_of_accounts ixc = length (ixc_program_accounts ixc) + length (ixc_instruction_accounts ixc)"

text \<open>The keys are looked up by index, which panics out of range.\<close>

fun position_of_key :: "pubkey list \<Rightarrow> usize list \<Rightarrow> pubkey \<Rightarrow> (usize option, 'e) result" where
  "position_of_key keys [] k = Ok None"
| "position_of_key keys (i # is') k =
     bindE (unwrap (slice_get keys i)) (\<lambda>k'.
     if k' = k then Ok (Some 0)
     else bindE (position_of_key keys is' k) (\<lambda>p. Ok (map_option Suc p)))"

definition ixc_find_index_of_program_account ::
  "instruction_context \<Rightarrow> transaction_context \<Rightarrow> pubkey \<Rightarrow> (usize option, 'e) result" where
  "ixc_find_index_of_program_account ixc tc k = position_of_key (tc_account_keys tc) (ixc_program_accounts ixc) k"

definition ixc_find_index_of_account ::
  "instruction_context \<Rightarrow> transaction_context \<Rightarrow> pubkey \<Rightarrow> (usize option, 'e) result" where
  "ixc_find_index_of_account ixc tc k =
     bindE (position_of_key (tc_account_keys tc) (map ia_index_in_transaction (ixc_instruction_accounts ixc)) k) (\<lambda>p.
     Ok (map_option (\<lambda>i. i + length (ixc_program_accounts ixc)) p))"

definition get_index_in_transaction :: "instruction_context \<Rightarrow> usize \<Rightarrow> (usize, instruction_error) result" where
  "get_index_in_transaction ixc i =
     (if i < length (ixc_program_accounts ixc) then Ok (ixc_program_accounts ixc ! i)
      else if i < ixc_get_number_of_accounts ixc
      then Ok (ia_index_in_transaction (ixc_instruction_accounts ixc ! (i - length (ixc_program_accounts ixc))))
      else Err NotEnoughAccountKeys)"

definition get_program_key :: "instruction_context \<Rightarrow> transaction_context \<Rightarrow> (pubkey, instruction_error) result" where
  "get_program_key ixc tc =
     bindE (get_index_in_transaction ixc (saturating_sub64 (length (ixc_program_accounts ixc)) 1))
       (get_key_of_account_at_index tc)"

definition get_instruction_account_key ::
  "instruction_context \<Rightarrow> transaction_context \<Rightarrow> usize \<Rightarrow> (pubkey, instruction_error) result" where
  "get_instruction_account_key ixc tc i =
     bindE (get_index_in_transaction ixc (length (ixc_program_accounts ixc) + i)) (get_key_of_account_at_index tc)"

text \<open>A borrowed account: its index in the transaction.\<close>

definition try_borrow_account :: "instruction_context \<Rightarrow> transaction_context \<Rightarrow> usize \<Rightarrow> (usize, instruction_error) result" where
  "try_borrow_account ixc tc i =
     bindE (get_index_in_transaction ixc i) (\<lambda>index_in_transaction.
     if index_in_transaction \<ge> length (tc_accounts tc) then Err MissingAccount else Ok index_in_transaction)"

definition try_borrow_program_account ::
  "instruction_context \<Rightarrow> transaction_context \<Rightarrow> (usize, instruction_error) result" where
  "try_borrow_program_account ixc tc =
     try_borrow_account ixc tc (saturating_sub64 (length (ixc_program_accounts ixc)) 1)"

definition try_borrow_instruction_account ::
  "instruction_context \<Rightarrow> transaction_context \<Rightarrow> usize \<Rightarrow> (usize, instruction_error) result" where
  "try_borrow_instruction_account ixc tc i = try_borrow_account ixc tc (length (ixc_program_accounts ixc) + i)"

definition ixc_is_signer :: "instruction_context \<Rightarrow> usize \<Rightarrow> (bool, instruction_error) result" where
  "ixc_is_signer ixc i =
     (if i < length (ixc_program_accounts ixc) then Ok False
      else bindE (ok_or (slice_get (ixc_instruction_accounts ixc) (i - length (ixc_program_accounts ixc))) MissingAccount)
        (\<lambda>ia. Ok (ia_is_signer ia)))"

definition ixc_is_writable :: "instruction_context \<Rightarrow> usize \<Rightarrow> (bool, instruction_error) result" where
  "ixc_is_writable ixc i =
     (if i < length (ixc_program_accounts ixc) then Ok False
      else bindE (ok_or (slice_get (ixc_instruction_accounts ixc) (i - length (ixc_program_accounts ixc))) MissingAccount)
        (\<lambda>ia. Ok (ia_is_writable ia)))"

definition ixc_get_signers :: "instruction_context \<Rightarrow> transaction_context \<Rightarrow> (pubkey set, 'e) result" where
  "ixc_get_signers ixc tc =
     bindE (mapE (\<lambda>ia. unwrap (slice_get (tc_account_keys tc) (ia_index_in_transaction ia)))
       (filter ia_is_signer (ixc_instruction_accounts ixc))) (\<lambda>ks. Ok (set ks))"

text \<open>The privileges of a borrowed account, \<^verbatim>\<open>unwrap_or_default\<close>.\<close>

definition borrowed_is_signer :: "instruction_context \<Rightarrow> usize \<Rightarrow> bool" where
  "borrowed_is_signer ixc i = (case ixc_is_signer ixc i of Ok b \<Rightarrow> b | Inl _ \<Rightarrow> False)"

definition borrowed_is_writable :: "instruction_context \<Rightarrow> usize \<Rightarrow> bool" where
  "borrowed_is_writable ixc i = (case ixc_is_writable ixc i of Ok b \<Rightarrow> b | Inl _ \<Rightarrow> False)"

end
