(* ===== verification/Invoke_Context.thy ===== *)
theory Invoke_Context
  imports Transaction_Context
begin

text \<open>
  The execution of instructions (\<^verbatim>\<open>program-runtime/src/invoke_context.rs\<close>): the stack of invocations, the
  accounts as they were before an instruction, and the verification that a program and the programs it
  invokes keep the rules.

  A program is a parameter. It is a tree of the interactions it may have with the runtime: it reads the
  context, writes an account of its instruction, consumes compute units, invokes another program, and
  returns. A failed invocation ends the program that made it. What programs are and what they
  invoke is not constrained otherwise. After an error the context is not used again, so that an
  operation that fails returns the error only. Timings, logs and the cache of executors are left out.
\<close>

section \<open>State\<close>

text \<open>The fields of the compute budget that the invocation of a program reads.\<close>

record compute_budget =
  cb_compute_unit_limit :: u64
  cb_max_invoke_depth :: usize
  cb_heap_size :: "usize option"

record stack_frame =
  sf_number_of_program_accounts :: usize
  sf_keyed_accounts :: "keyed_account list"
  sf_keyed_accounts_range :: "usize \<times> usize"

definition stack_frame_new :: "usize \<Rightarrow> keyed_account list \<Rightarrow> stack_frame" where
  "stack_frame_new n kas = \<lparr>sf_number_of_program_accounts = n, sf_keyed_accounts = kas,
     sf_keyed_accounts_range = (0, length kas)\<rparr>"

record runtime_context =
  rx_transaction_context :: transaction_context
  rx_invoke_stack :: "stack_frame list"
  rx_rent :: rent
  rx_pre_accounts :: "pre_account list"
  rx_sysvar_cache :: sysvar_cache
  rx_compute_budget :: compute_budget
  rx_current_compute_budget :: compute_budget
  rx_compute_meter :: u64
  rx_accounts_data_meter :: accounts_data_meter
  rx_feature_set :: feature_set
  rx_blockhash :: hash
  rx_lamports_per_signature :: u64

definition runtime_context_new ::
  "transaction_context \<Rightarrow> rent \<Rightarrow> sysvar_cache \<Rightarrow> compute_budget \<Rightarrow> feature_set \<Rightarrow> hash \<Rightarrow> u64 \<Rightarrow> u64 \<Rightarrow> runtime_context" where
  "runtime_context_new tc r sysvars budget fs blockhash lamports_per_signature initial_accounts_data_len =
     \<lparr>rx_transaction_context = tc, rx_invoke_stack = [], rx_rent = r, rx_pre_accounts = [], rx_sysvar_cache = sysvars,
      rx_compute_budget = budget, rx_current_compute_budget = budget, rx_compute_meter = cb_compute_unit_limit budget,
      rx_accounts_data_meter = accounts_data_meter_new initial_accounts_data_len, rx_feature_set = fs,
      rx_blockhash = blockhash, rx_lamports_per_signature = lamports_per_signature\<rparr>"

datatype (plugins only: size) program =
    Return "(unit, instruction_error) result"
  | Inspect "runtime_context \<Rightarrow> program"
  | Modify usize account_shared_data program
  | Consume u64 program
  | Invoke instruction "pubkey list" program

text \<open>
  The programs and decoders around the runtime. A program gets the index of its first
  instruction account and the instruction data.
\<close>

record runtime_env =
  re_builtin_programs :: "(pubkey \<times> (usize \<Rightarrow> bytes \<Rightarrow> program)) list"
  re_native_loader :: "usize \<Rightarrow> bytes \<Rightarrow> program"
  re_loader_state :: "bytes \<Rightarrow> upgradeable_loader_state option"
  re_is_precompile :: "pubkey \<Rightarrow> feature_set \<Rightarrow> bool"

section \<open>Compute meter and the loop over accounts\<close>

definition meter_consume :: "u64 \<Rightarrow> runtime_context \<Rightarrow> (runtime_context, instruction_error) result" where
  "meter_consume amount rx =
     (let exceeded = rx_compute_meter rx < amount;
          rx = rx\<lparr>rx_compute_meter := saturating_sub64 (rx_compute_meter rx) amount\<rparr>
      in if exceeded then Err ComputationalBudgetExceeded else Ok rx)"

text \<open>
  The accounts that \<^verbatim>\<open>visit_each_account_once\<close> visits: those that no earlier one has the index of. The
  slice \<^verbatim>\<open>get(..index)\<close> always exists.
\<close>

fun unique_accounts_from :: "usize list \<Rightarrow> instruction_account list \<Rightarrow> instruction_account list" where
  "unique_accounts_from seen [] = []"
| "unique_accounts_from seen (ia # ias) =
     (if ia_index_in_transaction ia \<in> set seen then unique_accounts_from (seen @ [ia_index_in_transaction ia]) ias
      else ia # unique_accounts_from (seen @ [ia_index_in_transaction ia]) ias)"

definition visit_each_account_once ::
  "instruction_account list \<Rightarrow> (instruction_account \<Rightarrow> 's \<Rightarrow> ('s, 'e) result) \<Rightarrow> 's \<Rightarrow> ('s, 'e) result" where
  "visit_each_account_once ias work s = foldE work (unique_accounts_from [] ias) s"

section \<open>Push and pop\<close>

definition neon_evm_program_id :: pubkey where
  "neon_evm_program_id = 4361823966602032112469402634207084295168482604928440951203219681659147669953"

definition bump_compute_budget :: "feature_set \<Rightarrow> pubkey option \<Rightarrow> compute_budget \<Rightarrow> compute_budget" where
  "bump_compute_budget fs program_id budget =
     (let neon = is_active fs neon_evm_compute_budget \<and> program_id = Some neon_evm_program_id;
          budget = (if \<not> is_active fs tx_wide_compute_cap \<and> neon
                    then budget\<lparr>cb_compute_unit_limit := max (cb_compute_unit_limit budget) 500000\<rparr> else budget)
      in if \<not> is_active fs requestable_heap_size \<and> neon then budget\<lparr>cb_heap_size := Some (256 * 1024)\<rparr> else budget)"

definition collect_pre_account ::
  "transaction_context \<Rightarrow> instruction_account \<Rightarrow> pre_account list \<Rightarrow> (pre_account list, instruction_error) result" where
  "collect_pre_account tc ia pre_accounts =
     (if ia_index_in_transaction ia < tc_get_number_of_accounts tc then
        bindE (get_account_at_index tc (ia_index_in_transaction ia)) (\<lambda>account.
        bindE (get_key_of_account_at_index tc (ia_index_in_transaction ia)) (\<lambda>key.
        Ok (pre_accounts @ [pre_account_new key account])))
      else Err MissingAccount)"

text \<open>Whether an instruction of the stack runs the program; without a program account it does if none is asked for.\<close>

definition runs_program :: "transaction_context \<Rightarrow> pubkey option \<Rightarrow> (instruction_context, instruction_error) result \<Rightarrow> (bool, 'e) result" where
  "runs_program tc program_id ixc =
     (case bindE ixc (\<lambda>ixc. try_borrow_program_account ixc tc) of
        Ok i \<Rightarrow> bindE (unwrap (slice_get (tc_account_keys tc) i)) (\<lambda>k. Ok (Some k = program_id))
      | Inl _ \<Rightarrow> Ok (program_id = None))"

fun any_level :: "(usize \<Rightarrow> (bool, 'e) result) \<Rightarrow> usize list \<Rightarrow> (bool, 'e) result" where
  "any_level f [] = Ok False"
| "any_level f (l # ls) = bindE (f l) (\<lambda>b. if b then Ok True else any_level f ls)"

definition check_reentrancy :: "transaction_context \<Rightarrow> pubkey option \<Rightarrow> (unit, instruction_error) result" where
  "check_reentrancy tc program_id =
     bindE (any_level (\<lambda>level. runs_program tc program_id (get_instruction_context_at tc level))
       [0..<get_instruction_context_stack_height tc]) (\<lambda>contains.
     bindE (runs_program tc program_id (get_current_instruction_context tc)) (\<lambda>is_last.
     guardE (\<not> (contains \<and> \<not> is_last)) ReentrancyNotAllowed))"

definition keyed_account_for ::
  "transaction_context \<Rightarrow> bool \<Rightarrow> bool \<Rightarrow> usize \<Rightarrow> (keyed_account, instruction_error) result" where
  "keyed_account_for tc signer writable i =
     bindE (get_key_of_account_at_index tc i) (\<lambda>key.
     bindE (get_account_at_index tc i) (\<lambda>_.
     Ok \<lparr>is_signer = signer, is_writable = writable, unsigned_key = key, ka_account = i\<rparr>))"

definition start_top_level ::
  "instruction_account list \<Rightarrow> pubkey option \<Rightarrow> runtime_context \<Rightarrow> (runtime_context, instruction_error) result" where
  "start_top_level ias program_id rx =
     (let fs = rx_feature_set rx;
          budget = bump_compute_budget fs program_id (rx_compute_budget rx);
          rx = rx\<lparr>rx_current_compute_budget := budget\<rparr>;
          rx = (if is_active fs tx_wide_compute_cap then rx else rx\<lparr>rx_compute_meter := cb_compute_unit_limit budget\<rparr>) in
      bindE (visit_each_account_once ias (collect_pre_account (rx_transaction_context rx)) []) (\<lambda>pre_accounts.
      Ok (rx\<lparr>rx_pre_accounts := pre_accounts\<rparr>)))"

definition ic_push ::
  "instruction_account list \<Rightarrow> usize list \<Rightarrow> bytes \<Rightarrow> runtime_context \<Rightarrow> (runtime_context, instruction_error) result" where
  "ic_push ias program_indices data rx =
     (let tc = rx_transaction_context rx; fs = rx_feature_set rx;
          record_on_push = is_active fs record_instruction_in_transaction_context_push in
      if \<not> record_on_push \<and> get_instruction_context_stack_height tc > cb_max_invoke_depth (rx_compute_budget rx)
      then Err CallDepth
      else
        bindE (if program_indices = [] then Ok None
               else bindE (get_key_of_account_at_index tc (last program_indices)) (\<lambda>k. Ok (Some k))) (\<lambda>program_id.
        if program_id = None \<and> is_active fs reject_empty_instruction_without_program then Err UnsupportedProgramId
        else
          bindE (if get_instruction_context_stack_height tc = 0 then start_top_level ias program_id rx
                 else bindE (check_reentrancy tc program_id) (\<lambda>_. Ok rx)) (\<lambda>rx.
          bindE (mapE (keyed_account_for tc False False) program_indices) (\<lambda>program_kas.
          bindE (mapE (\<lambda>ia. keyed_account_for tc (ia_is_signer ia) (ia_is_writable ia) (ia_index_in_transaction ia)) ias) (\<lambda>kas.
          let rx = rx\<lparr>rx_invoke_stack := rx_invoke_stack rx @ [stack_frame_new (length program_indices) (program_kas @ kas)]\<rparr> in
          bindE (tc_push program_indices ias data record_on_push (rx_transaction_context rx)) (\<lambda>tc.
          Ok (rx\<lparr>rx_transaction_context := tc\<rparr>)))))))"

text \<open>The result of \<^verbatim>\<open>pop\<close> is ignored by its caller: an empty stack stays empty.\<close>

definition ic_pop :: "runtime_context \<Rightarrow> runtime_context" where
  "ic_pop rx =
     (let rx = rx\<lparr>rx_invoke_stack := butlast (rx_invoke_stack rx)\<rparr>
      in case tc_pop (rx_transaction_context rx) of
           Ok tc \<Rightarrow> rx\<lparr>rx_transaction_context := tc\<rparr>
         | Inl _ \<Rightarrow> rx)"

definition get_keyed_accounts :: "runtime_context \<Rightarrow> (keyed_account list, instruction_error) result" where
  "get_keyed_accounts rx =
     (if rx_invoke_stack rx = [] then Err CallDepth
      else
        let frame = last (rx_invoke_stack rx); (a, b) = sf_keyed_accounts_range frame
        in if a \<le> b \<and> b \<le> length (sf_keyed_accounts frame) then Ok (take (b - a) (drop a (sf_keyed_accounts frame)))
           else Err CallDepth)"

definition remove_first_keyed_account :: "runtime_context \<Rightarrow> (runtime_context, instruction_error) result" where
  "remove_first_keyed_account rx =
     (if is_active (rx_feature_set rx) remove_native_loader then Ok rx
      else if rx_invoke_stack rx = [] then Err CallDepth
      else
        let frame = last (rx_invoke_stack rx); (a, b) = sf_keyed_accounts_range frame
        in Ok (rx\<lparr>rx_invoke_stack := butlast (rx_invoke_stack rx) @
             [frame\<lparr>sf_keyed_accounts_range := (saturating_add64 a 1, b)\<rparr>]\<rparr>))"

section \<open>Verification\<close>

definition adjust_accounts_data :: "feature_set \<Rightarrow> bytes \<Rightarrow> bytes \<Rightarrow> accounts_data_meter \<Rightarrow> (accounts_data_meter, instruction_error) result" where
  "adjust_accounts_data fs pre_data post_data meter =
     (let data_len_delta = saturate_i64 (i64_of_u64 (length post_data) - i64_of_u64 (length pre_data))
      in if is_active fs cap_accounts_data_len then adjust_delta data_len_delta meter
         else Ok (adjust_delta_unchecked data_len_delta meter))"

definition checked_sum :: "u128 \<Rightarrow> u64 \<Rightarrow> (u128, instruction_error) result" where
  "checked_sum acc lamports = ok_or (checked_add128 acc lamports) UnbalancedInstruction"

text \<open>The state of the loop: the two sums, the meter, and the index of the next account as it was before.\<close>

definition verify_step ::
  "runtime_context \<Rightarrow> pubkey \<Rightarrow> instruction_account \<Rightarrow> u128 \<times> u128 \<times> accounts_data_meter \<times> usize \<Rightarrow>
     (u128 \<times> u128 \<times> accounts_data_meter \<times> usize, instruction_error) result" where
  "verify_step rx program_id ia = (\<lambda>(pre_sum, post_sum, meter, pre_account_index).
     bindE (get_account_at_index (rx_transaction_context rx) (ia_index_in_transaction ia)) (\<lambda>account.
     bindE (ok_or (slice_get (rx_pre_accounts rx) pre_account_index) NotEnoughAccountKeys) (\<lambda>pre.
     bindE (pre_account_verify program_id (ia_is_writable ia) (rx_rent rx) account
       (is_active (rx_feature_set rx) do_support_realloc) (pa_account pre)) (\<lambda>_.
     bindE (checked_sum pre_sum (acc_lamports (pa_account pre))) (\<lambda>pre_sum.
     bindE (checked_sum post_sum (acc_lamports account)) (\<lambda>post_sum.
     bindE (adjust_accounts_data (rx_feature_set rx) (acc_data (pa_account pre)) (acc_data account) meter) (\<lambda>meter.
     Ok (pre_sum, post_sum, meter, pre_account_index + 1))))))))"

definition current_program_key :: "transaction_context \<Rightarrow> (pubkey, instruction_error) result" where
  "current_program_key tc =
     bindE (get_current_instruction_context tc) (\<lambda>ixc. map_err (\<lambda>_. CallDepth) (get_program_key ixc tc))"

definition ic_verify ::
  "instruction_account list \<Rightarrow> usize list \<Rightarrow> runtime_context \<Rightarrow> (runtime_context, instruction_error) result" where
  "ic_verify ias program_indices rx =
     (let tc = rx_transaction_context rx in
      bindE (map_err (\<lambda>_. CallDepth) (current_program_key tc)) (\<lambda>program_id.
      bindE (mapE (get_account_at_index tc) program_indices) (\<lambda>_.
      bindE (visit_each_account_once ias (verify_step rx program_id) (0, 0, rx_accounts_data_meter rx, 0))
        (\<lambda>(pre_sum, post_sum, meter, _).
      bindE (guardE (pre_sum = post_sum) UnbalancedInstruction) (\<lambda>_.
      Ok (rx\<lparr>rx_accounts_data_meter := meter\<rparr>))))))"

text \<open>\<^verbatim>\<open>pre_accounts.iter_mut()\<close> up to the first with the key, which is verified, counted and updated.\<close>

definition verify_pre_account ::
  "runtime_context \<Rightarrow> pubkey \<Rightarrow> bool \<Rightarrow> account_shared_data \<Rightarrow> pre_account \<Rightarrow> u128 \<times> u128 \<times> accounts_data_meter \<Rightarrow>
     (pre_account \<times> u128 \<times> u128 \<times> accounts_data_meter, instruction_error) result" where
  "verify_pre_account rx program_id writable account pre = (\<lambda>(pre_sum, post_sum, meter).
     bindE (pre_account_verify program_id writable (rx_rent rx) account
       (is_active (rx_feature_set rx) do_support_realloc) (pa_account pre)) (\<lambda>_.
     bindE (checked_sum pre_sum (acc_lamports (pa_account pre))) (\<lambda>pre_sum.
     bindE (checked_sum post_sum (acc_lamports account)) (\<lambda>post_sum.
     let pre = (if writable \<and> \<not> acc_executable (pa_account pre) then pre_account_update account pre else pre) in
     bindE (adjust_accounts_data (rx_feature_set rx) (acc_data (pa_account pre)) (acc_data account) meter) (\<lambda>meter.
     Ok (pre, pre_sum, post_sum, meter))))))"

definition verify_and_update_step ::
  "runtime_context \<Rightarrow> instruction_context \<Rightarrow> pubkey \<Rightarrow> bool \<Rightarrow> instruction_account \<Rightarrow>
     pre_account list \<times> u128 \<times> u128 \<times> accounts_data_meter \<Rightarrow>
     (pre_account list \<times> u128 \<times> u128 \<times> accounts_data_meter, instruction_error) result" where
  "verify_and_update_step rx ixc program_id before_push ia = (\<lambda>(pre_accounts, totals).
     let tc = rx_transaction_context rx; i = ia_index_in_transaction ia in
     if i < tc_get_number_of_accounts tc then
       bindE (get_key_of_account_at_index tc i) (\<lambda>key.
       bindE (get_account_at_index tc i) (\<lambda>account.
       bindE (if before_push then
                bindE (try_borrow_account ixc tc (ia_index_in_caller ia)) (\<lambda>_. Ok (borrowed_is_writable ixc (ia_index_in_caller ia)))
              else Ok (ia_is_writable ia)) (\<lambda>writable.
       case position (map pa_key pre_accounts) key of
         None \<Rightarrow> Err MissingAccount
       | Some j \<Rightarrow>
           bindE (verify_pre_account rx program_id writable account (pre_accounts ! j) totals) (\<lambda>(pre, totals).
           Ok (pre_accounts[j := pre], totals)))))
     else Err MissingAccount)"

definition verify_and_update ::
  "instruction_account list \<Rightarrow> bool \<Rightarrow> runtime_context \<Rightarrow> (runtime_context, instruction_error) result" where
  "verify_and_update ias before_push rx =
     (let tc = rx_transaction_context rx in
      bindE (get_current_instruction_context tc) (\<lambda>ixc.
      bindE (map_err (\<lambda>_. CallDepth) (get_program_key ixc tc)) (\<lambda>program_id.
      bindE (visit_each_account_once ias (verify_and_update_step rx ixc program_id before_push)
          (rx_pre_accounts rx, 0, 0, rx_accounts_data_meter rx)) (\<lambda>(pre_accounts, pre_sum, post_sum, meter).
      bindE (guardE (pre_sum = post_sum) UnbalancedInstruction) (\<lambda>_.
      Ok (rx\<lparr>rx_pre_accounts := pre_accounts, rx_accounts_data_meter := meter\<rparr>))))))"

section \<open>Cross-program invocation\<close>

text \<open>The accounts without duplicates, and for each account of the instruction its place among them.\<close>

definition deduplicate_step ::
  "transaction_context \<Rightarrow> instruction_context \<Rightarrow> account_meta \<Rightarrow> instruction_account list \<times> usize list \<Rightarrow>
     (instruction_account list \<times> usize list, instruction_error) result" where
  "deduplicate_step tc ixc meta = (\<lambda>(dedup, duplicate_indicies).
     bindE (ok_or (tc_find_index_of_account tc (am_pubkey meta)) MissingAccount) (\<lambda>index_in_transaction.
     case position (map ia_index_in_transaction dedup) index_in_transaction of
       Some j \<Rightarrow>
         let ia = dedup ! j in
         Ok (dedup[j := ia\<lparr>ia_is_signer := ia_is_signer ia \<or> am_is_signer meta,
                           ia_is_writable := ia_is_writable ia \<or> am_is_writable meta\<rparr>], duplicate_indicies @ [j])
     | None \<Rightarrow>
         bindE (ixc_find_index_of_account ixc tc (am_pubkey meta)) (\<lambda>index_in_caller.
         bindE (ok_or index_in_caller MissingAccount) (\<lambda>index_in_caller.
         Ok (dedup @ [\<lparr>ia_index_in_transaction = index_in_transaction, ia_index_in_caller = index_in_caller,
                ia_is_signer = am_is_signer meta, ia_is_writable = am_is_writable meta\<rparr>],
             duplicate_indicies @ [length dedup])))))"

definition check_privileges ::
  "transaction_context \<Rightarrow> instruction_context \<Rightarrow> pubkey list \<Rightarrow> instruction_account \<Rightarrow> (unit, instruction_error) result" where
  "check_privileges tc ixc signers ia =
     bindE (try_borrow_account ixc tc (ia_index_in_caller ia)) (\<lambda>i.
     bindE (unwrap (slice_get (tc_account_keys tc) i)) (\<lambda>key.
     if ia_is_writable ia \<and> \<not> borrowed_is_writable ixc (ia_index_in_caller ia) then Err PrivilegeEscalation
     else guardE (\<not> (ia_is_signer ia \<and> \<not> (borrowed_is_signer ixc (ia_index_in_caller ia) \<or> key \<in> set signers)))
            PrivilegeEscalation))"

definition program_indices_of ::
  "runtime_env \<Rightarrow> transaction_context \<Rightarrow> usize \<Rightarrow> (usize list, instruction_error) result" where
  "program_indices_of env tc program_account =
     (let account = tc_accounts tc ! program_account in
      bindE
        (if acc_owner account = bpf_loader_upgradeable_id then
           bindE (ok_or (re_loader_state env (acc_data account)) InvalidAccountData) (\<lambda>state.
           case state of
             ULS_Program programdata_address \<Rightarrow>
               bindE (ok_or (tc_find_index_of_program_account tc programdata_address) MissingAccount) (\<lambda>i. Ok [i])
           | _ \<Rightarrow> Err MissingAccount)
         else Ok []) (\<lambda>program_indices.
      Ok (program_indices @ [program_account])))"

definition prepare_instruction ::
  "runtime_env \<Rightarrow> instruction \<Rightarrow> pubkey list \<Rightarrow> runtime_context \<Rightarrow> (instruction_account list \<times> usize list, instruction_error) result" where
  "prepare_instruction env ix signers rx =
     (let tc = rx_transaction_context rx in
      bindE (get_current_instruction_context tc) (\<lambda>ixc.
      bindE (foldE (deduplicate_step tc ixc) (ix_accounts ix) ([], [])) (\<lambda>(dedup, duplicate_indicies).
      bindE (mapE (check_privileges tc ixc signers) dedup) (\<lambda>_.
      bindE (mapE (\<lambda>j. ok_or (slice_get dedup j) NotEnoughAccountKeys) duplicate_indicies) (\<lambda>ias.
      bindE (ixc_find_index_of_account ixc tc (ix_program_id ix)) (\<lambda>program_account_index.
      bindE (ok_or program_account_index MissingAccount) (\<lambda>program_account_index.
      bindE (try_borrow_account ixc tc program_account_index) (\<lambda>program_account.
      if \<not> acc_executable (tc_accounts tc ! program_account) then Err AccountNotExecutable
      else
        bindE (program_indices_of env tc program_account) (\<lambda>program_indices.
        Ok (ias, program_indices))))))))))"

type_synonym instruction_processor =
  "bytes \<Rightarrow> instruction_account list \<Rightarrow> usize list \<Rightarrow> runtime_context \<Rightarrow> (runtime_context \<times> u64, instruction_error) result"

definition data_len_at :: "transaction_context \<Rightarrow> usize \<Rightarrow> (usize, instruction_error) result" where
  "data_len_at tc i = bindE (get_account_at_index tc i) (\<lambda>account. Ok (length (acc_data account)))"

definition native_invoke ::
  "runtime_env \<Rightarrow> instruction_processor \<Rightarrow> instruction \<Rightarrow> pubkey list \<Rightarrow> runtime_context \<Rightarrow> (runtime_context, instruction_error) result" where
  "native_invoke env process ix signers rx =
     bindE (prepare_instruction env ix signers rx) (\<lambda>(ias, program_indices).
     bindE (mapE (\<lambda>ia. bindE (data_len_at (rx_transaction_context rx) (ia_index_in_transaction ia)) (\<lambda>n.
       Ok (ia_index_in_transaction ia, n))) ias) (\<lambda>prev_account_sizes.
     bindE (process (ix_data ix) ias program_indices rx) (\<lambda>(rx, _).
     bindE (foldE (\<lambda>(i, prev_size) _.
       if is_active (rx_feature_set rx) do_support_realloc then Ok ()
       else bindE (data_len_at (rx_transaction_context rx) i) (\<lambda>n.
         guardE (\<not> (prev_size \<noteq> n \<and> prev_size \<noteq> 0)) InvalidRealloc)) prev_account_sizes ()) (\<lambda>_.
     Ok rx))))"

section \<open>Execution\<close>

definition modify_account :: "usize \<Rightarrow> account_shared_data \<Rightarrow> runtime_context \<Rightarrow> (runtime_context, instruction_error) result" where
  "modify_account i account rx =
     (let tc = rx_transaction_context rx in
      bindE (get_current_instruction_context tc) (\<lambda>ixc.
      bindE (try_borrow_instruction_account ixc tc i) (\<lambda>j.
      Ok (rx\<lparr>rx_transaction_context := tc\<lparr>tc_accounts := (tc_accounts tc)[j := account]\<rparr>\<rparr>))))"

primrec run_program ::
  "program \<Rightarrow> (instruction \<Rightarrow> pubkey list \<Rightarrow> runtime_context \<Rightarrow> (runtime_context, instruction_error) result) \<Rightarrow>
     runtime_context \<Rightarrow> (runtime_context, instruction_error) result" where
  "run_program (Return r) invoke rx = bindE r (\<lambda>_. Ok rx)"
| "run_program (Inspect f) invoke rx = run_program (f rx) invoke rx"
| "run_program (Modify i account p) invoke rx = bindE (modify_account i account rx) (run_program p invoke)"
| "run_program (Consume n p) invoke rx = bindE (meter_consume n rx) (run_program p invoke)"
| "run_program (Invoke ix signers p) invoke rx = bindE (invoke ix signers rx) (run_program p invoke)"

definition process_executable_chain ::
  "runtime_env \<Rightarrow> (instruction \<Rightarrow> pubkey list \<Rightarrow> runtime_context \<Rightarrow> (runtime_context, instruction_error) result) \<Rightarrow>
     bytes \<Rightarrow> runtime_context \<Rightarrow> (runtime_context, instruction_error) result" where
  "process_executable_chain env invoke data rx =
     (let tc = rx_transaction_context rx in
      bindE (get_current_instruction_context tc) (\<lambda>ixc.
      bindE (map_err (\<lambda>_. UnsupportedProgramId) (try_borrow_account ixc tc 0)) (\<lambda>root.
      bindE (unwrap (slice_get (tc_account_keys tc) root)) (\<lambda>root_key.
      let owner_id = acc_owner (tc_accounts tc ! root);
          (first_instruction_account, builtin_id) = (if owner_id = native_loader_id then (1, root_key) else (0, owner_id)) in
      case map_of (re_builtin_programs env) builtin_id of
        Some program \<Rightarrow> run_program (program first_instruction_account data) invoke rx
      | None \<Rightarrow>
          if is_active (rx_feature_set rx) remove_native_loader then Err UnsupportedProgramId
          else
            bindE (ixc_get_program_id ixc tc) (\<lambda>program_id.
            if builtin_id = program_id then run_program (re_native_loader env 0 data) invoke rx
            else Err UnsupportedProgramId)))))"

text \<open>
  The closure of \<^verbatim>\<open>process_instruction\<close> after \<^verbatim>\<open>push\<close>, with the processor for the instructions it invokes. The
  second component is the compute units consumed.
\<close>

definition execute_instruction ::
  "runtime_env \<Rightarrow> instruction_processor \<Rightarrow> pubkey \<Rightarrow> bool \<Rightarrow> instruction_processor" where
  "execute_instruction env process program_id is_top_level_instruction data ias program_indices rx =
     bindE (ic_push ias program_indices data rx) (\<lambda>rx.
     let rx = rx\<lparr>rx_transaction_context := set_return_data program_id [] (rx_transaction_context rx)\<rparr>;
         pre_remaining_units = rx_compute_meter rx in
     bindE (process_executable_chain env (native_invoke env process) data rx) (\<lambda>rx.
     let compute_units_consumed = saturating_sub64 pre_remaining_units (rx_compute_meter rx) in
     bindE (if is_top_level_instruction then ic_verify ias program_indices rx else verify_and_update ias False rx) (\<lambda>rx.
     Ok (ic_pop rx, compute_units_consumed))))"

definition process_instruction_with ::
  "runtime_env \<Rightarrow> instruction_processor \<Rightarrow> instruction_processor" where
  "process_instruction_with env process data ias program_indices rx =
     (let nesting_level = get_instruction_context_stack_height (rx_transaction_context rx);
          is_top_level_instruction = (nesting_level = 0) in
      bindE (if program_indices = [] then Ok native_loader_id
             else get_key_of_account_at_index (rx_transaction_context rx) (last program_indices)) (\<lambda>program_id.
      bindE
        (if is_top_level_instruction then Ok rx
         else
           bindE (verify_and_update ias True rx) (\<lambda>rx.
           if is_active (rx_feature_set rx) record_instruction_in_transaction_context_push then Ok rx
           else Ok (rx\<lparr>rx_transaction_context := record_instruction
                  \<lparr>ixc_nesting_level = nesting_level, ixc_program_accounts = program_indices, ixc_instruction_accounts = ias,
                   ixc_instruction_data = data\<rparr> (rx_transaction_context rx)\<rparr>))) (\<lambda>rx.
      execute_instruction env process program_id is_top_level_instruction data ias program_indices rx)))"

text \<open>
  The depth of invocations is bounded by the capacity of the stack; the number is the fuel for them, of which
  one more than the capacity is enough.
\<close>

primrec process_instruction :: "nat \<Rightarrow> runtime_env \<Rightarrow> instruction_processor" where
  "process_instruction 0 env = (\<lambda>data ias program_indices rx. Err CallDepth)"
| "process_instruction (Suc n) env = process_instruction_with env (process_instruction n env)"

end
