(* ===== verification/Runtime_Properties.thy ===== *)
theory Runtime_Properties
  imports Invoke_Context "HOL-Library.Sublist"
begin

text \<open>
  What the runtime guarantees whatever programs do: the depth of invocations is bounded, lamports are
  conserved, and every change of an account is a chain of changes that the rules allow to the programs that were
  invoked.
\<close>

section \<open>Running a program\<close>

text \<open>An invariant of the interactions is one of the program.\<close>

lemma run_program_invariant:
  assumes "run_program p invoke rx = Ok rx'" "I rx"
    and "\<And>i a rx rx'. I rx \<Longrightarrow> modify_account i a rx = Ok rx' \<Longrightarrow> I rx'"
    and "\<And>n rx rx'. I rx \<Longrightarrow> meter_consume n rx = Ok rx' \<Longrightarrow> I rx'"
    and "\<And>ix s rx rx'. I rx \<Longrightarrow> invoke ix s rx = Ok rx' \<Longrightarrow> I rx'"
  shows "I rx'"
  using assms(1,2)
proof (induction p arbitrary: rx)
  case (Return r)
  then show ?case by (simp add: result_simps)
next
  case (Inspect f)
  then show ?case by (metis rangeI run_program.simps(2))
next
  case (Modify i a p)
  then obtain rx1 where "modify_account i a rx = Ok rx1" "run_program p invoke rx1 = Ok rx'" by (auto simp: bindE_Ok_iff)
  with Modify.IH Modify.prems(2) assms(3) show ?case by blast
next
  case (Consume n p)
  then obtain rx1 where "meter_consume n rx = Ok rx1" "run_program p invoke rx1 = Ok rx'" by (auto simp: bindE_Ok_iff)
  with Consume.IH Consume.prems(2) assms(4) show ?case by blast
next
  case (Invoke ix s p)
  then obtain rx1 where "invoke ix s rx = Ok rx1" "run_program p invoke rx1 = Ok rx'" by (auto simp: bindE_Ok_iff)
  with Invoke.IH Invoke.prems(2) assms(5) show ?case by blast
qed

text \<open>Two handlers of invocations that agree where an invariant holds give the same run.\<close>

lemma run_program_cong:
  assumes "I rx"
    and "\<And>i a rx rx'. I rx \<Longrightarrow> modify_account i a rx = Ok rx' \<Longrightarrow> I rx'"
    and "\<And>n rx rx'. I rx \<Longrightarrow> meter_consume n rx = Ok rx' \<Longrightarrow> I rx'"
    and "\<And>ix s rx rx'. I rx \<Longrightarrow> invoke ix s rx = Ok rx' \<Longrightarrow> I rx'"
    and "\<And>ix s rx. I rx \<Longrightarrow> invoke' ix s rx = invoke ix s rx"
  shows "run_program p invoke' rx = run_program p invoke rx"
  using assms(1)
proof (induction p arbitrary: rx)
  case (Return r)
  then show ?case by simp
next
  case (Inspect f)
  then show ?case by (metis rangeI run_program.simps(2))
next
  case (Modify i a p)
  show ?case
  proof (cases "modify_account i a rx")
    case (Inr rx1)
    with Modify.IH [of rx1] Modify.prems assms(2) [of rx i a rx1] show ?thesis by simp
  qed simp
next
  case (Consume n p)
  show ?case
  proof (cases "meter_consume n rx")
    case (Inr rx1)
    with Consume.IH [of rx1] Consume.prems assms(3) [of rx n rx1] show ?thesis by simp
  qed simp
next
  case (Invoke ix s p)
  show ?case
  proof (cases "invoke ix s rx")
    case (Inl e)
    with Invoke.prems assms(5) show ?thesis by simp
  next
    case (Inr rx1)
    with Invoke.IH [of rx1] Invoke.prems assms(4) [of rx ix s rx1] assms(5) [of rx ix s] show ?thesis by simp
  qed
qed

section \<open>What an instruction leaves of the transaction\<close>

text \<open>The keys, the number of accounts and the stack.\<close>

definition tc_kept :: "transaction_context \<Rightarrow> transaction_context \<Rightarrow> bool" where
  "tc_kept tc tc' \<longleftrightarrow> tc_account_keys tc' = tc_account_keys tc \<and> length (tc_accounts tc') = length (tc_accounts tc) \<and>
     tc_instruction_context_capacity tc' = tc_instruction_context_capacity tc \<and>
     tc_instruction_stack tc' = tc_instruction_stack tc"

text \<open>Inside an instruction the rent, the features and the keys of the pre-accounts, and its trace only grows.\<close>

definition trace_grows :: "transaction_context \<Rightarrow> transaction_context \<Rightarrow> bool" where
  "trace_grows tc tc' \<longleftrightarrow> tc_instruction_trace tc \<noteq> [] \<and> tc_instruction_trace tc' \<noteq> [] \<and>
     butlast (tc_instruction_trace tc') = butlast (tc_instruction_trace tc) \<and>
     prefix (last (tc_instruction_trace tc)) (last (tc_instruction_trace tc'))"

definition rx_settings :: "runtime_context \<Rightarrow> rent \<times> feature_set \<times> pubkey list" where
  "rx_settings rx = (rx_rent rx, rx_feature_set rx, map pa_key (rx_pre_accounts rx))"

lemma tc_kept_refl [simp]: "tc_kept tc tc" by (simp add: tc_kept_def)

lemma tc_kept_trans: "tc_kept a b \<Longrightarrow> tc_kept b c \<Longrightarrow> tc_kept a c" by (auto simp: tc_kept_def)

lemma trace_grows_trans: "trace_grows a b \<Longrightarrow> trace_grows b c \<Longrightarrow> trace_grows a c"
  by (auto simp: trace_grows_def)

lemma modify_account_Ok:
  assumes "modify_account i a rx = Ok rx'"
  obtains ixc ia where "get_current_instruction_context (rx_transaction_context rx) = Ok ixc"
    "ia \<in> set (ixc_instruction_accounts ixc)" "ia_index_in_transaction ia < length (tc_accounts (rx_transaction_context rx))"
    "rx' = rx\<lparr>rx_transaction_context := (rx_transaction_context rx)
       \<lparr>tc_accounts := (tc_accounts (rx_transaction_context rx))[ia_index_in_transaction ia := a]\<rparr>\<rparr>"
proof -
  obtain ixc where "get_current_instruction_context (rx_transaction_context rx) = Ok ixc" "i < length (ixc_instruction_accounts ixc)"
    "ia_index_in_transaction (ixc_instruction_accounts ixc ! i) < length (tc_accounts (rx_transaction_context rx))"
    "rx' = rx\<lparr>rx_transaction_context := (rx_transaction_context rx)\<lparr>tc_accounts := (tc_accounts (rx_transaction_context rx))
       [ia_index_in_transaction (ixc_instruction_accounts ixc ! i) := a]\<rparr>\<rparr>"
    using assms
    by (auto simp: modify_account_def try_borrow_instruction_account_def try_borrow_account_def get_index_in_transaction_def
        ixc_get_number_of_accounts_def Let_def result_simps not_le split: if_splits)
  then show ?thesis using that nth_mem by blast
qed

lemma meter_consume_Ok:
  "meter_consume n rx = Ok rx' \<Longrightarrow> \<exists>m. rx' = rx\<lparr>rx_compute_meter := m\<rparr>"
  by (auto simp: meter_consume_def Let_def split: if_splits)

lemma verify_and_update_Ok:
  "verify_and_update ias b rx = Ok rx' \<Longrightarrow> \<exists>pre m. rx' = rx\<lparr>rx_pre_accounts := pre, rx_accounts_data_meter := m\<rparr>"
  by (auto simp: verify_and_update_def Let_def result_simps)

lemma ic_verify_Ok: "ic_verify ias p rx = Ok rx' \<Longrightarrow> \<exists>m. rx' = rx\<lparr>rx_accounts_data_meter := m\<rparr>"
  by (auto simp: ic_verify_def Let_def result_simps)

lemma start_top_level_Ok:
  assumes "start_top_level ias program_id rx = Ok rx'"
  shows "rx_transaction_context rx' = rx_transaction_context rx" "rx_invoke_stack rx' = rx_invoke_stack rx"
    "rx_rent rx' = rx_rent rx" "rx_feature_set rx' = rx_feature_set rx"
    "visit_each_account_once ias (collect_pre_account (rx_transaction_context rx)) [] = Ok (rx_pre_accounts rx')"
  using assms by (auto simp: start_top_level_def Let_def result_simps split: if_splits)

lemma tc_push_Ok:
  assumes "tc_push p ias data b tc = Ok tc'"
  obtains i where "tc_instruction_stack tc' = tc_instruction_stack tc @ [i]"
    "length (tc_instruction_stack tc) < tc_instruction_context_capacity tc"
    "tc_account_keys tc' = tc_account_keys tc" "tc_accounts tc' = tc_accounts tc"
    "tc_instruction_context_capacity tc' = tc_instruction_context_capacity tc"
  using assms by (auto simp: tc_push_def Let_def result_simps split: if_splits prod.splits)

lemma ic_push_Ok:
  assumes "ic_push ias p data rx = Ok rx'"
  shows "tc_push p ias data (is_active (rx_feature_set rx) record_instruction_in_transaction_context_push)
      (rx_transaction_context rx) = Ok (rx_transaction_context rx')"
    "butlast (rx_invoke_stack rx') = rx_invoke_stack rx"
    "rx_rent rx' = rx_rent rx" "rx_feature_set rx' = rx_feature_set rx"
    "tc_instruction_stack (rx_transaction_context rx) \<noteq> [] \<Longrightarrow> rx_pre_accounts rx' = rx_pre_accounts rx"
    "tc_instruction_stack (rx_transaction_context rx) = [] \<Longrightarrow>
       visit_each_account_once ias (collect_pre_account (rx_transaction_context rx)) [] = Ok (rx_pre_accounts rx')"
proof -
  obtain program_id rx1 frame where
    start: "(if tc_instruction_stack (rx_transaction_context rx) = [] then start_top_level ias program_id rx
       else bindE (check_reentrancy (rx_transaction_context rx) program_id) (\<lambda>_. Ok rx)) = Ok rx1"
    and push: "tc_push p ias data (is_active (rx_feature_set rx) record_instruction_in_transaction_context_push)
      (rx_transaction_context rx1) = Ok (rx_transaction_context rx')"
    and rx': "rx' = rx1\<lparr>rx_invoke_stack := rx_invoke_stack rx1 @ [frame], rx_transaction_context := rx_transaction_context rx'\<rparr>"
    using assms unfolding ic_push_def Let_def get_instruction_context_stack_height_def length_0_conv bindE_Ok_iff
    by (fastforce split: if_split_asm simp: bindE_Ok_iff)
  have rx1: "rx_transaction_context rx1 = rx_transaction_context rx" "rx_invoke_stack rx1 = rx_invoke_stack rx"
    "rx_rent rx1 = rx_rent rx" "rx_feature_set rx1 = rx_feature_set rx"
    using start start_top_level_Ok [of ias program_id rx rx1] by (auto simp: result_simps split: if_splits)
  show "tc_push p ias data (is_active (rx_feature_set rx) record_instruction_in_transaction_context_push)
      (rx_transaction_context rx) = Ok (rx_transaction_context rx')" using push rx1 by simp
  show "butlast (rx_invoke_stack rx') = rx_invoke_stack rx" "rx_rent rx' = rx_rent rx" "rx_feature_set rx' = rx_feature_set rx"
    by (subst rx', simp add: rx1)+
  show "rx_pre_accounts rx' = rx_pre_accounts rx" if "tc_instruction_stack (rx_transaction_context rx) \<noteq> []"
    using start that by (subst rx') (simp add: result_simps)
  show "visit_each_account_once ias (collect_pre_account (rx_transaction_context rx)) [] = Ok (rx_pre_accounts rx')"
    if "tc_instruction_stack (rx_transaction_context rx) = []"
    using start that start_top_level_Ok(5) [of ias program_id rx rx1] by (subst rx') simp
qed

lemma process_executable_chain_Ok:
  "process_executable_chain env invoke data rx = Ok rx' \<Longrightarrow> \<exists>p. run_program p invoke rx = Ok rx'"
  by (auto simp: process_executable_chain_def Let_def result_simps split: option.splits if_splits)

lemma process_executable_chain_cong:
  assumes "\<And>p. run_program p invoke' rx = run_program p invoke rx"
  shows "process_executable_chain env invoke' data rx = process_executable_chain env invoke data rx"
  unfolding process_executable_chain_def Let_def assms ..

text \<open>The steps of an instruction: the caller is checked, the frame pushed, the program run and checked, the frame popped.\<close>

definition enter_instruction ::
  "bytes \<Rightarrow> instruction_account list \<Rightarrow> usize list \<Rightarrow> runtime_context \<Rightarrow> runtime_context \<Rightarrow> bool" where
  "enter_instruction data ias program_indices rx rx1 \<longleftrightarrow>
     (if tc_instruction_stack (rx_transaction_context rx) = [] then rx1 = rx
      else \<exists>rx0. verify_and_update ias True rx = Ok rx0 \<and>
        rx1 = (if is_active (rx_feature_set rx) record_instruction_in_transaction_context_push then rx0
               else rx0\<lparr>rx_transaction_context := record_instruction
                  \<lparr>ixc_nesting_level = length (tc_instruction_stack (rx_transaction_context rx)),
                   ixc_program_accounts = program_indices, ixc_instruction_accounts = ias,
                   ixc_instruction_data = data\<rparr> (rx_transaction_context rx0)\<rparr>))"

lemma process_instruction_with_Ok:
  assumes "process_instruction_with env process data ias program_indices rx = Ok (rx', units)"
  obtains rx1 rx2 rx3 rx4 p k where "enter_instruction data ias program_indices rx rx1"
    "ic_push ias program_indices data rx1 = Ok rx2"
    "run_program p (native_invoke env process) (rx2\<lparr>rx_transaction_context := set_return_data k [] (rx_transaction_context rx2)\<rparr>) = Ok rx3"
    "(if tc_instruction_stack (rx_transaction_context rx) = [] then ic_verify ias program_indices rx3
      else verify_and_update ias False rx3) = Ok rx4" "rx' = ic_pop rx4"
proof -
  obtain k rx1 where
    enter: "(if tc_instruction_stack (rx_transaction_context rx) = [] then Ok rx
         else
           bindE (verify_and_update ias True rx) (\<lambda>rx0.
           if is_active (rx_feature_set rx0) record_instruction_in_transaction_context_push then Ok rx0
           else Ok (rx0\<lparr>rx_transaction_context := record_instruction
                  \<lparr>ixc_nesting_level = length (tc_instruction_stack (rx_transaction_context rx)),
                   ixc_program_accounts = program_indices, ixc_instruction_accounts = ias,
                   ixc_instruction_data = data\<rparr> (rx_transaction_context rx0)\<rparr>))) = Ok rx1"
    and run: "execute_instruction env process k (tc_instruction_stack (rx_transaction_context rx) = []) data ias program_indices rx1 =
      Ok (rx', units)"
    using assms
    unfolding process_instruction_with_def Let_def get_instruction_context_stack_height_def length_0_conv bindE_Ok_iff [of _ _ "(rx', units)"]
    by blast
  obtain rx2 rx3 rx4 where
    push: "ic_push ias program_indices data rx1 = Ok rx2"
    and chain: "process_executable_chain env (native_invoke env process) data
        (rx2\<lparr>rx_transaction_context := set_return_data k [] (rx_transaction_context rx2)\<rparr>) = Ok rx3"
    and verify: "(if tc_instruction_stack (rx_transaction_context rx) = [] then ic_verify ias program_indices rx3
      else verify_and_update ias False rx3) = Ok rx4" "rx' = ic_pop rx4"
    using run unfolding execute_instruction_def Let_def bindE_Ok_iff by blast
  have "rx_feature_set rx0 = rx_feature_set rx" if "verify_and_update ias True rx = Ok rx0" for rx0
    using verify_and_update_Ok [OF that] by auto
  then have "enter_instruction data ias program_indices rx rx1"
    using enter by (fastforce simp: enter_instruction_def bindE_Ok_iff split: if_splits)
  with that push verify process_executable_chain_Ok [OF chain] show ?thesis by blast
qed

lemma enter_instruction_kept:
  assumes "enter_instruction data ias program_indices rx rx1"
  shows "tc_kept (rx_transaction_context rx) (rx_transaction_context rx1)" "rx_feature_set rx1 = rx_feature_set rx"
    "rx_rent rx1 = rx_rent rx" "rx_invoke_stack rx1 = rx_invoke_stack rx"
    "tc_accounts (rx_transaction_context rx1) = tc_accounts (rx_transaction_context rx)"
  using assms
  by (auto simp: enter_instruction_def tc_kept_def record_instruction_def Let_def dest!: verify_and_update_Ok split: if_splits)

lemma ic_pop_simps:
  assumes "tc_instruction_stack (rx_transaction_context rx) \<noteq> []"
  shows "rx_transaction_context (ic_pop rx) =
      (rx_transaction_context rx)\<lparr>tc_instruction_stack := butlast (tc_instruction_stack (rx_transaction_context rx))\<rparr>"
    "rx_pre_accounts (ic_pop rx) = rx_pre_accounts rx" "rx_rent (ic_pop rx) = rx_rent rx"
    "rx_feature_set (ic_pop rx) = rx_feature_set rx"
  using assms by (simp_all add: ic_pop_def tc_pop_def Let_def)

lemma native_invoke_Ok:
  assumes "native_invoke env process ix s rx = Ok rx'"
  obtains ias program_indices units where "prepare_instruction env ix s rx = Ok (ias, program_indices)"
    "process (ix_data ix) ias program_indices rx = Ok (rx', units)"
  using assms by (auto simp: native_invoke_def result_simps)

lemma process_instruction_kept:
  "process_instruction n env data ias program_indices rx = Ok (rx', units) \<Longrightarrow>
   tc_kept (rx_transaction_context rx) (rx_transaction_context rx')"
proof (induction n arbitrary: data ias program_indices rx rx' units)
  case (Suc n)
  let ?tc = rx_transaction_context
  obtain rx1 rx2 rx3 rx4 p k where steps: "enter_instruction data ias program_indices rx rx1"
    "ic_push ias program_indices data rx1 = Ok rx2"
    "run_program p (native_invoke env (process_instruction n env)) (rx2\<lparr>rx_transaction_context := set_return_data k [] (?tc rx2)\<rparr>) = Ok rx3"
    "(if tc_instruction_stack (?tc rx) = [] then ic_verify ias program_indices rx3 else verify_and_update ias False rx3) = Ok rx4"
    "rx' = ic_pop rx4"
    using Suc.prems by (auto elim: process_instruction_with_Ok)
  have "tc_kept (?tc rx2) (?tc rx3)"
  proof (rule run_program_invariant [OF steps(3)])
    show "tc_kept (?tc rx2) (?tc (rx2\<lparr>rx_transaction_context := set_return_data k [] (?tc rx2)\<rparr>))"
      by (simp add: tc_kept_def set_return_data_def)
  next
    fix ix s rx5 rx6 assume kept: "tc_kept (?tc rx2) (?tc rx5)" and "native_invoke env (process_instruction n env) ix s rx5 = Ok rx6"
    then show "tc_kept (?tc rx2) (?tc rx6)" by (metis native_invoke_Ok Suc.IH tc_kept_trans)
  qed (auto simp: tc_kept_def elim!: modify_account_Ok dest!: meter_consume_Ok)
  moreover obtain i where "tc_instruction_stack (?tc rx2) = tc_instruction_stack (?tc rx1) @ [i]"
    "tc_account_keys (?tc rx2) = tc_account_keys (?tc rx1)" "tc_accounts (?tc rx2) = tc_accounts (?tc rx1)"
    "tc_instruction_context_capacity (?tc rx2) = tc_instruction_context_capacity (?tc rx1)"
    using tc_push_Ok [OF ic_push_Ok(1) [OF steps(2)]] by metis
  moreover have "?tc rx4 = ?tc rx3"
    using steps(4) by (auto split: if_splits dest!: ic_verify_Ok verify_and_update_Ok)
  ultimately show ?case
    using enter_instruction_kept(1) [OF steps(1)] by (simp add: tc_kept_def steps(5) ic_pop_simps)
qed simp

section \<open>The depth of invocations\<close>

text \<open>
  An instruction at the capacity of the stack is refused before its program runs, so that the processor of invoked instructions
  is only ever used one level deeper.
\<close>

lemma native_invoke_cong:
  "(\<And>data ias program_indices. process' data ias program_indices rx = process data ias program_indices rx) \<Longrightarrow>
   native_invoke env process' ix s rx = native_invoke env process ix s rx"
  unfolding native_invoke_def by simp

lemma process_instruction_fuel:
  assumes "tc_instruction_context_capacity (rx_transaction_context rx) < n + length (tc_instruction_stack (rx_transaction_context rx))"
    and "0 < n"
  shows "process_instruction (Suc n) env data ias program_indices rx = process_instruction n env data ias program_indices rx"
  using assms
proof (induction n arbitrary: data ias program_indices rx)
  case (Suc n)
  let ?tc = "rx_transaction_context :: runtime_context \<Rightarrow> transaction_context"
  let ?invoke = "\<lambda>n. native_invoke env (process_instruction n env)"
  define h where "h = length (tc_instruction_stack (?tc rx))"
  define I where "I r \<longleftrightarrow> length (tc_instruction_stack (?tc r)) = Suc h \<and>
    tc_instruction_context_capacity (?tc r) = tc_instruction_context_capacity (?tc rx)" for r :: runtime_context
  have kept: "I r'" if "I r" "tc_kept (?tc r) (?tc r')" for r r' using that by (simp add: I_def tc_kept_def)
  have chain: "process_executable_chain env (?invoke (Suc n)) data r = process_executable_chain env (?invoke n) data r"
    if "I r" "h < tc_instruction_context_capacity (?tc rx)" for r
  proof (rule process_executable_chain_cong, rule run_program_cong [where I = I])
    fix ix s r assume r: "I r"
    from that(2) Suc.prems(1) have "0 < n" by (simp add: h_def)
    then show "?invoke (Suc n) ix s r = ?invoke n ix s r"
      using Suc.IH [of r] Suc.prems(1) r by (intro native_invoke_cong) (simp add: I_def h_def)
  next
    fix ix s r r' assume "I r" "?invoke n ix s r = Ok r'"
    then show "I r'" by (metis native_invoke_Ok process_instruction_kept kept)
  qed (use that(1) in \<open>auto simp: I_def elim!: modify_account_Ok dest!: meter_consume_Ok\<close>)
  define P where "P = process_instruction (Suc n) env"
  have execute: "execute_instruction env P k b data ias program_indices r =
      execute_instruction env (process_instruction n env) k b data ias program_indices r"
    if r: "tc_kept (?tc rx) (?tc r)" for r k b
  proof (cases "ic_push ias program_indices data r")
    case (Inr r2)
    obtain i where "tc_instruction_stack (?tc r2) = tc_instruction_stack (?tc r) @ [i]"
      "length (tc_instruction_stack (?tc r)) < tc_instruction_context_capacity (?tc r)"
      "tc_instruction_context_capacity (?tc r2) = tc_instruction_context_capacity (?tc r)"
      using tc_push_Ok [OF ic_push_Ok(1) [OF Inr]] by metis
    then have "I (r2\<lparr>rx_transaction_context := set_return_data k [] (?tc r2)\<rparr>)" "h < tc_instruction_context_capacity (?tc rx)"
      using r by (simp_all add: I_def h_def tc_kept_def set_return_data_def)
    then show ?thesis unfolding execute_instruction_def Inr bindE_simps Let_def P_def by (simp only: chain)
  qed (simp add: execute_instruction_def)
  have verified: "tc_kept (?tc rx) (?tc r)" if "verify_and_update ias True rx = Ok r" for r
    using verify_and_update_Ok [OF that] by auto
  have recorded: "tc_kept (?tc rx) (record_instruction ixc (?tc r))" if "tc_kept (?tc rx) (?tc r)" for r ixc
    using that by (simp add: tc_kept_def record_instruction_def Let_def)
  have "process_instruction_with env P data ias program_indices rx =
      process_instruction_with env (process_instruction n env) data ias program_indices rx"
    unfolding process_instruction_with_def Let_def
    by (intro bindE_cong refl execute) (auto simp: verified recorded bindE_Ok_iff split: if_splits)
  then show ?case by (simp add: P_def)
qed simp

text \<open>
  C18. The depth of invocations is bounded: programs that invoke one another without end are refused by the
  stack, whatever they are. With one more level than the stack has room for, a top-level instruction has its
  result, and more levels do not change it.
\<close>

theorem invocation_depth_bounded:
  assumes "tc_instruction_context_capacity (rx_transaction_context rx) < n"
  shows "process_instruction n env data ias program_indices rx =
    process_instruction (Suc (tc_instruction_context_capacity (rx_transaction_context rx))) env data ias program_indices rx"
proof -
  let ?c = "tc_instruction_context_capacity (rx_transaction_context rx)"
  have "process_instruction (Suc ?c + k) env data ias program_indices rx = process_instruction (Suc ?c) env data ias program_indices rx" for k
  proof (induction k)
    case (Suc k)
    have "process_instruction (Suc (Suc ?c + k)) env data ias program_indices rx = process_instruction (Suc ?c + k) env data ias program_indices rx"
      by (rule process_instruction_fuel) simp_all
    with Suc show ?case by simp
  qed simp
  from this [of "n - Suc ?c"] assms show ?thesis by simp
qed

section \<open>One pass over the accounts of an instruction\<close>

lemma unique_accounts_subset: "set (unique_accounts_from seen ias) \<subseteq> set ias"
  by (induction seen ias rule: unique_accounts_from.induct) auto

lemma unique_accounts_indices:
  "ia_index_in_transaction ` set (unique_accounts_from seen ias) = ia_index_in_transaction ` set ias - set seen"
  by (induction seen ias rule: unique_accounts_from.induct) auto

lemma unique_accounts_distinct: "distinct (map ia_index_in_transaction (unique_accounts_from seen ias))"
proof (induction seen ias rule: unique_accounts_from.induct)
  case (2 seen ia ias)
  have "ia_index_in_transaction ia \<notin> ia_index_in_transaction ` set (unique_accounts_from (seen @ [ia_index_in_transaction ia]) ias)"
    by (simp add: unique_accounts_indices)
  with 2 show ?case by simp
qed simp

lemmas unique_accounts = unique_accounts_subset [of "[]"] unique_accounts_indices [of "[]"] unique_accounts_distinct [of "[]"]

text \<open>The lamports of the pre-accounts, and the pre-account of a key.\<close>

definition pre_lamports :: "pre_account list \<Rightarrow> nat" where
  "pre_lamports pre = sum_list (map (\<lambda>p. acc_lamports (pa_account p)) pre)"

definition pre_of :: "pre_account list \<Rightarrow> pubkey \<Rightarrow> account_shared_data option" where
  "pre_of pre = map_of (map (\<lambda>p. (pa_key p, pa_account p)) pre)"

lemma pre_of_update:
  "j < length pre \<Longrightarrow> pa_key p = pa_key (pre ! j) \<Longrightarrow> distinct (map pa_key pre) \<Longrightarrow>
   pre_of (pre[j := p]) = (pre_of pre)(pa_key p \<mapsto> pa_account p)"
proof (induction pre arbitrary: j)
  case (Cons q pre)
  have "pa_key q \<noteq> pa_key (pre ! i)" if "i < length pre" for i
    using Cons.prems(3) nth_mem [OF that] by auto
  with Cons show ?case by (cases j) (auto simp: pre_of_def fun_eq_iff)
qed simp

lemma pre_of_nth: "distinct (map pa_key pre) \<Longrightarrow> j < length pre \<Longrightarrow> pre_of pre (pa_key (pre ! j)) = Some (pa_account (pre ! j))"
  unfolding pre_of_def by (rule map_of_is_SomeI) (auto simp: comp_def)

lemma pre_lamports_update:
  assumes "j < length pre"
  shows "pre_lamports (pre[j := p]) + acc_lamports (pa_account (pre ! j)) = pre_lamports pre + acc_lamports (pa_account p)"
proof -
  have le: "map (\<lambda>p. acc_lamports (pa_account p)) pre ! j \<le> sum_list (map (\<lambda>p. acc_lamports (pa_account p)) pre)"
    using assms by (intro member_le_sum_list) simp_all
  show ?thesis using assms le by (simp add: pre_lamports_def map_update sum_list_update)
qed

text \<open>One pre-account is checked and brought up to date: afterwards it equals the account.\<close>

lemma verify_pre_account_Ok:
  assumes "verify_pre_account rx program_id w account pre (a, b, m) = Ok (pre', a', b', m')"
  shows "pre_account_verify program_id w (rx_rent rx) account (is_active (rx_feature_set rx) do_support_realloc) (pa_account pre) = Ok ()"
    "pa_key pre' = pa_key pre" "pa_account pre' = account"
    "a' = a + acc_lamports (pa_account pre)" "b' = b + acc_lamports account"
proof -
  show v: "pre_account_verify program_id w (rx_rent rx) account (is_active (rx_feature_set rx) do_support_realloc) (pa_account pre) = Ok ()"
    and "a' = a + acc_lamports (pa_account pre)" "b' = b + acc_lamports account" "pa_key pre' = pa_key pre"
    using assms
    by (auto simp: verify_pre_account_def Let_def result_simps checked_sum_def int_ops pre_account_update_def split: if_splits)
  have "pre' = (if w \<and> \<not> acc_executable (pa_account pre) then pre_account_update account pre else pre)"
    using assms by (auto simp: verify_pre_account_def Let_def result_simps)
  then show "pa_account pre' = account"
    using pre_account_verify_Ok(1,3) [OF v] by (auto simp: pre_account_update_def)
qed

section \<open>The pass that brings the pre-accounts up to date\<close>

lemma position_Some: "position xs x = Some j \<Longrightarrow> j < length xs \<and> xs ! j = x"
  by (induction xs arbitrary: j) (auto split: if_splits)

text \<open>What the rules allow a program to do to an account.\<close>

definition allowed :: "runtime_context \<Rightarrow> pubkey \<Rightarrow> bool \<Rightarrow> account_shared_data \<Rightarrow> account_shared_data \<Rightarrow> bool" where
  "allowed rx program_id w pre post \<longleftrightarrow>
     pre_account_verify program_id w (rx_rent rx) post (is_active (rx_feature_set rx) do_support_realloc) pre = Ok ()"

text \<open>
  A writable flag that the pass may use: the caller's for the account, or the one of the instruction. The first \<open>m\<close> keys
  are those of the message, without duplicates.
\<close>

definition flags_within ::
  "(nat \<Rightarrow> bool) \<Rightarrow> nat \<Rightarrow> instruction_context \<Rightarrow> bool \<Rightarrow> instruction_account list \<Rightarrow> bool" where
  "flags_within W m ixc before_push ias \<longleftrightarrow>
     (\<forall>ia \<in> set ias. ia_index_in_transaction ia < m \<and>
        ((if before_push then borrowed_is_writable ixc (ia_index_in_caller ia) else ia_is_writable ia) \<longrightarrow>
         W (ia_index_in_transaction ia)))"

lemma verify_and_update_step_Ok:
  assumes "verify_and_update_step rx ixc program_id before_push ia (pre, a, b, meter) = Ok (pre', a', b', meter')"
  obtains j where "ia_index_in_transaction ia < length (tc_accounts (rx_transaction_context rx))"
    "ia_index_in_transaction ia < length (tc_account_keys (rx_transaction_context rx))"
    "j < length pre" "pa_key (pre ! j) = tc_account_keys (rx_transaction_context rx) ! ia_index_in_transaction ia"
    "allowed rx program_id (if before_push then borrowed_is_writable ixc (ia_index_in_caller ia) else ia_is_writable ia)
      (pa_account (pre ! j)) (tc_accounts (rx_transaction_context rx) ! ia_index_in_transaction ia)"
    "pre' = pre[j := pre' ! j]" "pa_key (pre' ! j) = pa_key (pre ! j)"
    "pa_account (pre' ! j) = tc_accounts (rx_transaction_context rx) ! ia_index_in_transaction ia"
    "a' = a + acc_lamports (pa_account (pre ! j))"
    "b' = b + acc_lamports (tc_accounts (rx_transaction_context rx) ! ia_index_in_transaction ia)"
proof -
  let ?tc = "rx_transaction_context rx" and ?i = "ia_index_in_transaction ia"
  let ?w = "if before_push then borrowed_is_writable ixc (ia_index_in_caller ia) else ia_is_writable ia"
  obtain j p where j: "?i < length (tc_accounts ?tc)" "?i < length (tc_account_keys ?tc)"
    "position (map pa_key pre) (tc_account_keys ?tc ! ?i) = Some j"
    "verify_pre_account rx program_id ?w (tc_accounts ?tc ! ?i) (pre ! j) (a, b, meter) = Ok (p, a', b', meter')"
    "pre' = pre[j := p]"
    using assms
    by (auto simp: verify_and_update_step_def Let_def result_simps get_key_of_account_at_index_def get_account_at_index_def
        slice_get_Some split: if_splits option.splits)
  note pos = position_Some [OF j(3)] and v = verify_pre_account_Ok [OF j(4)]
  show ?thesis by (rule that [of j]) (use j pos v in \<open>auto simp: allowed_def\<close>)
qed

lemma allowed_mono: "allowed rx p w a b \<Longrightarrow> (w \<Longrightarrow> w') \<Longrightarrow> allowed rx p w' a b"
  unfolding allowed_def by (rule pre_account_verify_mono)

lemma distinct_keys:
  assumes "distinct (take m keys)" "i < m" "j < m" "i < length keys" "j < length keys" "keys ! i = keys ! j"
  shows "i = j"
  using nth_eq_iff_index_eq [OF assms(1), of i j] assms(2-6) by simp

lemma verify_and_update_fold:
  fixes rx ixc
  defines "keys \<equiv> tc_account_keys (rx_transaction_context rx)" and "accounts \<equiv> tc_accounts (rx_transaction_context rx)"
  assumes "foldE (verify_and_update_step rx ixc P before_push) us (pre, a0, b0, m0) = Ok (pre', a', b', m')"
    and "flags_within W m ixc before_push us" "distinct (map ia_index_in_transaction us)" "distinct (take m keys)"
    and "distinct (map pa_key pre)"
  shows "map pa_key pre' = map pa_key pre \<and> pre_lamports pre' + a' + b0 = pre_lamports pre + a0 + b' \<and>
      (\<forall>i \<in> ia_index_in_transaction ` set us. i < length keys \<and>
         (\<exists>a. pre_of pre (keys ! i) = Some a \<and> pre_of pre' (keys ! i) = Some (accounts ! i) \<and> allowed rx P (W i) a (accounts ! i))) \<and>
      (\<forall>k. k \<notin> (\<lambda>ia. keys ! ia_index_in_transaction ia) ` set us \<longrightarrow> pre_of pre' k = pre_of pre k)"
  using assms(3,4,5,7)
proof (induction us arbitrary: pre a0 b0 m0)
  case (Cons ia us)
  let ?i = "ia_index_in_transaction ia"
  obtain pre1 a1 b1 m1 where step: "verify_and_update_step rx ixc P before_push ia (pre, a0, b0, m0) = Ok (pre1, a1, b1, m1)"
    and rest: "foldE (verify_and_update_step rx ixc P before_push) us (pre1, a1, b1, m1) = Ok (pre', a', b', m')"
    using Cons.prems(1) by (auto simp: result_simps)
  from step obtain j where j: "?i < length keys" "j < length pre" "pa_key (pre ! j) = keys ! ?i"
    "allowed rx P (if before_push then borrowed_is_writable ixc (ia_index_in_caller ia) else ia_is_writable ia) (pa_account (pre ! j)) (accounts ! ?i)"
    "pre1 = pre[j := pre1 ! j]" "pa_key (pre1 ! j) = pa_key (pre ! j)" "pa_account (pre1 ! j) = accounts ! ?i"
    "a1 = a0 + acc_lamports (pa_account (pre ! j))" "b1 = b0 + acc_lamports (accounts ! ?i)"
    unfolding keys_def accounts_def by (rule verify_and_update_step_Ok)
  have keys1: "map pa_key pre1 = map pa_key pre"
    by (subst j(5)) (simp add: map_update j(2,6) list_update_same_conv)
  have pre1: "pre_of pre1 = (pre_of pre)(keys ! ?i \<mapsto> accounts ! ?i)"
    using pre_of_update [OF j(2,6) Cons.prems(4)] j(3,5-7) by metis
  have lam1: "pre_lamports pre1 + acc_lamports (pa_account (pre ! j)) = pre_lamports pre + acc_lamports (accounts ! ?i)"
    using pre_lamports_update [OF j(2), of "pre1 ! j"] j(5,7) by metis
  have flags: "?i < m" "(if before_push then borrowed_is_writable ixc (ia_index_in_caller ia) else ia_is_writable ia) \<Longrightarrow> W ?i"
    "flags_within W m ixc before_push us"
    using Cons.prems(2) by (auto simp: flags_within_def)
  note IH = Cons.IH [OF rest flags(3)]
  have IH: "map pa_key pre' = map pa_key pre1" "pre_lamports pre' + a' + b1 = pre_lamports pre1 + a1 + b'"
    "\<And>i. i \<in> ia_index_in_transaction ` set us \<Longrightarrow> i < length keys \<and>
         (\<exists>a. pre_of pre1 (keys ! i) = Some a \<and> pre_of pre' (keys ! i) = Some (accounts ! i) \<and> allowed rx P (W i) a (accounts ! i))"
    "\<And>k. k \<notin> (\<lambda>ia. keys ! ia_index_in_transaction ia) ` set us \<Longrightarrow> pre_of pre' k = pre_of pre1 k"
    using IH Cons.prems(3,4) keys1 by auto
  have apart: "keys ! i \<noteq> keys ! ?i" if "i \<in> ia_index_in_transaction ` set us" for i
  proof
    assume "keys ! i = keys ! ?i"
    moreover have "i < m" using that flags(3) by (auto simp: flags_within_def)
    ultimately have "i = ?i" using distinct_keys [OF assms(6)] flags(1) j(1) IH(3) [OF that] by blast
    with that Cons.prems(3) show False by auto
  qed
  have first: "pre_of pre (keys ! ?i) = Some (pa_account (pre ! j))"
    using pre_of_nth [OF Cons.prems(4) j(2)] j(3) by simp
  have "pre_of pre' (keys ! ?i) = Some (accounts ! ?i)"
    using IH(4) [of "keys ! ?i"] apart pre1 by fastforce
  moreover have "allowed rx P (W ?i) (pa_account (pre ! j)) (accounts ! ?i)" using j(4) flags(2) by (rule allowed_mono)
  moreover have "\<exists>a. pre_of pre (keys ! i) = Some a \<and> pre_of pre' (keys ! i) = Some (accounts ! i) \<and> allowed rx P (W i) a (accounts ! i)"
    if "i \<in> ia_index_in_transaction ` set us" for i
    using IH(3) [OF that] apart [OF that] pre1 by simp
  ultimately show ?case
    using IH(1,2) keys1 lam1 j(1,8,9) first IH(3,4) pre1 by auto
qed simp

text \<open>
  After the pass, every account of the instruction equals its pre-account, by a change that is allowed to the program;
  the other pre-accounts are as before, and so is the sum of their lamports.
\<close>

lemma verify_and_update_pass:
  fixes rx
  defines "keys \<equiv> tc_account_keys (rx_transaction_context rx)" and "accounts \<equiv> tc_accounts (rx_transaction_context rx)"
  assumes "verify_and_update ias before_push rx = Ok rx'"
    and "get_current_instruction_context (rx_transaction_context rx) = Ok ixc" "get_program_key ixc (rx_transaction_context rx) = Ok P"
    and "flags_within W m ixc before_push ias" "distinct (take m keys)" "distinct (map pa_key (rx_pre_accounts rx))"
  shows "map pa_key (rx_pre_accounts rx') = map pa_key (rx_pre_accounts rx)"
    "pre_lamports (rx_pre_accounts rx') = pre_lamports (rx_pre_accounts rx)"
    "i \<in> ia_index_in_transaction ` set ias \<Longrightarrow> i < length keys \<and>
       (\<exists>a. pre_of (rx_pre_accounts rx) (keys ! i) = Some a \<and> pre_of (rx_pre_accounts rx') (keys ! i) = Some (accounts ! i) \<and>
         allowed rx P (W i) a (accounts ! i))"
    "k \<notin> (\<lambda>i. keys ! i) ` ia_index_in_transaction ` set ias \<Longrightarrow>
       pre_of (rx_pre_accounts rx') k = pre_of (rx_pre_accounts rx) k"
proof -
  define us where "us = unique_accounts_from [] ias"
  have idx: "ia_index_in_transaction ` set us = ia_index_in_transaction ` set ias" "distinct (map ia_index_in_transaction us)"
    "set us \<subseteq> set ias"
    using unique_accounts [of ias] by (auto simp: us_def)
  have "\<exists>b meter. foldE (verify_and_update_step rx ixc P before_push) us (rx_pre_accounts rx, 0, 0, rx_accounts_data_meter rx) =
      Ok (rx_pre_accounts rx', b, b, meter)"
    using assms(3-5) by (auto simp: verify_and_update_def visit_each_account_once_def us_def Let_def result_simps)
  then obtain b meter where fold: "foldE (verify_and_update_step rx ixc P before_push) us (rx_pre_accounts rx, 0, 0, rx_accounts_data_meter rx) =
      Ok (rx_pre_accounts rx', b, b, meter)" by blast
  have "flags_within W m ixc before_push us" using assms(6) idx(3) unfolding flags_within_def by blast
  note pass = verify_and_update_fold [OF fold this idx(2) assms(7) [unfolded keys_def] assms(8), folded keys_def accounts_def, unfolded idx(1)]
  have image: "(\<lambda>ia. keys ! ia_index_in_transaction ia) ` set us = (\<lambda>i. keys ! i) ` ia_index_in_transaction ` set ias"
    unfolding idx(1) [symmetric] by auto
  show "map pa_key (rx_pre_accounts rx') = map pa_key (rx_pre_accounts rx)"
    "pre_lamports (rx_pre_accounts rx') = pre_lamports (rx_pre_accounts rx)"
    "i \<in> ia_index_in_transaction ` set ias \<Longrightarrow> i < length keys \<and>
       (\<exists>a. pre_of (rx_pre_accounts rx) (keys ! i) = Some a \<and> pre_of (rx_pre_accounts rx') (keys ! i) = Some (accounts ! i) \<and>
         allowed rx P (W i) a (accounts ! i))"
    "k \<notin> (\<lambda>i. keys ! i) ` ia_index_in_transaction ` set ias \<Longrightarrow> pre_of (rx_pre_accounts rx') k = pre_of (rx_pre_accounts rx) k"
    using pass unfolding image by auto
qed

section \<open>The stack and the trace\<close>

definition stack_ok :: "transaction_context \<Rightarrow> bool" where
  "stack_ok tc \<longleftrightarrow> (tc_instruction_stack tc \<noteq> [] \<longrightarrow>
     tc_instruction_trace tc \<noteq> [] \<and> hd (tc_instruction_stack tc) = length (tc_instruction_trace tc) - 1 \<and>
     last (tc_instruction_trace tc) \<noteq> [] \<and> (\<forall>i \<in> set (tl (tc_instruction_stack tc)). i < length (last (tc_instruction_trace tc))))"

definition current_level :: "transaction_context \<Rightarrow> nat" where
  "current_level tc = (if length (tc_instruction_stack tc) = 1 then 0 else last (tc_instruction_stack tc))"

lemma current_context:
  assumes "stack_ok tc" "tc_instruction_stack tc \<noteq> []"
  shows "get_current_instruction_context tc = Ok (last (tc_instruction_trace tc) ! current_level tc)"
    "current_level tc < length (last (tc_instruction_trace tc))"
proof -
  obtain i rest where stack: "tc_instruction_stack tc = i # rest" using assms(2) by (cases "tc_instruction_stack tc") auto
  note ok = assms(1) [unfolded stack_ok_def, rule_format, OF assms(2)]
  show level: "current_level tc < length (last (tc_instruction_trace tc))"
  proof (cases "rest = []")
    case False
    then have "last rest \<in> set rest" by simp
    then show ?thesis using ok stack False by (simp add: current_level_def)
  qed (use ok stack in \<open>simp add: current_level_def\<close>)
  have "tc_instruction_trace tc ! i = last (tc_instruction_trace tc)" using ok stack by (simp add: last_conv_nth)
  moreover have "i < length (tc_instruction_trace tc)" using ok stack by simp
  moreover have "(i # rest) ! length rest = last (i # rest)" by (simp add: last_conv_nth)
  ultimately show "get_current_instruction_context tc = Ok (last (tc_instruction_trace tc) ! current_level tc)"
    using level stack
    by (cases "rest = []") (simp_all add: get_current_instruction_context_def get_instruction_context_stack_height_def
        get_instruction_context_at_def checked_sub64_def slice_get_def current_level_def)
qed

lemma trace_grows_length: "trace_grows tc tc' \<Longrightarrow> length (tc_instruction_trace tc') = length (tc_instruction_trace tc)"
  unfolding trace_grows_def by (metis length_butlast length_greater_0_conv One_nat_def Suc_pred)

lemma current_context_grows:
  assumes "stack_ok tc" "tc_instruction_stack tc \<noteq> []" "tc_kept tc tc'" "trace_grows tc tc'"
  shows "stack_ok tc'" "get_current_instruction_context tc' = get_current_instruction_context tc"
proof -
  have stack: "tc_instruction_stack tc' = tc_instruction_stack tc" using assms(3) by (simp add: tc_kept_def)
  obtain more where more: "last (tc_instruction_trace tc') = last (tc_instruction_trace tc) @ more"
    using assms(4) by (auto simp: trace_grows_def prefix_def)
  show ok: "stack_ok tc'"
    using assms(1,4) trace_grows_length [OF assms(4)] by (auto simp: stack_ok_def stack more trace_grows_def)
  have "current_level tc' = current_level tc" by (simp add: current_level_def stack)
  then show "get_current_instruction_context tc' = get_current_instruction_context tc"
    using current_context [OF assms(1,2)] current_context(1) [OF ok] assms(2) stack by (simp add: more nth_append)
qed

definition invoked_programs :: "transaction_context \<Rightarrow> pubkey set" where
  "invoked_programs tc = {k. \<exists>ixc \<in> set (last (tc_instruction_trace tc)). get_program_key ixc tc = Ok k}"

lemma get_program_key_keys: "tc_account_keys tc' = tc_account_keys tc \<Longrightarrow> get_program_key ixc tc' = get_program_key ixc tc"
  by (simp add: get_program_key_def get_key_of_account_at_index_def [abs_def])

lemma invoked_programs_grow:
  "trace_grows tc tc' \<Longrightarrow> tc_account_keys tc' = tc_account_keys tc \<Longrightarrow> invoked_programs tc \<subseteq> invoked_programs tc'"
  by (auto simp: invoked_programs_def trace_grows_def get_program_key_keys [of tc' tc] dest: set_mono_prefix)

lemma current_program_invoked:
  assumes "stack_ok tc" "tc_instruction_stack tc \<noteq> []" "get_current_instruction_context tc = Ok ixc" "get_program_key ixc tc = Ok k"
  shows "k \<in> invoked_programs tc"
  using current_context [OF assms(1,2)] assms(3,4) nth_mem by (fastforce simp: invoked_programs_def)

text \<open>A pushed instruction is the current one; it was recorded before when \<^verbatim>\<open>push\<close> does not record it.\<close>

lemma tc_push_current:
  fixes tc
  defines "ixc p ias data \<equiv> \<lparr>ixc_nesting_level = length (tc_instruction_stack tc), ixc_program_accounts = p,
    ixc_instruction_accounts = ias, ixc_instruction_data = data\<rparr>"
  assumes "tc_push p ias data b tc = Ok tc'" "stack_ok tc"
    and "tc_instruction_stack tc \<noteq> [] \<Longrightarrow> \<not> b \<Longrightarrow> last (last (tc_instruction_trace tc)) = ixc p ias data"
  shows "stack_ok tc'" "get_current_instruction_context tc' = Ok (ixc p ias data)"
    "tc_instruction_stack tc \<noteq> [] \<Longrightarrow> trace_grows tc tc'"
proof -
  let ?traces = "tc_instruction_trace tc" and ?stack = "tc_instruction_stack tc"
  consider (top) "?stack = []" "tc_instruction_trace tc' = ?traces @ [[ixc p ias data]]" "tc_instruction_stack tc' = [length ?traces]"
    | (deep) trace where "?stack \<noteq> []" "?traces \<noteq> []" "trace = (if b then last ?traces @ [ixc p ias data] else last ?traces)"
      "tc_instruction_trace tc' = butlast ?traces @ [trace]" "tc_instruction_stack tc' = ?stack @ [length trace - 1]"
    using assms(2) by (auto simp: tc_push_def ixc_def Let_def result_simps saturating_sub64_def split: if_splits)
  then have "stack_ok tc' \<and> get_current_instruction_context tc' = Ok (ixc p ias data) \<and> (?stack \<noteq> [] \<longrightarrow> trace_grows tc tc')"
  proof cases
    case top
    then have ok: "stack_ok tc'" by (simp add: stack_ok_def)
    show ?thesis using current_context(1) [OF ok] top ok by (simp add: current_level_def)
  next
    case (deep trace)
    note old = assms(3) [unfolded stack_ok_def, rule_format, OF deep(1)]
    have trace: "trace \<noteq> []" "last trace = ixc p ias data" "prefix (last ?traces) trace"
      using deep(1,3) old assms(4) by (auto split: if_splits)
    have "length (last ?traces) \<le> length trace" using trace(3) by (rule prefix_length_le)
    then have ok: "stack_ok tc'"
      using old deep(1,2,4,5) trace(1) by (fastforce simp: stack_ok_def)
    have "last trace = trace ! (length trace - 1)" using trace(1) by (simp add: last_conv_nth)
    then show ?thesis
      using current_context(1) [OF ok] deep ok trace by (simp add: current_level_def trace_grows_def)
  qed
  then show "stack_ok tc'" "get_current_instruction_context tc' = Ok (ixc p ias data)" "?stack \<noteq> [] \<Longrightarrow> trace_grows tc tc'" by blast+
qed

section \<open>The effect of an instruction\<close>

text \<open>
  Whatever happens inside an instruction on the accounts \<open>A\<close>: the other accounts are as they were, the lamports of the
  pre-accounts add up to the same, and every pre-account goes through changes that the rules allow to the invoked programs.
\<close>

definition change :: "runtime_context \<Rightarrow> pubkey set \<Rightarrow> bool \<Rightarrow> (account_shared_data \<times> account_shared_data) set" where
  "change rx programs w = {(a, b). \<exists>P \<in> programs. allowed rx P w a b}"

definition pre_chain :: "(nat \<Rightarrow> bool) \<Rightarrow> nat \<Rightarrow> runtime_context \<Rightarrow> runtime_context \<Rightarrow> bool" where
  "pre_chain W m rx rx' \<longleftrightarrow>
     (\<forall>i a. i < m \<longrightarrow> i < length (tc_account_keys (rx_transaction_context rx)) \<longrightarrow>
        pre_of (rx_pre_accounts rx) (tc_account_keys (rx_transaction_context rx) ! i) = Some a \<longrightarrow>
        (\<exists>b. pre_of (rx_pre_accounts rx') (tc_account_keys (rx_transaction_context rx) ! i) = Some b \<and>
           (a, b) \<in> (change rx (invoked_programs (rx_transaction_context rx')) (W i))\<^sup>*))"

definition effect :: "(nat \<Rightarrow> bool) \<Rightarrow> nat \<Rightarrow> nat set \<Rightarrow> runtime_context \<Rightarrow> runtime_context \<Rightarrow> bool" where
  "effect W m A rx rx' \<longleftrightarrow>
     tc_account_keys (rx_transaction_context rx') = tc_account_keys (rx_transaction_context rx) \<and>
     length (tc_accounts (rx_transaction_context rx')) = length (tc_accounts (rx_transaction_context rx)) \<and>
     trace_grows (rx_transaction_context rx) (rx_transaction_context rx') \<and> rx_settings rx' = rx_settings rx \<and>
     pre_lamports (rx_pre_accounts rx') = pre_lamports (rx_pre_accounts rx) \<and>
     (\<forall>i. i \<notin> A \<longrightarrow> tc_accounts (rx_transaction_context rx') ! i = tc_accounts (rx_transaction_context rx) ! i) \<and>
     pre_chain W m rx rx'"

lemma change_mono: "programs \<subseteq> programs' \<Longrightarrow> change rx programs w \<subseteq> change rx programs' w"
  by (auto simp: change_def)

lemma change_settings: "rx_settings rx' = rx_settings rx \<Longrightarrow> change rx' = change rx"
  by (simp add: fun_eq_iff change_def allowed_def rx_settings_def)

lemma effect_refl: "tc_instruction_trace (rx_transaction_context rx) \<noteq> [] \<Longrightarrow> effect W m A rx rx"
  by (simp add: effect_def trace_grows_def pre_chain_def)

lemma effect_trans:
  assumes "effect W m A rx rx'" "effect W m A rx' rx''"
  shows "effect W m A rx rx''"
proof -
  have grows: "trace_grows (rx_transaction_context rx') (rx_transaction_context rx'')"
    "trace_grows (rx_transaction_context rx) (rx_transaction_context rx'')"
    using assms trace_grows_trans by (auto simp: effect_def)
  have "tc_account_keys (rx_transaction_context rx'') = tc_account_keys (rx_transaction_context rx')"
    using assms(2) by (simp add: effect_def)
  note invoked = change_mono [OF invoked_programs_grow [OF grows(1) this]]
  have "pre_chain W m rx rx''"
    unfolding pre_chain_def
  proof (intro allI impI)
    fix i a assume i: "i < m" "i < length (tc_account_keys (rx_transaction_context rx))"
      "pre_of (rx_pre_accounts rx) (tc_account_keys (rx_transaction_context rx) ! i) = Some a"
    then obtain b where b: "pre_of (rx_pre_accounts rx') (tc_account_keys (rx_transaction_context rx) ! i) = Some b"
      "(a, b) \<in> (change rx (invoked_programs (rx_transaction_context rx')) (W i))\<^sup>*"
      using assms(1) unfolding effect_def pre_chain_def by blast
    then obtain c where c: "pre_of (rx_pre_accounts rx'') (tc_account_keys (rx_transaction_context rx) ! i) = Some c"
      "(b, c) \<in> (change rx' (invoked_programs (rx_transaction_context rx'')) (W i))\<^sup>*"
      using assms i unfolding effect_def pre_chain_def by metis
    have "change rx' = change rx" using assms(1) by (intro change_settings) (simp add: effect_def)
    then show "\<exists>b. pre_of (rx_pre_accounts rx'') (tc_account_keys (rx_transaction_context rx) ! i) = Some b \<and>
        (a, b) \<in> (change rx (invoked_programs (rx_transaction_context rx'')) (W i))\<^sup>*"
      using c rtrancl_trans [OF subsetD [OF rtrancl_mono [OF invoked] b(2)]] by auto
  qed
  then show ?thesis using assms grows(2) by (simp add: effect_def)
qed

lemma effect_subset: "effect W m A rx rx' \<Longrightarrow> A \<subseteq> B \<Longrightarrow> effect W m B rx rx'"
  by (auto simp: effect_def)

text \<open>The pass of a program over its accounts has an effect, when the program is among those that were invoked.\<close>

lemma verify_and_update_effect:
  assumes "verify_and_update ias before_push rx = Ok rx'"
    and "stack_ok (rx_transaction_context rx)" "tc_instruction_stack (rx_transaction_context rx) \<noteq> []"
    and "get_current_instruction_context (rx_transaction_context rx) = Ok ixc" "flags_within W m ixc before_push ias"
    and "distinct (take m (tc_account_keys (rx_transaction_context rx)))" "distinct (map pa_key (rx_pre_accounts rx))"
  shows "effect W m A rx rx'"
proof -
  let ?tc = "rx_transaction_context rx"
  obtain P where P: "get_program_key ixc ?tc = Ok P"
    using assms(1,4) by (auto simp: verify_and_update_def Let_def result_simps)
  note pass = verify_and_update_pass [OF assms(1,4) P assms(5-7)]
  obtain pre meter where rx': "rx' = rx\<lparr>rx_pre_accounts := pre, rx_accounts_data_meter := meter\<rparr>"
    using verify_and_update_Ok [OF assms(1)] by blast
  have "P \<in> invoked_programs ?tc" by (rule current_program_invoked [OF assms(2-4) P])
  have "pre_chain W m rx rx'"
    unfolding pre_chain_def
  proof (intro allI impI)
    fix i a assume i: "i < m" "i < length (tc_account_keys ?tc)" "pre_of (rx_pre_accounts rx) (tc_account_keys ?tc ! i) = Some a"
    show "\<exists>b. pre_of (rx_pre_accounts rx') (tc_account_keys ?tc ! i) = Some b \<and>
        (a, b) \<in> (change rx (invoked_programs (rx_transaction_context rx')) (W i))\<^sup>*"
    proof (cases "i \<in> ia_index_in_transaction ` set ias")
      case True
      from pass(3) [OF True] i(3) show ?thesis
        using \<open>P \<in> invoked_programs ?tc\<close> by (auto simp: rx' change_def intro!: r_into_rtrancl)
    next
      case False
      have "tc_account_keys ?tc ! i \<notin> (\<lambda>i. tc_account_keys ?tc ! i) ` ia_index_in_transaction ` set ias"
      proof
        assume "tc_account_keys ?tc ! i \<in> (\<lambda>i. tc_account_keys ?tc ! i) ` ia_index_in_transaction ` set ias"
        then obtain j where "j \<in> ia_index_in_transaction ` set ias" "tc_account_keys ?tc ! i = tc_account_keys ?tc ! j" by auto
        moreover from this have "j < m" "j < length (tc_account_keys ?tc)" using assms(5) pass(3) by (auto simp: flags_within_def)
        ultimately show False using distinct_keys [OF assms(6)] i(1,2) False by blast
      qed
      from pass(4) [OF this] i(3) show ?thesis by auto
    qed
  qed
  then show ?thesis
    using pass(1,2) assms(2,3) by (simp add: effect_def rx' rx_settings_def trace_grows_def stack_ok_def)
qed

section \<open>Privileges of an invoked instruction\<close>

lemma position_least: "position xs x = Some i \<Longrightarrow> j < length xs \<Longrightarrow> xs ! j = x \<Longrightarrow> i \<le> j"
proof (induction xs arbitrary: i j)
  case (Cons y ys)
  then show ?case by (cases j) (auto split: if_splits)
qed simp

lemma position_of_key_Some:
  "(position_of_key keys xs k :: (_, 'e) result) = Ok (Some j) \<Longrightarrow> j < length xs \<and> xs ! j < length keys \<and> keys ! (xs ! j) = k"
  by (induction xs arbitrary: j) (auto simp: result_simps slice_get_Some split: if_splits)

text \<open>An account of an invoked instruction is one of the caller's, found under its index in the caller.\<close>

definition from_caller :: "instruction_context \<Rightarrow> instruction_account \<Rightarrow> bool" where
  "from_caller ixc e \<longleftrightarrow> (\<exists>ia \<in> set (ixc_instruction_accounts ixc).
     ia_index_in_transaction e = ia_index_in_transaction ia \<and>
     borrowed_is_writable ixc (ia_index_in_caller e) = ia_is_writable ia)"

lemma deduplicate_step_from_caller:
  assumes "deduplicate_step tc ixc meta (dedup, dups) = Ok (dedup', dups')" "\<forall>e \<in> set dedup. from_caller ixc e"
    and "distinct (take m (tc_account_keys tc))" "\<forall>ia \<in> set (ixc_instruction_accounts ixc). ia_index_in_transaction ia < m"
  shows "\<forall>e \<in> set dedup'. from_caller ixc e"
proof -
  obtain i where i: "position (tc_account_keys tc) (am_pubkey meta) = Some i"
    using assms(1) by (auto simp: deduplicate_step_def tc_find_index_of_account_def result_simps)
  show ?thesis
  proof (cases "position (map ia_index_in_transaction dedup) i")
    case (Some j)
    then have "j < length dedup" using position_Some by fastforce
    then have "from_caller ixc (dedup ! j)" using assms(2) by simp
    moreover have "dedup' = dedup[j := (dedup ! j)\<lparr>ia_is_signer := ia_is_signer (dedup ! j) \<or> am_is_signer meta,
        ia_is_writable := ia_is_writable (dedup ! j) \<or> am_is_writable meta\<rparr>]"
      using assms(1) i Some by (simp add: deduplicate_step_def tc_find_index_of_account_def Let_def)
    ultimately show ?thesis
      using assms(2) by (auto simp: from_caller_def dest!: set_update_subset_insert [THEN subsetD])
  next
    case None
    let ?ias = "ixc_instruction_accounts ixc"
    obtain pos where pos: "(position_of_key (tc_account_keys tc) (map ia_index_in_transaction ?ias) (am_pubkey meta) :: (_, instruction_error) result) = Ok (Some pos)"
      and dedup': "dedup' = dedup @ [\<lparr>ia_index_in_transaction = i, ia_index_in_caller = pos + length (ixc_program_accounts ixc),
        ia_is_signer = am_is_signer meta, ia_is_writable = am_is_writable meta\<rparr>]"
      using assms(1) i None
      by (auto simp: deduplicate_step_def tc_find_index_of_account_def ixc_find_index_of_account_def result_simps)
    have key: "pos < length ?ias" "ia_index_in_transaction (?ias ! pos) < length (tc_account_keys tc)"
      "tc_account_keys tc ! ia_index_in_transaction (?ias ! pos) = am_pubkey meta"
      using position_of_key_Some [OF pos] by auto
    then have mem: "?ias ! pos \<in> set ?ias" "ia_index_in_transaction (?ias ! pos) < m" using assms(4) by auto
    have "i = ia_index_in_transaction (?ias ! pos)"
    proof (rule distinct_keys [OF assms(3)])
      show "i < m" using position_least [OF i key(2,3)] mem(2) by simp
    qed (use key mem(2) position_Some [OF i] in auto)
    then have "from_caller ixc (last dedup')"
      using mem(1) key unfolding from_caller_def
      by (intro bexI [of _ "?ias ! pos"]) (simp_all add: dedup' borrowed_is_writable_def ixc_is_writable_def slice_get_def)
    then show ?thesis using assms(2) dedup' by auto
  qed
qed

lemma prepare_instruction_flags:
  assumes "prepare_instruction env ix s rx = Ok (ias, p)"
    and "get_current_instruction_context (rx_transaction_context rx) = Ok ixc"
    and "distinct (take m (tc_account_keys (rx_transaction_context rx)))" "flags_within W m ixc False (ixc_instruction_accounts ixc)"
  shows "flags_within W m ixc True ias" "flags_within W m ixc False ias"
    "ia_index_in_transaction ` set ias \<subseteq> ia_index_in_transaction ` set (ixc_instruction_accounts ixc)"
proof -
  let ?tc = "rx_transaction_context rx"
  obtain dedup dups us where fold: "foldE (deduplicate_step ?tc ixc) (ix_accounts ix) ([], []) = Ok (dedup, dups)"
    and privileges: "mapE (check_privileges ?tc ixc s) dedup = Ok us"
    and ias: "mapE (\<lambda>j. ok_or (slice_get dedup j) NotEnoughAccountKeys) dups = Ok ias"
    using assms(1,2) by (auto simp: prepare_instruction_def Let_def result_simps split: if_splits)
  have m: "\<forall>ia \<in> set (ixc_instruction_accounts ixc). ia_index_in_transaction ia < m" using assms(4) by (simp add: flags_within_def)
  have "\<forall>e \<in> set (fst (dedup, dups)). from_caller ixc e"
    by (rule foldE_invariant [OF fold]) (auto dest: deduplicate_step_from_caller [OF _ _ assms(3) m])
  moreover have "e \<in> set dedup" if "e \<in> set ias" for e
    using ias that by (fastforce simp: mapE_Ok list_all2_conv_all_nth in_set_conv_nth result_simps slice_get_Some)
  ultimately have caller: "from_caller ixc e" "e \<in> set dedup" if "e \<in> set ias" for e using that by auto
  have escalate: "ia_is_writable e \<longrightarrow> borrowed_is_writable ixc (ia_index_in_caller e)" if "e \<in> set ias" for e
  proof -
    have "e \<in> set dedup" using caller(2) that by blast
    then obtain u where "check_privileges ?tc ixc s e = Ok u"
      using privileges by (fastforce simp: mapE_Ok list_all2_conv_all_nth in_set_conv_nth)
    then show ?thesis by (auto simp: check_privileges_def result_simps split: if_splits)
  qed
  show "flags_within W m ixc True ias"
    using caller(1) assms(4) by (fastforce simp: flags_within_def from_caller_def)
  then show "flags_within W m ixc False ias"
    using escalate by (simp add: flags_within_def)
  show "ia_index_in_transaction ` set ias \<subseteq> ia_index_in_transaction ` set (ixc_instruction_accounts ixc)"
    using caller(1) by (fastforce simp: from_caller_def)
qed

section \<open>Instructions inside an instruction\<close>

text \<open>The state in which a program of the transaction may invoke another one.\<close>

definition running :: "(nat \<Rightarrow> bool) \<Rightarrow> nat \<Rightarrow> instruction_context \<Rightarrow> runtime_context \<Rightarrow> bool" where
  "running W m ixc rx \<longleftrightarrow>
     stack_ok (rx_transaction_context rx) \<and> tc_instruction_stack (rx_transaction_context rx) \<noteq> [] \<and>
     get_current_instruction_context (rx_transaction_context rx) = Ok ixc \<and>
     distinct (take m (tc_account_keys (rx_transaction_context rx))) \<and> distinct (map pa_key (rx_pre_accounts rx)) \<and>
     flags_within W m ixc False (ixc_instruction_accounts ixc)"

lemma running_kept:
  assumes "running W m ixc rx" "effect W m A rx rx'" "tc_kept (rx_transaction_context rx) (rx_transaction_context rx')"
  shows "running W m ixc rx'"
proof -
  have "trace_grows (rx_transaction_context rx) (rx_transaction_context rx')" using assms(2) by (simp add: effect_def)
  from current_context_grows [OF _ _ assms(3) this] show ?thesis
    using assms by (simp add: running_def tc_kept_def effect_def rx_settings_def)
qed

lemma effect_trace:
  assumes "trace_grows (rx_transaction_context rx) (rx_transaction_context rx')"
    and "tc_account_keys (rx_transaction_context rx') = tc_account_keys (rx_transaction_context rx)"
    and "tc_accounts (rx_transaction_context rx') = tc_accounts (rx_transaction_context rx)"
    and "rx_pre_accounts rx' = rx_pre_accounts rx" "rx_rent rx' = rx_rent rx" "rx_feature_set rx' = rx_feature_set rx"
  shows "effect W m A rx rx'"
  using assms by (simp add: effect_def rx_settings_def pre_chain_def)

lemma run_effect:
  assumes "run_program p (native_invoke env process) rx = Ok rx'" "running W m ixc rx"
    and "\<And>data ias program_indices r r' units. process data ias program_indices r = Ok (r', units) \<Longrightarrow> running W m ixc r \<Longrightarrow>
      flags_within W m ixc True ias \<Longrightarrow> flags_within W m ixc False ias \<Longrightarrow>
      effect W m (ia_index_in_transaction ` set ias) r r' \<and> tc_kept (rx_transaction_context r) (rx_transaction_context r')"
  shows "effect W m (ia_index_in_transaction ` set (ixc_instruction_accounts ixc)) rx rx' \<and>
    tc_kept (rx_transaction_context rx) (rx_transaction_context rx')"
proof -
  let ?A = "ia_index_in_transaction ` set (ixc_instruction_accounts ixc)" and ?tc = "rx_transaction_context :: runtime_context \<Rightarrow> _"
  let ?I = "\<lambda>r. effect W m ?A rx r \<and> tc_kept (?tc rx) (?tc r)"
  have traces: "tc_instruction_trace (?tc r) \<noteq> []" if "running W m ixc r" for r using that by (simp add: running_def stack_ok_def)
  have step: "?I r'" if "?I r" "effect W m ?A r r'" "tc_kept (?tc r) (?tc r')" for r r'
    using that effect_trans tc_kept_trans by blast
  show ?thesis
  proof (rule run_program_invariant [OF assms(1), where I = ?I])
    show "?I rx" using effect_refl [OF traces [OF assms(2)]] by simp
  next
    fix i a r r' assume I: "?I r" and modify: "modify_account i a r = Ok r'"
    have r: "running W m ixc r" using running_kept assms(2) I by blast
    obtain ia where ia: "ia \<in> set (ixc_instruction_accounts ixc)"
      and r': "r' = r\<lparr>rx_transaction_context := (?tc r)\<lparr>tc_accounts := (tc_accounts (?tc r))[ia_index_in_transaction ia := a]\<rparr>\<rparr>"
      using r by (auto intro: modify_account_Ok [OF modify] simp: running_def)
    have "effect W m ?A r r'"
      using traces [OF r] ia
      by (auto simp: effect_def r' rx_settings_def pre_chain_def trace_grows_def intro!: nth_list_update_neq)
    then show "?I r'" by (rule step [OF I]) (simp add: r' tc_kept_def)
  next
    fix n r r' assume I: "?I r" and "meter_consume n r = Ok r'"
    then obtain u where r': "r' = r\<lparr>rx_compute_meter := u\<rparr>" using meter_consume_Ok by blast
    have "tc_instruction_trace (?tc r) \<noteq> []" using traces running_kept assms(2) I by blast
    then have "effect W m ?A r r'" by (intro effect_trace) (simp_all add: r' trace_grows_def)
    then show "?I r'" by (rule step [OF I]) (simp add: r')
  next
    fix ix s r r' assume I: "?I r" and "native_invoke env process ix s r = Ok r'"
    then obtain ias program_indices units where prepare: "prepare_instruction env ix s r = Ok (ias, program_indices)"
      and process: "process (ix_data ix) ias program_indices r = Ok (r', units)" by (auto elim: native_invoke_Ok)
    have r: "running W m ixc r" using running_kept assms(2) I by blast
    then have "flags_within W m ixc True ias" "flags_within W m ixc False ias" "ia_index_in_transaction ` set ias \<subseteq> ?A"
      using prepare_instruction_flags [OF prepare, of ixc m W] by (auto simp: running_def)
    with assms(3) [OF process r] effect_subset show "?I r'" by (intro step [OF I]) auto
  qed
qed

lemma set_return_data_context:
  "get_current_instruction_context (set_return_data k d tc) = get_current_instruction_context tc"
  "stack_ok (set_return_data k d tc) = stack_ok tc"
  by (simp_all add: set_return_data_def get_current_instruction_context_def get_instruction_context_stack_height_def
      get_instruction_context_at_def stack_ok_def cong: if_cong)

lemma recorded_grows: "tc_instruction_trace tc \<noteq> [] \<Longrightarrow> trace_grows tc (record_instruction ixc tc)"
  by (simp add: trace_grows_def record_instruction_def Let_def)

lemma inner_effect:
  "process_instruction n env data ias program_indices rx = Ok (rx', units) \<Longrightarrow> running W m ixc rx \<Longrightarrow>
   flags_within W m ixc True ias \<Longrightarrow> flags_within W m ixc False ias \<Longrightarrow>
   effect W m (ia_index_in_transaction ` set ias) rx rx'"
proof (induction n arbitrary: data ias program_indices rx rx' units ixc)
  case (Suc n)
  let ?tc = "rx_transaction_context :: runtime_context \<Rightarrow> _" and ?A = "ia_index_in_transaction ` set ias"
  let ?b = "is_active (rx_feature_set rx) record_instruction_in_transaction_context_push"
  define callee where "callee = \<lparr>ixc_nesting_level = length (tc_instruction_stack (?tc rx)), ixc_program_accounts = program_indices,
    ixc_instruction_accounts = ias, ixc_instruction_data = data\<rparr>"
  have stack: "tc_instruction_stack (?tc rx) \<noteq> []" using Suc.prems(2) by (simp add: running_def)
  obtain rx1 rx2 rx3 rx4 p k where steps: "enter_instruction data ias program_indices rx rx1"
    "ic_push ias program_indices data rx1 = Ok rx2"
    "run_program p (native_invoke env (process_instruction n env)) (rx2\<lparr>rx_transaction_context := set_return_data k [] (?tc rx2)\<rparr>) = Ok rx3"
    "verify_and_update ias False rx3 = Ok rx4" "rx' = ic_pop rx4"
    using Suc.prems(1) stack by (auto elim: process_instruction_with_Ok)
  obtain rx0 where rx0: "verify_and_update ias True rx = Ok rx0"
    and rx1: "rx1 = (if ?b then rx0 else rx0\<lparr>rx_transaction_context := record_instruction callee (?tc rx0)\<rparr>)"
    using steps(1) stack by (auto simp: enter_instruction_def callee_def)
  have e0: "effect W m ?A rx rx0" using Suc.prems by (intro verify_and_update_effect [OF rx0]) (auto simp: running_def)
  have tc0: "?tc rx0 = ?tc rx" "rx_feature_set rx0 = rx_feature_set rx" using verify_and_update_Ok [OF rx0] by auto
  have traces: "tc_instruction_trace (?tc rx0) \<noteq> []" using Suc.prems(2) by (simp add: tc0 running_def stack_ok_def)
  have e1: "effect W m ?A rx0 rx1"
    using recorded_grows [OF traces] effect_refl [OF traces]
    by (auto simp: rx1 record_instruction_def Let_def intro!: effect_trace)
  have ok1: "stack_ok (?tc rx1)" "tc_instruction_stack (?tc rx1) = tc_instruction_stack (?tc rx)" "rx_feature_set rx1 = rx_feature_set rx"
    "\<not> ?b \<Longrightarrow> last (last (tc_instruction_trace (?tc rx1))) = callee"
    using Suc.prems(2) traces by (auto simp: rx1 tc0 running_def stack_ok_def record_instruction_def Let_def less_Suc_eq)
  note push = ic_push_Ok [OF steps(2)]
  have current: "stack_ok (?tc rx2)" "get_current_instruction_context (?tc rx2) = Ok callee" "trace_grows (?tc rx1) (?tc rx2)"
    using tc_push_current [OF push(1) ok1(1)] ok1 stack by (auto simp: callee_def)
  define rx2' where "rx2' = rx2\<lparr>rx_transaction_context := set_return_data k [] (?tc rx2)\<rparr>"
  obtain i where pushed: "tc_instruction_stack (?tc rx2) = tc_instruction_stack (?tc rx1) @ [i]"
    "tc_account_keys (?tc rx2) = tc_account_keys (?tc rx1)" "tc_accounts (?tc rx2) = tc_accounts (?tc rx1)"
    by (rule tc_push_Ok [OF push(1)])
  have e2: "effect W m ?A rx1 rx2'"
    using current(3) pushed push(3-5) ok1(2) stack
    by (intro effect_trace) (simp_all add: rx2'_def set_return_data_def trace_grows_def)
  have "effect W m ?A rx rx2'" using effect_trans [OF effect_trans [OF e0 e1] e2] .
  moreover have tc2: "stack_ok (?tc rx2')" "get_current_instruction_context (?tc rx2') = Ok callee"
    "tc_instruction_stack (?tc rx2') \<noteq> []"
    using current(1,2) pushed(1) by (simp_all add: rx2'_def set_return_data_context) (simp add: set_return_data_def)
  ultimately have run2: "running W m callee rx2'"
    using Suc.prems(2,4) by (auto simp: running_def effect_def rx_settings_def flags_within_def callee_def)
  have "effect W m (ia_index_in_transaction ` set (ixc_instruction_accounts callee)) rx2' rx3 \<and> tc_kept (?tc rx2') (?tc rx3)"
    using Suc.IH process_instruction_kept by (intro run_effect [OF steps(3) [folded rx2'_def] run2]) blast
  then have e3: "effect W m ?A rx2' rx3" and kept: "tc_kept (?tc rx2') (?tc rx3)" by (simp_all add: callee_def)
  note run3 = running_kept [OF run2 e3 kept]
  have e4: "effect W m ?A rx3 rx4"
    using run3 Suc.prems(4) by (intro verify_and_update_effect [OF steps(4)]) (auto simp: running_def flags_within_def)
  have tc4: "?tc rx4 = ?tc rx3" using verify_and_update_Ok [OF steps(4)] by auto
  then have "tc_instruction_stack (?tc rx4) \<noteq> []" "tc_instruction_trace (?tc rx4) \<noteq> []"
    using run3 by (auto simp: running_def stack_ok_def)
  then have e5: "effect W m ?A rx4 rx'"
    by (intro effect_trace) (simp_all add: steps(5) ic_pop_simps trace_grows_def)
  show ?case using effect_trans [OF \<open>effect W m ?A rx rx2'\<close> effect_trans [OF e3 effect_trans [OF e4 e5]]] .
qed simp

section \<open>Top-level instructions\<close>

lemma collect_pre_accounts:
  assumes "foldE (collect_pre_account tc) us pre = Ok pre'"
  shows "pre' = pre @ map (\<lambda>ia. pre_account_new (tc_account_keys tc ! ia_index_in_transaction ia) (tc_accounts tc ! ia_index_in_transaction ia)) us \<and>
    (\<forall>ia \<in> set us. ia_index_in_transaction ia < length (tc_account_keys tc) \<and> ia_index_in_transaction ia < length (tc_accounts tc))"
  using assms
proof (induction us arbitrary: pre)
  case (Cons ia us)
  let ?new = "\<lambda>ia. pre_account_new (tc_account_keys tc ! ia_index_in_transaction ia) (tc_accounts tc ! ia_index_in_transaction ia)"
  obtain pre1 where first: "collect_pre_account tc ia pre = Ok pre1" and rest: "foldE (collect_pre_account tc) us pre1 = Ok pre'"
    using Cons.prems by (auto simp: result_simps)
  have "pre1 = pre @ [?new ia]" "ia_index_in_transaction ia < length (tc_account_keys tc)" "ia_index_in_transaction ia < length (tc_accounts tc)"
    using first
    by (auto simp: collect_pre_account_def get_key_of_account_at_index_def get_account_at_index_def result_simps slice_get_Some
        split: if_splits)
  with Cons.IH [OF rest] show ?case by simp
qed simp

lemma verify_step_Ok:
  assumes "verify_step rx P ia (a, b, meter, j) = Ok (a', b', meter', j')"
  shows "ia_index_in_transaction ia < length (tc_accounts (rx_transaction_context rx))" "j < length (rx_pre_accounts rx)"
    "allowed rx P (ia_is_writable ia) (pa_account (rx_pre_accounts rx ! j)) (tc_accounts (rx_transaction_context rx) ! ia_index_in_transaction ia)"
    "a' = a + acc_lamports (pa_account (rx_pre_accounts rx ! j))"
    "b' = b + acc_lamports (tc_accounts (rx_transaction_context rx) ! ia_index_in_transaction ia)" "j' = Suc j"
  using assms
  by (auto simp: verify_step_def get_account_at_index_def allowed_def checked_sum_def int_ops result_simps slice_get_Some split: if_splits)

lemma verify_fold:
  fixes rx
  defines "pre \<equiv> rx_pre_accounts rx" and "accounts \<equiv> tc_accounts (rx_transaction_context rx)"
  assumes "foldE (verify_step rx P) us (a, b, meter, j) = Ok (a', b', meter', j')" "j + length us = length pre"
  shows "a' = a + pre_lamports (drop j pre) \<and>
    b' = b + sum_list (map (\<lambda>ia. acc_lamports (accounts ! ia_index_in_transaction ia)) us) \<and>
    (\<forall>k < length us. allowed rx P (ia_is_writable (us ! k)) (pa_account (pre ! (j + k))) (accounts ! ia_index_in_transaction (us ! k)))"
  using assms(3,4)
proof (induction us arbitrary: a b meter j)
  case Nil
  then show ?case by (simp add: pre_lamports_def)
next
  case (Cons ia us)
  obtain a1 b1 meter1 j1 where step: "verify_step rx P ia (a, b, meter, j) = Ok (a1, b1, meter1, j1)"
    and rest: "foldE (verify_step rx P) us (a1, b1, meter1, j1) = Ok (a', b', meter', j')"
    using Cons.prems(1) by (auto simp: result_simps)
  note s = verify_step_Ok [OF step, folded pre_def accounts_def]
  have IH: "a' = a1 + pre_lamports (drop (Suc j) pre)"
    "b' = b1 + sum_list (map (\<lambda>ia. acc_lamports (accounts ! ia_index_in_transaction ia)) us)"
    "\<And>k. k < length us \<Longrightarrow> allowed rx P (ia_is_writable (us ! k)) (pa_account (pre ! (Suc j + k))) (accounts ! ia_index_in_transaction (us ! k))"
    using Cons.IH [OF rest] Cons.prems(2) s(6) by auto
  have "drop j pre = pre ! j # drop (Suc j) pre" using s(2) by (simp add: Cons_nth_drop_Suc)
  then have "pre_lamports (drop j pre) = acc_lamports (pa_account (pre ! j)) + pre_lamports (drop (Suc j) pre)"
    by (simp add: pre_lamports_def)
  moreover have "allowed rx P (ia_is_writable ((ia # us) ! k)) (pa_account (pre ! (j + k))) (accounts ! ia_index_in_transaction ((ia # us) ! k))"
    if "k < length (ia # us)" for k
    using that s(3) IH(3) [of "k - 1"] by (cases k) auto
  ultimately show ?case using IH(1,2) s(4,5) by simp
qed

text \<open>Accounts that differ only at some indices differ in their total by what they differ there.\<close>

lemma total_lamports_indices:
  assumes "length s' = length s" "distinct is'" "\<forall>i \<in> set is'. i < length s" "\<And>i. i \<notin> set is' \<Longrightarrow> s' ! i = s ! i"
  shows "total_lamports s' + sum_list (map (\<lambda>i. acc_lamports (s ! i)) is') =
    total_lamports s + sum_list (map (\<lambda>i. acc_lamports (s' ! i)) is')"
proof -
  have total: "total_lamports t = (\<Sum>i \<in> {..<length s} - set is'. acc_lamports (t ! i)) + (\<Sum>i \<in> set is'. acc_lamports (t ! i))"
    if "length t = length s" for t
  proof -
    have "total_lamports t = (\<Sum>i < length s. acc_lamports (t ! i))"
      using that by (simp add: total_lamports_def sum_list_sum_nth atLeast0LessThan)
    also have "\<dots> = (\<Sum>i \<in> {..<length s} - set is'. acc_lamports (t ! i)) + (\<Sum>i \<in> set is'. acc_lamports (t ! i))"
      using assms(3) by (intro sum.subset_diff) auto
    finally show ?thesis .
  qed
  have "(\<Sum>i \<in> {..<length s} - set is'. acc_lamports (s' ! i)) = (\<Sum>i \<in> {..<length s} - set is'. acc_lamports (s ! i))"
    using assms(4) by (intro sum.cong) auto
  then show ?thesis
    using total [of s] total [OF assms(1)] by (simp add: sum_list_distinct_conv_sum_set [OF assms(2)])
qed

end
