(* ===== verification/Runtime_Isolation.thy ===== *)
theory Runtime_Isolation
  imports Runtime_Properties
begin

text \<open>
  What a top-level instruction can do to the accounts of a transaction, whatever its programs are.
\<close>

section \<open>A top-level instruction from push to pop\<close>

text \<open>The accounts of the instruction, each once.\<close>

abbreviation unique_accounts_of :: "instruction_account list \<Rightarrow> instruction_account list" where
  "unique_accounts_of ias \<equiv> unique_accounts_from [] ias"

lemma unique_accounts_of:
  "ia_index_in_transaction ` set (unique_accounts_of ias) = ia_index_in_transaction ` set ias"
  "distinct (map ia_index_in_transaction (unique_accounts_of ias))" "set (unique_accounts_of ias) \<subseteq> set ias"
  using unique_accounts [of ias] by auto

lemma top_level_steps:
  assumes "process_instruction n env data ias program_indices rx = Ok (rx', units)"
    and "tc_instruction_stack (rx_transaction_context rx) = []"
  obtains rx2 rx3 rx4 p k where "ic_push ias program_indices data rx = Ok rx2"
    "run_program p (native_invoke env (process_instruction (n - 1) env))
       (rx2\<lparr>rx_transaction_context := set_return_data k [] (rx_transaction_context rx2)\<rparr>) = Ok rx3"
    "ic_verify ias program_indices rx3 = Ok rx4" "rx' = ic_pop rx4"
proof -
  obtain l where "n = Suc l" using assms(1) by (cases n) auto
  then have "process_instruction_with env (process_instruction (n - 1) env) data ias program_indices rx = Ok (rx', units)"
    using assms(1) by simp
  then obtain rx1 rx2 rx3 rx4 p k where steps: "enter_instruction data ias program_indices rx rx1"
    "ic_push ias program_indices data rx1 = Ok rx2"
    "run_program p (native_invoke env (process_instruction (n - 1) env))
       (rx2\<lparr>rx_transaction_context := set_return_data k [] (rx_transaction_context rx2)\<rparr>) = Ok rx3"
    "(if tc_instruction_stack (rx_transaction_context rx) = [] then ic_verify ias program_indices rx3
      else verify_and_update ias False rx3) = Ok rx4"
    "rx' = ic_pop rx4"
    by (rule process_instruction_with_Ok)
  have "rx1 = rx" using steps(1) assms(2) by (simp add: enter_instruction_def)
  with that [of rx2 p k rx3 rx4] steps assms(2) show ?thesis by simp
qed

text \<open>After \<^verbatim>\<open>push\<close> the program runs with the accounts as they were, which are the pre-accounts.\<close>

lemma top_level_start:
  fixes rx ias
  defines "tc \<equiv> rx_transaction_context rx" and "us \<equiv> unique_accounts_of ias"
  assumes "ic_push ias program_indices data rx = Ok rx2" "tc_instruction_stack tc = []" "distinct (take m (tc_account_keys tc))"
    and "\<forall>ia \<in> set ias. ia_index_in_transaction ia < m \<and> (ia_is_writable ia \<longrightarrow> W (ia_index_in_transaction ia))"
    and rx2'_def: "rx2' = rx2\<lparr>rx_transaction_context := set_return_data k [] (rx_transaction_context rx2)\<rparr>"
  shows "running W m \<lparr>ixc_nesting_level = 0, ixc_program_accounts = program_indices, ixc_instruction_accounts = ias,
      ixc_instruction_data = data\<rparr> rx2'"
    "rx_pre_accounts rx2' = map (\<lambda>ia. pre_account_new (tc_account_keys tc ! ia_index_in_transaction ia)
       (tc_accounts tc ! ia_index_in_transaction ia)) us"
    "\<forall>ia \<in> set us. ia_index_in_transaction ia < length (tc_account_keys tc) \<and> ia_index_in_transaction ia < length (tc_accounts tc)"
    "tc_account_keys (rx_transaction_context rx2') = tc_account_keys tc" "tc_accounts (rx_transaction_context rx2') = tc_accounts tc"
    "rx_rent rx2' = rx_rent rx" "rx_feature_set rx2' = rx_feature_set rx"
    "butlast (tc_instruction_trace (rx_transaction_context rx2')) = tc_instruction_trace tc"
proof -
  let ?idx = ia_index_in_transaction
  define callee where "callee = \<lparr>ixc_nesting_level = 0, ixc_program_accounts = program_indices,
    ixc_instruction_accounts = ias, ixc_instruction_data = data\<rparr>"
  note pushed = ic_push_Ok [OF assms(3), folded tc_def]
  have "foldE (collect_pre_account tc) us [] = Ok (rx_pre_accounts rx2)"
    using pushed(6) assms(4) by (simp add: visit_each_account_once_def us_def)
  from collect_pre_accounts [OF this]
  have pre2: "rx_pre_accounts rx2 = map (\<lambda>ia. pre_account_new (tc_account_keys tc ! ?idx ia) (tc_accounts tc ! ?idx ia)) us"
    and len: "\<And>ia. ia \<in> set us \<Longrightarrow> ?idx ia < length (tc_account_keys tc) \<and> ?idx ia < length (tc_accounts tc)" by auto
  have flags: "flags_within W m callee False ias" using assms(6) by (simp add: flags_within_def)
  obtain j where stack2: "tc_instruction_stack (rx_transaction_context rx2) = tc_instruction_stack tc @ [j]"
    and keys2: "tc_account_keys (rx_transaction_context rx2) = tc_account_keys tc" "tc_accounts (rx_transaction_context rx2) = tc_accounts tc"
    by (rule tc_push_Ok [OF pushed(1)])
  have current: "stack_ok (rx_transaction_context rx2)" "get_current_instruction_context (rx_transaction_context rx2) = Ok callee"
    using tc_push_current [OF pushed(1)] assms(4) by (simp_all add: callee_def stack_ok_def)
  have "inj_on (\<lambda>i. tc_account_keys tc ! i) (?idx ` set us)"
  proof (rule inj_onI)
    fix i j assume "i \<in> ?idx ` set us" "j \<in> ?idx ` set us" "tc_account_keys tc ! i = tc_account_keys tc ! j"
    moreover have "i < m \<and> i < length (tc_account_keys tc)" if "i \<in> ?idx ` set us" for i
      using that assms(6) unique_accounts_of(3) [of ias] len by (auto simp: us_def)
    ultimately show "i = j" using distinct_keys [OF assms(5)] by blast
  qed
  then have "distinct (map (\<lambda>i. tc_account_keys tc ! i) (map ?idx us))"
    using unique_accounts_of(2) [of ias] by (simp only: distinct_map set_map simp_thms us_def)
  then have keys_distinct: "distinct (map pa_key (rx_pre_accounts rx2))" by (simp add: pre2 comp_def pre_account_new_def)
  show "rx_pre_accounts rx2' = map (\<lambda>ia. pre_account_new (tc_account_keys tc ! ?idx ia) (tc_accounts tc ! ?idx ia)) us"
    by (simp add: rx2'_def pre2)
  show "\<forall>ia \<in> set us. ?idx ia < length (tc_account_keys tc) \<and> ?idx ia < length (tc_accounts tc)" using len by blast
  show "tc_account_keys (rx_transaction_context rx2') = tc_account_keys tc" "tc_accounts (rx_transaction_context rx2') = tc_accounts tc"
    "rx_rent rx2' = rx_rent rx" "rx_feature_set rx2' = rx_feature_set rx"
    using keys2 pushed(3,4) by (simp_all add: rx2'_def set_return_data_def)
  show "butlast (tc_instruction_trace (rx_transaction_context rx2')) = tc_instruction_trace tc"
    using pushed(1) assms(4)
    by (auto simp: rx2'_def set_return_data_def tc_push_def Let_def result_simps split: if_splits dest!: sym [of _ "rx_transaction_context rx2"])
  have "tc_instruction_stack (rx_transaction_context rx2') = tc_instruction_stack (rx_transaction_context rx2)"
    "tc_account_keys (rx_transaction_context rx2') = tc_account_keys tc" "rx_pre_accounts rx2' = rx_pre_accounts rx2"
    using keys2 by (simp_all add: rx2'_def set_return_data_def)
  then show "running W m \<lparr>ixc_nesting_level = 0, ixc_program_accounts = program_indices, ixc_instruction_accounts = ias,
      ixc_instruction_data = data\<rparr> rx2'"
    using current stack2 assms(5) flags keys_distinct
    by (simp add: running_def rx2'_def set_return_data_context) (simp add: callee_def)
qed

text \<open>
  \<^verbatim>\<open>verify\<close> compares each account with its pre-account for the program of the instruction, and the sums of their lamports.
\<close>

lemma ic_verify_sound:
  fixes rx ias
  defines "tc \<equiv> rx_transaction_context rx" and "us \<equiv> unique_accounts_of ias"
  assumes "ic_verify ias program_indices rx = Ok rx'" "running W m callee rx" "length (rx_pre_accounts rx) = length us"
  obtains P meter where "rx' = rx\<lparr>rx_accounts_data_meter := meter\<rparr>" "P \<in> invoked_programs tc"
    "sum_list (map (\<lambda>ia. acc_lamports (tc_accounts tc ! ia_index_in_transaction ia)) us) = pre_lamports (rx_pre_accounts rx)"
    "\<forall>k < length us. allowed rx P (ia_is_writable (us ! k)) (pa_account (rx_pre_accounts rx ! k))
       (tc_accounts tc ! ia_index_in_transaction (us ! k))"
proof -
  obtain P a meter j' where P: "get_program_key callee tc = Ok P"
    and fold: "foldE (verify_step rx P) us (0, 0, rx_accounts_data_meter rx, 0) = Ok (a, a, meter, j')"
    and rx': "rx' = rx\<lparr>rx_accounts_data_meter := meter\<rparr>"
    using assms(3,4)
    by (auto simp: ic_verify_def current_program_key_def running_def visit_each_account_once_def us_def tc_def Let_def result_simps)
  note vf = verify_fold [OF fold, unfolded drop_0 add_0, OF assms(5) [symmetric]]
  have "P \<in> invoked_programs tc"
    using assms(4) P by (intro current_program_invoked) (auto simp: running_def tc_def)
  with that [OF rx', of P] vf show ?thesis by (simp add: tc_def)
qed

section \<open>Its effect\<close>

text \<open>
  A top-level instruction conserves lamports, leaves the accounts that are not its own as they are, and takes every
  account through changes that are allowed to the programs it invoked.
\<close>

lemma top_level_effect:
  fixes rx rx'
  defines "tc \<equiv> rx_transaction_context rx" and "tc' \<equiv> rx_transaction_context rx'"
  assumes "process_instruction n env data ias program_indices rx = Ok (rx', units)" "tc_instruction_stack tc = []"
    and "distinct (take m (tc_account_keys tc))" "\<forall>ia \<in> set ias. ia_index_in_transaction ia < m \<and> (ia_is_writable ia \<longrightarrow> W (ia_index_in_transaction ia))"
  shows "total_lamports (tc_accounts tc') = total_lamports (tc_accounts tc)"
    "i \<notin> ia_index_in_transaction ` set ias \<Longrightarrow> tc_accounts tc' ! i = tc_accounts tc ! i"
    "(tc_accounts tc ! i, tc_accounts tc' ! i) \<in> (change rx (invoked_programs tc') (W i))\<^sup>*"
    "rx_rent rx' = rx_rent rx" "rx_feature_set rx' = rx_feature_set rx"
    "tc_instruction_trace tc' \<noteq> []" "butlast (tc_instruction_trace tc') = tc_instruction_trace tc"
proof -
  let ?tc = "rx_transaction_context :: runtime_context \<Rightarrow> _" and ?idx = ia_index_in_transaction and ?us = "unique_accounts_of ias"
  obtain rx2 rx3 rx4 p k where push: "ic_push ias program_indices data rx = Ok rx2"
    and run: "run_program p (native_invoke env (process_instruction (n - 1) env)) (rx2\<lparr>rx_transaction_context := set_return_data k [] (?tc rx2)\<rparr>) = Ok rx3"
    and verify: "ic_verify ias program_indices rx3 = Ok rx4" and rx': "rx' = ic_pop rx4"
    using assms(3,4) unfolding tc_def by (rule top_level_steps)
  define rx2' where "rx2' = rx2\<lparr>rx_transaction_context := set_return_data k [] (?tc rx2)\<rparr>"
  note start = top_level_start [OF push assms(4-6) [unfolded tc_def] rx2'_def, folded tc_def]
  let ?callee = "\<lparr>ixc_nesting_level = 0, ixc_program_accounts = program_indices, ixc_instruction_accounts = ias, ixc_instruction_data = data\<rparr>"
  have "effect W m (?idx ` set (ixc_instruction_accounts ?callee)) rx2' rx3 \<and> tc_kept (?tc rx2') (?tc rx3)"
    using inner_effect process_instruction_kept by (intro run_effect [OF run [folded rx2'_def] start(1)]) blast
  then have e3: "effect W m (?idx ` set ias) rx2' rx3" and kept: "tc_kept (?tc rx2') (?tc rx3)" by simp_all
  note run3 = running_kept [OF start(1) e3 kept]
  let ?accounts = "tc_accounts (?tc rx3)" and ?pre = "rx_pre_accounts rx3"
  have keys3: "map pa_key ?pre = map (\<lambda>ia. tc_account_keys tc ! ?idx ia) ?us"
    using e3 by (simp add: effect_def rx_settings_def start(2) comp_def pre_account_new_def)
  then have length3: "length ?pre = length ?us" by (metis length_map)
  obtain P meter where rx4: "rx4 = rx3\<lparr>rx_accounts_data_meter := meter\<rparr>" and P: "P \<in> invoked_programs (?tc rx3)"
    and sums: "sum_list (map (\<lambda>ia. acc_lamports (?accounts ! ?idx ia)) ?us) = pre_lamports ?pre"
    and each: "\<forall>k < length ?us. allowed rx3 P (ia_is_writable (?us ! k)) (pa_account (?pre ! k)) (?accounts ! ?idx (?us ! k))"
    using ic_verify_sound [OF verify run3 length3] by blast
  have tc': "tc_accounts tc' = ?accounts" "invoked_programs tc' = invoked_programs (?tc rx3)"
    "tc_instruction_trace tc' = tc_instruction_trace (?tc rx3)" "rx_rent rx' = rx_rent rx3" "rx_feature_set rx' = rx_feature_set rx3"
    using run3 by (simp_all add: tc'_def rx' rx4 ic_pop_simps running_def invoked_programs_def
        get_program_key_keys [of "(?tc rx3)\<lparr>tc_instruction_stack := _\<rparr>" "?tc rx3"])
  show "tc_instruction_trace tc' \<noteq> []" "butlast (tc_instruction_trace tc') = tc_instruction_trace tc"
    using e3 start(8) by (simp_all add: tc' effect_def trace_grows_def)
  show outside: "tc_accounts tc' ! i = tc_accounts tc ! i" if "i \<notin> ?idx ` set ias" for i
    using e3 that start(5) by (simp add: tc' effect_def)
  have settings: "rx_settings rx3 = rx_settings rx2'" using e3 by (simp add: effect_def)
  then show "rx_rent rx' = rx_rent rx" "rx_feature_set rx' = rx_feature_set rx" using start by (simp_all add: tc' rx_settings_def)
  have change: "change rx3 = change rx" "change rx2' = change rx"
    using settings start(6,7) by (simp_all add: change_def allowed_def rx_settings_def fun_eq_iff)
  have "pre_lamports ?pre = sum_list (map (\<lambda>ia. acc_lamports (tc_accounts tc ! ?idx ia)) ?us)"
    using e3 by (simp add: effect_def start(2) pre_lamports_def comp_def pre_account_new_def)
  moreover have "\<forall>i \<in> ?idx ` set ias. i < length (tc_accounts tc)"
    using start(3) unfolding unique_accounts_of(1) [of ias, symmetric] by simp
  ultimately show "total_lamports (tc_accounts tc') = total_lamports (tc_accounts tc)"
    using total_lamports_indices [of ?accounts "tc_accounts tc" "map ?idx ?us"] sums unique_accounts_of [of ias] outside kept start(5)
    by (auto simp: tc' tc_kept_def comp_def)
  show "(tc_accounts tc ! i, tc_accounts tc' ! i) \<in> (change rx (invoked_programs tc') (W i))\<^sup>*"
  proof (cases "i \<in> ?idx ` set ?us")
    case True
    then obtain k where k: "k < length ?us" "i = ?idx (?us ! k)" by (auto simp: in_set_conv_nth)
    have i: "i < m" "i < length (tc_account_keys tc)" "ia_is_writable (?us ! k) \<longrightarrow> W i"
      using k assms(6) unique_accounts_of(3) [of ias] start(3) by (auto simp: subset_iff)
    have "pre_of (rx_pre_accounts rx2') (tc_account_keys tc ! i) = Some (tc_accounts tc ! i)"
      using pre_of_nth [of "rx_pre_accounts rx2'" k] start(1) k by (simp add: start(2) running_def pre_account_new_def)
    then obtain b where b: "pre_of ?pre (tc_account_keys tc ! i) = Some b"
      "(tc_accounts tc ! i, b) \<in> (change rx (invoked_programs (?tc rx3)) (W i))\<^sup>*"
      using e3 i(1,2) unfolding effect_def pre_chain_def change start(4) by blast
    have "pa_key (?pre ! k) = tc_account_keys tc ! i" using keys3 k length3 by (metis nth_map)
    then have "pa_account (?pre ! k) = b"
      using pre_of_nth [of ?pre k] run3 k length3 b(1) by (simp add: running_def)
    then have "allowed rx3 P (W i) b (?accounts ! i)" using each k i(3) allowed_mono by blast
    with P have "(b, ?accounts ! i) \<in> change rx (invoked_programs (?tc rx3)) (W i)"
      unfolding change(1) [symmetric] by (auto simp: change_def)
    with b(2) show ?thesis by (simp add: tc')
  qed (use outside unique_accounts_of(1) in simp)
qed

text \<open>
  What a chain of allowed changes keeps: the rent epoch, an account that is not writable or is executable, and what an
  account holds when its owner is none of the programs.
\<close>

lemma change_chain:
  assumes "(a, b) \<in> (change rx programs w)\<^sup>*"
  shows "acc_rent_epoch b = acc_rent_epoch a" "\<not> w \<or> acc_executable a \<Longrightarrow> b = a"
    "acc_owner a \<notin> programs \<Longrightarrow> acc_lamports a \<le> acc_lamports b \<and> acc_data b = acc_data a \<and> acc_owner b = acc_owner a"
proof -
  have "acc_rent_epoch b = acc_rent_epoch a \<and> (\<not> w \<or> acc_executable a \<longrightarrow> b = a) \<and>
    (acc_owner a \<notin> programs \<longrightarrow> acc_lamports a \<le> acc_lamports b \<and> acc_data b = acc_data a \<and> acc_owner b = acc_owner a)"
    using assms
  proof induction
    case (step b c)
    then obtain P where P: "P \<in> programs" "allowed rx P w b c" by (auto simp: change_def)
    note v = pre_account_verify_Ok [OF P(2) [unfolded allowed_def]]
    have "\<not> w \<or> acc_executable a \<longrightarrow> c = a" using step.IH v(3) by blast
    moreover have "acc_lamports a \<le> acc_lamports c \<and> acc_data c = acc_data a \<and> acc_owner c = acc_owner a" if "acc_owner a \<notin> programs"
      using step.IH v(2) P(1) that by (metis le_trans)
    ultimately show ?case using step.IH v(1) by simp
  qed simp
  then show "acc_rent_epoch b = acc_rent_epoch a" "\<not> w \<or> acc_executable a \<Longrightarrow> b = a"
    "acc_owner a \<notin> programs \<Longrightarrow> acc_lamports a \<le> acc_lamports b \<and> acc_data b = acc_data a \<and> acc_owner b = acc_owner a"
    by blast+
qed

section \<open>The meter of accounts data\<close>

text \<open>
  A pass of a nested instruction updates a writable pre-account before it compares the lengths of the data, so
  that it meters no growth of such an account, whatever its length was before.
\<close>

lemma cpi_growth_unmetered:
  assumes "verify_pre_account rx program_id True account pre (pre_sum, post_sum, meter) = Ok (pre', pre_sum', post_sum', meter')"
    and "\<not> acc_executable (pa_account pre)" "- (2 ^ 63) \<le> adm_delta meter" "adm_delta meter < 2 ^ 63"
  shows "meter' = meter"
proof -
  have "adjust_accounts_data (rx_feature_set rx) (acc_data account) (acc_data account) meter = Ok meter'"
    using assms(1,2) by (auto simp: verify_pre_account_def Let_def pre_account_update_def result_simps)
  then have "meter' = meter\<lparr>adm_delta := saturate_i64 (adm_delta meter)\<rparr>"
    by (auto simp: adjust_accounts_data_def adjust_delta_def adjust_delta_unchecked_def saturate_i64_def Let_def split: if_splits)
  moreover have "saturate_i64 (adm_delta meter) = adm_delta meter" using assms(3,4) by (simp add: saturate_i64_def)
  ultimately show ?thesis by simp
qed

end
