(* ===== verification/Message_Processor.thy ===== *)
theory Message_Processor
  imports Runtime_Isolation Loading_Properties
begin

text \<open>
  The execution of a loaded transaction: its message instruction by instruction
  (\<^verbatim>\<open>runtime/src/message_processor.rs\<close>), and around it the check of the rent states of its writable accounts
  (\<^verbatim>\<open>runtime/src/bank/transaction_account_state_info.rs\<close>, \<^verbatim>\<open>execute_loaded_transaction\<close> in \<^verbatim>\<open>runtime/src/bank.rs\<close>).
  The accounts of a transaction that fails are not stored, so that only its error is returned. Logs, timings,
  counters and the cache of executors are left out.
\<close>

section \<open>Messages\<close>

definition message_instruction_accounts ::
  "sanitized_message \<Rightarrow> usize list \<Rightarrow> compiled_instruction \<Rightarrow> instruction_account list" where
  "message_instruction_accounts message program_indices ix =
     map (\<lambda>i. \<lparr>ia_index_in_transaction = i, ia_index_in_caller = saturating_add64 (length program_indices) i,
       ia_is_signer = sm_is_signer message i, ia_is_writable = sm_is_writable message i\<rparr>) (ci_accounts ix)"

text \<open>The index of the instruction goes to the instructions sysvar, when the transaction has it.\<close>

definition fixup_instructions_sysvar :: "nat \<Rightarrow> transaction_context \<Rightarrow> (transaction_context, transaction_error) result" where
  "fixup_instructions_sysvar instruction_index tc =
     (case tc_find_index_of_account tc instructions_id of
        None \<Rightarrow> Ok tc
      | Some account_index \<Rightarrow>
          bindE (map_err (\<lambda>_. InvalidAccountIndex) (get_account_at_index tc account_index)) (\<lambda>account.
          bindE (store_current_index (instruction_index mod 2 ^ 16) (acc_data account)) (\<lambda>data.
          Ok (tc\<lparr>tc_accounts := (tc_accounts tc)[account_index := account\<lparr>acc_data := data\<rparr>]\<rparr>))))"

text \<open>
  One turn of the loop, on the runtime context and the units consumed. The fuel for nested invocations is one more than
  the capacity of the stack; a larger one makes no difference.
\<close>

definition process_message_step ::
  "runtime_env \<Rightarrow> sanitized_message \<Rightarrow> nat \<times> compiled_instruction \<times> usize list \<Rightarrow> runtime_context \<times> u64 \<Rightarrow>
     (runtime_context \<times> u64, transaction_error) result" where
  "process_message_step env message = (\<lambda>(instruction_index, ix, program_indices) (rx, units).
     bindE (unwrap (ak_get (sm_account_keys message) (ci_program_id_index ix))) (\<lambda>program_id.
     let fs = rx_feature_set rx;
         precompile = (is_active fs prevent_calling_precompiles_as_programs \<and> re_is_precompile env program_id fs);
         record_on_push = is_active fs record_instruction_in_transaction_context_push in
     if precompile \<and> \<not> record_on_push then Ok (rx, units)
     else
       bindE (fixup_instructions_sysvar instruction_index (rx_transaction_context rx)) (\<lambda>tc.
       let ias = message_instruction_accounts message program_indices ix;
           rx = rx\<lparr>rx_transaction_context := tc\<rparr> in
       map_err (TE_InstructionError (instruction_index mod 256))
         (if precompile then
            bindE (tc_push program_indices ias (ci_data ix) True tc) (\<lambda>tc.
            bindE (tc_pop tc) (\<lambda>tc.
            Ok (rx\<lparr>rx_transaction_context := tc\<rparr>, units)))
          else
            bindE (process_instruction (tc_instruction_context_capacity tc + 1) env (ci_data ix) ias program_indices rx)
              (\<lambda>(rx, compute_units_consumed). Ok (rx, saturating_add64 units compute_units_consumed))))))"

text \<open>The context after the last instruction; the meter of accounts data holds \<^verbatim>\<open>accounts_data_len_delta\<close>.\<close>

definition process_message ::
  "runtime_env \<Rightarrow> sanitized_message \<Rightarrow> usize list list \<Rightarrow> transaction_context \<Rightarrow> rent \<Rightarrow> feature_set \<Rightarrow> compute_budget \<Rightarrow>
     sysvar_cache \<Rightarrow> hash \<Rightarrow> u64 \<Rightarrow> u64 \<Rightarrow> u64 \<Rightarrow> (transaction_context \<times> i64 \<times> u64, transaction_error) result" where
  "process_message env message program_indices tc r fs budget sysvars blockhash lamports_per_signature
     current_accounts_data_len units =
     bindE (foldE (process_message_step env message) (List.enumerate 0 (zip (sm_instructions message) program_indices))
       (runtime_context_new tc r sysvars budget fs blockhash lamports_per_signature current_accounts_data_len, units))
       (\<lambda>(rx, units). Ok (rx_transaction_context rx, adm_delta (rx_accounts_data_meter rx), units))"

section \<open>Transactions\<close>

text \<open>The rent states of the writable accounts; a readonly account has none.\<close>

definition get_transaction_account_state_info ::
  "rent \<Rightarrow> transaction_context \<Rightarrow> sanitized_message \<Rightarrow> rent_state option list" where
  "get_transaction_account_state_info r tc message =
     map (\<lambda>i. if sm_is_writable message i
              then map_option (\<lambda>account. rent_state_from_account account r) (slice_get (tc_accounts tc) i) else None)
       [0..<length (ak_iter (sm_account_keys message))]"

definition check_rent_state ::
  "rent_state option \<Rightarrow> rent_state option \<Rightarrow> transaction_context \<Rightarrow> nat \<Rightarrow> bool \<Rightarrow> bool \<Rightarrow> bool \<Rightarrow> (unit, transaction_error) result" where
  "check_rent_state pre_rent_state post_rent_state tc i support_realloc include_account_index_in_err prevent_crediting =
     (case (pre_rent_state, post_rent_state) of
        (Some pre, Some post) \<Rightarrow>
          bindE (expectE (get_key_of_account_at_index tc i)) (\<lambda>address.
          bindE (expectE (get_account_at_index tc i)) (\<lambda>_.
          check_rent_state_with_account pre post address support_realloc
            (if include_account_index_in_err then Some i else None) prevent_crediting))
      | _ \<Rightarrow> Ok ())"

definition verify_transaction_account_state_changes ::
  "feature_set \<Rightarrow> rent_state option list \<Rightarrow> rent_state option list \<Rightarrow> transaction_context \<Rightarrow> (unit, transaction_error) result" where
  "verify_transaction_account_state_changes fs pre_state_infos post_state_infos tc =
     foldE (\<lambda>(i, pre, post) _.
       case check_rent_state pre post tc i (is_active fs do_support_realloc) (is_active fs include_account_index_in_rent_error)
          (is_active fs prevent_crediting_accounts_that_end_rent_paying) of
         Inl (Raise e) \<Rightarrow> if is_active fs require_rent_exempt_accounts then Err e else Ok ()
       | r \<Rightarrow> r) (List.enumerate 0 (zip pre_state_infos post_state_infos)) ()"

text \<open>The instructions a transaction invoked, per instruction of its message; indices are truncated to a byte.\<close>

definition inner_instruction_of :: "instruction_context \<Rightarrow> compiled_instruction" where
  "inner_instruction_of ixc =
     \<lparr>ci_program_id_index = (if ixc_program_accounts ixc = [] then 0 else last (ixc_program_accounts ixc)) mod 256,
      ci_accounts = map (\<lambda>i. (case get_index_in_transaction ixc i of Ok j \<Rightarrow> j | Inl _ \<Rightarrow> 0) mod 256)
        [length (ixc_program_accounts ixc)..<ixc_get_number_of_accounts ixc],
      ci_data = ixc_instruction_data ixc\<rparr>"

definition inner_instructions_list_from_instruction_trace ::
  "instruction_context list list \<Rightarrow> compiled_instruction list list" where
  "inner_instructions_list_from_instruction_trace = map (\<lambda>trace. map inner_instruction_of (drop 1 trace))"

text \<open>What the bank executes a transaction with.\<close>

record bank_execution =
  bx_env :: runtime_env
  bx_rent_collector :: rent_collector
  bx_feature_set :: feature_set
  bx_sysvar_cache :: sysvar_cache
  bx_last_blockhash :: hash
  bx_lamports_per_signature :: u64
  bx_accounts_data_size :: u64

record execution_details =
  ed_inner_instructions :: "compiled_instruction list list option"
  ed_executed_units :: u64
  ed_accounts_data_len_delta :: i64

definition execute_loaded_transaction ::
  "bank_execution \<Rightarrow> sanitized_transaction \<Rightarrow> loaded_transaction \<Rightarrow> compute_budget \<Rightarrow> bool \<Rightarrow>
     (loaded_transaction \<times> execution_details, transaction_error) result" where
  "execute_loaded_transaction bank tx lt budget enable_cpi_recording =
     (let message = stx_message tx; r = rc_rent (bx_rent_collector bank);
          tc = transaction_context_new (lt_accounts lt) (saturating_add64 (cb_max_invoke_depth budget) 1)
            (length (sm_instructions message));
          pre_account_state_info = get_transaction_account_state_info r tc message in
      bindE (process_message (bx_env bank) message (lt_program_indices lt) tc r (bx_feature_set bank) budget
        (bx_sysvar_cache bank) (bx_last_blockhash bank) (bx_lamports_per_signature bank) (bx_accounts_data_size bank) 0)
        (\<lambda>(tc, accounts_data_len_delta, executed_units).
      bindE (verify_transaction_account_state_changes (bx_feature_set bank) pre_account_state_info
        (get_transaction_account_state_info r tc message) tc) (\<lambda>_.
      let (accounts, instruction_trace) = tc_deconstruct tc in
      Ok (lt\<lparr>lt_accounts := accounts\<rparr>,
          \<lparr>ed_inner_instructions = (if enable_cpi_recording
             then Some (inner_instructions_list_from_instruction_trace instruction_trace) else None),
           ed_executed_units = executed_units, ed_accounts_data_len_delta = accounts_data_len_delta\<rparr>))))"

section \<open>The effect of a message\<close>

text \<open>The programs that ran in any instruction of the message.\<close>

definition programs_run :: "transaction_context \<Rightarrow> pubkey set" where
  "programs_run tc = {k. \<exists>trace \<in> set (tc_instruction_trace tc). \<exists>ixc \<in> set trace. get_program_key ixc tc = Ok k}"

text \<open>
  A message that has been sanitized and whose transaction has its accounts, which are distinct, before those of its programs.
\<close>

definition message_fits :: "sanitized_message \<Rightarrow> transaction_context \<Rightarrow> bool" where
  "message_fits message tc \<longleftrightarrow>
     (let keys = ak_iter (sm_account_keys message) in
      take (length keys) (tc_account_keys tc) = keys \<and> distinct keys \<and>
      (\<forall>ix \<in> set (sm_instructions message). \<forall>i \<in> set (ci_accounts ix). i < length keys) \<and> tc_instruction_stack tc = [])"

text \<open>The accounts a message lets its programs write: those it marks writable and passes to an instruction.\<close>

definition message_writable :: "sanitized_message \<Rightarrow> nat \<Rightarrow> bool" where
  "message_writable message i \<longleftrightarrow>
     i < length (ak_iter (sm_account_keys message)) \<and> sm_is_writable message i \<and>
     (\<exists>ix \<in> set (sm_instructions message). i \<in> set (ci_accounts ix))"

definition message_effect :: "sanitized_message \<Rightarrow> runtime_context \<Rightarrow> runtime_context \<Rightarrow> bool" where
  "message_effect message rx rx' \<longleftrightarrow>
     (let tc = rx_transaction_context rx; tc' = rx_transaction_context rx' in
      tc_kept tc tc' \<and> rx_rent rx' = rx_rent rx \<and> rx_feature_set rx' = rx_feature_set rx \<and>
      set (tc_instruction_trace tc) \<subseteq> set (tc_instruction_trace tc') \<and>
      total_lamports (tc_accounts tc') = total_lamports (tc_accounts tc) \<and>
      (\<forall>i. if tc_account_keys tc ! i = instructions_id then \<exists>data. tc_accounts tc' ! i = (tc_accounts tc ! i)\<lparr>acc_data := data\<rparr>
           else (tc_accounts tc ! i, tc_accounts tc' ! i) \<in> (change rx (programs_run tc') (message_writable message i))\<^sup>*))"

lemma message_effectD:
  assumes "message_effect message rx rx'"
  shows "tc_kept (rx_transaction_context rx) (rx_transaction_context rx')" "rx_rent rx' = rx_rent rx"
    "rx_feature_set rx' = rx_feature_set rx"
    "set (tc_instruction_trace (rx_transaction_context rx)) \<subseteq> set (tc_instruction_trace (rx_transaction_context rx'))"
    "total_lamports (tc_accounts (rx_transaction_context rx')) = total_lamports (tc_accounts (rx_transaction_context rx))"
    "tc_account_keys (rx_transaction_context rx) ! i = instructions_id \<Longrightarrow>
       \<exists>data. tc_accounts (rx_transaction_context rx') ! i = (tc_accounts (rx_transaction_context rx) ! i)\<lparr>acc_data := data\<rparr>"
    "tc_account_keys (rx_transaction_context rx) ! i \<noteq> instructions_id \<Longrightarrow>
       (tc_accounts (rx_transaction_context rx) ! i, tc_accounts (rx_transaction_context rx') ! i) \<in>
         (change rx (programs_run (rx_transaction_context rx')) (message_writable message i))\<^sup>*"
  using assms unfolding message_effect_def Let_def by (auto split: if_split_asm dest: spec [of _ i])

lemma data_update_ex: "\<exists>data. a = a\<lparr>acc_data := data\<rparr>"
  by (rule exI [of _ "acc_data a"]) simp

lemma message_effect_refl: "message_effect message rx rx"
  by (simp add: message_effect_def Let_def tc_kept_def data_update_ex)

lemma programs_run_mono:
  "set (tc_instruction_trace tc) \<subseteq> set (tc_instruction_trace tc') \<Longrightarrow> tc_account_keys tc' = tc_account_keys tc \<Longrightarrow>
   programs_run tc \<subseteq> programs_run tc'"
  by (auto simp: programs_run_def get_program_key_keys [of tc' tc])

lemma message_effect_trans:
  assumes "message_effect message rx rx'" "message_effect message rx' rx''"
  shows "message_effect message rx rx''"
proof -
  let ?tc = rx_transaction_context
  note e = message_effectD [OF assms(1)] and e' = message_effectD [OF assms(2)]
  have keys: "tc_account_keys (?tc rx') = tc_account_keys (?tc rx)" using e(1) by (simp add: tc_kept_def)
  have "programs_run (?tc rx') \<subseteq> programs_run (?tc rx'')" using e'(1,4) by (intro programs_run_mono) (auto simp: tc_kept_def)
  note more = subsetD [OF rtrancl_mono [OF change_mono [OF this]]]
  have "change rx' = change rx" using e(2,3) by (simp add: change_def allowed_def fun_eq_iff)
  then have "(tc_accounts (?tc rx) ! i, tc_accounts (?tc rx'') ! i) \<in> (change rx (programs_run (?tc rx'')) (message_writable message i))\<^sup>*"
    if "tc_account_keys (?tc rx) ! i \<noteq> instructions_id" for i
    using more [OF e(7) [OF that]] e'(7) [of i] that keys by (simp add: rtrancl_trans)
  moreover have "\<exists>data. tc_accounts (?tc rx'') ! i = (tc_accounts (?tc rx) ! i)\<lparr>acc_data := data\<rparr>"
    if "tc_account_keys (?tc rx) ! i = instructions_id" for i
    using e(6) [OF that] e'(6) [of i] that keys by fastforce
  ultimately show ?thesis
    using e(1-5) e'(1-5) by (auto simp: message_effect_def tc_kept_def Let_def)
qed

lemma fixup_effect:
  assumes "fixup_instructions_sysvar n (rx_transaction_context rx) = Ok tc"
  shows "message_effect message rx (rx\<lparr>rx_transaction_context := tc\<rparr>)"
proof (cases "tc_find_index_of_account (rx_transaction_context rx) instructions_id")
  case None
  with assms have tc: "tc = rx_transaction_context rx" by (simp add: fixup_instructions_sysvar_def)
  show ?thesis unfolding tc using message_effect_refl [of message rx] by simp
next
  case (Some j)
  let ?tc = "rx_transaction_context rx"
  obtain data where j: "j < length (tc_accounts ?tc)"
    and tc: "tc = ?tc\<lparr>tc_accounts := (tc_accounts ?tc)[j := (tc_accounts ?tc ! j)\<lparr>acc_data := data\<rparr>]\<rparr>"
    using assms Some
    by (auto simp: fixup_instructions_sysvar_def get_account_at_index_def slice_get_def result_simps split: if_splits)
  have key: "tc_account_keys ?tc ! j = instructions_id"
    using Some position_Some [of "tc_account_keys ?tc"] by (auto simp: tc_find_index_of_account_def)
  have "total_lamports (tc_accounts tc) = total_lamports (tc_accounts ?tc)"
    using total_lamports_indices [of "tc_accounts tc" "tc_accounts ?tc" "[j]"] j by (simp add: tc)
  moreover have "\<exists>data. tc_accounts tc ! i = (tc_accounts ?tc ! i)\<lparr>acc_data := data\<rparr>" for i
    using j data_update_ex by (cases "i = j") (auto simp: tc)
  moreover have "tc_accounts tc ! i = tc_accounts ?tc ! i" if "tc_account_keys ?tc ! i \<noteq> instructions_id" for i
    using that key by (cases "i = j") (auto simp: tc)
  ultimately show ?thesis by (auto simp: message_effect_def Let_def tc_kept_def) (simp_all add: tc)
qed

lemma push_pop_effect:
  assumes "tc_push program_indices ias data True (rx_transaction_context rx) = Ok tc" "tc_pop tc = Ok tc'"
    and "tc_instruction_stack (rx_transaction_context rx) = []"
  shows "message_effect message rx (rx\<lparr>rx_transaction_context := tc'\<rparr>)"
  using assms
  by (auto simp: tc_push_def tc_pop_def result_simps Let_def message_effect_def tc_kept_def data_update_ex split: if_splits)

text \<open>A sysvar is never writable.\<close>

lemma sysvar_not_writable:
  assumes "ak_iter (sm_account_keys message) ! i = instructions_id" "i < length (ak_iter (sm_account_keys message))"
  shows "\<not> sm_is_writable message i"
proof -
  have get: "ak_get (sm_account_keys message) i = Some instructions_id" using assms by (simp add: ak_get_iter slice_get_def)
  moreover have "is_sysvar_id instructions_id" by (simp add: is_sysvar_id_def ALL_IDS_def)
  ultimately show ?thesis
    by (cases message) (auto simp: lm_is_writable_def ldm_is_writable_def Let_def)
qed

lemma instruction_effect:
  assumes "process_instruction n env data (message_instruction_accounts message program_indices ix) program_indices rx = Ok (rx', units)"
    and "message_fits message (rx_transaction_context rx)" "ix \<in> set (sm_instructions message)"
  shows "message_effect message rx rx'"
proof -
  let ?tc = rx_transaction_context and ?keys = "ak_iter (sm_account_keys message)"
    and ?ias = "message_instruction_accounts message program_indices ix"
  have fits: "take (length ?keys) (tc_account_keys (?tc rx)) = ?keys" "distinct ?keys" "\<forall>i \<in> set (ci_accounts ix). i < length ?keys"
    "tc_instruction_stack (?tc rx) = []"
    using assms(2,3) by (auto simp: message_fits_def Let_def)
  have flags: "\<forall>ia \<in> set ?ias. ia_index_in_transaction ia < length ?keys \<and> (ia_is_writable ia \<longrightarrow> message_writable message (ia_index_in_transaction ia))"
    using fits(3) assms(3) by (auto simp: message_instruction_accounts_def message_writable_def)
  have "distinct (take (length ?keys) (tc_account_keys (?tc rx)))" using fits by simp
  note e = top_level_effect [OF assms(1) fits(4) this flags]
  note kept = process_instruction_kept [OF assms(1)]
  have trace: "tc_instruction_trace (?tc rx') = tc_instruction_trace (?tc rx) @ [last (tc_instruction_trace (?tc rx'))]"
    using e(6,7) by (metis append_butlast_last_id)
  have "invoked_programs (?tc rx') \<subseteq> programs_run (?tc rx')"
    using e(6) by (auto simp: invoked_programs_def programs_run_def)
  note chain = subsetD [OF rtrancl_mono [OF change_mono [OF this]] e(3)]
  have "tc_accounts (?tc rx') ! i = tc_accounts (?tc rx) ! i" if "tc_account_keys (?tc rx) ! i = instructions_id" for i
  proof -
    have "\<not> message_writable message i"
      using that fits(1) sysvar_not_writable by (metis message_writable_def nth_take)
    then show ?thesis using change_chain(2) [OF chain] by blast
  qed
  then show ?thesis
    using kept e(1,4,5) trace chain by (auto simp: message_effect_def Let_def data_update_ex) (metis Un_iff set_append)
qed

lemma message_fits_kept: "message_fits message tc \<Longrightarrow> tc_kept tc tc' \<Longrightarrow> message_fits message tc'"
  by (auto simp: message_fits_def tc_kept_def Let_def)

lemma process_message_step_effect:
  assumes "process_message_step env message (n, ix, program_indices) (rx, units) = Ok (rx', units')"
    and "message_fits message (rx_transaction_context rx)" "ix \<in> set (sm_instructions message)"
  shows "message_effect message rx rx'"
proof -
  let ?ias = "message_instruction_accounts message program_indices ix"
  consider (skip) "rx' = rx"
    | (precompile) tc tc1 tc2 where "fixup_instructions_sysvar n (rx_transaction_context rx) = Ok tc"
        "tc_push program_indices ?ias (ci_data ix) True tc = Ok tc1" "tc_pop tc1 = Ok tc2" "rx' = rx\<lparr>rx_transaction_context := tc2\<rparr>"
    | (instruction) tc units1 where "fixup_instructions_sysvar n (rx_transaction_context rx) = Ok tc"
        "process_instruction (tc_instruction_context_capacity tc + 1) env (ci_data ix) ?ias program_indices
           (rx\<lparr>rx_transaction_context := tc\<rparr>) = Ok (rx', units1)"
    using assms(1) by (auto simp: process_message_step_def Let_def result_simps split: if_splits)
  then show ?thesis
  proof cases
    case skip
    then show ?thesis by (simp add: message_effect_refl)
  next
    case (precompile tc tc1 tc2)
    let ?rx = "rx\<lparr>rx_transaction_context := tc\<rparr>"
    note e = fixup_effect [OF precompile(1), of message]
    have "tc_instruction_stack tc = []"
      using message_effectD(1) [OF e] assms(2) by (simp add: tc_kept_def message_fits_def Let_def)
    then have "message_effect message ?rx (?rx\<lparr>rx_transaction_context := tc2\<rparr>)"
      using precompile(2,3) by (intro push_pop_effect) simp_all
    with e show ?thesis unfolding precompile(4) by (auto intro: message_effect_trans)
  next
    case (instruction tc units1)
    note e = fixup_effect [OF instruction(1), of message]
    have "message_fits message (rx_transaction_context (rx\<lparr>rx_transaction_context := tc\<rparr>))"
      by (rule message_fits_kept [OF assms(2) message_effectD(1) [OF e]])
    from instruction_effect [OF instruction(2) this assms(3)] e show ?thesis by (rule message_effect_trans [rotated])
  qed
qed

lemma process_message_effect:
  assumes "process_message env message program_indices tc r fs budget sysvars blockhash lps data_len units = Ok (tc', delta, units')"
    and "message_fits message tc"
  obtains rx rx' where "rx_transaction_context rx = tc" "rx_transaction_context rx' = tc'" "rx_rent rx = r"
    "rx_feature_set rx = fs" "message_effect message rx rx'"
proof -
  define rx where "rx = runtime_context_new tc r sysvars budget fs blockhash lps data_len"
  obtain rx' where fold: "foldE (process_message_step env message) (List.enumerate 0 (zip (sm_instructions message) program_indices)) (rx, units) = Ok (rx', units')"
    and tc': "rx_transaction_context rx' = tc'"
    using assms(1) by (auto simp: process_message_def rx_def result_simps)
  have tc: "rx_transaction_context rx = tc" "rx_rent rx = r" "rx_feature_set rx = fs" by (simp_all add: rx_def runtime_context_new_def)
  have "message_effect message rx (fst (rx', units'))"
    using fold
  proof (rule foldE_invariant)
    show "message_effect message rx (fst (rx, units))" by (simp add: message_effect_refl)
    fix x u v
    assume x: "x \<in> set (List.enumerate 0 (zip (sm_instructions message) program_indices))"
      and u: "message_effect message rx (fst u)" and step: "process_message_step env message x u = Ok v"
    obtain n ix is' where x': "x = (n, ix, is')" by (cases x)
    then have "ix \<in> set (sm_instructions message)"
      using x by (auto simp: in_set_enumerate_eq dest: set_zip_leftD nth_mem)
    moreover have "message_fits message (rx_transaction_context (fst u))"
      using message_fits_kept [OF assms(2)] message_effectD(1) [OF u] tc by simp
    ultimately have "message_effect message (fst u) (fst v)"
      using step process_message_step_effect [of env message n ix is' "fst u" "snd u" "fst v" "snd v"] by (simp add: x')
    with u show "message_effect message rx (fst v)" by (rule message_effect_trans)
  qed
  with that [of rx rx'] tc tc' show ?thesis by simp
qed

section \<open>Properties\<close>

text \<open>
  C2. Whatever the programs do with the accounts of their instructions: a message that executes without an error conserves the lamports of the accounts of its
  transaction. Outside the instructions sysvar, an account that the message does not mark writable or pass to an
  instruction, or that is executable, is as it was. An account whose owner is none of the programs that ran keeps its
  data and owner and loses no lamports. No rent epoch changes. Of the instructions sysvar only the data change.
\<close>

theorem message_isolation:
  assumes "process_message env message program_indices tc r fs budget sysvars blockhash lps data_len units = Ok (tc', delta, units')"
    and "message_fits message tc"
  shows "total_lamports (tc_accounts tc') = total_lamports (tc_accounts tc) \<and>
    (\<forall>i. let a = tc_accounts tc ! i; b = tc_accounts tc' ! i in
      if tc_account_keys tc ! i = instructions_id then \<exists>data. b = a\<lparr>acc_data := data\<rparr>
      else
        (\<not> message_writable message i \<or> acc_executable a \<longrightarrow> b = a) \<and>
        (acc_owner a \<notin> programs_run tc' \<longrightarrow>
           acc_lamports a \<le> acc_lamports b \<and> acc_data b = acc_data a \<and> acc_owner b = acc_owner a) \<and>
        acc_rent_epoch b = acc_rent_epoch a)"
proof -
  obtain rx rx' where rx: "rx_transaction_context rx = tc" "rx_transaction_context rx' = tc'" "message_effect message rx rx'"
    by (rule process_message_effect [OF assms])
  note e = message_effectD [OF rx(3), unfolded rx(1,2)]
  show ?thesis
    using e(5,6) change_chain [OF e(7)] unfolding Let_def by (simp split: if_split)
qed

end
