(* ===== verification/Transaction_Commit.thy ===== *)
theory Transaction_Commit
  imports Message_Processor
begin

text \<open>
  What is stored of an executed transaction (\<^verbatim>\<open>collect_accounts_to_store\<close> and \<^verbatim>\<open>prepare_if_nonce_account\<close> in
  \<^verbatim>\<open>runtime/src/accounts.rs\<close>, with the nonce of a transaction, \<^verbatim>\<open>NoncePartial\<close> and \<^verbatim>\<open>NonceFull\<close>, and the rent it
  pays, from \<^verbatim>\<open>runtime/src/bank.rs\<close>), and the lamports from the database through loading and execution back to it.
\<close>

section \<open>The nonce of a transaction\<close>

record nonce_partial =
  np_address :: pubkey
  np_account :: account_shared_data

record nonce_full =
  nf_address :: pubkey
  nf_account :: account_shared_data
  nf_fee_payer_account :: "account_shared_data option"

definition nonce_full_from_partial ::
  "nonce_partial \<Rightarrow> sanitized_message \<Rightarrow> transaction_account list \<Rightarrow> rent_debits \<Rightarrow> (nonce_full, transaction_error) result" where
  "nonce_full_from_partial partial message accounts rent_debits =
     (case find (\<lambda>i. i < length accounts \<and> sm_is_non_loader_key message i) [0..<length (ak_iter (sm_account_keys message))] of
        None \<Rightarrow> Err AccountNotFound
      | Some i \<Rightarrow>
          let (fee_payer_address, fee_payer_account) = accounts ! i;
              rent_debit = get_account_rent_debit rent_debits fee_payer_address;
              fee_payer_account = set_lamports (saturating_add64 (acc_lamports fee_payer_account) rent_debit) fee_payer_account
          in Ok (if fee_payer_address = np_address partial
                 then \<lparr>nf_address = np_address partial, nf_account = fee_payer_account, nf_fee_payer_account = None\<rparr>
                 else \<lparr>nf_address = np_address partial, nf_account = np_account partial,
                       nf_fee_payer_account = Some fee_payer_account\<rparr>))"

text \<open>The account to store and whether it is that of the nonce. The nonce comes with the flag for a rollback.\<close>

definition prepare_if_nonce_account ::
  "nonce_codec \<Rightarrow> pubkey \<Rightarrow> account_shared_data \<Rightarrow> (unit, transaction_error) result \<Rightarrow> bool \<Rightarrow> (nonce_full \<times> bool) option \<Rightarrow>
     hash \<times> bool \<Rightarrow> u64 \<Rightarrow> (account_shared_data \<times> bool, 'e) result" where
  "prepare_if_nonce_account c address account execution_result is_fee_payer maybe_nonce durable_nonce lamports_per_signature =
     (case maybe_nonce of
        None \<Rightarrow> Ok (account, False)
      | Some (nonce, rollback) \<Rightarrow>
          if address = nf_address nonce then
            let account = (if rollback then nf_account nonce else account) in
            bindE (expectE (account_state c (nf_account nonce))) (\<lambda>nonce_versions.
            case versions_state nonce_versions of
              Initialized data \<Rightarrow>
                let state = new_initialized (nd_authority data) (fst durable_nonce) lamports_per_signature in
                bindE (expectE (account_set_state c (versions_new state (snd durable_nonce)) account)) (\<lambda>account.
                Ok (account, True))
            | Uninitialized \<Rightarrow> Ok (account, True))
          else
            Ok (if \<not> is_ok execution_result \<and> is_fee_payer
                then (case nf_fee_payer_account nonce of Some a \<Rightarrow> a | None \<Rightarrow> account) else account, False))"

section \<open>The accounts to store\<close>

record commit_env =
  ce_nonce_codec :: nonce_codec
  ce_rent_collector :: rent_collector
  ce_durable_nonce :: "hash \<times> bool"
  ce_lamports_per_signature :: u64
  ce_leave_nonce_on_success :: bool
  ce_preserve_rent_epoch :: bool

text \<open>The state of the loop over the accounts of a transaction: the loaded transaction and the accounts to store.\<close>

record commit_state =
  cs_fee_payer_index :: "nat option"
  cs_loaded :: loaded_transaction
  cs_stored :: "transaction_account list"

definition INITIAL_RENT_EPOCH :: u64 where "INITIAL_RENT_EPOCH = 0"

text \<open>The rent of an account that was created by the transaction.\<close>

definition collect_created_rent ::
  "commit_env \<Rightarrow> pubkey \<Rightarrow> account_shared_data \<Rightarrow> loaded_transaction \<Rightarrow> account_shared_data \<times> loaded_transaction" where
  "collect_created_rent env address account lt =
     (if \<not> ce_preserve_rent_epoch env \<and> acc_rent_epoch account = INITIAL_RENT_EPOCH then
        let (account, info) = collect_from_created_account (ce_rent_collector env) address account (ce_preserve_rent_epoch env)
        in (account, lt\<lparr>lt_rent := wrap64 (lt_rent lt + rent_amount info),
              lt_rent_debits := insert_rent_debit address (rent_amount info) (acc_lamports account) (lt_rent_debits lt)\<rparr>)
      else (account, lt))"

text \<open>The account goes back to the loaded transaction, and to the accounts to store if it is kept.\<close>

definition put_account :: "commit_env \<Rightarrow> bool \<Rightarrow> nat \<Rightarrow> pubkey \<Rightarrow> account_shared_data \<Rightarrow> commit_state \<Rightarrow> commit_state" where
  "put_account env keep i address account st =
     (let lt = cs_loaded st in
      if keep then
        let (account, lt) = collect_created_rent env address account lt
        in st\<lparr>cs_loaded := lt\<lparr>lt_accounts := (lt_accounts lt)[i := (address, account)]\<rparr>,
              cs_stored := cs_stored st @ [(address, account)]\<rparr>
      else st\<lparr>cs_loaded := lt\<lparr>lt_accounts := (lt_accounts lt)[i := (address, account)]\<rparr>\<rparr>)"

definition collect_account ::
  "commit_env \<Rightarrow> sanitized_message \<Rightarrow> (unit, transaction_error) result \<Rightarrow> (nonce_full \<times> bool) option \<Rightarrow> nat \<Rightarrow> commit_state \<Rightarrow>
     (commit_state, 'e) result" where
  "collect_account env message status maybe_nonce i st =
     (if \<not> sm_is_non_loader_key message i then Ok st
      else
        let fee_payer_index = (case cs_fee_payer_index st of None \<Rightarrow> Some i | some \<Rightarrow> some);
            is_fee_payer = (Some i = fee_payer_index);
            st = st\<lparr>cs_fee_payer_index := fee_payer_index\<rparr>;
            (address, account) = lt_accounts (cs_loaded st) ! i in
        if \<not> sm_is_writable message i then Ok st
        else
          bindE (prepare_if_nonce_account (ce_nonce_codec env) address account status is_fee_payer maybe_nonce
            (ce_durable_nonce env) (ce_lamports_per_signature env)) (\<lambda>(account, is_nonce_account).
          Ok (put_account env (is_ok status \<or> is_nonce_account \<or> is_fee_payer) i address account st)))"

text \<open>The nonce to prepare, unless nothing is stored of the transaction.\<close>

definition maybe_nonce_of ::
  "bool \<Rightarrow> (unit, transaction_error) result \<Rightarrow> nonce_full option \<Rightarrow> (nonce_full \<times> bool) option option" where
  "maybe_nonce_of leave_nonce_on_success status nonce =
     (case nonce of
        Some nonce \<Rightarrow>
          Some (if is_ok status then (if leave_nonce_on_success then None else Some (nonce, False)) else Some (nonce, True))
      | None \<Rightarrow> if is_ok status then Some None else None)"

definition collect_transaction ::
  "commit_env \<Rightarrow> sanitized_message \<Rightarrow> (unit, transaction_error) result \<Rightarrow> nonce_full option \<Rightarrow> loaded_transaction \<Rightarrow>
     (loaded_transaction \<times> transaction_account list, 'e) result" where
  "collect_transaction env message status nonce lt =
     (case maybe_nonce_of (ce_leave_nonce_on_success env) status nonce of
        None \<Rightarrow> Ok (lt, [])
      | Some maybe_nonce \<Rightarrow>
          bindE (foldE (collect_account env message status maybe_nonce)
              [0..<min (length (ak_iter (sm_account_keys message))) (length (lt_accounts lt))]
              \<lparr>cs_fee_payer_index = None, cs_loaded = lt, cs_stored = []\<rparr>) (\<lambda>st.
          Ok (cs_loaded st, cs_stored st)))"

text \<open>The status of an executed transaction; a transaction that was not executed has only the reason.\<close>

datatype (plugins only: code size) execution_result = Executed "(unit, transaction_error) result" | NotExecuted transaction_error

type_synonym transaction_load_result = "(loaded_transaction, transaction_error) result \<times> nonce_full option"

definition collect_accounts_step ::
  "commit_env \<Rightarrow> execution_result list \<Rightarrow> nat \<times> transaction_load_result \<times> sanitized_transaction \<Rightarrow>
     transaction_load_result list \<times> transaction_account list \<Rightarrow>
     (transaction_load_result list \<times> transaction_account list, 'e) result" where
  "collect_accounts_step env execution_results = (\<lambda>(i, (load_result, nonce), tx) (load_results, stored).
     case load_result of
       Inl _ \<Rightarrow> Ok (load_results @ [(load_result, nonce)], stored)
     | Ok lt \<Rightarrow>
         bindE (unwrap (slice_get execution_results i)) (\<lambda>r.
         case r of
           NotExecuted _ \<Rightarrow> Ok (load_results @ [(load_result, nonce)], stored)
         | Executed status \<Rightarrow>
             bindE (collect_transaction env (stx_message tx) status nonce lt) (\<lambda>(lt, accounts).
             Ok (load_results @ [(Ok lt, nonce)], stored @ accounts))))"

definition collect_accounts_to_store ::
  "commit_env \<Rightarrow> sanitized_transaction list \<Rightarrow> execution_result list \<Rightarrow> transaction_load_result list \<Rightarrow>
     (transaction_load_result list \<times> transaction_account list, 'e) result" where
  "collect_accounts_to_store env txs execution_results load_results =
     bindE (foldE (collect_accounts_step env execution_results) (List.enumerate 0 (zip load_results txs)) ([], []))
       (\<lambda>(results, stored). Ok (results @ drop (length txs) load_results, stored))"

text \<open>The rent of the transactions that succeeded; what was collected before is a counter of the bank.\<close>

definition collect_rent :: "execution_result list \<Rightarrow> transaction_load_result list \<Rightarrow> u64 \<Rightarrow> u64 \<times> rent_debits list" where
  "collect_rent execution_results loaded_txs collected =
     (let was_executed_successfully = (\<lambda>r. case r of Executed status \<Rightarrow> is_ok status | NotExecuted _ \<Rightarrow> False);
          results = map (\<lambda>((load_result, _), r).
            case load_result of Ok lt \<Rightarrow> if was_executed_successfully r then (lt_rent lt, lt_rent_debits lt) else (0, Map.empty)
            | Inl _ \<Rightarrow> (0, Map.empty)) (zip loaded_txs execution_results)
      in (wrap64 (collected + fold (\<lambda>(rent, _) acc. wrap64 (acc + rent)) results 0), map snd results))"

section \<open>From the database and back\<close>

text \<open>The keys of a message whose accounts a successful transaction stores.\<close>

definition stored_index :: "sanitized_message \<Rightarrow> nat \<Rightarrow> bool" where
  "stored_index message i \<longleftrightarrow> sm_is_non_loader_key message i \<and> sm_is_writable message i"

subsection \<open>Loading\<close>

lemma load_key_unstored:
  assumes "load_key env message (i, key) st = Ok st'" "le_overrides env = None" "ls_validated_fee_payer st" "\<not> stored_index message i"
  shows "\<exists>account. ls_accounts st' = ls_accounts st @ [(key, account)] \<and> acc_lamports account = loaded_balance env message (i, key) \<and>
    ls_validated_fee_payer st'"
  using assms
  by (auto simp: load_key_def load_account_def loaded_balance_def stored_index_def construct_instructions_account_def
      default_account_def Let_def result_simps split: if_splits option.splits)

lemma load_keys_unstored:
  assumes "foldE (load_key env message) (List.enumerate 0 keys) load_start = Ok st" "le_overrides env = None"
    and "stored_index message 0" "keys \<noteq> [] \<Longrightarrow> keys ! 0 \<noteq> instructions_id"
  shows "\<forall>i < length keys. \<not> stored_index message i \<longrightarrow> acc_lamports (snd (ls_accounts st ! i)) = loaded_balance env message (i, keys ! i)"
proof -
  let ?P = "\<lambda>n st. length (ls_accounts st) = n \<and> (n > 0 \<longrightarrow> ls_validated_fee_payer st) \<and>
    (\<forall>i < n. \<not> stored_index message i \<longrightarrow> acc_lamports (snd (ls_accounts st ! i)) = loaded_balance env message (i, keys ! i))"
  have "?P (0 + length keys) st"
  proof (rule foldE_enumerate [OF assms(1)])
    fix i u v
    assume i: "i < length keys" and u: "?P (0 + i) u" and step: "load_key env message (0 + i, keys ! i) u = Ok v"
    show "?P (Suc (0 + i)) v"
    proof (cases "stored_index message i")
      case True
      have "keys ! i \<noteq> instructions_id \<or> i > 0" using assms(4) i by (cases i) auto
      with True step u have "ls_validated_fee_payer v \<and> (\<exists>account. ls_accounts v = ls_accounts u @ [(keys ! i, account)])"
        by (auto simp: load_key_def stored_index_def Let_def result_simps split: if_splits prod.splits)
      with u True show ?thesis by (auto simp: nth_append less_Suc_eq)
    next
      case False
      then have "i > 0" using assms(3) by (cases i) auto
      with load_key_unstored [OF step assms(2)] u False show ?thesis by (auto simp: nth_append less_Suc_eq)
    qed
  qed simp
  then show ?thesis by simp
qed

definition stored_indices :: "sanitized_message \<Rightarrow> nat set" where
  "stored_indices message = {i. i < length (ak_iter (sm_account_keys message)) \<and> stored_index message i}"

lemma sum_split_stored:
  "(\<Sum>i < length (ak_iter (sm_account_keys message)). f i) =
     (\<Sum>i \<in> stored_indices message. f i) + (\<Sum>i \<in> {..<length (ak_iter (sm_account_keys message))} - stored_indices message. f i)"
  for f :: "nat \<Rightarrow> nat"
  by (subst sum.subset_diff [of "stored_indices message"]) (auto simp: stored_indices_def)

lemma sum_list_nth: "sum_list (map f xs) = (\<Sum>i < length xs. f (xs ! i))" for f :: "_ \<Rightarrow> nat"
  by (simp add: sum_list_sum_nth atLeast0LessThan)

lemma load_transaction_stored:
  assumes message_def: "message = stx_message tx" and keys_def: "keys = ak_iter (sm_account_keys message)"
    and "load_transaction env tx = Ok lt" "le_overrides env = None" "stored_index message 0" "keys ! 0 \<noteq> instructions_id"
    and "sum_list (map (loaded_balance env message) (List.enumerate 0 keys)) \<le> u64_max"
  shows "take (length keys) (map fst (lt_accounts lt)) = keys"
    and "(\<Sum>i \<in> stored_indices message. acc_lamports (snd (lt_accounts lt ! i))) + le_fee env + lt_rent lt =
      (\<Sum>i \<in> stored_indices message. loaded_balance env message (i, keys ! i))"
proof -
  obtain st where st: "foldE (load_key env message) (List.enumerate 0 keys) load_start = Ok st"
    "ls_validated_fee_payer st" "lt_rent lt = ls_tx_rent st"
    "load_programs (le_loader_state env) (le_load env) (sm_instructions message) (ls_accounts st @ ls_account_deps st) =
       Ok (lt_accounts lt, lt_program_indices lt)"
    by (rule load_transaction_Ok [OF assms(3)]) (simp add: keys_def message_def)
  have ls: "map fst (ls_accounts st) = keys" using load_keys_loaded [OF st(1) assms(4)] by (simp add: keys_loaded_def)
  then have len: "length (ls_accounts st) = length keys" by (metis length_map)
  have ext: "extends (ls_accounts st @ ls_account_deps st) (lt_accounts lt)" by (rule load_programs_extends [OF st(4)])
  then have "take (length keys) (lt_accounts lt) = ls_accounts st" by (auto simp: extends_def len)
  then show "take (length keys) (map fst (lt_accounts lt)) = keys" by (simp add: take_map ls)
  have nth: "lt_accounts lt ! i = ls_accounts st ! i" if "i < length keys" for i
    using ext that len by (auto simp: extends_def nth_append)
  have "sum_list (map (acc_lamports \<circ> snd) (ls_accounts st)) + le_fee env + ls_tx_rent st =
      sum_list (map (loaded_balance env message) (List.enumerate 0 keys))"
    using load_keys_balances [OF st(1) assms(4,7)] st(2) by (simp add: balances_loaded_def)
  then have total: "(\<Sum>i < length keys. acc_lamports (snd (lt_accounts lt ! i))) + le_fee env + lt_rent lt =
      (\<Sum>i < length keys. loaded_balance env message (i, keys ! i))"
    by (simp add: sum_list_nth len st(3) nth nth_enumerate_eq)
  have "(\<Sum>i \<in> {..<length keys} - stored_indices message. acc_lamports (snd (lt_accounts lt ! i))) =
      (\<Sum>i \<in> {..<length keys} - stored_indices message. loaded_balance env message (i, keys ! i))"
    using load_keys_unstored [OF st(1) assms(4-6)] by (intro sum.cong) (auto simp: nth keys_def stored_indices_def)
  with total show "(\<Sum>i \<in> stored_indices message. acc_lamports (snd (lt_accounts lt ! i))) + le_fee env + lt_rent lt =
      (\<Sum>i \<in> stored_indices message. loaded_balance env message (i, keys ! i))"
    unfolding keys_def sum_split_stored by linarith
qed

subsection \<open>Execution\<close>

text \<open>Only accounts of the message that are to be stored change their lamports, and together they keep them.\<close>

lemma execute_transaction_stored:
  assumes message_def: "message = stx_message tx" and keys_def: "keys = ak_iter (sm_account_keys message)"
    and "execute_loaded_transaction bank tx lt budget record_cpi = Ok (lt', details)"
    and "take (length keys) (map fst (lt_accounts lt)) = keys" "distinct keys"
    and "\<forall>ix \<in> set (sm_instructions message). \<forall>i \<in> set (ci_accounts ix). i < length keys"
  shows "map fst (lt_accounts lt') = map fst (lt_accounts lt)" "lt_rent lt' = lt_rent lt"
    and "(\<Sum>i \<in> stored_indices message. acc_lamports (snd (lt_accounts lt' ! i))) =
      (\<Sum>i \<in> stored_indices message. acc_lamports (snd (lt_accounts lt ! i)))"
proof -
  define tc where "tc = transaction_context_new (lt_accounts lt) (saturating_add64 (cb_max_invoke_depth budget) 1) (length (sm_instructions message))"
  obtain tc' delta units where run: "process_message (bx_env bank) message (lt_program_indices lt) tc (rc_rent (bx_rent_collector bank))
      (bx_feature_set bank) budget (bx_sysvar_cache bank) (bx_last_blockhash bank) (bx_lamports_per_signature bank)
      (bx_accounts_data_size bank) 0 = Ok (tc', delta, units)"
    and lt': "lt' = lt\<lparr>lt_accounts := zip (tc_account_keys tc') (tc_accounts tc')\<rparr>"
    using assms(3) by (auto simp: execute_loaded_transaction_def Let_def result_simps tc_deconstruct_def tc_def message_def)
  have "message_fits message tc" using assms(4-6) by (simp add: message_fits_def Let_def tc_def transaction_context_new_def keys_def)
  then obtain rx rx' where rx: "rx_transaction_context rx = tc" "rx_transaction_context rx' = tc'" "message_effect message rx rx'"
    using process_message_effect [OF run] by blast
  note e = message_effectD [OF rx(3), unfolded rx(1,2)]
  have tc: "tc_account_keys tc = map fst (lt_accounts lt)" "tc_accounts tc = map snd (lt_accounts lt)"
    by (simp_all add: tc_def transaction_context_new_def)
  then have same: "tc_account_keys tc' = map fst (lt_accounts lt)" "length (tc_accounts tc') = length (lt_accounts lt)"
    using e(1) by (simp_all add: tc_kept_def)
  then show "map fst (lt_accounts lt') = map fst (lt_accounts lt)" "lt_rent lt' = lt_rent lt" by (simp_all add: lt')
  let ?n = "length (lt_accounts lt)"
  have sums: "(\<Sum>i < ?n. acc_lamports (tc_accounts tc' ! i)) = (\<Sum>i < ?n. acc_lamports (tc_accounts tc ! i))"
    using e(5) same(2) by (simp add: total_lamports_def sum_list_nth tc)
  have "acc_lamports (tc_accounts tc' ! i) = acc_lamports (tc_accounts tc ! i)" if "i \<notin> stored_indices message" for i
  proof (cases "tc_account_keys tc ! i = instructions_id")
    case True
    then show ?thesis using e(6) by fastforce
  next
    case False
    have "\<not> message_writable message i"
      using that by (auto simp: message_writable_def stored_indices_def stored_index_def sm_is_non_loader_key_def sm_is_invoked_def
          instruction_calls_def instruction_passes_def)
    then show ?thesis using change_chain(2) [OF e(7) [OF False]] by simp
  qed
  then have "(\<Sum>i \<in> {..<?n} - stored_indices message. acc_lamports (tc_accounts tc' ! i)) =
      (\<Sum>i \<in> {..<?n} - stored_indices message. acc_lamports (tc_accounts tc ! i))" by simp
  moreover have sub: "stored_indices message \<subseteq> {..<?n}"
  proof -
    have "length keys \<le> ?n" using arg_cong [OF assms(4), of length] by simp
    then show ?thesis by (auto simp: keys_def stored_indices_def)
  qed
  ultimately have "(\<Sum>i \<in> stored_indices message. acc_lamports (tc_accounts tc' ! i)) =
      (\<Sum>i \<in> stored_indices message. acc_lamports (tc_accounts tc ! i))"
    using sums sum.subset_diff [OF sub finite_lessThan] by (metis (no_types, lifting) add_left_cancel)
  moreover have "snd (lt_accounts lt' ! i) = tc_accounts tc' ! i \<and> snd (lt_accounts lt ! i) = tc_accounts tc ! i"
    if "i \<in> stored_indices message" for i
    using that sub same by (auto simp: lt' tc)
  ultimately show "(\<Sum>i \<in> stored_indices message. acc_lamports (snd (lt_accounts lt' ! i))) =
      (\<Sum>i \<in> stored_indices message. acc_lamports (snd (lt_accounts lt ! i)))"
    by (metis (no_types, lifting) sum.cong)
qed

subsection \<open>Storing\<close>

lemma foldE_append: "foldE f (xs @ ys) s = bindE (foldE f xs s) (foldE f ys)"
  by (induction xs arbitrary: s) (simp_all add: bindE_assoc cong: bindE_cong)

lemma foldE_upt:
  assumes "foldE f [0..<n] s = Ok t" "P 0 s" "\<And>i u v. i < n \<Longrightarrow> P i u \<Longrightarrow> f i u = Ok v \<Longrightarrow> P (Suc i) v"
  shows "P n t"
  using assms
proof (induction n arbitrary: t)
  case (Suc n)
  then obtain u where "foldE f [0..<n] s = Ok u" "f n u = Ok t" by (auto simp: foldE_append result_simps)
  with Suc show ?case by (metis less_Suc_eq)
qed simp

lemma set_state_lamports: "account_set_state c x a = Ok a' \<Longrightarrow> acc_lamports a' = acc_lamports a"
  by (auto simp: account_set_state_def Let_def split: if_splits)

lemma prepare_nonce_lamports:
  assumes "prepare_if_nonce_account c address account (Ok ()) payer maybe_nonce dn lps = Ok (account', is_nonce)"
    and "\<forall>nonce. maybe_nonce \<noteq> Some (nonce, True)"
  shows "acc_lamports account' = acc_lamports account"
proof (cases maybe_nonce)
  case None
  then show ?thesis using assms(1) by (simp add: prepare_if_nonce_account_def)
next
  case (Some p)
  then obtain nonce where p: "p = (nonce, False)" using assms(2) by (cases p; cases "snd p") auto
  show ?thesis
  proof (cases "address = nf_address nonce")
    case False
    then show ?thesis using assms(1) by (simp add: prepare_if_nonce_account_def Some p is_ok_def)
  next
    case True
    with assms(1) obtain versions where v: "account_state c (nf_account nonce) = Ok versions"
      by (auto simp: prepare_if_nonce_account_def Some p Let_def result_simps)
    show ?thesis
      using assms(1) True v
      by (cases "versions_state versions")
        (auto simp: prepare_if_nonce_account_def Some p Let_def expectE_def bindE_Ok_iff dest!: set_state_lamports split: sum.split_asm)
  qed
qed

lemma collect_created_rent_conserves:
  assumes "collect_created_rent env address account lt = (account', lt')"
  shows "\<exists>rent. acc_lamports account' + rent = acc_lamports account \<and> lt_accounts lt' = lt_accounts lt \<and>
    (lt_rent lt' = wrap64 (lt_rent lt + rent) \<or> rent = 0 \<and> lt_rent lt' = lt_rent lt)"
  using assms
  by (auto simp: collect_created_rent_def collect_from_created_account_def set_rent_epoch_def split: if_splits prod.splits
      dest!: collect_conserves)

text \<open>What a successful transaction stores of one account, and the rent it pays for it.\<close>

lemma collect_account_Ok:
  assumes "collect_account env message (Ok ()) maybe_nonce i st = Ok st'"
    and "\<forall>nonce. maybe_nonce \<noteq> Some (nonce, True)"
  shows "if stored_index message i then
      (\<exists>account rent. lt_accounts (cs_loaded st') = (lt_accounts (cs_loaded st))[i := (fst (lt_accounts (cs_loaded st) ! i), account)] \<and>
         cs_stored st' = cs_stored st @ [(fst (lt_accounts (cs_loaded st) ! i), account)] \<and>
         acc_lamports account + rent = acc_lamports (snd (lt_accounts (cs_loaded st) ! i)) \<and>
         (lt_rent (cs_loaded st') = wrap64 (lt_rent (cs_loaded st) + rent) \<or> rent = 0 \<and> lt_rent (cs_loaded st') = lt_rent (cs_loaded st)))
    else cs_loaded st' = cs_loaded st \<and> cs_stored st' = cs_stored st"
proof (cases "stored_index message i")
  case False
  then show ?thesis using assms(1) by (auto simp: collect_account_def stored_index_def Let_def split: if_splits prod.splits)
next
  case True
  let ?lt = "cs_loaded st"
  obtain address account where nth: "lt_accounts ?lt ! i = (address, account)" by (cases "lt_accounts ?lt ! i")
  define payer where "payer \<longleftrightarrow> Some i = (case cs_fee_payer_index st of None \<Rightarrow> Some i | some \<Rightarrow> some)"
  then obtain account1 is_nonce where prep: "prepare_if_nonce_account (ce_nonce_codec env) address account (Ok ()) payer maybe_nonce
      (ce_durable_nonce env) (ce_lamports_per_signature env) = (Ok (account1, is_nonce) :: (_, 'a) result)"
    and st': "st' = put_account env True i address account1
      (st\<lparr>cs_fee_payer_index := case cs_fee_payer_index st of None \<Rightarrow> Some i | some \<Rightarrow> some\<rparr>)"
    using assms(1) True by (auto simp: collect_account_def stored_index_def nth Let_def is_ok_def payer_def bindE_Ok_iff)
  have same: "acc_lamports account1 = acc_lamports account" by (rule prepare_nonce_lamports [OF prep assms(2)])
  obtain account2 lt2 where c: "collect_created_rent env address account1 ?lt = (account2, lt2)"
    by (cases "collect_created_rent env address account1 ?lt")
  have "\<exists>rent. acc_lamports account2 + rent = acc_lamports account \<and> lt_accounts lt2 = lt_accounts ?lt \<and>
      (lt_rent lt2 = wrap64 (lt_rent ?lt + rent) \<or> rent = 0 \<and> lt_rent lt2 = lt_rent ?lt)"
    by (rule collect_created_rent_conserves [OF c, unfolded same])
  with True c show ?thesis by (auto simp: nth st' put_account_def Let_def)
qed

lemma collect_transaction_stored:
  fixes lt message
  defines "held \<equiv> \<lambda>n. sum_list (map (\<lambda>i. acc_lamports (snd (lt_accounts lt ! i))) (filter (stored_index message) [0..<n]))"
  assumes keys_def: "keys = ak_iter (sm_account_keys message)" and "(collect_transaction env message (Ok ()) nonce lt :: (_, 'e) result) = Ok (lt', stored)" "length keys \<le> length (lt_accounts lt)"
    and "held (length keys) + lt_rent lt \<le> u64_max"
  shows "map fst stored = map (\<lambda>i. fst (lt_accounts lt ! i)) (filter (stored_index message) [0..<length keys])"
    "sum_list (map (acc_lamports \<circ> snd) stored) + lt_rent lt' = held (length keys) + lt_rent lt"
proof -
  obtain maybe_nonce st where m: "maybe_nonce_of (ce_leave_nonce_on_success env) (Ok ()) nonce = Some maybe_nonce"
    and st: "foldE (collect_account env message (Ok ()) maybe_nonce) [0..<length keys]
        \<lparr>cs_fee_payer_index = None, cs_loaded = lt, cs_stored = []\<rparr> = (Ok st :: (_, 'e) result)" "lt' = cs_loaded st" "stored = cs_stored st"
  proof -
    obtain mn where mn: "maybe_nonce_of (ce_leave_nonce_on_success env) (Ok ()) nonce = Some mn"
      by (cases nonce) (simp_all add: maybe_nonce_of_def is_ok_def)
    with assms(3,4) obtain st where "foldE (collect_account env message (Ok ()) mn) [0..<length keys]
        \<lparr>cs_fee_payer_index = None, cs_loaded = lt, cs_stored = []\<rparr> = (Ok st :: (_, 'e) result)" "lt' = cs_loaded st" "stored = cs_stored st"
      by (auto simp: collect_transaction_def result_simps min_absorb1 keys_def)
    with mn that show ?thesis by blast
  qed
  have no_rollback: "\<forall>nonce. maybe_nonce \<noteq> Some (nonce, True)"
    using m by (auto simp: maybe_nonce_of_def is_ok_def split: option.splits if_splits)
  have mono: "held i \<le> held j" if "i \<le> j" for i j
  proof -
    have "[0..<j] = [0..<i] @ [i..<j]" using that by (metis le0 upt_add_eq_append le_add_diff_inverse)
    then show ?thesis by (simp add: held_def)
  qed
  let ?P = "\<lambda>n st. length (lt_accounts (cs_loaded st)) = length (lt_accounts lt) \<and> (\<forall>j \<ge> n. lt_accounts (cs_loaded st) ! j = lt_accounts lt ! j) \<and>
    map fst (cs_stored st) = map (\<lambda>i. fst (lt_accounts lt ! i)) (filter (stored_index message) [0..<n]) \<and>
    sum_list (map (acc_lamports \<circ> snd) (cs_stored st)) + lt_rent (cs_loaded st) = held n + lt_rent lt"
  have "?P (length keys) st"
  proof (rule foldE_upt [OF st(1)])
    show "?P 0 \<lparr>cs_fee_payer_index = None, cs_loaded = lt, cs_stored = []\<rparr>" by (simp add: held_def)
    fix i u v
    assume i: "i < length keys" and u: "?P i u" and step: "collect_account env message (Ok ()) maybe_nonce i u = Ok v"
    note s = collect_account_Ok [OF step no_rollback]
    show "?P (Suc i) v"
    proof (cases "stored_index message i")
      case False
      with s u show ?thesis by (simp add: held_def)
    next
      case True
      have nth: "lt_accounts (cs_loaded u) ! i = lt_accounts lt ! i" using u by simp
      obtain account rent where a: "lt_accounts (cs_loaded v) = (lt_accounts (cs_loaded u))[i := (fst (lt_accounts lt ! i), account)]"
        "cs_stored v = cs_stored u @ [(fst (lt_accounts lt ! i), account)]" "acc_lamports account + rent = acc_lamports (snd (lt_accounts lt ! i))"
        "lt_rent (cs_loaded v) = wrap64 (lt_rent (cs_loaded u) + rent) \<or> rent = 0 \<and> lt_rent (cs_loaded v) = lt_rent (cs_loaded u)"
        using s True unfolding nth if_P [OF True] by blast
      have next_held: "held (Suc i) = held i + acc_lamports (snd (lt_accounts lt ! i))" using True by (simp add: held_def)
      have "lt_rent (cs_loaded u) + rent \<le> held (Suc i) + lt_rent lt" using u a(3) unfolding next_held by linarith
      also have "\<dots> \<le> u64_max" using mono [of "Suc i" "length keys"] assms(5) i by simp
      finally have "lt_rent (cs_loaded v) = lt_rent (cs_loaded u) + rent" using a(4) by (auto simp: wrap64_def)
      with u a(1-3) True next_held show ?thesis by (simp add: nth_list_update)
    qed
  qed
  then show "map fst stored = map (\<lambda>i. fst (lt_accounts lt ! i)) (filter (stored_index message) [0..<length keys])"
    "sum_list (map (acc_lamports \<circ> snd) stored) + lt_rent lt' = held (length keys) + lt_rent lt"
    by (simp_all add: st)
qed

subsection \<open>A failed transaction\<close>

text \<open>Two runs that differ in what a failed execution left in the accounts.\<close>

lemma foldE_upt_rel:
  assumes "P 0 s s'" "\<And>i u v. i < n \<Longrightarrow> P i u v \<Longrightarrow> rel_sum (=) (P (Suc i)) (f i u) (f i v)"
  shows "rel_sum (=) (P n) (foldE f [0..<n] s) (foldE f [0..<n] s')"
  using assms
proof (induction n)
  case (Suc n)
  then have IH: "rel_sum (=) (P n) (foldE f [0..<n] s) (foldE f [0..<n] s')" by simp
  show ?case
  proof (cases "foldE f [0..<n] s")
    case (Inl e)
    with IH show ?thesis by (auto simp: foldE_append bindE_def rel_sum_sel split: sum.splits)
  next
    case (Inr u)
    with IH obtain v where v: "foldE f [0..<n] s' = Inr v" "P n u v" by (cases "foldE f [0..<n] s'") auto
    have "rel_sum (=) (P (Suc n)) (f n u) (f n v)" using Suc.prems(2) v(2) by simp
    then show ?thesis using Inr v(1) by (cases "f n u"; cases "f n v") (simp_all add: foldE_append bindE_def)
  qed
qed simp

definition same_commit :: "pubkey list \<Rightarrow> nat \<Rightarrow> nat \<Rightarrow> commit_state \<Rightarrow> commit_state \<Rightarrow> bool" where
  "same_commit keys payer n st st' \<longleftrightarrow>
     cs_fee_payer_index st' = cs_fee_payer_index st \<and> cs_stored st' = cs_stored st \<and>
     map fst (lt_accounts (cs_loaded st)) = keys \<and> map fst (lt_accounts (cs_loaded st')) = keys \<and>
     (cs_fee_payer_index st = None \<and> n \<le> payer \<or> cs_fee_payer_index st = Some payer)"

text \<open>The nonce and the fee payer are rolled back, so that what is prepared for the database is the same in both runs.\<close>

lemma prepare_failed:
  assumes "address \<noteq> nf_address nonce \<Longrightarrow> is_fee_payer \<Longrightarrow> nf_fee_payer_account nonce \<noteq> None"
  shows "prepare_if_nonce_account c address account (Err e) is_fee_payer (Some (nonce, True)) dn lps =
      prepare_if_nonce_account c address account' (Err e) is_fee_payer (Some (nonce, True)) dn lps \<or>
    address \<noteq> nf_address nonce \<and> \<not> is_fee_payer"
  using assms by (auto simp: prepare_if_nonce_account_def is_ok_def split: option.splits)

lemma prepare_other:
  "address \<noteq> nf_address nonce \<Longrightarrow>
   prepare_if_nonce_account c address account (Err e) False (Some (nonce, True)) dn lps = Ok (account, False)"
  by (simp add: prepare_if_nonce_account_def is_ok_def)

lemma collect_created_rent_same:
  "fst (collect_created_rent env address account lt) = fst (collect_created_rent env address account lt')"
  "lt_accounts (snd (collect_created_rent env address account lt)) = lt_accounts lt"
  by (auto simp: collect_created_rent_def split: prod.splits)

lemma put_account_same:
  assumes "same_commit keys payer n st st'" "a' = a \<or> \<not> keep"
  shows "same_commit keys payer m (put_account env keep i (keys ! i) a (st\<lparr>cs_fee_payer_index := Some payer\<rparr>))
    (put_account env keep i (keys ! i) a' (st'\<lparr>cs_fee_payer_index := Some payer\<rparr>))"
proof -
  have upd: "map fst (xs[i := (keys ! i, a)]) = keys" if "map fst xs = keys" for xs and a :: account_shared_data
    using that by (simp add: map_update)
  show ?thesis
    using assms upd collect_created_rent_same(1) [of env "keys ! i" a "cs_loaded st" "cs_loaded st'"]
    by (cases keep) (simp_all add: put_account_def same_commit_def Let_def split_beta collect_created_rent_same(2))
qed

text \<open>One account, when the fee payer is the first account that is not only a program.\<close>

lemma collect_account_failed:
  assumes "same_commit keys payer i st st'" "i < length keys" "sm_is_non_loader_key message payer"
    and "\<forall>k < payer. \<not> sm_is_non_loader_key message k"
    and "keys ! payer \<noteq> nf_address nonce \<Longrightarrow> nf_fee_payer_account nonce \<noteq> None"
  shows "rel_sum (=) (same_commit keys payer (Suc i)) (collect_account env message (Err e) (Some (nonce, True)) i st)
    (collect_account env message (Err e) (Some (nonce, True)) i st')"
proof (cases "sm_is_non_loader_key message i")
  case False
  then have "i \<noteq> payer" using assms(3) by auto
  with False assms(1) show ?thesis by (auto simp: collect_account_def same_commit_def)
next
  case True
  note same = assms(1) [unfolded same_commit_def]
  let ?lt = "cs_loaded st" and ?lt' = "cs_loaded st'"
  obtain account account' where nth: "lt_accounts ?lt ! i = (keys ! i, account)" "lt_accounts ?lt' ! i = (keys ! i, account')"
    using same assms(2) by (metis nth_map length_map surj_pair fst_conv)
  have "(case cs_fee_payer_index st of None \<Rightarrow> Some i | some \<Rightarrow> some) = Some payer"
    using same True assms(4) by (auto simp: le_less)
  then have payer: "(case cs_fee_payer_index st of None \<Rightarrow> Some i | some \<Rightarrow> some) = Some payer"
    "(case cs_fee_payer_index st' of None \<Rightarrow> Some i | some \<Rightarrow> some) = Some payer" using same by simp_all
  show ?thesis
  proof (cases "sm_is_writable message i")
    case False
    with True payer same show ?thesis by (simp add: collect_account_def nth Let_def same_commit_def)
  next
    case writable: True
    let ?prep = "\<lambda>a. prepare_if_nonce_account (ce_nonce_codec env) (keys ! i) a (Err e) (i = payer) (Some (nonce, True))
      (ce_durable_nonce env) (ce_lamports_per_signature env) :: (_, 'a) result"
    let ?put = "\<lambda>st (a, is_nonce). Ok (put_account env (is_nonce \<or> i = payer) i (keys ! i) a (st\<lparr>cs_fee_payer_index := Some payer\<rparr>)) :: (_, 'a) result"
    have step: "collect_account env message (Err e) (Some (nonce, True)) i st = bindE (?prep account) (?put st)"
      "collect_account env message (Err e) (Some (nonce, True)) i st' = bindE (?prep account') (?put st')"
      using True writable by (simp_all add: collect_account_def nth Let_def payer is_ok_def)
    have put: "rel_sum (=) (same_commit keys payer (Suc i)) (?put st (a, b)) (?put st' (a', b))" if "a' = a \<or> \<not> (b \<or> i = payer)" for a a' b
      using put_account_same [OF assms(1), of a' a "b \<or> i = payer"] that by simp
    from prepare_failed [where address = "keys ! i" and is_fee_payer = "i = payer" and nonce = nonce] assms(5)
    consider (same) "?prep account = ?prep account'" | (other) "keys ! i \<noteq> nf_address nonce" "i \<noteq> payer" by blast
    then show ?thesis
    proof cases
      case same
      then show ?thesis using put unfolding step by (cases "?prep account'") (auto simp: bindE_def)
    next
      case other
      then show ?thesis using put [of account' account False] unfolding step by (simp add: prepare_other bindE_def)
    qed
  qed
qed

section \<open>Properties\<close>

text \<open>The lamports that the database has for a key.\<close>

definition db_balance :: "load_env \<Rightarrow> pubkey \<Rightarrow> u64" where
  "db_balance env key = (case le_load env key of Some account \<Rightarrow> acc_lamports account | None \<Rightarrow> 0)"

text \<open>
  C3. A transaction that is loaded, executes without an error and is committed conserves lamports across the database:
  it stores the accounts of the writable keys of its message, and what they hold, with the fee and the rent it
  paid, is what the database held for these keys before. The nonce of the transaction, if it has one, does not
  matter. The keys are distinct, the instructions name accounts of the message and the first key can pay the fee.
\<close>

theorem committed_transaction_conserves:
  fixes tx
  defines "message \<equiv> stx_message tx" and "keys \<equiv> ak_iter (sm_account_keys (stx_message tx))"
  assumes load: "load_transaction env tx = Ok lt" "le_overrides env = None"
    and execute: "execute_loaded_transaction bank tx lt budget record_cpi = Ok (lt', details)"
    and commit: "(collect_transaction cenv message (Ok ()) nonce lt' :: (_, 'e) result) = Ok (lt'', stored)"
    and message: "distinct keys" "\<forall>ix \<in> set (sm_instructions message). \<forall>i \<in> set (ci_accounts ix). i < length keys"
      "keys \<noteq> []" "stored_index message 0"
    and fit: "sum_list (map (loaded_balance env message) (List.enumerate 0 keys)) \<le> u64_max"
  shows "map fst stored = map (\<lambda>i. keys ! i) (filter (stored_index message) [0..<length keys]) \<and>
    sum_list (map (acc_lamports \<circ> snd) stored) + le_fee env + lt_rent lt'' =
      sum_list (map (db_balance env \<circ> fst) stored)"
proof -
  have keys: "keys = ak_iter (sm_account_keys message)" by (simp add: keys_def message_def)
  have not_sysvar: "keys ! i \<noteq> instructions_id" if "i < length keys" "stored_index message i" for i
    using sysvar_not_writable [of message i] that by (auto simp: stored_index_def keys)
  have payer: "keys ! 0 \<noteq> instructions_id" using not_sysvar [of 0] message(3,4) by simp
  note loaded = load_transaction_stored [OF meta_eq_to_obj_eq [OF message_def] keys load message(4) payer fit]
  note executed = execute_transaction_stored [OF meta_eq_to_obj_eq [OF message_def] keys execute loaded(1) message(1,2)]
  have len: "length keys \<le> length (lt_accounts lt')"
    using arg_cong [OF loaded(1), of length] arg_cong [OF executed(1), of length] by simp
  have indices: "sum_list (map f (filter (stored_index message) [0..<length keys])) = (\<Sum>i \<in> stored_indices message. f i)" for f :: "nat \<Rightarrow> nat"
    by (subst sum_list_distinct_conv_sum_set) (auto simp: keys stored_indices_def intro!: sum.cong)
  have key: "fst (lt_accounts lt' ! i) = keys ! i" if "i < length keys" for i
  proof -
    have "fst (lt_accounts lt' ! i) = map fst (lt_accounts lt') ! i" using that len by simp
    also have "\<dots> = take (length keys) (map fst (lt_accounts lt)) ! i" using that by (simp only: executed(1) nth_take)
    finally show ?thesis by (simp only: loaded(1))
  qed
  have balances: "loaded_balance env message (i, keys ! i) = db_balance env (keys ! i)" if "i < length keys" "stored_index message i" for i
    using that not_sysvar by (simp add: loaded_balance_def db_balance_def stored_index_def)
  have "(\<Sum>i \<in> stored_indices message. loaded_balance env message (i, keys ! i)) \<le> (\<Sum>i < length keys. loaded_balance env message (i, keys ! i))"
    by (intro sum_mono2) (auto simp: keys stored_indices_def)
  then have "(\<Sum>i \<in> stored_indices message. loaded_balance env message (i, keys ! i)) \<le> u64_max"
    using fit by (simp add: sum_list_nth nth_enumerate_eq)
  then have "sum_list (map (\<lambda>i. acc_lamports (snd (lt_accounts lt' ! i))) (filter (stored_index message) [0..<length keys])) + lt_rent lt' \<le> u64_max"
    unfolding indices executed(2,3) using loaded(2) by linarith
  note stored = collect_transaction_stored [OF keys commit len this]
  have fsts: "map fst stored = map (\<lambda>i. keys ! i) (filter (stored_index message) [0..<length keys])"
    unfolding stored(1) by (intro map_cong) (auto simp: key)
  have "sum_list (map (db_balance env \<circ> fst) stored) = (\<Sum>i \<in> stored_indices message. loaded_balance env message (i, keys ! i))"
    unfolding map_map [symmetric] fsts unfolding map_map comp_def indices
    by (intro sum.cong) (auto simp: balances stored_indices_def keys [symmetric])
  then show ?thesis using fsts stored(2) loaded(2) unfolding indices executed(2,3) by linarith
qed

text \<open>
  C15. Of a transaction that failed, nothing its execution left behind reaches the database. Without a durable nonce no
  account is stored; with one, the accounts to store do not depend on the contents of the accounts after the failed
  execution, only on the nonce and the fee payer as they were when the transaction was loaded.
\<close>

theorem failed_transaction_rolls_back:
  assumes "nonce_full_from_partial partial message accounts rent_debits = Ok nonce"
    and "map fst (lt_accounts lt) = map fst accounts" "map fst (lt_accounts lt') = map fst accounts"
  shows "(collect_transaction env message (Err e) None lt :: (_, 'e) result) = Ok (lt, []) \<and>
    bindE (collect_transaction env message (Err e) (Some nonce) lt) (\<lambda>(_, stored). Ok stored) =
      (bindE (collect_transaction env message (Err e) (Some nonce) lt') (\<lambda>(_, stored). Ok stored) :: (_, 'e) result)"
proof
  show "(collect_transaction env message (Err e) None lt :: (_, 'e) result) = Ok (lt, [])"
    by (simp add: collect_transaction_def maybe_nonce_of_def is_ok_def)
  let ?keys = "map fst accounts" and ?m = "length (ak_iter (sm_account_keys message))"
  let ?P = "\<lambda>i. i < length accounts \<and> sm_is_non_loader_key message i"
  obtain payer where find: "find ?P [0..<?m] = Some payer"
    using assms(1) by (auto simp: nonce_full_from_partial_def split: option.splits)
  then have payer: "payer < length accounts" "sm_is_non_loader_key message payer" "\<forall>k < payer. \<not> sm_is_non_loader_key message k"
    by (auto simp: find_Some_iff)
  have nonce: "?keys ! payer \<noteq> nf_address nonce \<Longrightarrow> nf_fee_payer_account nonce \<noteq> None"
    using assms(1) find payer(1)
    by (auto simp: nonce_full_from_partial_def Let_def split: prod.splits if_splits)
  let ?start = "\<lambda>lt. \<lparr>cs_fee_payer_index = None, cs_loaded = lt, cs_stored = []\<rparr>"
  have len: "length (lt_accounts lt) = length accounts" "length (lt_accounts lt') = length accounts"
    using assms(2,3) by (metis length_map)+
  have "rel_sum (=) (same_commit ?keys payer (min ?m (length accounts)))
    (foldE (collect_account env message (Err e) (Some (nonce, True))) [0..<min ?m (length accounts)] (?start lt) :: (_, 'e) result)
    (foldE (collect_account env message (Err e) (Some (nonce, True))) [0..<min ?m (length accounts)] (?start lt'))"
  proof (rule foldE_upt_rel)
    show "same_commit ?keys payer 0 (?start lt) (?start lt')" using assms(2,3) by (simp add: same_commit_def)
    fix i u v assume "i < min ?m (length accounts)" "same_commit ?keys payer i u v"
    then show "rel_sum (=) (same_commit ?keys payer (Suc i)) (collect_account env message (Err e) (Some (nonce, True)) i u :: (_, 'e) result)
        (collect_account env message (Err e) (Some (nonce, True)) i v)"
      using payer(2,3) nonce by (intro collect_account_failed) simp_all
  qed
  then show "bindE (collect_transaction env message (Err e) (Some nonce) lt) (\<lambda>(_, stored). Ok stored) =
      (bindE (collect_transaction env message (Err e) (Some nonce) lt') (\<lambda>(_, stored). Ok stored) :: (_, 'e) result)"
    by (auto simp: collect_transaction_def maybe_nonce_of_def is_ok_def len bindE_def same_commit_def elim!: rel_sum.cases)
qed

end
