(* ===== verification/Runtime_Examples.thy ===== *)
theory Runtime_Examples
  imports Transaction_Commit
begin

text \<open>
  The properties of the runtime on a transaction whose program moves lamports from an account it owns to another one and
  then invokes a second program.
\<close>

section \<open>The transaction\<close>

definition transfer_ix :: compiled_instruction where
  "transfer_ix = \<lparr>ci_program_id_index = 4, ci_accounts = [1, 2, 3], ci_data = []\<rparr>"

definition transfer_message :: legacy_message where
  "transfer_message =
     \<lparr>lm_header = \<lparr>num_required_signatures = 1, num_readonly_signed_accounts = 0, num_readonly_unsigned_accounts = 2\<rparr>,
      lm_account_keys = [7, 8, 9, 101, 100], lm_recent_blockhash = 0,
      lm_instructions = [transfer_ix]\<rparr>"

definition transfer_tx :: sanitized_transaction where
  "transfer_tx = \<lparr>stx_message = SM_Legacy transfer_message, stx_message_hash = 0, stx_is_simple_vote_tx = False,
     stx_signatures = [replicate 64 1], stx_mev_keys = None\<rparr>"

definition owned_account :: "u64 \<Rightarrow> account_shared_data" where
  "owned_account n = (example_account n)\<lparr>acc_owner := 100\<rparr>"

definition transfer_env :: load_env where
  "transfer_env = example_env\<lparr>le_db := \<lambda>_. [7 \<mapsto> example_account 100, 8 \<mapsto> owned_account 30, 100 \<mapsto> example_program,
     101 \<mapsto> example_program]\<rparr>"

definition transfer_cpi :: instruction where
  "transfer_cpi = \<lparr>ix_program_id = 101, ix_accounts = [\<lparr>am_pubkey = 8, am_is_signer = False, am_is_writable = True\<rparr>,
     \<lparr>am_pubkey = 9, am_is_signer = False, am_is_writable = True\<rparr>], ix_data = []\<rparr>"

definition transfer_program :: program where
  "transfer_program =
     Modify 0 (owned_account 20) (Modify 1 (default_account\<lparr>acc_lamports := 10\<rparr>)
       (Invoke transfer_cpi [] (Return (Ok ()))))"

definition transfer_runtime :: runtime_env where
  "transfer_runtime = \<lparr>re_builtin_programs = [(100, \<lambda>_ _. transfer_program), (101, \<lambda>_ _. Return (Ok ()))],
     re_native_loader = (\<lambda>_ _. Return (Ok ())), re_loader_state = (\<lambda>_. None), re_is_precompile = (\<lambda>_ _. False)\<rparr>"

definition transfer_budget :: compute_budget where
  "transfer_budget = \<lparr>cb_compute_unit_limit = 200000, cb_max_invoke_depth = 4, cb_heap_size = None\<rparr>"

definition transfer_bank :: bank_execution where
  "transfer_bank = \<lparr>bx_env = transfer_runtime, bx_rent_collector = example_rent_collector, bx_feature_set = [],
     bx_sysvar_cache = default_sysvar_cache, bx_last_blockhash = 0, bx_lamports_per_signature = 0, bx_accounts_data_size = 0\<rparr>"

definition transfer_accounts :: "u64 \<Rightarrow> u64 \<Rightarrow> transaction_account list" where
  "transfer_accounts n n' = [(7, example_account 95), (8, owned_account n), (9, default_account\<lparr>acc_lamports := n'\<rparr>),
     (101, example_program), (100, default_account), (100, example_program)]"

definition transfer_context :: transaction_context where
  "transfer_context = transaction_context_new (transfer_accounts 30 0) 5 1"

lemmas transfer_defs = transfer_message_def transfer_accounts_def transfer_budget_def transfer_runtime_def transfer_program_def
  owned_account_def example_account_def example_program_def default_account_def

text \<open>The keys of the example are small and not reserved.\<close>

lemma large_key:
  assumes "numeral b < (2 ^ 256 :: nat)" "1000 < (numeral b :: nat)"
  shows "(1000 :: pubkey) < numeral b"
proof -
  have len: "LENGTH(256) = 256" by simp
  have "unat (of_nat (numeral b) :: pubkey) = numeral b" unfolding unat_of_nat len by (rule mod_less [OF assms(1)])
  moreover have "unat (of_nat 1000 :: pubkey) = 1000" unfolding unat_of_nat len by (rule mod_less) simp
  ultimately show ?thesis using assms(2) by (simp only: word_less_nat_alt of_nat_numeral)
qed

lemma reserved_large: "\<forall>id \<in> set (ALL_IDS @ BUILTIN_PROGRAMS_KEYS). id = 0 \<or> 1000 < id"
  unfolding ALL_IDS_def BUILTIN_PROGRAMS_KEYS_def
      clock_id_def epoch_schedule_id_def fees_id_def recent_blockhashes_id_def rent_id_def rewards_id_def slot_hashes_id_def
      slot_history_id_def stake_history_id_def instructions_id_def system_program_id_def bpf_loader_id_def
      bpf_loader_deprecated_id_def bpf_loader_upgradeable_id_def append.simps list.set ball_simps
  by (intro conjI TrueI; (rule disjI1, rule refl)?; (rule disjI2, rule large_key; simp)?)
lemma small_key_free:
  assumes "k \<noteq> 0" "k \<le> 1000"
  shows "\<not> is_sysvar_id k" "k \<notin> set BUILTIN_PROGRAMS_KEYS" "k \<noteq> instructions_id" "instructions_id \<noteq> k"
proof -
  have free: "k \<notin> set (ALL_IDS @ BUILTIN_PROGRAMS_KEYS)"
    using reserved_large assms by (metis linorder_not_less)
  then show "\<not> is_sysvar_id k" "k \<notin> set BUILTIN_PROGRAMS_KEYS" by (simp_all add: is_sysvar_id_def)
  show "k \<noteq> instructions_id" "instructions_id \<noteq> k" using free by (auto simp: ALL_IDS_def)
qed

lemma ids_differ: "native_loader_id \<noteq> 0" "0 \<noteq> native_loader_id" "bpf_loader_upgradeable_id \<noteq> native_loader_id"
  "native_loader_id \<noteq> bpf_loader_upgradeable_id" "neon_evm_program_id \<noteq> 100" "100 \<noteq> native_loader_id" "101 \<noteq> native_loader_id"
  "neon_evm_program_id \<noteq> 101"
  by (simp_all add: native_loader_id_def bpf_loader_upgradeable_id_def neon_evm_program_id_def)

lemma keys_free:
  assumes "k \<in> {7, 8, 9, 100, 101}"
  shows "\<not> is_sysvar_id k" "k \<notin> set BUILTIN_PROGRAMS_KEYS" "k \<noteq> instructions_id" "instructions_id \<noteq> k"
proof -
  have "k \<noteq> 0" "k \<le> 1000" using assms by auto
  then show "\<not> is_sysvar_id k" "k \<notin> set BUILTIN_PROGRAMS_KEYS" "k \<noteq> instructions_id" "instructions_id \<noteq> k"
    using small_key_free by blast+
qed

lemma transfer_writable: "sm_is_writable (SM_Legacy transfer_message) i \<longleftrightarrow> i < 3"
proof (cases "i < 3")
  case True
  then consider "i = 0" | "i = 1" | "i = 2" by linarith
  then show ?thesis
    by cases (simp_all add: lm_is_writable_def transfer_message_def Let_def wrapping_sub64_def slice_get_def instruction_calls_def keys_free transfer_ix_def)
next
  case False
  then show ?thesis by (auto simp: lm_is_writable_def transfer_message_def Let_def wrapping_sub64_def)
qed

lemmas runtime_eval = process_instruction_with_def execute_instruction_def ic_push_def start_top_level_def visit_each_account_once_def
  collect_pre_account_def keyed_account_for_def tc_push_def get_key_of_account_at_index_def get_account_at_index_def
  tc_get_number_of_accounts_def get_instruction_context_stack_height_def get_current_instruction_context_def get_instruction_context_at_def
  process_executable_chain_def try_borrow_account_def get_index_in_transaction_def ixc_get_number_of_accounts_def
  bump_compute_budget_def stack_frame_new_def set_return_data_def modify_account_def try_borrow_instruction_account_def
  transaction_context_new_def slice_get_def Let_def is_active_def pre_account_new_def checked_sub64_def saturating_sub64_def
  ic_verify_def current_program_key_def get_program_key_def verify_step_def checked_sum_def adjust_accounts_data_def
  ic_pop_def tc_pop_def check_number_of_instruction_accounts_def guardE_def

definition transfer_ias :: "instruction_account list" where
  "transfer_ias =
     [\<lparr>ia_index_in_transaction = 1, ia_index_in_caller = 2, ia_is_signer = False, ia_is_writable = True\<rparr>,
      \<lparr>ia_index_in_transaction = 2, ia_index_in_caller = 3, ia_is_signer = False, ia_is_writable = True\<rparr>,
      \<lparr>ia_index_in_transaction = 3, ia_index_in_caller = 4, ia_is_signer = False, ia_is_writable = False\<rparr>]"

lemma transfer_ias: "message_instruction_accounts (SM_Legacy transfer_message) [5] transfer_ix = transfer_ias"
  by (simp add: message_instruction_accounts_def transfer_ix_def transfer_ias_def sm_is_signer_def saturating_add64_def transfer_writable
      del: sm_is_writable.simps) (simp add: transfer_message_def)

text \<open>The state of the runtime while the program runs, with the lamports of the two accounts now and before.\<close>

definition transfer_instruction :: instruction_context where
  "transfer_instruction = \<lparr>ixc_nesting_level = 0, ixc_program_accounts = [5], ixc_instruction_accounts = transfer_ias, ixc_instruction_data = []\<rparr>"

definition transfer_pre :: "u64 \<Rightarrow> u64 \<Rightarrow> pre_account list" where
  "transfer_pre n n' = [pre_account_new 8 (owned_account n), pre_account_new 9 (default_account\<lparr>acc_lamports := n'\<rparr>), pre_account_new 101 example_program]"

definition transfer_running :: "rent \<Rightarrow> u64 \<Rightarrow> u64 \<Rightarrow> runtime_context" where
  "transfer_running r n n' =
     (runtime_context_new \<lparr>tc_account_keys = [7, 8, 9, 101, 100, 100], tc_accounts = map snd (transfer_accounts n n'),
        tc_instruction_context_capacity = 5, tc_instruction_stack = [0], tc_number_of_instructions_at_transaction_level = 1,
        tc_instruction_trace = [[transfer_instruction]], tc_return_data = (100, [])\<rparr> r default_sysvar_cache transfer_budget [] 0 0 0)
     \<lparr>rx_pre_accounts := transfer_pre 30 0,
      rx_invoke_stack := [stack_frame_new 1 (map (\<lambda>(k, i, w). \<lparr>is_signer = False, is_writable = w, unsigned_key = k, ka_account = i\<rparr>)
        [(100, 5, False), (8, 1, True), (9, 2, True), (101, 3, False)])]\<rparr>"

definition transfer_start :: "rent \<Rightarrow> runtime_context" where
  "transfer_start r = runtime_context_new transfer_context r default_sysvar_cache transfer_budget [] 0 0 0"

lemma transfer_push:
  "ic_push transfer_ias [5] [] (transfer_start r) =
     Ok ((transfer_running r 30 0)\<lparr>rx_transaction_context := set_return_data 0 [] (rx_transaction_context (transfer_running r 30 0))\<rparr>)"
  by (simp add: ids_differ transfer_start_def transfer_context_def transfer_ias_def transfer_instruction_def transfer_running_def transfer_pre_def runtime_context_new_def runtime_eval transfer_budget_def transfer_accounts_def)

lemma transfer_current: "get_current_instruction_context (rx_transaction_context (transfer_running r n n')) = Ok transfer_instruction"
  by (simp add: transfer_running_def runtime_context_new_def runtime_eval)

lemma transfer_modify:
  "modify_account 0 (owned_account k) (transfer_running r n n') = Ok (transfer_running r k n')"
  "modify_account 1 (default_account\<lparr>acc_lamports := k\<rparr>) (transfer_running r n n') = Ok (transfer_running r n k)"
  by (simp_all add: transfer_running_def runtime_context_new_def transfer_instruction_def transfer_ias_def transfer_accounts_def runtime_eval)

lemma transfer_run:
  "run_program transfer_program invoke (transfer_running r 30 0) = bindE (invoke transfer_cpi [] (transfer_running r 20 10)) Ok"
  using transfer_modify(2) [of 10 r 20 0] by (simp add: transfer_program_def transfer_modify(1) bindE_def split: sum.split)

lemma transfer_running_simps:
  "tc_account_keys (rx_transaction_context (transfer_running r n n')) = [7, 8, 9, 101, 100, 100]"
  "tc_accounts (rx_transaction_context (transfer_running r n n')) = map snd (transfer_accounts n n')"
  "rx_pre_accounts (transfer_running r n n') = transfer_pre 30 0" "rx_rent (transfer_running r n n') = r"
  "rx_feature_set (transfer_running r n n') = []" "rx_accounts_data_meter (transfer_running r n n') = accounts_data_meter_new 0"
  by (simp_all add: transfer_running_def runtime_context_new_def)

lemmas invoke_eval = ixc_find_index_of_account_def ixc_find_index_of_program_account_def check_privileges_def program_indices_of_def
  borrowed_is_writable_def borrowed_is_signer_def ixc_is_writable_def ixc_is_signer_def deduplicate_step_def tc_find_index_of_account_def prepare_instruction_def

definition cpi_ias :: "instruction_account list" where
  "cpi_ias = [\<lparr>ia_index_in_transaction = 1, ia_index_in_caller = 1, ia_is_signer = False, ia_is_writable = True\<rparr>,
     \<lparr>ia_index_in_transaction = 2, ia_index_in_caller = 2, ia_is_signer = False, ia_is_writable = True\<rparr>]"

lemma transfer_prepare: "prepare_instruction transfer_runtime transfer_cpi [] (transfer_running r 20 10) = Ok (cpi_ias, [3])"
  unfolding prepare_instruction_def Let_def transfer_current
  by (simp add: invoke_eval transfer_cpi_def cpi_ias_def transfer_instruction_def transfer_ias_def transfer_running_simps transfer_accounts_def
      example_program_def ids_differ runtime_eval)

lemma meter_same: "adjust_accounts_data [] d d (accounts_data_meter_new n) = Ok (accounts_data_meter_new n)"
  by (simp add: adjust_accounts_data_def is_active_def adjust_delta_unchecked_def accounts_data_meter_new_def saturate_i64_def Let_def)

lemma verify_unchanged: "pre_account_verify p w r a False a = Ok ()"
  by (simp add: pre_account_verify_def Let_def)

lemma verify_owned: "pre_account_verify 100 True r (owned_account m) False (owned_account n) = Ok ()"
  by (simp add: pre_account_verify_def Let_def owned_account_def example_account_def)

lemma verify_credit: "n \<le> m \<Longrightarrow> pre_account_verify p True r (default_account\<lparr>acc_lamports := m\<rparr>) False (default_account\<lparr>acc_lamports := n\<rparr>) = Ok ()"
  by (simp add: pre_account_verify_def Let_def default_account_def)

lemma owned_simps: "acc_lamports (owned_account n) = n" "acc_data (owned_account n) = []" "\<not> acc_executable (owned_account n)"
  "acc_data default_account = []" "\<not> acc_executable default_account"
  by (simp_all add: owned_account_def example_account_def default_account_def)

lemmas verify_eval = verify_and_update_def verify_and_update_step_def verify_pre_account_def
  meter_same verify_unchanged verify_owned verify_credit owned_simps checked_add128_def

lemmas context_eval = try_borrow_account_def get_index_in_transaction_def ixc_get_number_of_accounts_def visit_each_account_once_def
  get_program_key_def get_key_of_account_at_index_def get_account_at_index_def tc_get_number_of_accounts_def slice_get_def
  is_active_def saturating_sub64_def checked_sum_def

definition cpi_pre :: "pre_account list" where
  "cpi_pre = [pre_account_update (owned_account 20) (pre_account_new 8 (owned_account 30)),
     pre_account_update (default_account\<lparr>acc_lamports := 10\<rparr>) (pre_account_new 9 default_account), pre_account_new 101 example_program]"

lemma cpi_pre: "cpi_pre = [\<lparr>pa_key = 8, pa_account = owned_account 20, pa_changed = True\<rparr>,
    \<lparr>pa_key = 9, pa_account = default_account\<lparr>acc_lamports := 10\<rparr>, pa_changed = True\<rparr>,
    \<lparr>pa_key = 101, pa_account = example_program, pa_changed = False\<rparr>]"
  by (simp add: cpi_pre_def pre_account_new_def pre_account_update_def owned_account_def example_account_def default_account_def)

lemma transfer_checked:
  "verify_and_update cpi_ias True (transfer_running r 20 10) = Ok ((transfer_running r 20 10)\<lparr>rx_pre_accounts := cpi_pre\<rparr>)"
  unfolding verify_and_update_def Let_def transfer_current
  by (simp add: cpi_ias_def transfer_running_simps transfer_accounts_def transfer_pre_def pre_account_new_def pre_account_update_def cpi_pre_def
      transfer_instruction_def transfer_ias_def borrowed_is_writable_def ixc_is_writable_def context_eval verify_eval)

definition cpi_instruction :: instruction_context where
  "cpi_instruction = \<lparr>ixc_nesting_level = 1, ixc_program_accounts = [3], ixc_instruction_accounts = cpi_ias, ixc_instruction_data = []\<rparr>"

definition cpi_running :: "rent \<Rightarrow> runtime_context" where
  "cpi_running r = (let rx = transfer_running r 20 10 in
     rx\<lparr>rx_pre_accounts := cpi_pre,
        rx_invoke_stack := rx_invoke_stack rx @ [stack_frame_new 1 (map (\<lambda>(k, i, w). \<lparr>is_signer = False, is_writable = w, unsigned_key = k, ka_account = i\<rparr>)
          [(101, 3, False), (8, 1, True), (9, 2, True)])],
        rx_transaction_context := (rx_transaction_context rx)\<lparr>tc_instruction_stack := [0, 1],
          tc_instruction_trace := [[transfer_instruction, cpi_instruction]], tc_return_data := (101, [])\<rparr>\<rparr>)"

lemma cpi_push:
  "bindE (ic_push cpi_ias [3] [] ((transfer_running r 20 10)\<lparr>rx_pre_accounts := cpi_pre,
      rx_transaction_context := record_instruction cpi_instruction (rx_transaction_context (transfer_running r 20 10))\<rparr>)) (\<lambda>rx.
    Ok (rx\<lparr>rx_transaction_context := set_return_data 101 [] (rx_transaction_context rx)\<rparr>)) = Ok (cpi_running r)"
  by (simp add: ic_push_def record_instruction_def transfer_running_def runtime_context_new_def check_reentrancy_def runs_program_def
      get_instruction_context_stack_height_def get_current_instruction_context_def get_instruction_context_at_def checked_sub64_def transfer_budget_def
      try_borrow_program_account_def context_eval Let_def transfer_instruction_def cpi_instruction_def cpi_running_def transfer_accounts_def
      keyed_account_for_def cpi_ias_def tc_push_def set_return_data_def)

definition cpi_done :: "rent \<Rightarrow> runtime_context" where
  "cpi_done r = (let rx = transfer_running r 20 10 in
     rx\<lparr>rx_pre_accounts := cpi_pre,
        rx_transaction_context := (rx_transaction_context rx)\<lparr>tc_instruction_trace := [[transfer_instruction, cpi_instruction]],
          tc_return_data := (101, [])\<rparr>\<rparr>)"

lemmas cpi_running_simps = cpi_running_def transfer_running_def runtime_context_new_def Let_def

lemma cpi_current: "get_current_instruction_context (rx_transaction_context (cpi_running r)) = Ok cpi_instruction"
  by (simp add: cpi_running_simps get_current_instruction_context_def get_instruction_context_at_def get_instruction_context_stack_height_def
      checked_sub64_def slice_get_def)

lemma cpi_execute: "process_executable_chain transfer_runtime invoke [] (cpi_running r) = Ok (cpi_running r)"
  unfolding process_executable_chain_def Let_def cpi_current
  by (simp add: cpi_instruction_def context_eval cpi_running_simps transfer_accounts_def example_program_def transfer_runtime_def)

lemma cpi_verify: "verify_and_update cpi_ias False (cpi_running r) = Ok (cpi_running r)"
  unfolding verify_and_update_def Let_def cpi_current
  by (simp add: cpi_ias_def cpi_instruction_def cpi_running_simps transfer_accounts_def cpi_pre pre_account_update_def context_eval verify_eval)

lemma cpi_process: "process_instruction (Suc n) transfer_runtime [] cpi_ias [3] (transfer_running r 20 10) = Ok (cpi_done r, 0)"
proof -
  have height: "length (tc_instruction_stack (rx_transaction_context (transfer_running r 20 10))) = 1"
    by (simp add: transfer_running_def runtime_context_new_def)
  have pop: "ic_pop (cpi_running r) = cpi_done r" by (simp add: ic_pop_def tc_pop_def cpi_running_simps cpi_done_def)
  obtain rx where rx: "ic_push cpi_ias [3] [] ((transfer_running r 20 10)\<lparr>rx_pre_accounts := cpi_pre,
      rx_transaction_context := record_instruction cpi_instruction (rx_transaction_context (transfer_running r 20 10))\<rparr>) = Ok rx"
    "rx\<lparr>rx_transaction_context := set_return_data 101 [] (rx_transaction_context rx)\<rparr> = cpi_running r"
    using cpi_push [of r] by (auto simp: bindE_Ok_iff)
  have "rx_compute_meter rx = rx_compute_meter (cpi_running r)" using arg_cong [OF rx(2), of rx_compute_meter] by simp
  moreover have "\<lparr>ixc_nesting_level = Suc 0, ixc_program_accounts = [3], ixc_instruction_accounts = cpi_ias, ixc_instruction_data = []\<rparr> = cpi_instruction"
    by (simp add: cpi_instruction_def)
  ultimately show ?thesis
    using rx
    by (simp add: process_instruction_with_def execute_instruction_def get_instruction_context_stack_height_def height Let_def
        transfer_checked transfer_running_simps is_active_def get_key_of_account_at_index_def slice_get_def
        cpi_execute cpi_verify pop saturating_sub64_def)
qed

lemma cpi_invoke: "native_invoke transfer_runtime (process_instruction (Suc n) transfer_runtime) transfer_cpi [] (transfer_running r 20 10) = Ok (cpi_done r)"
proof -
  have "ix_data transfer_cpi = []" by (simp add: transfer_cpi_def)
  then show ?thesis
    by (simp add: native_invoke_def transfer_prepare cpi_process del: process_instruction.simps)
      (simp add: cpi_ias_def cpi_done_def data_len_at_def get_account_at_index_def slice_get_def transfer_running_simps transfer_accounts_def
        Let_def is_active_def guardE_def)
qed

text \<open>The top-level instruction.\<close>

definition transfer_done :: "rent \<Rightarrow> runtime_context" where
  "transfer_done r = ic_pop (cpi_done r)"

lemma transfer_verify: "ic_verify transfer_ias [5] (cpi_done r) = Ok (cpi_done r)"
  by (simp add: ic_verify_def current_program_key_def get_current_instruction_context_def get_instruction_context_at_def
      get_instruction_context_stack_height_def checked_sub64_def cpi_done_def transfer_running_def runtime_context_new_def Let_def
      transfer_instruction_def transfer_ias_def cpi_pre transfer_accounts_def verify_step_def context_eval verify_eval
      example_program_def)

lemma transfer_chain:
  "process_executable_chain transfer_runtime invoke [] (transfer_running r 30 0) = run_program transfer_program invoke (transfer_running r 30 0)"
  unfolding process_executable_chain_def Let_def transfer_current
  by (simp add: transfer_instruction_def context_eval transfer_running_simps transfer_accounts_def example_program_def transfer_runtime_def)

lemma transfer_process:
  "process_instruction (Suc (Suc n)) transfer_runtime [] transfer_ias [5]
     (transfer_start r) = Ok (transfer_done r, 0)"
proof -
  let ?rx = "transfer_start r"
  have start: "tc_instruction_stack (rx_transaction_context ?rx) = []" "get_key_of_account_at_index (rx_transaction_context ?rx) 5 = Ok 100"
    by (simp_all add: transfer_start_def transfer_context_def runtime_context_new_def transaction_context_new_def transfer_accounts_def get_key_of_account_at_index_def slice_get_def)
  have running: "(transfer_running r 30 0)\<lparr>rx_transaction_context := set_return_data 100 [] (set_return_data 0 []
      (rx_transaction_context (transfer_running r 30 0)))\<rparr> = transfer_running r 30 0"
    by (simp add: transfer_running_def runtime_context_new_def set_return_data_def)
  have meter: "rx_compute_meter (cpi_done r) = rx_compute_meter (transfer_running r 30 0)"
    by (simp add: cpi_done_def transfer_running_def runtime_context_new_def Let_def)
  show ?thesis
    unfolding process_instruction.simps(2) [of "Suc n"]
    by (simp add: process_instruction_with_def execute_instruction_def get_instruction_context_stack_height_def start Let_def transfer_push running
        transfer_chain transfer_run cpi_invoke transfer_verify transfer_done_def saturating_sub64_def meter del: process_instruction.simps)
qed

lemma transfer_process_6: "process_instruction 6 transfer_runtime [] transfer_ias [5] (transfer_start r) = Ok (transfer_done r, 0)"
  using transfer_process [of 4] by (simp only: Suc_numeral semiring_norm)

text \<open>The message, and the transaction from the database.\<close>

abbreviation example_rent :: rent where
  "example_rent \<equiv> rc_rent example_rent_collector"

lemma transfer_message_keys: "ak_iter (sm_account_keys (SM_Legacy transfer_message)) = [7, 8, 9, 101, 100]"
  by (simp add: transfer_message_def ak_iter_def key_segment_iter_def)

lemma transfer_message_ran:
  "process_message transfer_runtime (SM_Legacy transfer_message) [[5]] transfer_context r [] transfer_budget default_sysvar_cache 0 0 0 0 =
     Ok (rx_transaction_context (transfer_done r), 0, 0)"
proof -
  have ix: "sm_instructions (SM_Legacy transfer_message) = [transfer_ix]" by (simp add: transfer_message_def)
  have no_sysvar: "tc_find_index_of_account transfer_context instructions_id = None"
    using keys_free(3) by (simp add: tc_find_index_of_account_def transfer_context_def transaction_context_new_def transfer_accounts_def)
  have start: "rx_transaction_context (transfer_start r) = transfer_context" "rx_feature_set (transfer_start r) = []"
    "(transfer_start r)\<lparr>rx_transaction_context := transfer_context\<rparr> = transfer_start r"
    by (simp_all add: transfer_start_def runtime_context_new_def)
  have delta: "adm_delta (rx_accounts_data_meter (transfer_done r)) = 0"
    by (simp add: transfer_done_def ic_pop_def tc_pop_def cpi_done_def transfer_running_def runtime_context_new_def accounts_data_meter_new_def Let_def)
  have cap: "tc_instruction_context_capacity transfer_context = 5"
    by (simp add: transfer_context_def transaction_context_new_def)
  have data: "ci_data transfer_ix = []" by (simp add: transfer_ix_def)
  have key: "ak_get (sm_account_keys (SM_Legacy transfer_message)) (ci_program_id_index transfer_ix) = Some 100"
    unfolding ak_get_iter transfer_message_keys by (simp add: slice_get_def transfer_ix_def)
  have "process_message_step transfer_runtime (SM_Legacy transfer_message) (0, transfer_ix, [5]) (transfer_start r, 0) = Ok (transfer_done r, 0)"
    unfolding process_message_step_def
    by (simp add: key data start fixup_instructions_sysvar_def no_sysvar transfer_ias cap transfer_process_6 is_active_def Let_def
        saturating_add64_def map_err_def del: process_instruction.simps sm_account_keys.simps)
  then show ?thesis
    by (simp add: process_message_def ix transfer_start_def [symmetric] delta del: sm_instructions.simps)
qed

lemma transfer_message_fits: "message_fits (SM_Legacy transfer_message) transfer_context"
  unfolding message_fits_def transfer_message_keys Let_def
  by (simp add: transfer_context_def transaction_context_new_def transfer_accounts_def transfer_message_def transfer_ix_def)

lemma transfer_loads: "le_load transfer_env 7 = Some (example_account 100)" "le_load transfer_env 8 = Some (owned_account 30)"
  "le_load transfer_env 9 = None" "le_load transfer_env 100 = Some example_program" "le_load transfer_env 101 = Some example_program"
  by (simp_all add: le_load_def transfer_env_def)

lemma transfer_env_simps: "le_overrides transfer_env = None" "le_rent_collector transfer_env = example_rent_collector" "le_fee transfer_env = 5"
  "le_filler_suffix transfer_env = None" "le_features transfer_env = []" "le_nonce_codec transfer_env = example_nonce_codec"
  by (simp_all add: transfer_env_def example_env_def)

lemma transfer_load_account:
  "load_account transfer_env (SM_Legacy transfer_message) 0 7 = (example_account 100, 0, True)"
  "load_account transfer_env (SM_Legacy transfer_message) 1 8 = (owned_account 30, 0, True)"
  "load_account transfer_env (SM_Legacy transfer_message) 2 9 = (default_account, 0, False)"
  "load_account transfer_env (SM_Legacy transfer_message) 3 101 = (example_program, 0, False)"
proof -
  have "collect_from_existing_account example_rent_collector k (example_account n) None False = (example_account n, default_collected_info)"
    "collect_from_existing_account example_rent_collector k (owned_account n) None False = (owned_account n, default_collected_info)" for k n
    by (simp_all add: rent_collection example_account_def owned_account_def example_rent_collector_def default_collected_info_def)
  then show "load_account transfer_env (SM_Legacy transfer_message) 0 7 = (example_account 100, 0, True)"
    "load_account transfer_env (SM_Legacy transfer_message) 1 8 = (owned_account 30, 0, True)"
    "load_account transfer_env (SM_Legacy transfer_message) 2 9 = (default_account, 0, False)"
    "load_account transfer_env (SM_Legacy transfer_message) 3 101 = (example_program, 0, False)"
    by (simp_all add: load_account_def transfer_env_simps transfer_loads transfer_writable default_collected_info_def is_active_def
        del: sm_is_writable.simps)
qed

lemma transfer_non_loader: "sm_is_non_loader_key (SM_Legacy transfer_message) i \<longleftrightarrow> i \<noteq> 4"
  by (auto simp: sm_is_non_loader_key_def sm_is_invoked_def instruction_calls_def instruction_passes_def transfer_message_def transfer_ix_def)

lemma transfer_fee: "validate_fee_payer (le_nonce_codec transfer_env) (le_rent_collector transfer_env) (le_features transfer_env)
    (le_fee transfer_env) 7 0 (example_account 100) = Ok (example_account 95)"
  by (simp add: transfer_env_simps validate_fee_payer_def example_account_def get_system_account_kind_def system_program_id_def
      is_active_def checked_sub_lamports_def checked_sub64_def set_lamports_def wrap64_def)

lemma transfer_executable:
  "check_executable transfer_env (SM_Legacy transfer_message) i (example_account n) = Ok []"
  "check_executable transfer_env (SM_Legacy transfer_message) i (owned_account n) = Ok []"
  "check_executable transfer_env (SM_Legacy transfer_message) i default_account = Ok []"
  "check_executable transfer_env (SM_Legacy transfer_message) 3 example_program = Ok []"
proof -
  have "bpf_loader_upgradeable_id \<in> set BUILTIN_PROGRAMS_KEYS" by (simp add: BUILTIN_PROGRAMS_KEYS_def)
  then have "bpf_loader_upgradeable_id \<noteq> 100" using keys_free(2) by blast
  moreover have "bpf_loader_upgradeable_id \<noteq> 0" by (simp add: bpf_loader_upgradeable_id_def)
  ultimately show "check_executable transfer_env (SM_Legacy transfer_message) i (example_account n) = Ok []"
    "check_executable transfer_env (SM_Legacy transfer_message) i (owned_account n) = Ok []"
    "check_executable transfer_env (SM_Legacy transfer_message) i default_account = Ok []"
    "check_executable transfer_env (SM_Legacy transfer_message) 3 example_program = Ok []"
    by (simp_all add: check_executable_def transfer_writable ids_differ example_account_def owned_account_def default_account_def
        example_program_def del: sm_is_writable.simps)
qed

definition transfer_loaded :: loaded_transaction where
  "transfer_loaded = \<lparr>lt_accounts = transfer_accounts 30 0, lt_mev_accounts = None, lt_program_indices = [[5]], lt_rent = 0,
     lt_rent_debits = Map.empty\<rparr>"

lemma transfer_load: "load_transaction transfer_env transfer_tx = Ok transfer_loaded"
proof -
  let ?m = "SM_Legacy transfer_message"
  have plain: "default_account\<lparr>acc_lamports := 0\<rparr> = default_account" by (simp add: default_account_def)
  have enum: "List.enumerate 0 [7, 8, 9, 101, 100 :: pubkey] = [(0, 7), (1, 8), (2, 9), (3, 101), (4, 100)]" by (simp add: eval_nat_numeral)
  have loop: "foldE (load_key transfer_env ?m) (List.enumerate 0 [7, 8, 9, 101, 100]) load_start = Ok (load_start\<lparr>ls_validated_fee_payer := True,
      ls_mev_writable := [7 \<mapsto> 0, 8 \<mapsto> 1], ls_accounts := butlast (transfer_accounts 30 0)\<rparr>)"
    unfolding enum
    by (simp add: load_key_def transfer_non_loader transfer_load_account transfer_fee transfer_executable keys_free Let_def
        insert_rent_debit_def wrap64_def plain transfer_accounts_def del: One_nat_def)
  have programs: "load_programs (le_loader_state transfer_env) (le_load transfer_env) (sm_instructions ?m) (butlast (transfer_accounts 30 0)) =
      Ok (transfer_accounts 30 0, [[5]])"
    by (simp add: load_programs_def transfer_message_def transfer_ix_def load_executable_accounts_def slice_get_def transfer_accounts_def
        load_program_chain.simps transfer_loads example_program_def ids_differ guardE_def Let_def plain numeral_eq_Suc)
  have message: "stx_message transfer_tx = ?m" "stx_mev_keys transfer_tx = None" "stx_signatures transfer_tx \<noteq> []"
    by (simp_all add: transfer_tx_def)
  show ?thesis
    using loop programs
    by (simp add: load_transaction_def message transfer_message_keys transfer_loaded_def Let_def del: sm_account_keys.simps sm_instructions.simps)
qed

text \<open>Without the feature that requires rent exemption, no change of rent states is refused.\<close>

lemma foldE_checks: "\<forall>x \<in> set xs. f x () = Ok () \<Longrightarrow> foldE f xs () = Ok ()"
  by (induction xs) auto

lemma state_changes_unchecked:
  assumes "\<not> is_active fs require_rent_exempt_accounts" "length pre \<le> length (tc_account_keys tc)" "length pre \<le> length (tc_accounts tc)"
  shows "verify_transaction_account_state_changes fs pre post tc = Ok ()"
  unfolding verify_transaction_account_state_changes_def
proof (rule foldE_checks, clarify)
  fix i a b assume "(i, a, b) \<in> set (List.enumerate 0 (zip pre post))"
  then have "i < length pre" by (auto simp: in_set_enumerate_eq)
  then show "(case check_rent_state a b tc i (is_active fs do_support_realloc) (is_active fs include_account_index_in_rent_error)
        (is_active fs prevent_crediting_accounts_that_end_rent_paying) of
      Inl (Raise e) \<Rightarrow> if is_active fs require_rent_exempt_accounts then Err e else Ok () | Inl Panic \<Rightarrow> panic | Ok x \<Rightarrow> Ok x) = Ok ()"
    using assms
    by (auto simp: check_rent_state_def check_rent_state_with_account_def get_key_of_account_at_index_def get_account_at_index_def
        slice_get_def expectE_def split: option.splits)
qed

lemma transfer_executed:
  "\<exists>details. execute_loaded_transaction transfer_bank transfer_tx transfer_loaded transfer_budget False =
     Ok (transfer_loaded\<lparr>lt_accounts := transfer_accounts 20 10\<rparr>, details)"
proof -
  have ctx: "transaction_context_new (lt_accounts transfer_loaded) (saturating_add64 (cb_max_invoke_depth transfer_budget) 1)
      (length (sm_instructions (stx_message transfer_tx))) = transfer_context"
    by (simp add: transfer_loaded_def transfer_budget_def transfer_tx_def transfer_message_def transfer_context_def saturating_add64_def)
  have after: "tc_account_keys (rx_transaction_context (transfer_done r)) = [7, 8, 9, 101, 100, 100]"
    "tc_accounts (rx_transaction_context (transfer_done r)) = map snd (transfer_accounts 20 10)" for r
    by (simp_all add: transfer_done_def ic_pop_def tc_pop_def cpi_done_def transfer_running_def runtime_context_new_def Let_def)
  have "verify_transaction_account_state_changes [] (get_transaction_account_state_info r transfer_context (SM_Legacy transfer_message)) post
      (rx_transaction_context (transfer_done r)) = Ok ()" for r post
    unfolding get_transaction_account_state_info_def transfer_message_keys
    by (rule state_changes_unchecked) (simp_all add: is_active_def after transfer_accounts_def)
  moreover have "stx_message transfer_tx = SM_Legacy transfer_message" "lt_program_indices transfer_loaded = [[5]]"
    by (simp_all add: transfer_tx_def transfer_loaded_def)
  ultimately show ?thesis
    unfolding execute_loaded_transaction_def Let_def ctx
    by (simp add: transfer_bank_def transfer_message_ran tc_deconstruct_def after) (simp add: transfer_accounts_def)
qed

section \<open>Witnesses\<close>

theorem invocation_depth_bounded_witness:
  "process_instruction 9 transfer_runtime [] transfer_ias [5] (transfer_start example_rent) =
     process_instruction 6 transfer_runtime [] transfer_ias [5] (transfer_start example_rent) \<and>
   process_instruction 9 transfer_runtime [] transfer_ias [5] (transfer_start example_rent) = Ok (transfer_done example_rent, 0)"
proof -
  have cap: "tc_instruction_context_capacity (rx_transaction_context (transfer_start example_rent)) = 5"
    by (simp add: transfer_start_def transfer_context_def runtime_context_new_def transaction_context_new_def)
  from invocation_depth_bounded [where n = 9 and rx = "transfer_start example_rent", unfolded cap] transfer_process_6 [of example_rent] show ?thesis by simp
qed

theorem message_isolation_witness:
  "\<exists>tc'. process_message transfer_runtime (SM_Legacy transfer_message) [[5]] transfer_context example_rent [] transfer_budget default_sysvar_cache 0 0 0 0 =
       Ok (tc', 0, 0) \<and> message_fits (SM_Legacy transfer_message) transfer_context \<and>
     total_lamports (tc_accounts tc') = total_lamports (tc_accounts transfer_context) \<and>
     tc_accounts tc' ! 0 = example_account 95 \<and> tc_accounts tc' ! 1 = owned_account 20"
proof -
  let ?tc' = "rx_transaction_context (transfer_done example_rent)"
  have "tc_account_keys transfer_context ! 0 \<noteq> instructions_id"
    using keys_free(3) by (simp add: transfer_context_def transaction_context_new_def transfer_accounts_def)
  moreover have "\<not> message_writable (SM_Legacy transfer_message) 0" by (simp add: message_writable_def transfer_message_def transfer_ix_def)
  moreover have "tc_accounts transfer_context ! 0 = example_account 95"
    by (simp add: transfer_context_def transaction_context_new_def transfer_accounts_def)
  ultimately have "tc_accounts ?tc' ! 0 = example_account 95 \<and> total_lamports (tc_accounts ?tc') = total_lamports (tc_accounts transfer_context)"
    using message_isolation [OF transfer_message_ran [of example_rent] transfer_message_fits] by (auto simp: Let_def dest: spec [of _ 0])
  moreover have "tc_accounts ?tc' ! 1 = owned_account 20"
    by (simp add: transfer_done_def ic_pop_def tc_pop_def cpi_done_def transfer_running_def runtime_context_new_def transfer_accounts_def Let_def)
  ultimately show ?thesis using transfer_message_ran [of example_rent] transfer_message_fits by blast
qed

definition transfer_commit :: commit_env where
  "transfer_commit = \<lparr>ce_nonce_codec = example_nonce_codec, ce_rent_collector = example_rent_collector, ce_durable_nonce = (0, False),
     ce_lamports_per_signature = 0, ce_leave_nonce_on_success = True, ce_preserve_rent_epoch = True\<rparr>"

lemma transfer_committed:
  "\<exists>lt. collect_transaction transfer_commit (SM_Legacy transfer_message) (Ok ()) None (transfer_loaded\<lparr>lt_accounts := transfer_accounts 20 10\<rparr>) =
     (Ok (lt, [(7, example_account 95), (8, owned_account 20), (9, default_account\<lparr>acc_lamports := 10\<rparr>)]) :: (_, unit) result) \<and> lt_rent lt = 0"
proof -
  have "[0..<5] = [0, 1, 2, 3, 4]" by (simp add: upt_rec)
  then show ?thesis
    unfolding collect_transaction_def transfer_message_keys
    by (simp add: maybe_nonce_of_def is_ok_def transfer_accounts_def collect_account_def transfer_non_loader transfer_writable
        prepare_if_nonce_account_def put_account_def collect_created_rent_def transfer_commit_def transfer_loaded_def Let_def
        del: sm_is_writable.simps)
qed

theorem committed_transaction_conserves_witness:
  "\<exists>lt' details lt''. load_transaction transfer_env transfer_tx = Ok transfer_loaded \<and>
     execute_loaded_transaction transfer_bank transfer_tx transfer_loaded transfer_budget False = Ok (lt', details) \<and>
     collect_transaction transfer_commit (stx_message transfer_tx) (Ok ()) None lt' =
       (Ok (lt'', [(7, example_account 95), (8, owned_account 20), (9, default_account\<lparr>acc_lamports := 10\<rparr>)]) :: (_, unit) result) \<and>
     95 + 20 + 10 + 5 + lt_rent lt'' = db_balance transfer_env 7 + db_balance transfer_env 8 + db_balance transfer_env 9"
proof -
  let ?m = "SM_Legacy transfer_message"
  have m: "stx_message transfer_tx = ?m" by (simp add: transfer_tx_def)
  obtain details where run: "execute_loaded_transaction transfer_bank transfer_tx transfer_loaded transfer_budget False =
      Ok (transfer_loaded\<lparr>lt_accounts := transfer_accounts 20 10\<rparr>, details)" using transfer_executed by blast
  obtain lt where commit: "collect_transaction transfer_commit (stx_message transfer_tx) (Ok ()) None (transfer_loaded\<lparr>lt_accounts := transfer_accounts 20 10\<rparr>) =
      (Ok (lt, [(7, example_account 95), (8, owned_account 20), (9, default_account\<lparr>acc_lamports := 10\<rparr>)]) :: (_, unit) result)"
    using transfer_committed unfolding m by blast
  have "distinct [7, 8, 9, 101, 100 :: pubkey]" "[7, 8, 9, 101, 100 :: pubkey] \<noteq> []" by simp_all
  moreover have "\<forall>ix \<in> set (sm_instructions ?m). \<forall>i \<in> set (ci_accounts ix). i < length [7, 8, 9, 101, 100 :: pubkey]"
    by (simp add: transfer_message_def transfer_ix_def)
  moreover have "stored_index ?m 0" by (simp add: stored_index_def transfer_non_loader transfer_writable del: sm_is_writable.simps)
  moreover have "sum_list (map (loaded_balance transfer_env ?m) (List.enumerate 0 [7, 8, 9, 101, 100])) \<le> u64_max"
    by (simp add: loaded_balance_def transfer_non_loader keys_free transfer_loads example_account_def owned_account_def example_program_def)
  ultimately show ?thesis
    using committed_transaction_conserves [OF transfer_load transfer_env_simps(1) run commit, unfolded m transfer_message_keys]
      transfer_load run commit
    by (auto simp: m transfer_env_simps owned_account_def example_account_def)
qed

theorem failed_transaction_rolls_back_witness:
  "\<exists>nonce. nonce_full_from_partial \<lparr>np_address = 8, np_account = owned_account 30\<rparr> (SM_Legacy transfer_message) (transfer_accounts 30 0) Map.empty = Ok nonce \<and>
     bindE (collect_transaction transfer_commit (SM_Legacy transfer_message) (Err AccountNotFound) (Some nonce) (transfer_loaded\<lparr>lt_accounts := transfer_accounts 20 10\<rparr>))
       (\<lambda>(_, stored). Ok stored) =
     (bindE (collect_transaction transfer_commit (SM_Legacy transfer_message) (Err AccountNotFound) (Some nonce) transfer_loaded)
       (\<lambda>(_, stored). Ok stored) :: (_, unit) result)"
proof -
  obtain nonce where "nonce_full_from_partial \<lparr>np_address = 8, np_account = owned_account 30\<rparr> (SM_Legacy transfer_message) (transfer_accounts 30 0) Map.empty = Ok nonce"
    unfolding nonce_full_from_partial_def transfer_message_keys
    by (simp add: upt_rec transfer_accounts_def transfer_non_loader Let_def)
  moreover have "map fst (lt_accounts (transfer_loaded\<lparr>lt_accounts := transfer_accounts 20 10\<rparr>)) = map fst (transfer_accounts 30 0)"
    "map fst (lt_accounts transfer_loaded) = map fst (transfer_accounts 30 0)"
    by (simp_all add: transfer_loaded_def transfer_accounts_def)
  ultimately show ?thesis using failed_transaction_rolls_back by blast
qed

end
