(* ===== verification/Spec2Isabelle.thy ===== *)
theory Spec2Isabelle
  imports Vote_Properties System_Properties Lock_Properties Mev_Examples Stake_Examples Runtime_Examples
begin

text \<open>
  Verification of the Solana validator of this repository and of its arbitrage (MEV) extension.

  A transaction is a message of compiled instructions over account keys. The bank locks its accounts, loads them
  (rent, fee, program chains), executes the instructions one after the other in the runtime, where programs may
  invoke one another, checks what the programs did, and stores the accounts. Native programs (system, vote, stake,
  config) work on accounts whose state is encoded in their data. After each transaction of a batch the MEV search
  reads the pools the transaction touched and may build an arbitrage transaction. Stakes and votes feed a cache of
  the stakes per vote account.

  \<^bold>\<open>Foundations.\<close>

  \<^item> \<open>Prelude\<close>: 64 and 128 bit integers as \<open>nat\<close> and \<open>int\<close> with the wrap-around, check or saturation of each operation
    written out, the \<open>result\<close> type with \<open>Ok\<close>, \<open>Err\<close> and \<open>panic\<close>, its sequencing \<open>bindE\<close> (the \<^verbatim>\<open>?\<close> operator), loops as
    \<open>foldE\<close> and \<open>mapE\<close>, and the simp set \<open>result_simps\<close> that the component proofs share.
  \<^item> \<open>Float64\<close>: binary64 arithmetic with round-to-nearest-even, for rent and the warm-up of stakes.
  \<^item> \<open>Collections\<close>: slice binary search and \<^verbatim>\<open>BTreeMap\<close>, with the interface \<open>ordered_map\<close> and its interpretation.
  \<^item> \<open>Errors\<close>: \<^verbatim>\<open>InstructionError\<close>, \<^verbatim>\<open>ProgramError\<close> and the error enums of the programs, with their conversions
    (\<^verbatim>\<open>sdk/program/src/instruction.rs\<close>, \<^verbatim>\<open>program_error.rs\<close>, \<^verbatim>\<open>system_instruction.rs\<close>).
  \<^item> \<open>Accounts\<close>, \<open>Sysvars\<close>, \<open>Program_Interface\<close>: account data, keyed accounts over a store of cells (so that two
    keyed accounts may be the same account), rent, clock, sysvar cache, feature set, and the locales \<open>native_program\<close>
    and \<open>account_change\<close>: what every native program promises of the store, interpreted for each of the four programs.

  \<^bold>\<open>Native programs.\<close>

  \<^item> \<open>Fee_Rate\<close>, \<open>Nonce\<close>, \<open>System_Program\<close>, \<open>System_Properties\<close>: the fee governor, durable nonces and every instruction
    of \<^verbatim>\<open>system_instruction_processor.rs\<close>. No debit or change of owner without the required signature, conservation of
    lamports, the exact effect of \<^verbatim>\<open>CreateAccount\<close>, nonces that retire, convergence of the fee rate.
  \<^item> \<open>Authorized_Voters\<close>, \<open>Vote_State\<close>, \<open>Vote_Tower\<close>, \<open>Vote_Checks\<close>, \<open>Vote_Program\<close>, \<open>Vote_Properties\<close>: the vote program.
    The tower stays well formed, a vote leaves it by expiry or as the root, proposed towers roll nothing back, the index
    loops decide their specification and do not panic.
  \<^item> \<open>Config_Program\<close>: the config program and who has to sign an update.
  \<^item> \<open>Stake_State\<close>, \<open>Stake_Activation\<close>, \<open>Stake_Program\<close>, \<open>Stake_Properties\<close>, \<open>Stake_Rewards\<close>: the stake program with
    the warm-up and cool-down of delegations. Stakes stay backed unless a
    deactivation is taken back in its epoch, lamports leave only with the right signatures, bounds and end of the
    cool-down under the history of the bank, credits of merged stakes.
  \<^item> \<open>Stakes_Cache\<close>: \<^verbatim>\<open>runtime/src/stakes.rs\<close> and \<^verbatim>\<open>vote_account.rs\<close>; the cached stakes are consistent as long as
    no account that still delegates is stored without lamports. \<open>Stake_Examples\<close> has the witnesses and a
    counterexample for each of the two exceptions.

  \<^bold>\<open>Transactions.\<close>

  \<^item> \<open>Messages\<close>, \<open>Message_Properties\<close>, \<open>Transactions\<close>, \<open>Instructions_Sysvar\<close>: compilation and decompilation of messages
    of at most 256 keys, when compilation succeeds and passes sanitization, signed transactions, the byte format of
    the instructions sysvar.
  \<^item> \<open>Account_Locks\<close>, \<open>Lock_Properties\<close>: the lock table of \<^verbatim>\<open>runtime/src/accounts.rs\<close>, a refinement of the set of pending
    requests, with its steps as an inductive relation.
  \<^item> \<open>Epoch_Schedule\<close>, \<open>Rent_Collector\<close>, \<open>Program_Address\<close>: epochs, the rent an account owes and pays, and derived
    addresses.
  \<^item> \<open>Account_Loading\<close>, \<open>Loading_Properties\<close>: \<^verbatim>\<open>load_transaction\<close>, what it charges, and the map of accounts it builds for
    the MEV search.

  \<^bold>\<open>Runtime.\<close>

  \<^item> \<open>Pre_Account\<close>: the rules of \<^verbatim>\<open>PreAccount::verify\<close> and the meter of accounts data (\<^verbatim>\<open>program-runtime/src\<close>).
  \<^item> \<open>Transaction_Context\<close>: \<^verbatim>\<open>sdk/src/transaction_context.rs\<close>, the accounts, the stack and the trace of instructions.
  \<^item> \<open>Invoke_Context\<close>: \<^verbatim>\<open>program-runtime/src/invoke_context.rs\<close>. Programs are parameters: trees of the interactions a
    program may have with the runtime (\<open>program\<close>), so that the theorems hold for every program that changes
    accounts through its instruction.
  \<^item> \<open>Runtime_Properties\<close>: invariants of a running instruction by induction over its interactions and its nested
    invocations; the depth of invocations is bounded.
  \<^item> \<open>Runtime_Isolation\<close>: a top-level instruction conserves lamports and takes each account through a chain of changes
    each of which the rules allow to a program that ran.
  \<^item> \<open>Message_Processor\<close>: \<^verbatim>\<open>process_message\<close> and \<^verbatim>\<open>execute_loaded_transaction\<close>; isolation of the accounts of a message.
  \<^item> \<open>Transaction_Commit\<close>: \<^verbatim>\<open>collect_accounts_to_store\<close>; conservation of lamports from the database through loading,
    execution and commit, and the rollback of failed transactions. \<open>Runtime_Examples\<close> has the witnesses.

  \<^bold>\<open>MEV.\<close>

  \<^item> \<open>Mev\<close>, \<open>Mev_Properties\<close>, \<open>Mev_Examples\<close>: \<^verbatim>\<open>runtime/src/mev.rs\<close> and \<^verbatim>\<open>mev/\<close>. An arbitrage transaction for a
    closed path loses no token, the profit that is reported is that of the quotes of the pools, the search finds the
    accounts it looks up, does not panic and reads locked accounts, and a batch ends with the most profitable
    transaction. That a path is closed is not checked by the code.

  \<^bold>\<open>Parameters.\<close> Hash functions, the curve test, codecs of account state (\<^verbatim>\<open>bincode\<close>), decoders of instruction data,
  the lookup in the accounts database, the SPL libraries and the programs the runtime executes. Each theorem names
  what it needs of them, and the witnesses instantiate them.

  \<^bold>\<open>Fuel.\<close> The loops of the code are structural recursion or have a termination proof. Three definitions take a number:
  the chain of loaders, which the code itself limits to five; the steps of binary search, at most the length of the
  slice; and \<open>process_instruction\<close>, whose number is the depth of invocations. The stack has room for
  \<^verbatim>\<open>max_invoke_depth + 1\<close> instructions, and \<open>invocation_depth_bounded\<close> shows that any number above it gives the same result.

  \<^bold>\<open>Not modelled.\<close> The accounts database, the ledger, proof of history, replay, gossip, RPC and the command-line tools:
  files, threads, clocks and the network. The BPF loader and its system calls: they drive a virtual machine outside
  the sources, and the programs it runs are parameters. Of the bank, slots, hashes, snapshots and the
  distribution of rewards. Throughout, logs, metrics, timings, error counters, the cache of executors and the borrow
  flags of \<^verbatim>\<open>RefCell\<close> are left out, and parallel folds are sequential.
\<close>

end
